(* ===== verification/Prelude.thy ===== *)
theory Prelude
  imports Main "HOL-Library.Word"
begin

text \<open>
  Shared vocabulary of the development: result types for code that raises, the byte and string
  types of the C++ server, the values the browser code compares, and generic lemmas on lists,
  sums and strings that the component theories use.

  A C++ \<^verbatim>\<open>std::string\<close> is a sequence of bytes; it is a HOL \<^typ>\<open>string\<close>, whose characters
  are bytes too.  Data that the code handles as \<^verbatim>\<open>uint8_t\<close> buffers is a list of \<open>8 word\<close>.
\<close>

named_theorems string_simps \<open>unfolding rules for the string operations\<close>
named_theorems fold_inv \<open>facts about the accumulator loops of the code\<close>

type_synonym byte = "8 word"
type_synonym bytes = "byte list"

section \<open>Errors as values\<close>

text \<open>The exception a property read on \<^verbatim>\<open>undefined\<close> raises in the browser code.\<close>

datatype js_error = TypeError

definition bind_res :: "'e + 'a \<Rightarrow> ('a \<Rightarrow> 'e + 'b) \<Rightarrow> 'e + 'b" where
  "bind_res r f = (case r of Inl e \<Rightarrow> Inl e | Inr x \<Rightarrow> f x)"

lemma bind_res_Inl [simp]: "bind_res (Inl e) f = Inl e"
  by (simp add: bind_res_def)

lemma bind_res_Inr [simp]: "bind_res (Inr x) f = f x"
  by (simp add: bind_res_def)

lemma bind_res_eq_Inr: "bind_res r f = Inr y \<longleftrightarrow> (\<exists>x. r = Inr x \<and> f x = Inr y)"
  by (cases r) auto

section \<open>Decimal integers\<close>

definition is_digit_char :: "char \<Rightarrow> bool" where
  "is_digit_char c \<longleftrightarrow> of_char c \<ge> (48::nat) \<and> of_char c \<le> (57::nat)"

definition digit_val :: "char \<Rightarrow> nat" where
  "digit_val c = of_char c - (48::nat)"

text \<open>The value of the longest digit prefix, and what follows it.\<close>

fun digits_acc :: "nat \<Rightarrow> string \<Rightarrow> nat \<times> string" where
  "digits_acc n [] = (n, [])"
| "digits_acc n (c # cs) =
     (if is_digit_char c then digits_acc (10 * n + digit_val c) cs else (n, c # cs))"

definition all_digits :: "string \<Rightarrow> bool" where
  "all_digits s \<longleftrightarrow> s \<noteq> [] \<and> list_all is_digit_char s"

text \<open>
  The digits of a natural number, as \<^verbatim>\<open>std::to_string\<close> and JavaScript's number-to-string
  conversion write them.
\<close>

definition digit_char :: "nat \<Rightarrow> char" where
  "digit_char d = char_of (48 + d)"

fun nat_to_string :: "nat \<Rightarrow> string" where
  "nat_to_string n =
     (if n < 10 then [digit_char n] else nat_to_string (n div 10) @ [digit_char (n mod 10)])"

declare nat_to_string.simps [simp del]

definition int_to_string :: "int \<Rightarrow> string" where
  "int_to_string i =
     (if i < 0 then CHR ''-'' # nat_to_string (nat (- i)) else nat_to_string (nat i))"

lemma digit_char_chars:
  "digit_char 0 = CHR ''0''" "digit_char (Suc 0) = CHR ''1''" "digit_char 2 = CHR ''2''"
  "digit_char 3 = CHR ''3''" "digit_char 4 = CHR ''4''" "digit_char 5 = CHR ''5''"
  "digit_char 6 = CHR ''6''" "digit_char 7 = CHR ''7''" "digit_char 8 = CHR ''8''"
  "digit_char 9 = CHR ''9''"
  by code_simp+

lemma digit_char_digit [simp]: "d < 10 \<Longrightarrow> is_digit_char (digit_char d)"
  by (simp add: is_digit_char_def digit_char_def)

lemma digit_val_digit_char [simp]: "d < 10 \<Longrightarrow> digit_val (digit_char d) = d"
  by (simp add: digit_val_def digit_char_def)

lemma digits_acc_append:
  "list_all is_digit_char s \<Longrightarrow>
   digits_acc n (s @ t) = digits_acc (fst (digits_acc n s)) t"
  by (induction s arbitrary: n) auto

lemma digits_acc_all: "list_all is_digit_char s \<Longrightarrow> snd (digits_acc n s) = []"
  by (induction s arbitrary: n) auto

lemma nat_to_string_all_digits: "all_digits (nat_to_string n)"
proof (induction n rule: nat_to_string.induct)
  case (1 n)
  then show ?case
    by (subst nat_to_string.simps) (auto simp: all_digits_def)
qed

lemma nat_to_string_digits [simp]: "list_all is_digit_char (nat_to_string n)"
  using nat_to_string_all_digits [of n] by (simp add: all_digits_def)

lemma nat_to_string_nonempty [simp]: "nat_to_string n \<noteq> []"
  using nat_to_string_all_digits [of n] by (simp add: all_digits_def)

lemma digits_acc_nat_to_string: "digits_acc 0 (nat_to_string n) = (n, [])"
proof (induction n rule: nat_to_string.induct)
  case (1 n)
  show ?case
  proof (cases "n < 10")
    case True
    then show ?thesis by (subst nat_to_string.simps) simp
  next
    case False
    with 1 have ih: "digits_acc 0 (nat_to_string (n div 10)) = (n div 10, [])" by simp
    have "digits_acc 0 (nat_to_string (n div 10) @ [digit_char (n mod 10)]) = (n, [])"
      by (simp add: digits_acc_append ih)
    with False show ?thesis by (subst nat_to_string.simps) simp
  qed
qed

lemma nat_to_string_inj: "nat_to_string m = nat_to_string n \<Longrightarrow> m = n"
  by (metis digits_acc_nat_to_string prod.inject)

text \<open>
  C's \<^verbatim>\<open>atoi\<close>: leading white space, an optional sign and the longest digit prefix.  glibc
  computes it as \<^verbatim>\<open>(int) strtol(s, 0, 10)\<close>: the value saturates at 64 bits and is then
  reduced to 32.
\<close>

definition is_c_space :: "char \<Rightarrow> bool" where
  "is_c_space c \<longleftrightarrow> of_char c \<in> {9, 10, 11, 12, 13, 32 :: nat}"

definition strtol10 :: "string \<Rightarrow> int" where
  "strtol10 s =
     (case dropWhile is_c_space s of
        [] \<Rightarrow> 0
      | c # cs \<Rightarrow>
          if c = CHR ''-'' then - int (fst (digits_acc 0 cs))
          else if c = CHR ''+'' then int (fst (digits_acc 0 cs))
          else int (fst (digits_acc 0 (c # cs))))"

definition clamp64 :: "int \<Rightarrow> int" where
  "clamp64 i = max (- (2 ^ 63)) (min (2 ^ 63 - 1) i)"

definition wrap32 :: "int \<Rightarrow> int" where
  "wrap32 i = (i + 2 ^ 31) mod 2 ^ 32 - 2 ^ 31"

definition atoi :: "string \<Rightarrow> int" where
  "atoi s = wrap32 (clamp64 (strtol10 s))"

lemma digit_not_sign: "is_digit_char c \<Longrightarrow> c \<noteq> CHR ''-'' \<and> c \<noteq> CHR ''+'' \<and> \<not> is_c_space c"
  by (auto simp: is_digit_char_def is_c_space_def)

lemma wrap32_small: "- (2 ^ 31) \<le> i \<Longrightarrow> i < 2 ^ 31 \<Longrightarrow> wrap32 i = i"
  by (simp add: wrap32_def)

lemma clamp64_small: "- (2 ^ 31) \<le> i \<Longrightarrow> i < 2 ^ 31 \<Longrightarrow> clamp64 i = i"
  by (simp add: clamp64_def)

lemma strtol10_int_to_string: "strtol10 (int_to_string i) = i"
proof (cases "i < 0")
  case True
  then show ?thesis
    by (simp add: strtol10_def int_to_string_def is_c_space_def digits_acc_nat_to_string)
next
  case False
  obtain c cs where cs: "nat_to_string (nat i) = c # cs"
    by (cases "nat_to_string (nat i)") auto
  then have "is_digit_char c" using nat_to_string_digits [of "nat i"] by simp
  with False cs show ?thesis
    using digits_acc_nat_to_string [of "nat i"]
    by (simp add: strtol10_def int_to_string_def digit_not_sign)
qed

lemma atoi_int_to_string: "- (2 ^ 31) \<le> i \<Longrightarrow> i < 2 ^ 31 \<Longrightarrow> atoi (int_to_string i) = i"
  by (simp add: atoi_def strtol10_int_to_string clamp64_small wrap32_small)

section \<open>Searching in strings\<close>

text \<open>
  \<^verbatim>\<open>std::string::find(pat, pos)\<close>: the least position from \<open>pos\<close> on where \<open>pat\<close> occurs, or
  \<^const>\<open>None\<close> for \<^verbatim>\<open>npos\<close>.
\<close>

fun starts_with :: "'a list \<Rightarrow> 'a list \<Rightarrow> bool" where
  "starts_with [] s = True"
| "starts_with (p # ps) [] = False"
| "starts_with (p # ps) (c # cs) = (p = c \<and> starts_with ps cs)"

fun find_at :: "nat \<Rightarrow> 'a list \<Rightarrow> 'a list \<Rightarrow> nat option" where
  "find_at i pat [] = (if pat = [] then Some i else None)"
| "find_at i pat (c # cs) = (if starts_with pat (c # cs) then Some i else find_at (Suc i) pat cs)"

definition str_find :: "'a list \<Rightarrow> 'a list \<Rightarrow> nat \<Rightarrow> nat option" where
  "str_find pat s pos = (if pos \<le> length s then find_at pos pat (drop pos s) else None)"

definition contains :: "'a list \<Rightarrow> 'a list \<Rightarrow> bool" where
  "contains s pat \<longleftrightarrow> str_find pat s 0 \<noteq> None"

definition substr :: "'a list \<Rightarrow> nat \<Rightarrow> nat \<Rightarrow> 'a list" where
  "substr s pos n = take n (drop pos s)"

lemma starts_with_iff: "starts_with p s \<longleftrightarrow> (\<exists>t. s = p @ t)"
  by (induction p s rule: starts_with.induct) auto

lemma starts_with_append [simp]: "starts_with p (p @ t)"
  by (auto simp: starts_with_iff)

lemma starts_with_extend: "starts_with p s \<Longrightarrow> starts_with p (s @ t)"
  by (auto simp: starts_with_iff)

lemma find_at_None_iff: "find_at i pat s = None \<longleftrightarrow> (\<nexists>u v. s = u @ pat @ v)"
proof (induction i pat s rule: find_at.induct)
  case (1 i pat)
  then show ?case by auto
next
  case (2 i pat c cs)
  show ?case
  proof (cases "starts_with pat (c # cs)")
    case True
    then have "\<exists>v. c # cs = [] @ pat @ v" by (simp add: starts_with_iff)
    with True show ?thesis by (metis find_at.simps(2) option.distinct(1))
  next
    case False
    then have "(\<exists>u v. c # cs = u @ pat @ v) \<longleftrightarrow> (\<exists>u v. cs = u @ pat @ v)"
      by (auto simp: starts_with_iff Cons_eq_append_conv)
    with False 2 show ?thesis by simp
  qed
qed

lemma contains_iff: "contains s pat \<longleftrightarrow> (\<exists>u v. s = u @ pat @ v)"
  using find_at_None_iff [of 0 pat s] by (auto simp: contains_def str_find_def)

lemma find_at_bounds: "find_at i pat s = Some j \<Longrightarrow> i \<le> j \<and> j + length pat \<le> i + length s"
proof (induction i pat s rule: find_at.induct)
  case (2 i pat c cs)
  then show ?case by (auto simp: starts_with_iff split: if_splits dest: arg_cong [of _ _ length])
qed (auto split: if_splits)

lemma str_find_bounds: "str_find pat s pos = Some j \<Longrightarrow> pos \<le> j \<and> j + length pat \<le> length s"
  using find_at_bounds [of pos pat "drop pos s" j] by (auto simp: str_find_def split: if_splits)

lemma find_at_take: "find_at i pat s = Some j \<Longrightarrow> starts_with pat (drop (j - i) s)"
proof (induction i pat s rule: find_at.induct)
  case (2 i pat c cs)
  show ?case
  proof (cases "starts_with pat (c # cs)")
    case True
    with 2 show ?thesis by simp
  next
    case False
    with 2 have f: "find_at (Suc i) pat cs = Some j" by simp
    then have "Suc i \<le> j" using find_at_bounds by blast
    then have "drop (j - i) (c # cs) = drop (j - Suc i) cs"
      by (metis Suc_diff_le diff_Suc_Suc drop_Suc_Cons)
    with False f 2 show ?thesis by simp
  qed
qed (auto split: if_splits)

lemma str_find_occurs: "str_find pat s pos = Some j \<Longrightarrow> starts_with pat (drop j s)"
proof -
  assume a: "str_find pat s pos = Some j"
  then have "find_at pos pat (drop pos s) = Some j" by (simp add: str_find_def split: if_splits)
  then have "starts_with pat (drop (j - pos) (drop pos s))" by (rule find_at_take)
  with str_find_bounds [OF a] show ?thesis by simp
qed

text \<open>The bytes of a \<^verbatim>\<open>std::string\<close>.\<close>

definition string_bytes :: "string \<Rightarrow> bytes" where
  "string_bytes s = map (\<lambda>c. word_of_nat (of_char c)) s"

text \<open>What comes before and after the first occurrence of a character.\<close>

definition split_at_char :: "char \<Rightarrow> string \<Rightarrow> (string \<times> string) option" where
  "split_at_char c s =
     (if c \<in> set s then Some (takeWhile (\<lambda>x. x \<noteq> c) s, tl (dropWhile (\<lambda>x. x \<noteq> c) s)) else None)"

lemma split_at_char_length:
  "split_at_char c s = Some (a, b) \<Longrightarrow> length b < length s"
proof -
  assume "split_at_char c s = Some (a, b)"
  then have b: "b = tl (dropWhile (\<lambda>x. x \<noteq> c) s)" and "dropWhile (\<lambda>x. x \<noteq> c) s \<noteq> []"
    by (auto simp: split_at_char_def dropWhile_eq_Nil_conv split: if_splits)
  moreover have "length (dropWhile (\<lambda>x. x \<noteq> c) s) \<le> length s" by (rule length_dropWhile_le)
  ultimately show "length b < length s"
    by (cases "dropWhile (\<lambda>x. x \<noteq> c) s") auto
qed

lemma split_at_char_append: "c \<notin> set a \<Longrightarrow> split_at_char c (a @ c # b) = Some (a, b)"
proof -
  assume "c \<notin> set a"
  then have "takeWhile (\<lambda>x. x \<noteq> c) (a @ c # b) = a" "dropWhile (\<lambda>x. x \<noteq> c) (a @ c # b) = c # b"
    by (induction a) auto
  then show ?thesis by (simp add: split_at_char_def)
qed

lemma split_at_char_None: "c \<notin> set a \<Longrightarrow> split_at_char c a = None"
  by (simp add: split_at_char_def)

section \<open>Generic lemmas\<close>

lemma map_of_filter_key:
  "map_of (filter (\<lambda>(k, v). P k) xs) k = (if P k then map_of xs k else None)"
  by (induction xs) auto

lemma foldl_append_map [fold_inv]:
  "foldl (\<lambda>acc x. acc @ [f x]) acc xs = acc @ map f xs"
  by (induction xs arbitrary: acc) auto

lemma map_replace_key:
  "f y = k \<Longrightarrow> map f (map (\<lambda>x. if f x = k then y else x) xs) = map f xs"
  by (induction xs) auto

lemma map_of_map_pair: "map_of (map (\<lambda>x. (f x, g x)) xs) k = map_option g (find (\<lambda>x. f x = k) xs)"
  by (induction xs) auto

end
