(* ===== verification/WebsocketFrame.thy ===== *)
theory WebsocketFrame
  imports Prelude
begin

unbundle bit_operations_syntax

text \<open>
  \<^verbatim>\<open>CWebsocketFrame\<close> of \<^verbatim>\<open>web/Websockets.cpp\<close>: the wire format of RFC 6455 frames.  A
  \<^verbatim>\<open>uint8_t\<close> buffer is a list of bytes; \<^verbatim>\<open>size_t\<close> is 64 bits wide, and the length read from
  the wire is kept at that width.  \<^verbatim>\<open>opcodes\<close> is the C++ enum; the parser casts any nibble to
  it, so an opcode is the nibble itself.
\<close>

type_synonym opcode = byte

definition opcode_continuation :: opcode where "opcode_continuation = 0x00"
definition opcode_text :: opcode where "opcode_text = 0x01"
definition opcode_binary :: opcode where "opcode_binary = 0x02"
definition opcode_close :: opcode where "opcode_close = 0x08"
definition opcode_ping :: opcode where "opcode_ping = 0x09"
definition opcode_pong :: opcode where "opcode_pong = 0x0a"

lemmas opcode_defs = opcode_continuation_def opcode_text_def opcode_binary_def
  opcode_close_def opcode_ping_def opcode_pong_def

definition FIN_MASK :: byte where "FIN_MASK = 0x80"
definition RSVI1_MASK :: byte where "RSVI1_MASK = 0x40"
definition RSVI2_MASK :: byte where "RSVI2_MASK = 0x20"
definition RSVI3_MASK :: byte where "RSVI3_MASK = 0x10"
definition OPCODE_MASK :: byte where "OPCODE_MASK = 0x0f"
definition MASKING_MASK :: byte where "MASKING_MASK = 0x80"
definition PAYLOADLEN_MASK :: byte where "PAYLOADLEN_MASK = 0x7f"

lemmas mask_defs = FIN_MASK_def RSVI1_MASK_def RSVI2_MASK_def RSVI3_MASK_def
  OPCODE_MASK_def MASKING_MASK_def PAYLOADLEN_MASK_def

record frame =
  fin :: bool
  rsvi1 :: bool
  rsvi2 :: bool
  rsvi3 :: bool
  f_opcode :: opcode
  masking :: bool
  payloadlen :: "64 word"
  bytes_consumed :: nat
  payload :: bytes

definition new_frame :: frame where
  "new_frame = \<lparr>fin = False, rsvi1 = False, rsvi2 = False, rsvi3 = False,
     f_opcode = opcode_continuation, masking = False, payloadlen = 0, bytes_consumed = 0,
     payload = []\<rparr>"

text \<open>The masking key is a list of four bytes.\<close>

definition unmask :: "bytes \<Rightarrow> bytes \<Rightarrow> bytes" where
  "unmask key bs = map (\<lambda>i. (bs ! i) XOR (key ! (i mod 4))) [0..<length bs]"

text \<open>The length written most significant byte first, in \<open>n\<close> bytes.\<close>

definition be_bytes :: "nat \<Rightarrow> 64 word \<Rightarrow> bytes" where
  "be_bytes n len = map (\<lambda>i. ucast (drop_bit (8 * (n - 1 - i)) len)) [0..<n]"

text \<open>
  \<^verbatim>\<open>Create\<close>.  The masking key comes from \<^verbatim>\<open>rand()\<close>: it is the argument \<open>key\<close>, \<^const>\<open>None\<close>
  for an unmasked frame.
\<close>

definition Create :: "opcode \<Rightarrow> bytes \<Rightarrow> bytes option \<Rightarrow> bytes" where
  "Create opc pl key =
     (let len = length pl;
          m = (if key = None then 0 else MASKING_MASK);
          b0 = [opc OR FIN_MASK];
          hdr = (if len < 126 then [word_of_nat len OR m]
                 else if len \<le> 0xffff then [126 OR m] @ be_bytes 2 (word_of_nat len)
                 else [127 OR m] @ be_bytes 8 (word_of_nat len))
      in case key of
           None \<Rightarrow> b0 @ hdr @ pl
         | Some k \<Rightarrow> b0 @ hdr @ k @ unmask k pl)"

text \<open>The length accumulated from the next \<open>n\<close> bytes; wraps at 64 bits.\<close>

fun be_sum :: "bytes \<Rightarrow> 64 word" where
  "be_sum [] = 0"
| "be_sum (b # bs) = push_bit (8 * length bs) (ucast b) + be_sum bs"

text \<open>
  \<^verbatim>\<open>Parse\<close>: \<^const>\<open>None\<close> when the buffer is too short (the code returns \<^verbatim>\<open>false\<close> with
  \<^verbatim>\<open>bytes_consumed = 0\<close>), the frame otherwise.
\<close>

definition parse_flags :: "bytes \<Rightarrow> frame" where
  "parse_flags bs =
     new_frame\<lparr>fin := bs ! 0 AND FIN_MASK > 0, rsvi1 := bs ! 0 AND RSVI1_MASK > 0,
       rsvi2 := bs ! 0 AND RSVI2_MASK > 0, rsvi3 := bs ! 0 AND RSVI3_MASK > 0,
       f_opcode := bs ! 0 AND OPCODE_MASK, masking := bs ! 1 AND MASKING_MASK > 0\<rparr>"

definition ext_bytes :: "bytes \<Rightarrow> nat" where
  "ext_bytes bs =
     (let len7 = bs ! 1 AND PAYLOADLEN_MASK in if len7 = 126 then 2 else if len7 = 127 then 8 else 0)"

definition wire_len :: "bytes \<Rightarrow> 64 word" where
  "wire_len bs =
     (if ext_bytes bs = 0 then ucast (bs ! 1 AND PAYLOADLEN_MASK)
      else be_sum (take (ext_bytes bs) (drop 2 bs)))"

definition Parse :: "bytes \<Rightarrow> frame option" where
  "Parse bs =
     (if length bs < 2 then None
      else if length bs - 2 < ext_bytes bs then None
      else
        let f = parse_flags bs;
            len = wire_len bs;
            ptr = 2 + ext_bytes bs;
            klen = (if masking f then 4 else 0)
        in if length bs - ptr < klen then None
           else
             let masking_key = take klen (drop ptr bs); ptr' = ptr + klen
             in if length bs - ptr' < unat len then None
                else
                  let raw = take (unat len) (drop ptr' bs)
                  in Some (f\<lparr>payloadlen := len,
                       payload := (if masking f then unmask masking_key raw else raw),
                       bytes_consumed := ptr' + unat len\<rparr>))"

text \<open>Where the payload starts, and the frame that results when everything has arrived.\<close>

definition payload_start :: "bytes \<Rightarrow> nat" where
  "payload_start bs = 2 + ext_bytes bs + (if masking (parse_flags bs) then 4 else 0)"

definition parsed_frame :: "bytes \<Rightarrow> frame" where
  "parsed_frame bs =
     (let f = parse_flags bs; raw = take (unat (wire_len bs)) (drop (payload_start bs) bs)
      in f\<lparr>payloadlen := wire_len bs,
           payload := (if masking f then unmask (take 4 (drop (2 + ext_bytes bs) bs)) raw else raw),
           bytes_consumed := payload_start bs + unat (wire_len bs)\<rparr>)"

lemma Parse_Some_iff:
  "Parse bs = Some f \<longleftrightarrow>
     payload_start bs + unat (wire_len bs) \<le> length bs \<and> f = parsed_frame bs"
  by (cases "masking (parse_flags bs)")
    (auto simp: Parse_def payload_start_def parsed_frame_def Let_def)

section \<open>Masking\<close>

lemma length_unmask [simp]: "length (unmask k bs) = length bs"
  by (simp add: unmask_def)

lemma unmask_unmask [simp]: "unmask k (unmask k bs) = bs"
  by (auto simp: unmask_def intro!: nth_equalityI) (metis xor.assoc xor.right_neutral xor_self_eq)

section \<open>Lengths\<close>

lemma length_be_bytes [simp]: "length (be_bytes n len) = n"
  by (simp add: be_bytes_def)

lemma be_bytes_Suc: "be_bytes (Suc n) len = ucast (drop_bit (8 * n) len) # be_bytes n len"
proof (rule nth_equalityI)
  fix i assume "i < length (be_bytes (Suc n) len)"
  then show "be_bytes (Suc n) len ! i = (ucast (drop_bit (8 * n) len) # be_bytes n len) ! i"
    by (cases i) (simp_all add: be_bytes_def del: upt_Suc)
qed simp

lemma split_byte:
  fixes len :: "64 word"
  shows "push_bit (8 * n) (ucast (ucast (drop_bit (8 * n) len) :: byte)) + take_bit (8 * n) len =
    take_bit (8 * Suc n) len"
proof -
  have "ucast (ucast (drop_bit (8 * n) len) :: byte) = take_bit 8 (drop_bit (8 * n) len)"
    by (simp add: unsigned_ucast_eq)
  then show ?thesis
    by (simp add: disjunctive_add bit_simps) (auto intro!: bit_eqI simp: bit_simps)
qed

lemma be_sum_be_bytes: "be_sum (be_bytes n len) = take_bit (8 * n) len"
  by (induction n) (simp_all add: be_bytes_Suc split_byte, simp add: be_bytes_def)

section \<open>Header bytes\<close>

lemma and_7f: "x AND 0x7f = take_bit 7 (x :: byte)"
  by (simp add: take_bit_eq_mask mask_eq_exp_minus_1)

lemma len7_unmasked: "n < 128 \<Longrightarrow> (word_of_nat n :: byte) AND 0x7f = word_of_nat n"
proof -
  assume "n < 128"
  then have "take_bit 7 (word_of_nat n :: byte) = word_of_nat n"
    by (intro less_mask_eq [where 'a = 8 and n = 7, folded take_bit_eq_mask])
       (simp add: word_less_nat_alt unat_of_nat)
  then show ?thesis by (simp add: and_7f)
qed

lemma bit_80: "bit (0x80 :: byte) i \<longleftrightarrow> i = 7"
proof -
  have "(0x80::byte) = push_bit 7 1" by simp
  then show ?thesis by (simp only: bit_simps) auto
qed

lemma and_80: "x AND 0x80 = (if bit (x::byte) 7 then 0x80 else 0)"
  by (rule bit_eqI, cases "bit x 7") (auto simp only: bit_and_iff bit_80 if_True if_False bit_0_eq bot_apply bot_bool_def)

lemma low7_bit: "n < 128 \<Longrightarrow> \<not> bit (word_of_nat n :: byte) 7"
  using len7_unmasked [of n] bit_take_bit_iff [of 7 "word_of_nat n :: byte" 7] by (simp add: and_7f)

lemma len7_masked: "n < 128 \<Longrightarrow> ((word_of_nat n :: byte) OR 0x80) AND 0x7f = word_of_nat n"
  by (simp add: bit.conj_disj_distrib2 len7_unmasked)


lemma high_unmasked: "n < 128 \<Longrightarrow> (word_of_nat n :: byte) AND 0x80 = 0"
  by (simp add: and_80 low7_bit)

lemma high_masked: "((x :: byte) OR 0x80) AND 0x80 = 0x80"
  by (simp add: bit.conj_disj_distrib2)

lemma nib: "x < 16 \<Longrightarrow> (x OR 0x80) AND 0x0f = (x :: byte)"
proof -
  assume "x < 16"
  then have "take_bit 4 x = x"
    by (intro less_mask_eq [where 'a = 8 and n = 4, folded take_bit_eq_mask]) simp
  then have "x AND 0x0f = x" by (simp add: take_bit_eq_mask mask_eq_exp_minus_1)
  then show ?thesis by (simp add: bit.conj_disj_distrib2)
qed

lemma be_sum_16: "n \<le> 0xffff \<Longrightarrow> unat (be_sum (be_bytes 2 (word_of_nat n))) = n"
  by (simp add: be_sum_be_bytes unsigned_take_bit_eq unsigned_of_nat take_bit_nat_eq_self)

lemma be_sum_64: "n < 2 ^ 64 \<Longrightarrow> unat (be_sum (be_bytes 8 (word_of_nat n))) = n"
  by (simp add: be_sum_be_bytes unsigned_take_bit_eq unsigned_of_nat take_bit_nat_eq_self)

text \<open>The bytes between the first one and the masking key.\<close>

definition len_bytes :: "nat \<Rightarrow> byte \<Rightarrow> bytes" where
  "len_bytes len m =
     (if len < 126 then [word_of_nat len OR m]
      else if len \<le> 0xffff then [126 OR m] @ be_bytes 2 (word_of_nat len)
      else [127 OR m] @ be_bytes 8 (word_of_nat len))"

definition key_bit :: "bytes option \<Rightarrow> byte" where
  "key_bit key = (if key = None then 0 else MASKING_MASK)"

definition masked :: "bytes option \<Rightarrow> bytes \<Rightarrow> bytes" where
  "masked key pl = (case key of None \<Rightarrow> pl | Some k \<Rightarrow> k @ unmask k pl)"

lemma Create_eq:
  "Create opc pl key = (opc OR FIN_MASK) # len_bytes (length pl) (key_bit key) @ masked key pl"
  by (simp add: Create_def len_bytes_def key_bit_def masked_def Let_def split: option.splits)

definition key_ok :: "bytes option \<Rightarrow> bool" where
  "key_ok key = (case key of None \<Rightarrow> True | Some k \<Rightarrow> length k = 4)"

lemma of_nat_126: "n < 126 \<Longrightarrow> (word_of_nat n :: byte) \<noteq> 126 \<and> (word_of_nat n :: byte) \<noteq> 127"
  by (auto simp: word_unat_eq_iff unat_of_nat)

text \<open>What the length bytes decode to, for the three ranges of lengths.\<close>

lemma len_bytes_decode:
  assumes "n < 2 ^ 63"
  shows "let bs = b # len_bytes n (key_bit key) @ r in
    2 + ext_bytes bs = Suc (length (len_bytes n (key_bit key))) \<and> unat (wire_len bs) = n \<and>
    (bs ! 1 AND MASKING_MASK > 0 \<longleftrightarrow> key \<noteq> None)"
proof -
  consider (small) "n < 126" | (mid) "126 \<le> n" "n \<le> 0xffff" | (big) "0xffff < n" by linarith
  then show ?thesis
  proof cases
    case small
    then have "(word_of_nat n OR key_bit key) AND PAYLOADLEN_MASK = word_of_nat n"
      "(word_of_nat n OR key_bit key) AND MASKING_MASK > 0 \<longleftrightarrow> key \<noteq> None"
      by (auto simp: key_bit_def mask_defs len7_masked len7_unmasked high_masked high_unmasked)
    moreover have "unat (ucast (word_of_nat n :: byte) :: 64 word) = n"
      using small by (simp add: unsigned_ucast_eq unat_of_nat take_bit_nat_eq_self_iff)
    ultimately show ?thesis
      using small of_nat_126 [OF small] by (simp add: len_bytes_def ext_bytes_def wire_len_def)
  next
    case mid
    then have "unat (be_sum (be_bytes 2 (word_of_nat n))) = n" by (intro be_sum_16)
    then show ?thesis
      using mid by (simp add: len_bytes_def ext_bytes_def wire_len_def key_bit_def mask_defs)
  next
    case big
    then have "unat (be_sum (be_bytes 8 (word_of_nat n))) = n"
      using assms by (intro be_sum_64) simp
    then show ?thesis
      using big by (simp add: len_bytes_def ext_bytes_def wire_len_def key_bit_def mask_defs)
  qed
qed

lemma Parse_Create:
  assumes "opc < 16" and "length pl < 2 ^ 63" and "key_ok key"
  shows "\<exists>f. Parse (Create opc pl key @ rest) = Some f \<and> payload f = pl \<and> f_opcode f = opc \<and>
    fin f \<and> masking f = (key \<noteq> None) \<and> bytes_consumed f = length (Create opc pl key)"
proof -
  define hdr where "hdr = len_bytes (length pl) (key_bit key)"
  define bs where "bs = (opc OR FIN_MASK) # hdr @ masked key pl @ rest"
  have ext: "2 + ext_bytes bs = Suc (length hdr)" and len: "unat (wire_len bs) = length pl"
    and m: "bs ! 1 AND MASKING_MASK > 0 \<longleftrightarrow> key \<noteq> None"
    using len_bytes_decode [OF assms(2), of "opc OR FIN_MASK" key "masked key pl @ rest"]
    by (simp_all add: bs_def hdr_def Let_def)
  have flags: "fin (parse_flags bs)" "f_opcode (parse_flags bs) = opc"
    "masking (parse_flags bs) \<longleftrightarrow> key \<noteq> None"
    using nib [OF assms(1)] m by (auto simp: parse_flags_def bs_def mask_defs high_masked)
  have drop: "drop (2 + ext_bytes bs) bs = masked key pl @ rest"
    unfolding ext by (simp add: bs_def)
  have "Parse bs = Some (parsed_frame bs)"
    using assms(3) flags(3) len ext
    by (auto simp: Parse_Some_iff payload_start_def bs_def masked_def key_ok_def split: option.splits)
  moreover have "payload (parsed_frame bs) = pl"
  proof (cases key)
    case None
    then show ?thesis
      using flags(3) len drop
      by (simp add: parsed_frame_def Let_def payload_start_def masked_def del: add_2_eq_Suc)
  next
    case (Some k)
    have "payload_start bs = 4 + (2 + ext_bytes bs)"
      using Some flags(3) by (simp add: payload_start_def)
    then have "drop (payload_start bs) bs = drop 4 (drop (2 + ext_bytes bs) bs)"
      by (simp only: drop_drop)
    then show ?thesis
      using Some assms(3) flags(3) len drop
      by (simp add: parsed_frame_def Let_def masked_def key_ok_def del: add_2_eq_Suc drop_drop)
  qed
  moreover have "bytes_consumed (parsed_frame bs) = length (Create opc pl key)"
    using assms(3) flags(3) len ext
    by (auto simp: parsed_frame_def Let_def payload_start_def Create_eq masked_def key_ok_def
        hdr_def [symmetric] split: option.splits)
  ultimately show ?thesis
    using flags by (auto simp: bs_def Create_eq hdr_def parsed_frame_def Let_def)
qed

section \<open>Parsing\<close>

lemma Parse_bounds:
  "Parse bs = Some f \<Longrightarrow> 2 \<le> bytes_consumed f \<and> bytes_consumed f \<le> length bs \<and>
     length (payload f) = unat (payloadlen f) \<and> unat (payloadlen f) \<le> bytes_consumed f"
  by (auto simp: Parse_Some_iff parsed_frame_def payload_start_def Let_def)

lemma parse_parts_append:
  assumes "2 \<le> length bs"
  shows "parse_flags (bs @ r) = parse_flags bs" and "ext_bytes (bs @ r) = ext_bytes bs"
proof -
  have "0 < length bs" and "1 < length bs"
    using assms by linarith+
  then have "(bs @ r) ! 0 = bs ! 0" and "(bs @ r) ! 1 = bs ! 1"
    by (simp_all only: nth_append if_True)
  then show "parse_flags (bs @ r) = parse_flags bs" and "ext_bytes (bs @ r) = ext_bytes bs"
    by (simp_all only: parse_flags_def ext_bytes_def)
qed

lemma Parse_extend:
  assumes "Parse bs = Some f"
  shows "Parse (bs @ r) = Some f"
proof -
  have le: "payload_start bs + unat (wire_len bs) \<le> length bs" and f: "f = parsed_frame bs"
    using assms by (auto simp: Parse_Some_iff)
  have two: "2 \<le> length bs" and ext: "2 + ext_bytes bs \<le> length bs"
    using le by (auto simp: payload_start_def)
  note parts = parse_parts_append [OF two, of r]
  have start: "payload_start (bs @ r) = payload_start bs"
    by (simp add: payload_start_def parts)
  have len: "wire_len (bs @ r) = wire_len bs"
    using two ext by (simp add: wire_len_def parts nth_append)
  have "parsed_frame (bs @ r) = parsed_frame bs"
    using le by (cases "masking (parse_flags bs)")
      (simp_all add: parsed_frame_def Let_def parts start len payload_start_def)
  then show ?thesis using le by (simp add: Parse_Some_iff start len f)
qed

section \<open>Properties\<close>

text \<open>C5: Every frame the server can write is read back: for every opcode, every payload
  shorter than 2 to the 63 in each of the three length formats, masked or not, and whatever
  follows it in the buffer, parsing yields the payload and the opcode and consumes exactly the
  bytes of the frame.\<close>

theorem frame_roundtrip:
  assumes "opc < 16" and "length pl < 2 ^ 63" and "key_ok key"
  shows "\<exists>f. Parse (Create opc pl key @ rest) = Some f \<and> payload f = pl \<and> f_opcode f = opc \<and>
    fin f \<and> masking f = (key \<noteq> None) \<and> bytes_consumed f = length (Create opc pl key)"
  by (rule Parse_Create [OF assms])

theorem frame_roundtrip_witness:
  "\<exists>f. Parse (Create opcode_text (replicate 70000 0x41) (Some [1, 2, 3, 4]) @ [0xff]) = Some f \<and>
     payload f = replicate 70000 0x41"
  using frame_roundtrip [of opcode_text "replicate 70000 0x41" "Some [1, 2, 3, 4]" "[0xff]"]
  by (auto simp: opcode_text_def key_ok_def)

text \<open>A frame that has not arrived completely is never accepted: on every proper
  prefix of a frame the parser asks for more data.\<close>

theorem partial_frame_waits:
  assumes "opc < 16" and "length pl < 2 ^ 63" and "key_ok key"
    and "Create opc pl key = p @ q" and "q \<noteq> []"
  shows "Parse p = None"
proof (rule ccontr)
  assume "Parse p \<noteq> None"
  then obtain f where f: "Parse p = Some f" by auto
  have "Parse (Create opc pl key) = Some f"
    using Parse_extend [OF f, of q] assms(4) by simp
  moreover obtain g where "Parse (Create opc pl key @ []) = Some g"
    and "bytes_consumed g = length (Create opc pl key)"
    using Parse_Create [OF assms(1-3), of "[]"] by blast
  ultimately have "bytes_consumed f = length p + length q" using assms(4) by simp
  with Parse_bounds [OF f] assms(5) show False by auto
qed

theorem partial_frame_waits_witness: "Parse [0x81, 0x02, 0x41] = None"
proof -
  have "Create opcode_text [0x41, 0x42] None = [0x81, 0x02, 0x41] @ [0x42]" by code_simp
  then show ?thesis
    by (intro partial_frame_waits [of opcode_text "[0x41, 0x42]" None _ "[0x42]"])
      (auto simp: opcode_text_def key_ok_def)
qed

text \<open>C25: The parser accepts exactly when everything the header announces has arrived, for
  every input: an accepted frame consumed at least its two header bytes and at most the buffer,
  and its payload has the length the header states, at 64 bits.\<close>

theorem frame_bounds:
  "case Parse bs of
     None \<Rightarrow> length bs < payload_start bs + unat (wire_len bs)
   | Some f \<Rightarrow> 2 \<le> bytes_consumed f \<and> bytes_consumed f \<le> length bs \<and>
       length (payload f) = unat (payloadlen f) \<and>
       payload_start bs + unat (payloadlen f) = bytes_consumed f"
proof (cases "Parse bs")
  case None
  then have "\<not> payload_start bs + unat (wire_len bs) \<le> length bs"
    using Parse_Some_iff [of bs "parsed_frame bs"] by auto
  with None show ?thesis by simp
next
  case (Some f)
  then have "payload_start bs + unat (payloadlen f) = bytes_consumed f"
    by (auto simp: Parse_Some_iff parsed_frame_def Let_def)
  with Parse_bounds [OF Some] Some show ?thesis by simp
qed

end
