(* ===== verification/DataAccess.thy ===== *)
theory DataAccess
  imports Prelude
begin

text \<open>
  \<^verbatim>\<open>web/DataAccess.cpp\<close>: what a user may do with a table.  The rights of the user's role on the
  table, and the table's columns less those the role must not see or set.

  The database is the argument \<open>safe_query\<close>, from the text of a statement to its result rows;
  \<^verbatim>\<open>CSQLHelper::safe_query\<close> formats its arguments with SQLite's \<^verbatim>\<open>%q\<close>, which doubles each
  single quote.
\<close>

definition quote_q :: "string \<Rightarrow> string" where
  "quote_q s = concat (map (\<lambda>c. if c = CHR 0x27 then [CHR 0x27, CHR 0x27] else [c]) s)"

text \<open>A row of \<^verbatim>\<open>pragma table_info\<close>: id, name, declared type and three more columns.\<close>

type_synonym result_rows = "string list list"

definition fieldName :: "string list \<Rightarrow> string" where
  "fieldName row = row ! 1"

definition fieldType :: "string list \<Rightarrow> string" where
  "fieldType row = row ! 2"

record data_access =
  m_User :: string
  m_Verb :: string
  m_Tab :: string
  m_TableKey :: int
  m_Parent :: string
  m_ParentKey :: int
  m_PUTFields :: string
  m_PATCHFields :: string
  m_DontGETFields :: string
  m_ValidFields :: result_rows

definition new_data_access :: "string \<Rightarrow> string \<Rightarrow> string \<Rightarrow> data_access" where
  "new_data_access user tbl verb = \<lparr>m_User = user, m_Verb = verb, m_Tab = tbl, m_TableKey = 0,
     m_Parent = [], m_ParentKey = 0, m_PUTFields = [], m_PATCHFields = [],
     m_DontGETFields = [], m_ValidFields = []\<rparr>"

definition setTable :: "string \<Rightarrow> int \<Rightarrow> data_access \<Rightarrow> data_access" where
  "setTable t k d = d\<lparr>m_Tab := t, m_TableKey := k\<rparr>"

definition setParent :: "string \<Rightarrow> int \<Rightarrow> data_access \<Rightarrow> data_access" where
  "setParent p k d = d\<lparr>m_Parent := p, m_ParentKey := k\<rparr>"

definition access_query :: "data_access \<Rightarrow> string" where
  "access_query d =
     ''SELECT Can'' @ quote_q (m_Verb d) @
     '', PUTFields, PATCHFields, DontGETFields FROM TableAccess T, User U WHERE U.Username = '' @
     [CHR 0x27] @ quote_q (m_User d) @ [CHR 0x27] @
     '' AND U.RoleID = T.RoleID AND T.Name = '' @
     [CHR 0x27] @ quote_q (m_Tab d) @ [CHR 0x27]"

definition table_info_query :: "string \<Rightarrow> string" where
  "table_info_query t = ''pragma table_info('' @ [CHR 0x27] @ t @ [CHR 0x27] @ '');''"

definition UserHasAccess :: "(string \<Rightarrow> result_rows) \<Rightarrow> data_access \<Rightarrow> bool \<times> data_access" where
  "UserHasAccess safe_query d =
     (case safe_query (access_query d) of
        (can # puts # patches # dontget # _) # _ \<Rightarrow>
          if can = ''1'' then
            let d' = d\<lparr>m_PUTFields := puts, m_PATCHFields := patches, m_DontGETFields := dontget,
                       m_ValidFields := safe_query (table_info_query (m_Tab d))\<rparr>
            in (m_ValidFields d' \<noteq> [], d')
          else (False, d)
      | _ \<Rightarrow> (False, d))"

definition hasTimestamp :: "data_access \<Rightarrow> bool" where
  "hasTimestamp d = list_ex (\<lambda>row. fieldName row = ''Timestamp'') (m_ValidFields d)"

text \<open>
  The erase loop: after an erase \<open>i\<close> is set to 0 and then incremented by the \<^verbatim>\<open>for\<close>.
\<close>

definition erase_at :: "nat \<Rightarrow> 'a list \<Rightarrow> 'a list" where
  "erase_at i xs = take i xs @ drop (Suc i) xs"

lemma length_erase_at: "i < length xs \<Longrightarrow> length (erase_at i xs) = length xs - 1"
  by (simp add: erase_at_def)

function strip_loop :: "('f \<Rightarrow> bool) \<Rightarrow> 'f list \<Rightarrow> nat \<Rightarrow> 'f list" where
  "strip_loop bad fs i =
     (if i < length fs then
        (if bad (fs ! i) then strip_loop bad (erase_at i fs) (Suc 0)
         else strip_loop bad fs (Suc i))
      else fs)"
  by pat_completeness auto
termination
  by (relation "measures [\<lambda>(bad, fs, i). length fs, \<lambda>(bad, fs, i). length fs - i]")
    (auto simp: length_erase_at)

declare strip_loop.simps [simp del]

definition forbidden :: "data_access \<Rightarrow> (string list \<Rightarrow> bool) option" where
  "forbidden d =
     (if m_Verb d = ''PUT'' \<and> m_PUTFields d \<noteq> ''*'' then
        Some (\<lambda>row. \<not> contains (m_PUTFields d) (fieldName row))
      else if m_Verb d = ''PATCH'' \<and> m_PATCHFields d \<noteq> ''*'' then
        Some (\<lambda>row. \<not> contains (m_PATCHFields d) (fieldName row))
      else if m_Verb d = ''GET'' \<and> m_DontGETFields d \<noteq> [] then
        Some (\<lambda>row. contains (m_DontGETFields d) (fieldName row))
      else None)"

definition StripForbiddenFields :: "data_access \<Rightarrow> data_access" where
  "StripForbiddenFields d = (case forbidden d of
      None \<Rightarrow> d
    | Some bad \<Rightarrow> d\<lparr>m_ValidFields := strip_loop bad (m_ValidFields d) 0\<rparr>)"

definition GetValidFields :: "data_access \<Rightarrow> string list" where
  "GetValidFields d = map fieldName (m_ValidFields d)"

section \<open>What the erase loop computes\<close>

text \<open>From position 1 on, the loop is a filter; the element at position 0 is not looked at again.\<close>

lemma strip_loop_from:
  "i > 0 \<Longrightarrow> i \<le> length fs \<Longrightarrow> list_all (\<lambda>f. \<not> bad f) (drop 1 (take i fs)) \<Longrightarrow>
   strip_loop bad fs i = take 1 fs @ filter (\<lambda>f. \<not> bad f) (drop 1 fs)"
proof (induction bad fs i rule: strip_loop.induct)
  case (1 bad fs i)
  then obtain f rest where fs: "fs = f # rest" by (cases fs) auto
  have split: "drop 1 (take i fs) = take (i - 1) rest"
    using "1.prems"(1) by (cases i) (auto simp: fs)
  have pre: "filter (\<lambda>f. \<not> bad f) (take (i - 1) rest) = take (i - 1) rest"
    using "1.prems"(3) unfolding split by (simp add: list_all_iff)
  show ?case
  proof (cases "i < length fs")
    case False
    then have "take (i - 1) rest = rest" using "1.prems"(2) fs by simp
    with False pre show ?thesis by (subst strip_loop.simps) (simp add: fs)
  next
    case True
    then have nth: "fs ! i = rest ! (i - 1)" and lt: "i - 1 < length rest"
      using "1.prems"(1) by (auto simp: fs nth_Cons')
    have rest: "rest = take (i - 1) rest @ rest ! (i - 1) # drop i rest"
      using id_take_nth_drop [OF lt] "1.prems"(1) by simp
    show ?thesis
    proof (cases "bad (fs ! i)")
      case bad: True
      have er: "erase_at i fs = f # take (i - 1) rest @ drop i rest"
        using "1.prems"(1) by (cases i) (auto simp: erase_at_def fs)
      have "strip_loop bad (erase_at i fs) (Suc 0) = f # filter (\<lambda>f. \<not> bad f) (take (i - 1) rest @ drop i rest)"
        using "1.IH"(1) [OF True bad] by (simp add: er)
      moreover have "filter (\<lambda>f. \<not> bad f) rest = filter (\<lambda>f. \<not> bad f) (take (i - 1) rest @ drop i rest)"
        using bad by (subst rest) (simp add: nth)
      ultimately show ?thesis using True bad by (subst strip_loop.simps) (simp add: fs)
    next
      case good: False
      have "drop 1 (take (Suc i) fs) = take (i - 1) rest @ [rest ! (i - 1)]"
        using "1.prems"(1) lt by (simp add: fs take_Suc_conv_app_nth [symmetric])
      then have "list_all (\<lambda>f. \<not> bad f) (drop 1 (take (Suc i) fs))"
        using "1.prems"(3) [unfolded split] good by (simp add: nth)
      then have "strip_loop bad fs (Suc i) = take 1 fs @ filter (\<lambda>f. \<not> bad f) (drop 1 fs)"
        using "1.IH"(2) [OF True good] True by simp
      with True good show ?thesis by (subst strip_loop.simps) simp
    qed
  qed
qed

lemma strip_loop_1: "strip_loop bad (f # rest) (Suc 0) = f # filter (\<lambda>f. \<not> bad f) rest"
  by (subst strip_loop_from) auto

lemma strip_loop_empty [simp]: "strip_loop bad [] i = []"
  by (subst strip_loop.simps) simp

text \<open>
  The exact result: when the first column is stripped, the second one is kept whatever it is.
\<close>

lemma strip_loop_exact:
  "strip_loop bad fs 0 =
     (case fs of
        [] \<Rightarrow> []
      | f # rest \<Rightarrow>
          if bad f then (case rest of [] \<Rightarrow> [] | g # gs \<Rightarrow> g # filter (\<lambda>f. \<not> bad f) gs)
          else f # filter (\<lambda>f. \<not> bad f) rest)"
  by (subst strip_loop.simps) (auto simp: erase_at_def strip_loop_1 split: list.splits)


section \<open>Quoting\<close>

text \<open>
  How SQLite reads the rest of a string literal: two quotes are one quote, a single one ends it.
\<close>

fun read_literal :: "string \<Rightarrow> (string \<times> string) option" where
  "read_literal [] = None"
| "read_literal [c] = (if c = CHR 0x27 then Some ([], []) else None)"
| "read_literal (c # d # s) =
     (if c = CHR 0x27 then
        (if d = CHR 0x27 then map_option (\<lambda>(l, r). (c # l, r)) (read_literal s)
         else Some ([], d # s))
      else map_option (\<lambda>(l, r). (c # l, r)) (read_literal (d # s)))"

lemma quote_q_Nil [simp]: "quote_q [] = []"
  by (simp add: quote_q_def)

lemma quote_q_Cons [simp]:
  "quote_q (c # s) = (if c = CHR 0x27 then [c, c] else [c]) @ quote_q s"
  by (simp add: quote_q_def)

lemma read_literal_end: "\<not> starts_with [CHR 0x27] r \<Longrightarrow> read_literal (CHR 0x27 # r) = Some ([], r)"
  by (cases r) auto

lemma read_literal_char:
  "c \<noteq> CHR 0x27 \<Longrightarrow> s \<noteq> [] \<Longrightarrow>
   read_literal (c # s) = map_option (\<lambda>(l, r). (c # l, r)) (read_literal s)"
  by (cases s) auto

lemma read_literal_quote:
  assumes "\<not> starts_with [CHR 0x27] r"
  shows "read_literal (quote_q s @ CHR 0x27 # r) = Some (s, r)"
  using read_literal_end [OF assms]
  by (induction s) (simp_all add: read_literal_char)

section \<open>Properties\<close>

text \<open>No user, verb or table name can break out of the access query: whatever the
  strings hold, SQLite reads the text after the first quote as exactly the user's name and goes
  on, after the closing quote, with the fixed text of the query and the quoted table.\<close>

theorem access_query_quotes_user:
  "\<exists>pre. access_query d = pre @ [CHR 0x27] @ quote_q (m_User d) @ [CHR 0x27] @
      '' AND U.RoleID = T.RoleID AND T.Name = '' @ [CHR 0x27] @ quote_q (m_Tab d) @ [CHR 0x27] \<and>
    read_literal (quote_q (m_User d) @ [CHR 0x27] @
      '' AND U.RoleID = T.RoleID AND T.Name = '' @ [CHR 0x27] @ quote_q (m_Tab d) @ [CHR 0x27]) =
    Some (m_User d, '' AND U.RoleID = T.RoleID AND T.Name = '' @ [CHR 0x27] @ quote_q (m_Tab d) @ [CHR 0x27]) \<and>
    read_literal (quote_q (m_Tab d) @ [CHR 0x27]) = Some (m_Tab d, [])"
  unfolding access_query_def append_assoc
  using read_literal_quote [of "'' AND U.RoleID = T.RoleID AND T.Name = '' @ [CHR 0x27] @ quote_q (m_Tab d) @ [CHR 0x27]" "m_User d"]
    read_literal_quote [of "[]" "m_Tab d"]
  by (intro exI [of _ "''SELECT Can'' @ quote_q (m_Verb d) @
      '', PUTFields, PATCHFields, DontGETFields FROM TableAccess T, User U WHERE U.Username = ''"]) simp

text \<open>Access is granted only when the role's row says 1 for the verb and the table has
  columns; then the field lists are the row's and the valid fields are all columns of the table.
  A refusal with no such row changes nothing.\<close>

theorem access_granted_iff:
  "fst (UserHasAccess sq d) \<longleftrightarrow>
     (\<exists>puts patches dontget more rows. sq (access_query d) = (''1'' # puts # patches # dontget # more) # rows \<and>
        sq (table_info_query (m_Tab d)) \<noteq> [] \<and>
        snd (UserHasAccess sq d) = d\<lparr>m_PUTFields := puts, m_PATCHFields := patches,
          m_DontGETFields := dontget, m_ValidFields := sq (table_info_query (m_Tab d))\<rparr>)"
  by (auto simp: UserHasAccess_def Let_def split: list.splits)

text \<open>When the first column may be used, stripping keeps exactly the permitted columns
  of the table, in their order.\<close>

theorem strip_keeps_permitted:
  assumes "forbidden d = Some bad" and "m_ValidFields d = f # fs" and "\<not> bad f"
  shows "m_ValidFields (StripForbiddenFields d) = filter (\<lambda>f. \<not> bad f) (m_ValidFields d)"
  using assms by (simp add: StripForbiddenFields_def strip_loop_exact)

definition example_access :: data_access where
  "example_access = (new_data_access ''Admin'' ''User'' ''GET'')\<lparr>m_DontGETFields := ''UserID,Password'',
     m_ValidFields := [[''0'', ''RoleID'', ''INTEGER''], [''1'', ''Password'', ''TEXT''],
       [''2'', ''Name'', ''TEXT'']]\<rparr>"

theorem strip_keeps_permitted_witness:
  "GetValidFields (StripForbiddenFields example_access) = [''RoleID'', ''Name'']"
proof -
  obtain bad where bad: "forbidden example_access = Some bad"
      "bad = (\<lambda>row. contains ''UserID,Password'' (fieldName row))"
    by (simp add: forbidden_def example_access_def new_data_access_def)
  have cols: "m_ValidFields example_access = [''0'', ''RoleID'', ''INTEGER''] #
      [[''1'', ''Password'', ''TEXT''], [''2'', ''Name'', ''TEXT'']]"
    by (simp add: example_access_def)
  have "\<not> bad [''0'', ''RoleID'', ''INTEGER'']" unfolding bad by code_simp
  note strip_keeps_permitted [OF bad(1) cols this]
  then show ?thesis
    unfolding GetValidFields_def bad by simp (simp add: example_access_def, code_simp)
qed

text \<open>When the first column is stripped, the second one stays in the list although it
  may be forbidden as well: the loop sets its index to 0 after an erase and then increments it,
  so what has moved to position 0 is never examined.\<close>

theorem strip_skips_second_column:
  assumes "forbidden d = Some bad" and "m_ValidFields d = f # g # fs" and "bad f"
  shows "m_ValidFields (StripForbiddenFields d) = g # filter (\<lambda>f. \<not> bad f) fs"
  using assms by (simp add: StripForbiddenFields_def strip_loop_exact)

theorem strip_skips_second_column_witness:
  "''Password'' \<in> set (GetValidFields (StripForbiddenFields (example_access\<lparr>m_ValidFields :=
     [[''0'', ''UserID'', ''INTEGER''], [''1'', ''Password'', ''TEXT'']]\<rparr>)))"
proof -
  let ?d = "example_access\<lparr>m_ValidFields :=
     [[''0'', ''UserID'', ''INTEGER''], [''1'', ''Password'', ''TEXT'']]\<rparr>"
  have "forbidden ?d = Some (\<lambda>row. contains ''UserID,Password'' (fieldName row))"
    by (simp add: forbidden_def example_access_def new_data_access_def)
  moreover have "contains ''UserID,Password'' (fieldName [''0'', ''UserID'', ''INTEGER''])"
    by code_simp
  ultimately show ?thesis
    using strip_skips_second_column [of ?d] by (simp add: GetValidFields_def fieldName_def)
qed

end
