(* ===== verification/Fifo.thy ===== *)
theory Fifo
  imports Prelude
begin

text \<open>
  The queue contract.  Two parts of the server rely on it: the publisher thread, which sends the
  database updates in the order the hook recorded them, and the users of
  \<^verbatim>\<open>concurrent_queue\<close>.  \<open>pop\<close> answers \<^const>\<open>None\<close> on an empty queue.
\<close>

datatype 'a queue_op = Push 'a | Pop

locale fifo_queue =
  fixes contents :: "'q \<Rightarrow> 'a list"
    and push :: "'q \<Rightarrow> 'a \<Rightarrow> 'q"
    and pop :: "'q \<Rightarrow> 'a option \<times> 'q"
  assumes contents_push: "contents (push q x) = contents q @ [x]"
    and pop_empty: "contents q = [] \<Longrightarrow> pop q = (None, q)"
    and pop_cons: "contents q = x # xs \<Longrightarrow> fst (pop q) = Some x \<and> contents (snd (pop q)) = xs"
begin

fun run :: "'q \<Rightarrow> 'a queue_op list \<Rightarrow> 'q \<times> 'a list" where
  "run q [] = (q, [])"
| "run q (Push x # ops) = run (push q x) ops"
| "run q (Pop # ops) =
     (case pop q of
        (None, q') \<Rightarrow> run q' ops
      | (Some x, q') \<Rightarrow> (let (q'', out) = run q' ops in (q'', x # out)))"

lemma run_contents:
  "contents q @ [x. Push x \<leftarrow> ops] = snd (run q ops) @ contents (fst (run q ops))"
proof (induction q ops rule: run.induct)
  case (1 q)
  then show ?case by simp
next
  case (2 q x ops)
  then show ?case by (simp add: contents_push)
next
  case (3 q ops)
  show ?case
  proof (cases "contents q")
    case Nil
    with 3 show ?thesis by (simp add: pop_empty)
  next
    case (Cons x xs)
    then obtain q' where q': "pop q = (Some x, q')" "contents q' = xs"
      using pop_cons [of q x xs] by (cases "pop q") auto
    with 3 have "xs @ [x. Push x \<leftarrow> ops] = snd (run q' ops) @ contents (fst (run q' ops))"
      by simp
    then show ?thesis by (simp add: Cons q' split_beta)
  qed
qed

lemma drain:
  "contents q = xs \<Longrightarrow> snd (run q (replicate (length xs) Pop)) = xs \<and>
     contents (fst (run q (replicate (length xs) Pop))) = []"
proof (induction xs arbitrary: q)
  case Nil
  then show ?case by simp
next
  case (Cons x xs)
  then obtain q' where q': "pop q = (Some x, q')" "contents q' = xs"
    using pop_cons [of q x xs] by (cases "pop q") auto
  with Cons.IH [of q'] show ?case by (simp add: split_beta)
qed

end

end
