(* ===== verification/UpdatePublisher.thy ===== *)
theory UpdatePublisher
  imports Fifo
begin

text \<open>
  \<^verbatim>\<open>main/UpdatePublisher.cpp\<close>: the SQLite update hook turns every row change into a
  \<^verbatim>\<open>CUpdateEntry\<close> and queues it; a worker thread takes the entries off the queue, one per
  round, and hands each to all subscribers.

  SQLite is not modelled.  What the hook reads back from the database
  (\<^verbatim>\<open>SELECT * FROM table WHERE ROWID=...\<close>) is the argument \<open>select\<close> of the definitions:
  \<^const>\<open>None\<close> when the statement does not compile, otherwise the result rows.
\<close>

record sql_col =
  col_name :: string
  col_is_integer :: bool
  col_text :: "string option"

record update_entry =
  m_Action :: string
  m_Table :: string
  m_RowIdx :: int
  m_Columns :: "string list"
  m_ColumnTypes :: "string list"
  m_Values :: "string list"

definition new_update_entry :: "string \<Rightarrow> string \<Rightarrow> int \<Rightarrow> update_entry" where
  "new_update_entry action tbl row = \<lparr>m_Action = action, m_Table = tbl, m_RowIdx = row,
     m_Columns = [], m_ColumnTypes = [], m_Values = []\<rparr>"

text \<open>
  One result row: name, type and text of each column.  A NULL in column 0 leaves the loop after
  the name and the type were recorded; a NULL elsewhere is the empty string.
\<close>

fun load_cols :: "nat \<Rightarrow> sql_col list \<Rightarrow> update_entry \<Rightarrow> update_entry" where
  "load_cols col [] e = e"
| "load_cols col (c # cs) e =
     (let e1 = e\<lparr>m_Columns := m_Columns e @ [col_name c],
                m_ColumnTypes := m_ColumnTypes e @
                  [if col_is_integer c then ''INTEGER'' else ''TEXT'']\<rparr>
      in case col_text c of
           None \<Rightarrow> if col = 0 then e1
                   else load_cols (Suc col) cs (e1\<lparr>m_Values := m_Values e @ [[]]\<rparr>)
         | Some v \<Rightarrow> load_cols (Suc col) cs (e1\<lparr>m_Values := m_Values e @ [v]\<rparr>))"

fun load_rows :: "sql_col list list \<Rightarrow> update_entry \<Rightarrow> update_entry" where
  "load_rows [] e = e"
| "load_rows (r # rs) e = load_rows rs (load_cols 0 r e)"

definition SQLITE_DELETE :: int where "SQLITE_DELETE = 9"
definition SQLITE_INSERT :: int where "SQLITE_INSERT = 18"
definition SQLITE_UPDATE :: int where "SQLITE_UPDATE = 23"

text \<open>
  The hook.  \<open>is_main\<close> is the outcome of \<^verbatim>\<open>pDB == "main"\<close>, a comparison of two pointers; the
  queue is the result.
\<close>

definition callback ::
  "(string \<Rightarrow> int \<Rightarrow> sql_col list list option) \<Rightarrow> update_entry list
     \<Rightarrow> int \<Rightarrow> bool \<Rightarrow> string \<Rightarrow> int \<Rightarrow> update_entry list" where
  "callback select queue iAction is_main pTable iRowIdx =
     (if \<not> is_main then queue
      else if iAction \<notin> {SQLITE_INSERT, SQLITE_UPDATE, SQLITE_DELETE} then queue
      else
        let action = (if iAction = SQLITE_INSERT then ''Insert''
                      else if iAction = SQLITE_UPDATE then ''Update'' else ''Delete'');
            e = new_update_entry action pTable iRowIdx
        in queue @
          [if iAction = SQLITE_DELETE then e
           else case select pTable iRowIdx of None \<Rightarrow> e | Some rs \<Rightarrow> load_rows rs e])"

text \<open>One round of \<^verbatim>\<open>Do_Work\<close>: what is published, and the queue that is left.\<close>

definition Do_Work_round :: "update_entry list \<Rightarrow> update_entry option \<times> update_entry list" where
  "Do_Work_round queue = (case queue of [] \<Rightarrow> (None, []) | e # q \<Rightarrow> (Some e, q))"

text \<open>\<^verbatim>\<open>Start\<close> and \<^verbatim>\<open>Stop\<close> both empty the queue.\<close>

definition Start :: "update_entry list \<Rightarrow> update_entry list" where
  "Start queue = []"

definition Stop :: "update_entry list \<Rightarrow> update_entry list" where
  "Stop queue = []"

interpretation update_queue: fifo_queue "\<lambda>q. q" "\<lambda>q e. q @ [e]" Do_Work_round
  by unfold_locales (auto simp: Do_Work_round_def)

section \<open>The columns of an entry\<close>

text \<open>A row whose first column is not NULL: the normal case, since column 0 is the key.\<close>

definition key_present :: "sql_col list \<Rightarrow> bool" where
  "key_present cs \<longleftrightarrow> cs \<noteq> [] \<and> col_text (hd cs) \<noteq> None"

definition text_of :: "sql_col \<Rightarrow> string" where
  "text_of c = (case col_text c of None \<Rightarrow> [] | Some v \<Rightarrow> v)"

definition type_of :: "sql_col \<Rightarrow> string" where
  "type_of c = (if col_is_integer c then ''INTEGER'' else ''TEXT'')"

lemma load_cols_pos:
  "col > 0 \<Longrightarrow> load_cols col cs e = e\<lparr>m_Columns := m_Columns e @ map col_name cs,
     m_ColumnTypes := m_ColumnTypes e @ map type_of cs, m_Values := m_Values e @ map text_of cs\<rparr>"
proof (induction cs arbitrary: col e)
  case (Cons c cs)
  then show ?case by (cases "col_text c") (simp_all add: Let_def type_of_def text_of_def)
qed simp

lemma load_cols_key:
  "key_present cs \<Longrightarrow> load_cols 0 cs e = e\<lparr>m_Columns := m_Columns e @ map col_name cs,
     m_ColumnTypes := m_ColumnTypes e @ map type_of cs, m_Values := m_Values e @ map text_of cs\<rparr>"
  by (cases cs) (auto simp: key_present_def load_cols_pos Let_def type_of_def text_of_def)

definition columns_aligned :: "update_entry \<Rightarrow> bool" where
  "columns_aligned e \<longleftrightarrow> length (m_Columns e) = length (m_Values e) \<and>
     length (m_Columns e) = length (m_ColumnTypes e)"

lemma load_cols_aligned:
  "key_present cs \<Longrightarrow> columns_aligned e \<Longrightarrow> columns_aligned (load_cols 0 cs e)"
  by (simp add: load_cols_key columns_aligned_def)

lemma load_rows_aligned:
  "list_all key_present rs \<Longrightarrow> columns_aligned e \<Longrightarrow> columns_aligned (load_rows rs e)"
  by (induction rs arbitrary: e) (auto simp: load_cols_aligned)

text \<open>A NULL key leaves a column without a value.\<close>

lemma load_cols_null_key:
  "col_text c = None \<Longrightarrow> \<not> columns_aligned (load_cols 0 (c # cs) (new_update_entry a t r))"
  by (simp add: columns_aligned_def new_update_entry_def Let_def)

end
