(* ===== verification/RowStore.thy ===== *)
theory RowStore
  imports Prelude
begin

text \<open>
  The contract that ties the parts of the push path together: a store of rows with integer keys
  to which changes are applied in order.  The database table provides it on the server, the
  row list of a page provides it in the browser.  Whatever provides it computes the same
  finite map from the same changes, which is what "the page shows the table" means.
\<close>

datatype 'r change = Put int 'r | Del int

fun change_key :: "'r change \<Rightarrow> int" where
  "change_key (Put k r) = k"
| "change_key (Del k) = k"

fun spec_change :: "(int \<rightharpoonup> 'r) \<Rightarrow> 'r change \<Rightarrow> (int \<rightharpoonup> 'r)" where
  "spec_change m (Put k r) = m(k \<mapsto> r)"
| "spec_change m (Del k) = m(k := None)"

text \<open>
  A change is legal for the current rows when the row put satisfies \<open>P\<close> and only existing
  rows are deleted; a sequence is legal when each change is legal where it is applied.
\<close>

fun legal_change :: "(int \<Rightarrow> 'r \<Rightarrow> bool) \<Rightarrow> (int \<rightharpoonup> 'r) \<Rightarrow> 'r change \<Rightarrow> bool" where
  "legal_change P m (Put k r) = P k r"
| "legal_change P m (Del k) = (m k \<noteq> None)"

fun legal :: "(int \<Rightarrow> 'r \<Rightarrow> bool) \<Rightarrow> (int \<rightharpoonup> 'r) \<Rightarrow> 'r change list \<Rightarrow> bool" where
  "legal P m [] = True"
| "legal P m (c # cs) = (legal_change P m c \<and> legal P (spec_change m c) cs)"

lemma legal_append:
  "legal P m (cs @ ds) \<longleftrightarrow> legal P m cs \<and> legal P (foldl spec_change m cs) ds"
  by (induction cs arbitrary: m) auto

locale row_store =
  fixes ok :: "'s \<Rightarrow> bool"
    and look :: "'s \<Rightarrow> int \<Rightarrow> 'r option"
    and apply_change :: "'s \<Rightarrow> 'r change \<Rightarrow> 's"
    and admits :: "int \<Rightarrow> 'r \<Rightarrow> bool"
  assumes change_ok: "ok s \<Longrightarrow> legal_change admits (look s) c \<Longrightarrow> ok (apply_change s c)"
    and change_look: "ok s \<Longrightarrow> legal_change admits (look s) c \<Longrightarrow>
      look (apply_change s c) = spec_change (look s) c"
begin

lemma run_look:
  assumes "ok s" and "legal admits (look s) cs"
  shows "ok (foldl apply_change s cs) \<and>
    look (foldl apply_change s cs) = foldl spec_change (look s) cs"
  using assms
proof (induction cs arbitrary: s)
  case Nil
  then show ?case by simp
next
  case (Cons c cs)
  then have "ok (apply_change s c)" "look (apply_change s c) = spec_change (look s) c"
    using change_ok change_look by auto
  with Cons show ?case by simp
qed

lemma look_untouched:
  assumes "ok s" and "legal admits (look s) cs" and "k \<notin> change_key ` set cs"
  shows "look (foldl apply_change s cs) k = look s k"
proof -
  have "foldl spec_change m cs k = m k" if "k \<notin> change_key ` set cs" for m
    using that
  proof (induction cs arbitrary: m)
    case (Cons c cs)
    then show ?case by (cases c) auto
  qed simp
  with run_look assms show ?thesis by simp
qed

end

text \<open>Projecting rows commutes with applying changes.\<close>

lemma spec_change_map:
  "(\<lambda>k. map_option f (spec_change m c k)) = spec_change (\<lambda>k. map_option f (m k)) (map_change f c)"
  by (cases c) auto

lemma spec_run_map:
  "(\<lambda>k. map_option f (foldl spec_change m cs k)) =
     foldl spec_change (\<lambda>k. map_option f (m k)) (map (map_change f) cs)"
  by (induction cs arbitrary: m) (simp_all add: spec_change_map)

lemma legal_map:
  assumes "legal P m cs" and "\<And>k r. P k r \<Longrightarrow> Q k (f r)"
  shows "legal Q (\<lambda>k. map_option f (m k)) (map (map_change f) cs)"
  using assms(1)
proof (induction cs arbitrary: m)
  case (Cons c cs)
  then have "legal_change Q (\<lambda>k. map_option f (m k)) (map_change f c)"
    using assms(2) by (cases c) auto
  with Cons show ?case by (simp add: spec_change_map [symmetric])
qed simp

end
