(* ===== verification/SharedWebSocket.thy ===== *)
theory SharedWebSocket
  imports RowStore
begin

text \<open>
  The push client of the browser application: the class \<^verbatim>\<open>SharedWebSocketService\<close> (minified
  name \<^verbatim>\<open>lL\<close>) of \<^verbatim>\<open>web/www/main-es2015...js\<close> and its sixteen subclasses, one per table shown
  in the user interface.  A page holds a list of rows; the server pushes one row per database
  change; \<^verbatim>\<open>subscribe\<close> merges the pushed row into the page's list.

  A row is the object \<^verbatim>\<open>JSON.parse\<close> gives: property names with a number or a string.  A push
  message is an object that maps a table name to an array of rows (its \<^verbatim>\<open>Count\<close> member is
  never read).  Reading a property of \<^verbatim>\<open>undefined\<close> raises; that is \<^const>\<open>TypeError\<close>.
\<close>

section \<open>JavaScript values that are compared\<close>

text \<open>
  The values of an identifier: a property that is absent is \<^verbatim>\<open>undefined\<close>; \<^verbatim>\<open>NaN\<close> arises from
  arithmetic on it.  All numbers of this protocol are integers.
\<close>

datatype jsv = JUndefined | JNaN | JNum int | JString string

text \<open>
  \<^verbatim>\<open>ToNumber\<close>, with \<^const>\<open>None\<close> for \<^verbatim>\<open>NaN\<close>.  A string converts when it is an optionally
  signed decimal integer; the empty string is 0.  (Route parameters are such strings.)
\<close>

fun dec_int :: "string \<Rightarrow> int option" where
  "dec_int [] = Some 0"
| "dec_int (c # cs) =
     (if c = CHR ''-'' then
        (if all_digits cs then Some (- int (fst (digits_acc 0 cs))) else None)
      else if c = CHR ''+'' then
        (if all_digits cs then Some (int (fst (digits_acc 0 cs))) else None)
      else if all_digits (c # cs) then Some (int (fst (digits_acc 0 (c # cs))))
      else None)"

fun js_tonumber :: "jsv \<Rightarrow> int option" where
  "js_tonumber JUndefined = None"
| "js_tonumber JNaN = None"
| "js_tonumber (JNum n) = Some n"
| "js_tonumber (JString s) = dec_int s"

text \<open>The operators \<^verbatim>\<open>==\<close>, \<^verbatim>\<open>-1*x\<close> and \<^verbatim>\<open>x>0\<close>.\<close>

fun js_eq :: "jsv \<Rightarrow> jsv \<Rightarrow> bool" where
  "js_eq JUndefined b = (b = JUndefined)"
| "js_eq JNaN b = False"
| "js_eq (JNum m) b = (js_tonumber b = Some m)"
| "js_eq (JString s) (JString t) = (s = t)"
| "js_eq (JString s) (JNum n) = (dec_int s = Some n)"
| "js_eq (JString s) b = False"

definition js_neg :: "jsv \<Rightarrow> jsv" where
  "js_neg v = (case js_tonumber v of None \<Rightarrow> JNaN | Some n \<Rightarrow> JNum (- n))"

definition js_pos :: "jsv \<Rightarrow> bool" where
  "js_pos v = (case js_tonumber v of None \<Rightarrow> False | Some n \<Rightarrow> n > 0)"

text \<open>String conversion, as in \<^verbatim>\<open>"'" + t.Name + "'"\<close>.\<close>

fun js_tostring :: "jsv \<Rightarrow> string" where
  "js_tostring JUndefined = ''undefined''"
| "js_tostring JNaN = ''NaN''"
| "js_tostring (JNum n) = int_to_string n"
| "js_tostring (JString s) = s"

lemma js_neg_JNum [simp]: "js_neg (JNum n) = JNum (- n)"
  by (simp add: js_neg_def)

lemma js_pos_JNum [simp]: "js_pos (JNum n) \<longleftrightarrow> n > 0"
  by (simp add: js_pos_def)

lemma js_eq_num_num [simp]: "js_eq (JNum m) (JNum n) \<longleftrightarrow> n = m"
  by simp

section \<open>Rows and messages\<close>

datatype cell = CInt int | CStr string

type_synonym item = "(string \<times> cell) list"
type_synonym push_msg = "(string \<times> item list) list"

definition js_prop :: "item \<Rightarrow> string \<Rightarrow> jsv" where
  "js_prop t k = (case map_of t k of
      None \<Rightarrow> JUndefined | Some (CInt n) \<Rightarrow> JNum n | Some (CStr s) \<Rightarrow> JString s)"

section \<open>The service object and its subclasses\<close>

text \<open>
  How a subclass answers \<^verbatim>\<open>isRelevant\<close>: the base class accepts everything; \<^verbatim>\<open>InterfaceLogs\<close>
  compares the parent column only; the others accept a live row of the right parent or the
  deletion of a row they hold.
\<close>

datatype relevance = AllRows | ParentOnly string | ParentOrDelete string

text \<open>How a subclass answers \<^verbatim>\<open>getName\<close>: the quoted \<^verbatim>\<open>Name\<close> property or a fixed text.\<close>

datatype naming = QuotedName | FixedName string

record shared_ws =
  targetName :: string
  idProp :: string
  naming :: naming
  relevance :: relevance
  parentID :: jsv

definition getID :: "shared_ws \<Rightarrow> item \<Rightarrow> jsv" where
  "getID ws t = js_prop t (idProp ws)"

definition getName :: "shared_ws \<Rightarrow> item \<Rightarrow> string" where
  "getName ws t = (case naming ws of
      QuotedName \<Rightarrow> [CHR 0x27] @ js_tostring (js_prop t ''Name'') @ [CHR 0x27]
    | FixedName s \<Rightarrow> s)"


definition isRelevant :: "shared_ws \<Rightarrow> item list \<Rightarrow> item \<Rightarrow> bool" where
  "isRelevant ws items t = (case relevance ws of
      AllRows \<Rightarrow> True
    | ParentOnly p \<Rightarrow>
        js_eq (JNum 0) (parentID ws) \<or> js_eq (parentID ws) (js_prop t p)
    | ParentOrDelete p \<Rightarrow>
        (js_pos (getID ws t) \<and>
           (js_eq (JNum 0) (parentID ws) \<or> js_eq (parentID ws) (js_prop t p))) \<or>
        list_ex (\<lambda>e. js_eq (getID ws e) (js_neg (getID ws t))) items)"

text \<open>
  The sixteen subclasses.  Those that take a route parameter give it as \<^verbatim>\<open>parentID\<close>; a missing
  parameter is the default 0.
\<close>

definition plain_ws :: "string \<Rightarrow> string \<Rightarrow> shared_ws" where
  "plain_ws table key = \<lparr>targetName = table, idProp = key, naming = QuotedName,
     relevance = AllRows, parentID = JNum 0\<rparr>"

definition Tabs_ws :: shared_ws where "Tabs_ws = plain_ws ''Tabs'' ''TabID''"
definition Roles_ws :: shared_ws where "Roles_ws = plain_ws ''Roles'' ''RoleID''"
definition Users_ws :: shared_ws where "Users_ws = plain_ws ''Users'' ''UserID''"
definition TableAccess_ws :: shared_ws where
  "TableAccess_ws = plain_ws ''TableAccesss'' ''TableAccessID''"
definition Interfaces_ws :: shared_ws where
  "Interfaces_ws = plain_ws ''Interfaces'' ''InterfaceID''"
definition Preferences_ws :: shared_ws where
  "Preferences_ws = plain_ws ''Preferences'' ''PreferenceID''"
definition TimerPlans_ws :: shared_ws where
  "TimerPlans_ws = plain_ws ''TimerPlans'' ''TimerPlanID''"
definition Units_ws :: shared_ws where "Units_ws = plain_ws ''Units'' ''UnitID''"
definition Layouts_ws :: shared_ws where "Layouts_ws = plain_ws ''Layouts'' ''LayoutID''"
definition Tiles_ws :: shared_ws where "Tiles_ws = plain_ws ''Tiles'' ''TileID''"

definition InterfaceLogs_ws :: "jsv \<Rightarrow> shared_ws" where
  "InterfaceLogs_ws n = \<lparr>targetName = ''InterfaceLogs'', idProp = ''InterfaceLogID'',
     naming = FixedName ''Log item'', relevance = ParentOnly ''InterfaceID'', parentID = n\<rparr>"

definition Devices_ws :: "jsv \<Rightarrow> shared_ws" where
  "Devices_ws n = \<lparr>targetName = ''Devices'', idProp = ''DeviceID'', naming = QuotedName,
     relevance = ParentOrDelete ''InterfaceID'', parentID = n\<rparr>"

definition DeviceLogs_ws :: "jsv \<Rightarrow> shared_ws" where
  "DeviceLogs_ws n = \<lparr>targetName = ''DeviceLogs'', idProp = ''DeviceLogID'',
     naming = FixedName ''Log item'', relevance = ParentOrDelete ''DeviceID'', parentID = n\<rparr>"

definition Values_ws :: "jsv \<Rightarrow> shared_ws" where
  "Values_ws n = \<lparr>targetName = ''Values'', idProp = ''ValueID'', naming = QuotedName,
     relevance = ParentOrDelete ''DeviceID'', parentID = n\<rparr>"

definition ValueLogs_ws :: "jsv \<Rightarrow> shared_ws" where
  "ValueLogs_ws n = \<lparr>targetName = ''ValueLogs'', idProp = ''ValueLogID'',
     naming = FixedName ''Log item'', relevance = ParentOrDelete ''ValueID'', parentID = n\<rparr>"

definition ValueHistorys_ws :: "jsv \<Rightarrow> shared_ws" where
  "ValueHistorys_ws n = \<lparr>targetName = ''ValueHistorys'', idProp = ''ValueHistoryID'',
     naming = FixedName ''Value history'', relevance = ParentOrDelete ''ValueID'', parentID = n\<rparr>"

section \<open>Merging a pushed row\<close>

text \<open>
  The \<^verbatim>\<open>forEach\<close> over the page's rows: the flag \<^verbatim>\<open>n\<close> (a row matched), the new list \<^verbatim>\<open>i\<close>
  and the text \<^verbatim>\<open>s\<close> for the user.  A row whose identifier is the negated identifier of the
  pushed row is dropped; one with the same identifier is replaced.
\<close>

fun merge_loop ::
  "shared_ws \<Rightarrow> jsv \<Rightarrow> item \<Rightarrow> item list \<Rightarrow> bool \<times> item list \<times> string
     \<Rightarrow> bool \<times> item list \<times> string" where
  "merge_loop ws r u [] st = st"
| "merge_loop ws r u (t # ts) (n, i, s) =
     (let o' = getID ws t in
      if js_eq o' (js_neg r) then merge_loop ws r u ts (True, i, getName ws t @ '' deleted.'')
      else if js_eq o' r then merge_loop ws r u ts (True, i @ [u], getName ws u @ '' updated.'')
      else merge_loop ws r u ts (n, i @ [t], s))"

definition merge_row :: "shared_ws \<Rightarrow> item list \<Rightarrow> item \<Rightarrow> item list \<times> string" where
  "merge_row ws items u =
     (let (n, i, s) = merge_loop ws (getID ws u) u items
                        (False, [], ''Unknown update to '' @ targetName ws)
      in if n then (i, s) else (i @ [u], getName ws u @ '' added.''))"

datatype outcome = Ignored | Merged "item list" string

text \<open>
  The observer \<^verbatim>\<open>subscribe\<close> installs, for the page's current rows.  The multiplexed observable
  drops messages about other tables with the same \<^verbatim>\<open>targetName in t\<close> test.  An empty row array
  makes \<^verbatim>\<open>e[targetName][0]\<close> undefined, and every path then reads a property of it.
\<close>

definition on_message :: "shared_ws \<Rightarrow> item list \<Rightarrow> push_msg \<Rightarrow> js_error + outcome" where
  "on_message ws items e = (case map_of e (targetName ws) of
      None \<Rightarrow> Inr Ignored
    | Some [] \<Rightarrow> Inl TypeError
    | Some (u # _) \<Rightarrow>
        if isRelevant ws items u
        then (let (i, s) = merge_row ws items u in Inr (Merged i s))
        else Inr Ignored)"

subsection \<open>What the loop computes\<close>

definition kept_rows :: "shared_ws \<Rightarrow> jsv \<Rightarrow> item \<Rightarrow> item list \<Rightarrow> item list" where
  "kept_rows ws r u ts =
     map (\<lambda>t. if js_eq (getID ws t) r then u else t)
       (filter (\<lambda>t. \<not> js_eq (getID ws t) (js_neg r)) ts)"

definition matches :: "shared_ws \<Rightarrow> jsv \<Rightarrow> item list \<Rightarrow> bool" where
  "matches ws r ts \<longleftrightarrow>
     list_ex (\<lambda>t. js_eq (getID ws t) (js_neg r) \<or> js_eq (getID ws t) r) ts"

lemma merge_loop_flag [fold_inv]:
  "fst (merge_loop ws r u ts (n, i, s)) \<longleftrightarrow> n \<or> matches ws r ts"
  by (induction ts arbitrary: n i s) (auto simp: matches_def Let_def)

lemma merge_loop_rows [fold_inv]:
  "fst (snd (merge_loop ws r u ts (n, i, s))) = i @ kept_rows ws r u ts"
  by (induction ts arbitrary: n i s) (auto simp: kept_rows_def Let_def)

lemma merge_row_rows:
  "fst (merge_row ws items u) =
     kept_rows ws (getID ws u) u items @ (if matches ws (getID ws u) items then [] else [u])"
  by (simp add: merge_row_def split_beta fold_inv)

section \<open>A page's list as a row store\<close>

text \<open>A well-formed page list: every row has a positive numeric identifier, no two the same.\<close>

definition keyed :: "shared_ws \<Rightarrow> item list \<Rightarrow> bool" where
  "keyed ws items \<longleftrightarrow>
     (\<forall>t \<in> set items. \<exists>k > 0. getID ws t = JNum k) \<and> distinct (map (getID ws) items)"

definition page_view :: "shared_ws \<Rightarrow> item list \<Rightarrow> int \<Rightarrow> item option" where
  "page_view ws items k = find (\<lambda>t. getID ws t = JNum k) items"

lemma page_view_Nil [simp]: "page_view ws [] k = None"
  by (simp add: page_view_def)

lemma page_view_Cons [simp]:
  "page_view ws (t # ts) k = (if getID ws t = JNum k then Some t else page_view ws ts k)"
  by (simp add: page_view_def)

lemma page_view_None_iff: "page_view ws items k = None \<longleftrightarrow> JNum k \<notin> getID ws ` set items"
  by (auto simp: page_view_def find_None_iff image_iff)

lemma page_view_append:
  "page_view ws (xs @ ys) k = (case page_view ws xs k of None \<Rightarrow> page_view ws ys k | Some t \<Rightarrow> Some t)"
  by (induction xs) auto

lemma page_view_SomeD: "page_view ws items k = Some t \<Longrightarrow> t \<in> set items \<and> getID ws t = JNum k"
  by (auto simp: page_view_def find_Some_iff)

lemma keyed_Nil [simp]: "keyed ws []"
  by (simp add: keyed_def)

lemma keyed_Cons [simp]:
  "keyed ws (t # ts) \<longleftrightarrow>
     (\<exists>k > 0. getID ws t = JNum k) \<and> getID ws t \<notin> getID ws ` set ts \<and> keyed ws ts"
  by (auto simp: keyed_def)

lemma keyed_ids: "keyed ws items \<Longrightarrow> t \<in> set items \<Longrightarrow> \<exists>k > 0. getID ws t = JNum k"
  by (simp add: keyed_def)

text \<open>The loop on a well-formed list, for a live row and for a deletion.\<close>

lemma js_eq_keyed:
  assumes "keyed ws items" and "t \<in> set items"
  shows "js_eq (getID ws t) (JNum k) \<longleftrightarrow> getID ws t = JNum k"
  using keyed_ids [OF assms] by auto

lemma kept_rows_live:
  assumes "keyed ws items" and "k > 0"
  shows "kept_rows ws (JNum k) u items = map (\<lambda>t. if getID ws t = JNum k then u else t) items"
proof -
  have "filter (\<lambda>t. \<not> js_eq (getID ws t) (JNum (- k))) items = items"
    using keyed_ids [OF assms(1)] assms(2) by (fastforce intro!: filter_True)
  then show ?thesis
    using js_eq_keyed [OF assms(1)] by (auto simp: kept_rows_def)
qed

lemma kept_rows_delete:
  assumes "keyed ws items" and "k > 0"
  shows "kept_rows ws (JNum (- k)) u items = filter (\<lambda>t. getID ws t \<noteq> JNum k) items"
proof -
  let ?ts = "filter (\<lambda>t. \<not> js_eq (getID ws t) (JNum k)) items"
  have "?ts = filter (\<lambda>t. getID ws t \<noteq> JNum k) items"
    using js_eq_keyed [OF assms(1)] by (auto intro!: filter_cong)
  moreover have "map (\<lambda>t. if js_eq (getID ws t) (JNum (- k)) then u else t) ?ts = ?ts"
    using keyed_ids [OF assms(1)] assms(2) by (fastforce intro!: map_idI)
  ultimately show ?thesis by (simp add: kept_rows_def)
qed

lemma matches_live:
  assumes "keyed ws items" and "k > 0"
  shows "matches ws (JNum k) items \<longleftrightarrow> page_view ws items k \<noteq> None"
  using assms by (induction items) (auto simp: matches_def)

lemma matches_delete:
  assumes "keyed ws items" and "k > 0"
  shows "matches ws (JNum (- k)) items \<longleftrightarrow> page_view ws items k \<noteq> None"
  using assms by (induction items) (auto simp: matches_def)

lemma page_view_replace:
  assumes "getID ws u = JNum k"
  shows "page_view ws (map (\<lambda>t. if getID ws t = JNum k then u else t) items) j =
    (if j = k then (if page_view ws items k = None then None else Some u)
     else page_view ws items j)"
  using assms by (induction items) auto

lemma page_view_filter:
  "page_view ws (filter (\<lambda>t. getID ws t \<noteq> JNum k) items) j =
    (if j = k then None else page_view ws items j)"
  by (induction items) auto

lemma keyed_map_cong:
  assumes "map (getID ws) xs = map (getID ws) ys"
  shows "keyed ws xs \<longleftrightarrow> keyed ws ys"
proof -
  have "getID ws ` set xs = getID ws ` set ys"
    using arg_cong [OF assms, of set] by simp
  moreover have "(\<forall>t \<in> set zs. \<exists>k > 0. getID ws t = JNum k) \<longleftrightarrow>
      (\<forall>v \<in> getID ws ` set zs. \<exists>k > 0. v = JNum k)" for zs
    by simp
  ultimately show ?thesis using assms unfolding keyed_def by presburger
qed

lemma keyed_replace:
  assumes "keyed ws items" and "getID ws u = JNum k"
  shows "keyed ws (map (\<lambda>t. if getID ws t = JNum k then u else t) items)"
  using keyed_map_cong [OF map_replace_key [of "getID ws" u "JNum k" items]] assms by simp

lemma keyed_filter: "keyed ws items \<Longrightarrow> keyed ws (filter P items)"
  by (auto simp: keyed_def distinct_map_filter)

lemma keyed_snoc:
  assumes "keyed ws items" and "getID ws u = JNum k" and "k > 0" and "page_view ws items k = None"
  shows "keyed ws (items @ [u])"
  using assms by (auto simp: keyed_def page_view_None_iff)

lemma merge_row_live:
  assumes "keyed ws items" and "getID ws u = JNum k" and "k > 0"
  shows "fst (merge_row ws items u) =
    (if page_view ws items k = None then items @ [u]
     else map (\<lambda>t. if getID ws t = JNum k then u else t) items)"
  using assms
  by (auto simp: merge_row_rows kept_rows_live matches_live page_view_None_iff image_iff
      intro!: map_idI)

lemma merge_row_delete:
  assumes "keyed ws items" and "getID ws u = JNum (- k)" and "k > 0"
  shows "fst (merge_row ws items u) =
    (if page_view ws items k = None then items @ [u]
     else filter (\<lambda>t. getID ws t \<noteq> JNum k) items)"
  using assms
  by (auto simp: merge_row_rows kept_rows_delete matches_delete page_view_None_iff image_iff
      intro!: filter_True)


text \<open>
  The message the server sends for a change: the row itself, or an object that holds only the
  negated identifier.  \<^const>\<open>Put\<close> is an insertion or an update.
\<close>

definition change_msg :: "shared_ws \<Rightarrow> item change \<Rightarrow> push_msg" where
  "change_msg ws c = (case c of
      Put k u \<Rightarrow> [(targetName ws, [u])]
    | Del k \<Rightarrow> [(targetName ws, [[(idProp ws, CInt (- k))]])])"

definition page_change :: "shared_ws \<Rightarrow> item list \<Rightarrow> item change \<Rightarrow> item list" where
  "page_change ws items c = (case on_message ws items (change_msg ws c) of
      Inr (Merged i s) \<Rightarrow> i | _ \<Rightarrow> items)"

definition row_for :: "shared_ws \<Rightarrow> int \<Rightarrow> item \<Rightarrow> bool" where
  "row_for ws k u \<longleftrightarrow> k > 0 \<and> getID ws u = JNum k"

text \<open>A page that is not restricted to one parent row.\<close>

definition shows_all :: "shared_ws \<Rightarrow> bool" where
  "shows_all ws \<longleftrightarrow> (case relevance ws of
      AllRows \<Rightarrow> True | ParentOnly p \<Rightarrow> False
    | ParentOrDelete p \<Rightarrow> js_eq (JNum 0) (parentID ws))"

lemma getID_deletion [simp]: "getID ws [(idProp ws, CInt k)] = JNum k"
  by (simp add: getID_def js_prop_def)

lemma page_change_Put:
  assumes "isRelevant ws items u"
  shows "page_change ws items (Put k u) = fst (merge_row ws items u)"
  using assms by (simp add: page_change_def change_msg_def on_message_def split: prod.splits)

lemma page_change_Del:
  assumes "isRelevant ws items [(idProp ws, CInt (- k))]"
  shows "page_change ws items (Del k) = fst (merge_row ws items [(idProp ws, CInt (- k))])"
  using assms by (simp add: page_change_def change_msg_def on_message_def split: prod.splits)

lemma relevant_live: "shows_all ws \<Longrightarrow> row_for ws k u \<Longrightarrow> isRelevant ws items u"
  by (auto simp: shows_all_def row_for_def isRelevant_def split: relevance.splits)

lemma relevant_delete:
  assumes "shows_all ws" and "page_view ws items k = Some t"
  shows "isRelevant ws items [(idProp ws, CInt (- k))]"
  using assms page_view_SomeD [OF assms(2)]
  by (force simp: shows_all_def isRelevant_def list_ex_iff split: relevance.splits)

lemma page_change_store:
  assumes "shows_all ws" and "keyed ws items"
    and "legal_change (row_for ws) (page_view ws items) c"
  shows "keyed ws (page_change ws items c) \<and>
    page_view ws (page_change ws items c) = spec_change (page_view ws items) c"
proof (cases c)
  case (Put k u)
  with assms(3) have u: "getID ws u = JNum k" "k > 0" "row_for ws k u"
    by (auto simp: row_for_def)
  have eq: "page_change ws items (Put k u) =
      (if page_view ws items k = None then items @ [u]
       else map (\<lambda>t. if getID ws t = JNum k then u else t) items)"
    using page_change_Put [OF relevant_live [OF assms(1) u(3)]] merge_row_live [OF assms(2) u(1,2)]
    by simp
  show ?thesis
    unfolding Put eq using keyed_snoc [OF assms(2) u(1,2)] keyed_replace [OF assms(2) u(1)] u
    by (auto simp: page_view_append page_view_replace fun_eq_iff split: option.splits)
next
  case (Del k)
  with assms(3) obtain t where t: "page_view ws items k = Some t" by auto
  then have k: "k > 0"
    using keyed_ids [OF assms(2)] page_view_SomeD [OF t] by fastforce
  have "page_change ws items c = filter (\<lambda>t. getID ws t \<noteq> JNum k) items"
    using page_change_Del [OF relevant_delete [OF assms(1) t]] t
      merge_row_delete [OF assms(2) getID_deletion k] by (simp add: Del)
  then show ?thesis
    using keyed_filter [OF assms(2)] by (auto simp: Del page_view_filter fun_eq_iff)
qed

lemma page_row_store:
  assumes "shows_all ws"
  shows "row_store (keyed ws) (page_view ws) (page_change ws) (row_for ws)"
  using page_change_store [OF assms] by unfold_locales auto

lemma shows_all_plain [simp]: "shows_all (plain_ws t k)"
  by (simp add: shows_all_def plain_ws_def)

lemma shows_all_unfiltered [simp]:
  "shows_all (Devices_ws (JNum 0))" "shows_all (Values_ws (JNum 0))"
  "shows_all (DeviceLogs_ws (JNum 0))" "shows_all (ValueLogs_ws (JNum 0))"
  "shows_all (ValueHistorys_ws (JNum 0))"
  by (simp_all add: shows_all_def Devices_ws_def Values_ws_def DeviceLogs_ws_def
      ValueLogs_ws_def ValueHistorys_ws_def)

interpretation plain_page: row_store "keyed (plain_ws t k)" "page_view (plain_ws t k)"
  "page_change (plain_ws t k)" "row_for (plain_ws t k)" for t k
  by (rule page_row_store) simp

interpretation devices_page: row_store "keyed (Devices_ws (JNum 0))"
  "page_view (Devices_ws (JNum 0))" "page_change (Devices_ws (JNum 0))"
  "row_for (Devices_ws (JNum 0))"
  by (rule page_row_store) simp


section \<open>The text shown to the user\<close>

lemma merge_loop_text_live:
  assumes "keyed ws ts" and "k > 0"
  shows "snd (snd (merge_loop ws (JNum k) u ts (n, i, s))) =
    (if page_view ws ts k = None then s else getName ws u @ '' updated.'')"
  using assms
proof (induction ts arbitrary: n i s)
  case (Cons t ts)
  then obtain j where j: "j > 0" "getID ws t = JNum j" "JNum j \<notin> getID ws ` set ts" "keyed ws ts"
    by auto
  then have "page_view ws ts j = None" by (simp add: page_view_None_iff)
  with j Cons show ?case by (auto simp: Let_def)
qed simp

lemma merge_loop_text_delete:
  assumes "keyed ws ts" and "k > 0"
  shows "snd (snd (merge_loop ws (JNum (- k)) u ts (n, i, s))) =
    (case page_view ws ts k of None \<Rightarrow> s | Some t \<Rightarrow> getName ws t @ '' deleted.'')"
  using assms
proof (induction ts arbitrary: n i s)
  case (Cons t ts)
  then obtain j where j: "j > 0" "getID ws t = JNum j" "JNum j \<notin> getID ws ` set ts" "keyed ws ts"
    by auto
  then have "page_view ws ts j = None" by (simp add: page_view_None_iff)
  with j Cons show ?case by (auto simp: Let_def)
qed simp

lemma on_message_relevant:
  assumes "isRelevant ws items u"
  shows "on_message ws items ((targetName ws, u # us) # e) =
    Inr (Merged (fst (merge_row ws items u)) (snd (merge_row ws items u)))"
  using assms by (simp add: on_message_def split_beta)

section \<open>Properties\<close>

text \<open>C9: A pushed live row takes the place of the row with its identifier, wherever that
  stands in the list, and is appended when there is none; no other row changes or moves, and the
  user is told which of the two happened.\<close>

theorem live_row_merged:
  assumes "keyed ws items" and "row_for ws k u" and "isRelevant ws items u"
  shows "on_message ws items [(targetName ws, u # us)] = Inr (
    case page_view ws items k of
      None \<Rightarrow> Merged (items @ [u]) (getName ws u @ '' added.'')
    | Some old \<Rightarrow> Merged (map (\<lambda>t. if getID ws t = JNum k then u else t) items)
        (getName ws u @ '' updated.''))"
proof -
  have u: "getID ws u = JNum k" "k > 0" using assms(2) by (auto simp: row_for_def)
  have "snd (merge_row ws items u) =
      getName ws u @ (if page_view ws items k = None then '' added.'' else '' updated.'')"
    using merge_loop_text_live [OF assms(1) u(2)] merge_loop_flag matches_live [OF assms(1) u(2)]
    by (simp add: merge_row_def u split_beta)
  then show ?thesis
    using on_message_relevant [OF assms(3)] merge_row_live [OF assms(1) u]
    by (simp split: option.splits)
qed

theorem live_row_merged_witness:
  "on_message Roles_ws [[(''RoleID'', CInt 1), (''Name'', CStr ''a'')], [(''RoleID'', CInt 2)]]
     [(''Roles'', [[(''RoleID'', CInt 1), (''Name'', CStr ''b'')]])] =
   Inr (Merged [[(''RoleID'', CInt 1), (''Name'', CStr ''b'')], [(''RoleID'', CInt 2)]]
     (CHR 0x27 # ''b'' @ [CHR 0x27] @ '' updated.''))"
  using live_row_merged [of Roles_ws "[[(''RoleID'', CInt 1), (''Name'', CStr ''a'')], [(''RoleID'', CInt 2)]]"
      1 "[(''RoleID'', CInt 1), (''Name'', CStr ''b'')]" "[]"]
  by (simp add: Roles_ws_def plain_ws_def row_for_def getID_def js_prop_def isRelevant_def getName_def)

text \<open>The deletion of a row the page holds removes that row and no other, and names
  it to the user; this holds on every page whose rows are not filtered by \<^verbatim>\<open>InterfaceLogs\<close>'s
  test.\<close>

theorem deletion_removes_row:
  assumes "keyed ws items" and "page_view ws items k = Some t"
    and "\<forall>p. relevance ws \<noteq> ParentOnly p"
  shows "on_message ws items [(targetName ws, [[(idProp ws, CInt (- k))]])] =
    Inr (Merged (filter (\<lambda>t. getID ws t \<noteq> JNum k) items) (getName ws t @ '' deleted.''))"
proof -
  let ?u = "[(idProp ws, CInt (- k))]"
  have k: "k > 0" using keyed_ids [OF assms(1)] page_view_SomeD [OF assms(2)] by fastforce
  have "isRelevant ws items ?u"
    using assms(3) page_view_SomeD [OF assms(2)]
    by (force simp: isRelevant_def list_ex_iff split: relevance.splits)
  moreover have "snd (merge_row ws items ?u) = getName ws t @ '' deleted.''"
    using merge_loop_text_delete [OF assms(1) k] merge_loop_flag matches_delete [OF assms(1) k]
      assms(2)
    by (simp add: merge_row_def split_beta)
  ultimately show ?thesis
    using on_message_relevant [of ws items ?u "[]" "[]"] merge_row_delete [OF assms(1) getID_deletion k]
      assms(2)
    by simp
qed

theorem deletion_removes_row_witness:
  "on_message Roles_ws [[(''RoleID'', CInt 1), (''Name'', CStr ''a'')], [(''RoleID'', CInt 2)]]
     [(''Roles'', [[(''RoleID'', CInt (-1))]])] =
   Inr (Merged [[(''RoleID'', CInt 2)]] (CHR 0x27 # ''a'' @ [CHR 0x27] @ '' deleted.''))"
  using deletion_removes_row [of Roles_ws
      "[[(''RoleID'', CInt 1), (''Name'', CStr ''a'')], [(''RoleID'', CInt 2)]]" 1
      "[(''RoleID'', CInt 1), (''Name'', CStr ''a'')]"]
  by (simp add: Roles_ws_def plain_ws_def getID_def js_prop_def getName_def)

text \<open>On a page that accepts every row, the deletion of a row the page does not hold
  is not ignored: a row with the negated identifier is appended and reported as added, and the
  list is no longer well formed.\<close>

theorem unknown_deletion_adds_row:
  assumes "keyed ws items" and "relevance ws = AllRows" and "k > 0"
    and "page_view ws items k = None"
  shows "\<exists>items'. on_message ws items [(targetName ws, [[(idProp ws, CInt (- k))]])] =
      Inr (Merged items' (getName ws [(idProp ws, CInt (- k))] @ '' added.'')) \<and>
    items' = items @ [[(idProp ws, CInt (- k))]] \<and> \<not> keyed ws items'"
proof -
  let ?u = "[(idProp ws, CInt (- k))]"
  have "\<not> keyed ws (items @ [?u])"
    using assms(3) by (auto simp: keyed_def)
  moreover have "snd (merge_row ws items ?u) = getName ws ?u @ '' added.''"
    using merge_loop_flag matches_delete [OF assms(1,3)] assms(4)
    by (simp add: merge_row_def split_beta)
  ultimately show ?thesis
    using on_message_relevant [of ws items ?u "[]" "[]"] merge_row_delete [OF assms(1) getID_deletion assms(3)]
      assms(2,4)
    by (simp add: isRelevant_def)
qed

theorem unknown_deletion_adds_row_witness:
  "\<exists>items'. on_message Roles_ws [] [(''Roles'', [[(''RoleID'', CInt (-5))]])] =
      Inr (Merged items' (CHR 0x27 # ''undefined'' @ [CHR 0x27] @ '' added.'')) \<and>
    items' = [[(''RoleID'', CInt (-5))]]"
  using unknown_deletion_adds_row [of Roles_ws "[]" 5]
  by (simp add: Roles_ws_def plain_ws_def js_prop_def getName_def)

text \<open>On a page restricted to one parent, an update that moves a row to another parent
  is ignored, so the page keeps showing the row as it was.\<close>

theorem moved_row_stays:
  assumes "relevance ws = ParentOrDelete p" and "keyed ws items" and "row_for ws k u"
    and "parentID ws = JNum n" and "n \<noteq> 0" and "js_prop u p = JNum m" and "m \<noteq> n"
  shows "on_message ws items [(targetName ws, [u])] = Inr Ignored"
proof -
  have "\<not> list_ex (\<lambda>e. js_eq (getID ws e) (JNum (- k))) items"
    using keyed_ids [OF assms(2)] assms(3) by (fastforce simp: list_ex_iff row_for_def)
  then have "\<not> isRelevant ws items u"
    using assms by (auto simp: isRelevant_def row_for_def)
  then show ?thesis by (simp add: on_message_def)
qed

theorem moved_row_stays_witness:
  "on_message (Devices_ws (JNum 1)) [[(''DeviceID'', CInt 4), (''InterfaceID'', CInt 1)]]
     [(''Devices'', [[(''DeviceID'', CInt 4), (''InterfaceID'', CInt 2)]])] = Inr Ignored"
  using moved_row_stays [of "Devices_ws (JNum 1)" "''InterfaceID''"
      "[[(''DeviceID'', CInt 4), (''InterfaceID'', CInt 1)]]" 4
      "[(''DeviceID'', CInt 4), (''InterfaceID'', CInt 2)]" 1 2]
  by (simp add: Devices_ws_def row_for_def getID_def js_prop_def)

text \<open>A log page restricted to one interface ignores every deletion: the message holds
  only the identifier, so its parent column is \<^verbatim>\<open>undefined\<close> and deleted log lines stay on the
  page.\<close>

theorem interface_log_deletion_ignored:
  "n \<noteq> 0 \<Longrightarrow>
   on_message (InterfaceLogs_ws (JNum n)) items
     [(''InterfaceLogs'', [[(''InterfaceLogID'', CInt (- k))]])] = Inr Ignored"
  by (simp add: on_message_def InterfaceLogs_ws_def isRelevant_def js_prop_def)

theorem interface_log_deletion_ignored_witness:
  "on_message (InterfaceLogs_ws (JNum 2)) [[(''InterfaceLogID'', CInt 9), (''InterfaceID'', CInt 2)]]
     [(''InterfaceLogs'', [[(''InterfaceLogID'', CInt (-9))]])] = Inr Ignored"
  using interface_log_deletion_ignored [of 2 _ 9] by simp

end
