(* ===== verification/Websocket.thy ===== *)
theory Websocket
  imports WebsocketFrame DataAccess UpdatePublisher SharedWebSocket
begin

text \<open>
  \<^verbatim>\<open>CWebsocket\<close> of \<^verbatim>\<open>web/Websockets.cpp\<close>: reassembly of frames into packets, control
  frames, the subscriptions of one connection and what it sends when the database changes.

  The JSON reader is third-party code: it is the argument \<open>reader\<close>, which maps a text to the
  \<^verbatim>\<open>asString\<close> value of each member, \<^const>\<open>None\<close> when it does not parse; an inner \<^const>\<open>None\<close>
  is an exception (a member of an object type, or a value that is not an object).
\<close>

type_synonym json_reader = "string \<Rightarrow> (string \<Rightarrow> string option) option"

definition string_of_bytes :: "bytes \<Rightarrow> string" where
  "string_of_bytes bs = map (\<lambda>b. char_of (unat b)) bs"

record subscription =
  sTable :: string
  vFields :: "string list"

record websocket =
  packet_data :: bytes
  start_new_packet :: bool
  last_opcode :: opcode
  OUR_PING_ID :: bytes
  vSubscriptions :: "subscription list"
  ws_User :: string
  m_Subscriber :: bool

text \<open>
  The document \<^verbatim>\<open>DatabaseUpdate\<close> builds.  \<^verbatim>\<open>root[table][0]\<close> comes into being with the first
  member stored in it.
\<close>

record push_doc =
  doc_Count :: int
  doc_rows :: "(string \<times> item) option"

text \<open>What goes out: a frame through \<^verbatim>\<open>MyWrite\<close>, a document through \<^verbatim>\<open>WsWrite\<close>.\<close>

datatype ws_out = WriteFrame bytes | WriteText push_doc

definition CWebsocket :: websocket where
  "CWebsocket = \<lparr>packet_data = [], start_new_packet = True, last_opcode = opcode_continuation,
     OUR_PING_ID = [0x66, 0x64], vSubscriptions = [], ws_User = ''Admin'', m_Subscriber = False\<rparr>"

definition ws_Start :: "websocket \<Rightarrow> websocket" where
  "ws_Start w = w\<lparr>m_Subscriber := True\<rparr>"

definition ws_Stop :: "websocket \<Rightarrow> websocket" where
  "ws_Stop w = w\<lparr>m_Subscriber := False\<rparr>"

definition SendPing :: "websocket \<Rightarrow> ws_out list" where
  "SendPing w = [WriteFrame (Create opcode_ping (OUR_PING_ID w) None)]"

definition SendPong :: "bytes \<Rightarrow> ws_out list" where
  "SendPong pl = [WriteFrame (Create opcode_pong pl None)]"

definition SendClose :: "bytes \<Rightarrow> ws_out list" where
  "SendClose pl = [WriteFrame (Create opcode_close pl None)]"

definition OnPong :: "bytes \<Rightarrow> websocket \<Rightarrow> websocket" where
  "OnPong pl w = (if pl = OUR_PING_ID w then w else w)"

section \<open>Subscriptions\<close>

text \<open>\<^verbatim>\<open>unsubscribe\<close> erases the first subscription to the table.\<close>

fun erase_first :: "string \<Rightarrow> subscription list \<Rightarrow> subscription list" where
  "erase_first t [] = []"
| "erase_first t (s # ss) = (if sTable s = t then ss else s # erase_first t ss)"

definition handle_unsubscribe :: "string \<Rightarrow> websocket \<Rightarrow> websocket" where
  "handle_unsubscribe t w =
     (if t \<noteq> [] then w\<lparr>vSubscriptions := erase_first t (vSubscriptions w)\<rparr> else w)"

definition handle_subscribe ::
  "(string \<Rightarrow> result_rows) \<Rightarrow> string \<Rightarrow> websocket \<Rightarrow> websocket" where
  "handle_subscribe safe_query t w =
     (if t \<noteq> [] then
        (case UserHasAccess safe_query
                (new_data_access (ws_User w) (substr t 0 (length t - 1)) ''GET'') of
           (True, d) \<Rightarrow>
             w\<lparr>vSubscriptions := vSubscriptions w @
               [\<lparr>sTable = t, vFields = GetValidFields (StripForbiddenFields d)\<rparr>]\<rparr>
         | (False, d) \<Rightarrow> w)
      else w)"

text \<open>\<^verbatim>\<open>Handle\<close>: the flag of the result tells whether an exception left it.\<close>

definition Handle ::
  "json_reader \<Rightarrow> (string \<Rightarrow> result_rows) \<Rightarrow> string \<Rightarrow> bool \<Rightarrow> websocket \<Rightarrow> bool \<times> websocket" where
  "Handle reader safe_query packet outbound w =
     (if outbound then (False, w)
      else case reader packet of
        None \<Rightarrow> (False, w)
      | Some as_string \<Rightarrow>
          (case as_string ''unsubscribe'' of
             None \<Rightarrow> (True, w)
           | Some u \<Rightarrow>
               let w1 = handle_unsubscribe u w
               in case as_string ''subscribe'' of
                    None \<Rightarrow> (True, w1)
                  | Some t \<Rightarrow> (False, handle_subscribe safe_query t w1)))"

definition OnReceiveText ::
  "json_reader \<Rightarrow> (string \<Rightarrow> result_rows) \<Rightarrow> bytes \<Rightarrow> websocket \<Rightarrow> bool \<times> websocket" where
  "OnReceiveText reader safe_query pl w = Handle reader safe_query (string_of_bytes pl) False w"

definition OnReceiveBinary ::
  "json_reader \<Rightarrow> (string \<Rightarrow> result_rows) \<Rightarrow> bytes \<Rightarrow> websocket \<Rightarrow> bool \<times> websocket" where
  "OnReceiveBinary reader safe_query pl w = OnReceiveText reader safe_query pl w"

section \<open>Frames into packets\<close>

text \<open>
  The result of \<^verbatim>\<open>parse\<close>: the \<^verbatim>\<open>tribool\<close> (\<^const>\<open>None\<close> is \<^verbatim>\<open>indeterminate\<close>) or an exception,
  the bytes consumed, whether \<^verbatim>\<open>keep_alive\<close> was cleared, the new state and the output.
\<close>

datatype verdict = Returned "bool option" | Raised

record parse_result =
  verdict :: verdict
  consumed :: nat
  keep_alive :: bool
  ws_state :: websocket
  ws_output :: "ws_out list"

definition ws_result :: "verdict \<Rightarrow> nat \<Rightarrow> bool \<Rightarrow> websocket \<Rightarrow> ws_out list \<Rightarrow> parse_result" where
  "ws_result v n ka w os =
     \<lparr>verdict = v, consumed = n, keep_alive = ka, ws_state = w, ws_output = os\<rparr>"

text \<open>The packet is complete: what \<^verbatim>\<open>parse\<close> does by the opcode of its first frame.\<close>

definition dispatch_packet ::
  "json_reader \<Rightarrow> (string \<Rightarrow> result_rows) \<Rightarrow> nat \<Rightarrow> bool \<Rightarrow> websocket \<Rightarrow> parse_result" where
  "dispatch_packet reader safe_query n ka w =
     (if last_opcode w = opcode_continuation then ws_result (Returned (Some False)) n ka w []
      else if last_opcode w = opcode_text then
        (case OnReceiveText reader safe_query (packet_data w) w of
           (exn, w') \<Rightarrow> ws_result (if exn then Raised else Returned (Some True)) n ka w' [])
      else if last_opcode w = opcode_binary then
        (case OnReceiveBinary reader safe_query (packet_data w) w of
           (exn, w') \<Rightarrow> ws_result (if exn then Raised else Returned (Some True)) n ka w' [])
      else if last_opcode w = opcode_close then
        ws_result (Returned (Some False)) n False w (SendClose [])
      else if last_opcode w = opcode_ping then
        ws_result (Returned (Some False)) n ka w (SendPong (packet_data w))
      else if last_opcode w = opcode_pong then
        ws_result (Returned (Some False)) n ka (OnPong (packet_data w) w) []
      else ws_result (Returned (Some False)) n ka (w\<lparr>start_new_packet := False\<rparr>) [])"

definition add_frame :: "frame \<Rightarrow> websocket \<Rightarrow> websocket" where
  "add_frame f w =
     (let w1 = (if start_new_packet w then w\<lparr>packet_data := [], last_opcode := f_opcode f\<rparr> else w)
      in w1\<lparr>packet_data := packet_data w1 @ payload f\<rparr>)"

definition ws_parse ::
  "json_reader \<Rightarrow> (string \<Rightarrow> result_rows) \<Rightarrow> bytes \<Rightarrow> bool \<Rightarrow> websocket \<Rightarrow> parse_result" where
  "ws_parse reader safe_query buf ka w =
     (case Parse buf of
        None \<Rightarrow> ws_result (Returned None) 0 ka w []
      | Some f \<Rightarrow>
          let w1 = add_frame f w
          in if fin f then
               dispatch_packet reader safe_query (bytes_consumed f) ka (w1\<lparr>start_new_packet := True\<rparr>)
             else ws_result (Returned (Some False)) (bytes_consumed f) ka
                    (w1\<lparr>start_new_packet := False\<rparr>) [])"

section \<open>Database updates\<close>

text \<open>
  Storing a member of a JSON object: it replaces one of the same name.  The order of members is
  the writer's and no reader depends on it.
\<close>

fun json_set :: "string \<Rightarrow> cell \<Rightarrow> item \<Rightarrow> item" where
  "json_set k v [] = [(k, v)]"
| "json_set k v ((k', v') # t) = (if k = k' then (k, v) # t else (k', v') # json_set k v t)"

definition doc_set :: "string \<Rightarrow> string \<Rightarrow> cell \<Rightarrow> push_doc \<Rightarrow> push_doc" where
  "doc_set t k v d =
     d\<lparr>doc_rows := Some (t, json_set k v (case doc_rows d of None \<Rightarrow> [] | Some (_, r) \<Rightarrow> r))\<rparr>"

definition new_doc :: push_doc where
  "new_doc = \<lparr>doc_Count = 1, doc_rows = None\<rparr>"

text \<open>
  The loop over the columns.  \<^const>\<open>None\<close> is the read of a \<^verbatim>\<open>m_Values\<close> or \<^verbatim>\<open>m_ColumnTypes\<close>
  element that does not exist, which is undefined behaviour.
\<close>

fun eligible_cols :: "string list \<Rightarrow> string \<Rightarrow> string list \<Rightarrow> string list \<Rightarrow> string list
    \<Rightarrow> push_doc \<Rightarrow> push_doc option" where
  "eligible_cols vf t [] types values d = Some d"
| "eligible_cols vf t (c # cs) (ty # types) (v # values) d =
     eligible_cols vf t cs types values
       (if c \<in> set vf
        then doc_set t c (if ty = ''INTEGER'' then CInt (atoi v) else CStr v) d
        else d)"
| "eligible_cols vf t (c # cs) types values d =
     (if c \<in> set vf then None else eligible_cols vf t cs (tl types) (tl values) d)"

definition update_doc :: "string list \<Rightarrow> string \<Rightarrow> update_entry \<Rightarrow> push_doc option" where
  "update_doc vf t e =
     (if m_Columns e \<noteq> [] then
        eligible_cols vf t (m_Columns e) (m_ColumnTypes e) (m_Values e) new_doc
      else Some (doc_set t (m_Table e @ ''ID'') (CInt (m_RowIdx e * -1)) new_doc))"

fun first_subscription :: "string \<Rightarrow> subscription list \<Rightarrow> subscription option" where
  "first_subscription t [] = None"
| "first_subscription t (s # ss) = (if sTable s = t then Some s else first_subscription t ss)"

text \<open>
  \<^verbatim>\<open>DatabaseUpdate\<close>: only the first subscription to the table counts (the loop breaks).  It is
  a slot connected by \<^verbatim>\<open>Start\<close> and disconnected by \<^verbatim>\<open>Stop\<close>.
\<close>

definition DatabaseUpdate :: "update_entry \<Rightarrow> websocket \<Rightarrow> ws_out list option" where
  "DatabaseUpdate e w =
     (let t = m_Table e @ ''s''
      in case first_subscription t (vSubscriptions w) of
           None \<Rightarrow> Some []
         | Some s \<Rightarrow> map_option (\<lambda>d. [WriteText d]) (update_doc (vFields s) t e))"

definition publish_to :: "update_entry \<Rightarrow> websocket \<Rightarrow> ws_out list option" where
  "publish_to e w = (if m_Subscriber w then DatabaseUpdate e w else Some [])"


section \<open>Frame reassembly\<close>

lemma ws_result_simps [simp]:
  "verdict (ws_result v n ka w os) = v" "consumed (ws_result v n ka w os) = n"
  "keep_alive (ws_result v n ka w os) = ka" "ws_state (ws_result v n ka w os) = w"
  "ws_output (ws_result v n ka w os) = os"
  by (simp_all add: ws_result_def)

text \<open>Receiving a list of buffers, one frame each; output is collected.\<close>

fun ws_feed ::
  "json_reader \<Rightarrow> (string \<Rightarrow> result_rows) \<Rightarrow> bytes list \<Rightarrow> bool \<Rightarrow> websocket
     \<Rightarrow> bool \<times> websocket \<times> ws_out list" where
  "ws_feed reader safe_query [] ka w = (ka, w, [])"
| "ws_feed reader safe_query (b # bs) ka w =
     (let r = ws_parse reader safe_query b ka w;
          (ka', w', os) = ws_feed reader safe_query bs (keep_alive r) (ws_state r)
      in (ka', w', ws_output r @ os))"

lemma ws_parse_fragment:
  "Parse buf = Some f \<Longrightarrow> \<not> fin f \<Longrightarrow>
   ws_parse reader safe_query buf ka w =
     ws_result (Returned (Some False)) (bytes_consumed f) ka
       ((add_frame f w)\<lparr>start_new_packet := False\<rparr>) []"
  by (simp add: ws_parse_def Let_def)

lemma ws_parse_final:
  "Parse buf = Some f \<Longrightarrow> fin f \<Longrightarrow>
   ws_parse reader safe_query buf ka w =
     dispatch_packet reader safe_query (bytes_consumed f) ka
       ((add_frame f w)\<lparr>start_new_packet := True\<rparr>)"
  by (simp add: ws_parse_def Let_def)

lemma add_frame_continue:
  "\<not> start_new_packet w \<Longrightarrow> add_frame f w = w\<lparr>packet_data := packet_data w @ payload f\<rparr>"
  by (simp add: add_frame_def)

lemma add_frame_first:
  "start_new_packet w \<Longrightarrow>
     add_frame f w = w\<lparr>packet_data := payload f, last_opcode := f_opcode f\<rparr>"
  by (simp add: add_frame_def)

lemma ws_feed_middle:
  assumes "list_all2 (\<lambda>b f. Parse b = Some f \<and> \<not> fin f) bs fs" and "\<not> start_new_packet w"
  shows "ws_feed reader safe_query bs ka w =
    (ka, w\<lparr>packet_data := packet_data w @ concat (map payload fs)\<rparr>, [])"
  using assms
proof (induction bs fs arbitrary: w rule: list_all2_induct)
  case (Cons b bs f fs)
  then show ?case
    by (simp add: ws_parse_fragment add_frame_continue)
qed simp

lemma ws_feed_append:
  "ws_feed reader safe_query (bs @ cs) ka w =
     (let (ka1, w1, os1) = ws_feed reader safe_query bs ka w;
          (ka2, w2, os2) = ws_feed reader safe_query cs ka1 w1
      in (ka2, w2, os1 @ os2))"
  by (induction bs arbitrary: ka w) (auto simp: Let_def split: prod.splits)

section \<open>Which columns are sent\<close>

definition entry_cells :: "string list \<Rightarrow> update_entry \<Rightarrow> (string \<times> cell) list" where
  "entry_cells vf e =
     map (\<lambda>(c, ty, v). (c, if ty = ''INTEGER'' then CInt (atoi v) else CStr v))
       (filter (\<lambda>(c, ty, v). c \<in> set vf)
         (zip (m_Columns e) (zip (m_ColumnTypes e) (m_Values e))))"

fun json_sets :: "(string \<times> cell) list \<Rightarrow> item \<Rightarrow> item" where
  "json_sets [] t = t"
| "json_sets ((k, v) # kvs) t = json_sets kvs (json_set k v t)"

lemma map_of_json_set: "map_of (json_set k v t) = (map_of t)(k \<mapsto> v)"
  by (induction k v t rule: json_set.induct) auto

lemma map_of_json_sets: "map_of (json_sets kvs t) = map_of t ++ map_of (rev kvs)"
  by (induction kvs t rule: json_sets.induct) (auto simp: map_of_json_set map_add_def fun_eq_iff
      split: option.splits)

definition doc_cells :: "string \<Rightarrow> (string \<times> cell) list \<Rightarrow> push_doc \<Rightarrow> push_doc" where
  "doc_cells t kvs d =
     (if kvs = [] then d
      else d\<lparr>doc_rows := Some (t, json_sets kvs (case doc_rows d of None \<Rightarrow> [] | Some (_, r) \<Rightarrow> r))\<rparr>)"

lemma doc_cells_Cons: "doc_cells t ((k, v) # kvs) d = doc_cells t kvs (doc_set t k v d)"
  by (simp add: doc_cells_def doc_set_def)

lemma eligible_cols_aligned:
  assumes "length cs = length tys" and "length tys = length vs"
  shows "eligible_cols vf t cs tys vs d = Some (doc_cells t
    (map (\<lambda>(c, ty, v). (c, if ty = ''INTEGER'' then CInt (atoi v) else CStr v))
      (filter (\<lambda>(c, ty, v). c \<in> set vf) (zip cs (zip tys vs)))) d)"
  using assms
proof (induction cs tys vs arbitrary: d rule: list_induct3)
  case Nil
  then show ?case by (simp add: doc_cells_def)
qed (auto simp: doc_cells_Cons)

lemma update_doc_columns:
  assumes "columns_aligned e" and "m_Columns e \<noteq> []"
  shows "update_doc vf t e = Some (doc_cells t (entry_cells vf e) new_doc)"
  using assms eligible_cols_aligned [of "m_Columns e" "m_ColumnTypes e" "m_Values e" vf t new_doc]
  by (simp add: update_doc_def columns_aligned_def entry_cells_def)

lemma update_doc_delete:
  "m_Columns e = [] \<Longrightarrow>
   update_doc vf t e = Some \<lparr>doc_Count = 1, doc_rows = Some (t, [(m_Table e @ ''ID'', CInt (- m_RowIdx e))])\<rparr>"
  by (simp add: update_doc_def doc_set_def new_doc_def)


section \<open>A connection over its life\<close>

text \<open>
  The states a connection's web socket goes through while the database stays as it is:
  data arrives, the connection starts and stops listening.
\<close>

inductive ws_reach :: "json_reader \<Rightarrow> (string \<Rightarrow> result_rows) \<Rightarrow> websocket \<Rightarrow> bool"
  for reader safe_query where
  init: "ws_reach reader safe_query CWebsocket"
| started: "ws_reach reader safe_query w \<Longrightarrow> ws_reach reader safe_query (ws_Start w)"
| stopped: "ws_reach reader safe_query w \<Longrightarrow> ws_reach reader safe_query (ws_Stop w)"
| received: "ws_reach reader safe_query w \<Longrightarrow>
    ws_reach reader safe_query (ws_state (ws_parse reader safe_query buf ka w))"

definition sub_authorised :: "(string \<Rightarrow> result_rows) \<Rightarrow> subscription \<Rightarrow> bool" where
  "sub_authorised safe_query s =
     (let t = sTable s;
          (ok, d) = UserHasAccess safe_query (new_data_access ''Admin'' (substr t 0 (length t - 1)) ''GET'')
      in t \<noteq> [] \<and> ok \<and> vFields s = GetValidFields (StripForbiddenFields d))"

definition ws_inv :: "(string \<Rightarrow> result_rows) \<Rightarrow> websocket \<Rightarrow> bool" where
  "ws_inv safe_query w \<longleftrightarrow>
     ws_User w = ''Admin'' \<and> list_all (sub_authorised safe_query) (vSubscriptions w)"

lemma ws_inv_cong:
  "ws_User w' = ws_User w \<Longrightarrow> vSubscriptions w' = vSubscriptions w \<Longrightarrow>
   ws_inv safe_query w' = ws_inv safe_query w"
  by (simp add: ws_inv_def)

lemma erase_first_subset: "set (erase_first t ss) \<subseteq> set ss"
  by (induction t ss rule: erase_first.induct) auto

lemma ws_inv_unsubscribe: "ws_inv sq w \<Longrightarrow> ws_inv sq (handle_unsubscribe t w)"
  using erase_first_subset [of t "vSubscriptions w"]
  by (auto simp: ws_inv_def handle_unsubscribe_def list_all_iff)

lemma ws_inv_subscribe: "ws_inv sq w \<Longrightarrow> ws_inv sq (handle_subscribe sq t w)"
  by (auto simp: ws_inv_def handle_subscribe_def sub_authorised_def split: prod.splits bool.splits)

lemma ws_inv_Handle: "ws_inv sq w \<Longrightarrow> ws_inv sq (snd (Handle reader sq p out w))"
  by (auto simp: Handle_def Let_def ws_inv_unsubscribe ws_inv_subscribe split: option.splits)

lemma ws_inv_dispatch:
  "ws_inv sq w \<Longrightarrow> ws_inv sq (ws_state (dispatch_packet reader sq n ka w))"
  using ws_inv_Handle [of sq w reader "string_of_bytes (packet_data w)" False]
  by (auto simp: dispatch_packet_def OnReceiveBinary_def OnReceiveText_def OnPong_def split_beta
      ws_inv_cong [of "w\<lparr>start_new_packet := False\<rparr>" w])

lemma ws_inv_parse: "ws_inv sq w \<Longrightarrow> ws_inv sq (ws_state (ws_parse reader sq buf ka w))"
  by (auto simp: ws_parse_def add_frame_def Let_def split: option.splits
      intro!: ws_inv_dispatch) (simp_all add: ws_inv_def)

lemma ws_reach_inv: "ws_reach reader sq w \<Longrightarrow> ws_inv sq w"
proof (induction rule: ws_reach.induct)
  case init
  then show ?case by (simp add: ws_inv_def CWebsocket_def)
next
  case (started w)
  then show ?case by (simp add: ws_inv_def ws_Start_def)
next
  case (stopped w)
  then show ?case by (simp add: ws_inv_def ws_Stop_def)
next
  case (received w buf ka)
  then show ?case by (intro ws_inv_parse)
qed

lemma first_subscription_SomeD:
  "first_subscription t ss = Some s \<Longrightarrow> s \<in> set ss \<and> sTable s = t"
  by (induction t ss rule: first_subscription.induct) (auto split: if_splits)

lemma entry_cells_keys: "fst ` set (entry_cells vf e) \<subseteq> set vf"
  by (auto simp: entry_cells_def)

lemma json_sets_keys: "fst ` set (json_sets kvs []) \<subseteq> fst ` set kvs"
proof -
  have "dom (map_of (json_sets kvs [])) \<subseteq> dom (map_of (rev kvs))"
    by (simp add: map_of_json_sets)
  then show ?thesis by (simp add: dom_map_of_conv_image_fst)
qed

lemma no_entry_cells:
  assumes "columns_aligned e" and "entry_cells vf e = []"
  shows "set (m_Columns e) \<inter> set vf = {}"
proof -
  let ?z = "zip (m_Columns e) (zip (m_ColumnTypes e) (m_Values e))"
  have "map fst ?z = m_Columns e"
    using assms(1) by (simp add: columns_aligned_def)
  then have "set (m_Columns e) = fst ` set ?z" by (metis set_map)
  moreover have "\<forall>x \<in> set ?z. fst x \<notin> set vf"
    using assms(2) by (simp add: entry_cells_def filter_empty_conv split_beta)
  ultimately show ?thesis by auto
qed

section \<open>Properties\<close>

text \<open>C6: A message sent in fragments is reassembled: whatever arrives in a first
  frame, any number of middle frames and a final frame, the packet handed to the dispatcher is
  the concatenation of the payloads, under the opcode of the first frame; before that nothing is
  sent, and then the connection is ready for the next packet.\<close>

theorem fragments_reassembled:
  assumes "start_new_packet w" and "Parse b0 = Some f0" and "\<not> fin f0"
    and "list_all2 (\<lambda>b f. Parse b = Some f \<and> \<not> fin f) bs fs"
    and "Parse bn = Some fn" and "fin fn"
  shows "ws_feed reader sq (b0 # bs @ [bn]) ka w =
    (let r = dispatch_packet reader sq (bytes_consumed fn) ka
           (w\<lparr>last_opcode := f_opcode f0,
              packet_data := payload f0 @ concat (map payload fs) @ payload fn,
              start_new_packet := True\<rparr>)
     in (keep_alive r, ws_state r, ws_output r))"
  using assms ws_feed_middle [OF assms(4), where reader = reader and safe_query = sq]
  by (simp add: ws_parse_fragment ws_parse_final ws_feed_append add_frame_first
      add_frame_continue Let_def)

theorem fragments_reassembled_witness:
  "packet_data (fst (snd (ws_feed (\<lambda>_. None) (\<lambda>_. [])
     [[0x01, 1, 0x61], [0x00, 2, 0x62, 0x63], [0x80, 1, 0x64]] True CWebsocket))) =
   [0x61, 0x62, 0x63, 0x64]"
proof -
  have p: "Parse [0x01, 1, 0x61] = Some (parsed_frame [0x01, 1, 0x61])"
    "Parse [0x00, 2, 0x62, 0x63] = Some (parsed_frame [0x00, 2, 0x62, 0x63])"
    "Parse [0x80, 1, 0x64] = Some (parsed_frame [0x80, 1, 0x64])"
    by code_simp+
  have n: "\<not> fin (parsed_frame [0x01, 1, 0x61])" "\<not> fin (parsed_frame [0x00, 2, 0x62, 0x63])"
    "fin (parsed_frame [0x80, 1, 0x64])" "start_new_packet CWebsocket"
    by code_simp+
  have "list_all2 (\<lambda>b f. Parse b = Some f \<and> \<not> fin f) [[0x00, 2, 0x62, 0x63]]
      [parsed_frame [0x00, 2, 0x62, 0x63]]"
    using p n by simp
  note r = fragments_reassembled [OF n(4) p(1) n(1) this p(3) n(3), of "\<lambda>_. None" "\<lambda>_. []" True]
  show ?thesis using r by (simp only: append_Cons append_Nil) code_simp
qed

text \<open>Every ping is answered: a masked ping frame that arrives between packets makes
  the server send one frame, which parses as an unmasked final pong with the same payload; the
  subscriptions and the connection stay as they are.\<close>

theorem ping_answered:
  assumes "start_new_packet w" and "length pl < 2 ^ 63" and "length k = 4"
  shows "let r = ws_parse reader sq (Create opcode_ping pl (Some k) @ rest) ka w in
    keep_alive r = ka \<and> vSubscriptions (ws_state r) = vSubscriptions w \<and>
    start_new_packet (ws_state r) \<and>
    consumed r = length (Create opcode_ping pl (Some k)) \<and>
    (\<exists>out f. ws_output r = [WriteFrame out] \<and> Parse out = Some f \<and> f_opcode f = opcode_pong \<and>
       payload f = pl \<and> fin f \<and> \<not> masking f)"
proof -
  obtain f where f: "Parse (Create opcode_ping pl (Some k) @ rest) = Some f" "payload f = pl"
      "f_opcode f = opcode_ping" "fin f" "bytes_consumed f = length (Create opcode_ping pl (Some k))"
    using Parse_Create [of opcode_ping pl "Some k" rest] assms by (auto simp: opcode_defs key_ok_def)
  obtain g where "Parse (Create opcode_pong pl None) = Some g" "payload g = pl"
      "f_opcode g = opcode_pong" "fin g" "\<not> masking g"
    using Parse_Create [of opcode_pong pl None "[]"] assms by (auto simp: opcode_defs key_ok_def)
  with f assms(1) show ?thesis
    by (simp add: ws_parse_final add_frame_first dispatch_packet_def SendPong_def Let_def)
      (simp add: opcode_defs)
qed

theorem ping_answered_witness:
  "let r = ws_parse (\<lambda>_. None) (\<lambda>_. []) (Create opcode_ping [0x41] (Some [1, 2, 3, 4]) @ [7]) True
         CWebsocket
   in consumed r = 7 \<and> (\<exists>out f. ws_output r = [WriteFrame out] \<and> Parse out = Some f \<and>
        f_opcode f = opcode_pong \<and> payload f = [0x41])"
  using ping_answered [of CWebsocket "[0x41]" "[1, 2, 3, 4]" "\<lambda>_. None" "\<lambda>_. []" "[7]" True]
  by (auto simp: CWebsocket_def Let_def Create_eq len_bytes_def masked_def)

text \<open>C7: Over the whole life of a connection, only tables the user may read are
  subscribed: every subscription was made for a non-empty name whose table grants GET, and its
  field list is what is left of the table's columns after the forbidden ones were stripped.\<close>

theorem subscriptions_authorised:
  assumes "ws_reach reader sq w" and "s \<in> set (vSubscriptions w)"
  shows "sTable s \<noteq> [] \<and>
    (\<exists>d. UserHasAccess sq
           (new_data_access ''Admin'' (substr (sTable s) 0 (length (sTable s) - 1)) ''GET'') = (True, d) \<and>
         vFields s = GetValidFields (StripForbiddenFields d))"
proof -
  have "sub_authorised sq s"
    using ws_reach_inv [OF assms(1)] assms(2) by (simp add: ws_inv_def list_all_iff)
  then show ?thesis
    unfolding sub_authorised_def Let_def
    by (cases "UserHasAccess sq
      (new_data_access ''Admin'' (substr (sTable s) 0 (length (sTable s) - 1)) ''GET'')") auto
qed

text \<open>A reader and a database for the examples: every message subscribes to \<^verbatim>\<open>Users\<close>.\<close>

definition example_reader :: json_reader where
  "example_reader = (\<lambda>p. Some (\<lambda>k. Some (if k = ''subscribe'' then ''Users'' else [])))"

definition example_db :: "string \<Rightarrow> result_rows" where
  "example_db = (\<lambda>q. if q = table_info_query ''User''
     then [[''0'', ''UserID'', ''INTEGER''], [''1'', ''Username'', ''TEXT''],
           [''2'', ''Password'', ''TEXT'']]
     else [[''1'', ''*'', ''*'', ''Password'']])"

theorem subscriptions_authorised_witness:
  "\<exists>s. vSubscriptions (ws_state (ws_parse example_reader example_db [0x81, 1, 0x78] True CWebsocket)) = [s] \<and>
     vFields s = [''UserID'', ''Username''] \<and>
     fst (UserHasAccess example_db
       (new_data_access ''Admin'' (substr (sTable s) 0 (length (sTable s) - 1)) ''GET''))"
proof -
  define w where "w = ws_state (ws_parse example_reader example_db [0x81, 1, 0x78] True CWebsocket)"
  have reach: "ws_reach example_reader example_db w"
    unfolding w_def by (intro ws_reach.intros)
  have subs: "vSubscriptions w = [\<lparr>sTable = ''Users'', vFields = [''UserID'', ''Username'']\<rparr>]"
    unfolding w_def by code_simp
  obtain d where "UserHasAccess example_db
      (new_data_access ''Admin'' (substr ''Users'' 0 (length ''Users'' - 1)) ''GET'') = (True, d)"
    using subscriptions_authorised [OF reach, of "\<lparr>sTable = ''Users'', vFields = [''UserID'', ''Username'']\<rparr>"]
    by (auto simp: subs)
  then show ?thesis using subs by (simp add: w_def)
qed

text \<open>C8: A pushed row never holds a column outside the field list of the
  subscription it is sent for, and it holds exactly the eligible columns of the change, each with
  the value the hook recorded (the last one, were a name to occur twice).\<close>

theorem pushed_columns_exact:
  assumes "columns_aligned e" and "m_Columns e \<noteq> []"
    and "first_subscription (m_Table e @ ''s'') (vSubscriptions w) = Some s"
  shows "\<exists>d. DatabaseUpdate e w = Some [WriteText d] \<and> doc_Count d = 1 \<and>
    (case doc_rows d of
       None \<Rightarrow> set (m_Columns e) \<inter> set (vFields s) = {}
     | Some (t, row) \<Rightarrow> t = m_Table e @ ''s'' \<and> fst ` set row \<subseteq> set (vFields s) \<and>
         map_of row = map_of (rev (entry_cells (vFields s) e)))"
proof (cases "entry_cells (vFields s) e = []")
  case True
  then show ?thesis
    using update_doc_columns [OF assms(1,2)] no_entry_cells [OF assms(1) True] assms(3)
    by (simp add: DatabaseUpdate_def doc_cells_def new_doc_def)
next
  case False
  have "fst ` set (json_sets (entry_cells (vFields s) e) []) \<subseteq> set (vFields s)"
    by (rule subset_trans [OF json_sets_keys entry_cells_keys])
  with False show ?thesis
    using update_doc_columns [OF assms(1,2)] assms(3)
    by (simp add: DatabaseUpdate_def doc_cells_def new_doc_def map_of_json_sets)
qed


theorem pushed_columns_exact_witness:
  "\<exists>d row. DatabaseUpdate
       \<lparr>m_Action = ''Update'', m_Table = ''User'', m_RowIdx = 3, m_Columns = [''UserID'', ''Password''],
         m_ColumnTypes = [''INTEGER'', ''TEXT''], m_Values = [''3'', ''secret'']\<rparr>
       (CWebsocket\<lparr>vSubscriptions := [\<lparr>sTable = ''Users'', vFields = [''UserID'']\<rparr>]\<rparr>) = Some [WriteText d] \<and>
     doc_rows d = Some (''Users'', row) \<and> fst ` set row \<subseteq> {''UserID''} \<and>
     map_of row ''UserID'' = Some (CInt 3)"
proof -
  let ?e = "\<lparr>m_Action = ''Update'', m_Table = ''User'', m_RowIdx = 3, m_Columns = [''UserID'', ''Password''],
    m_ColumnTypes = [''INTEGER'', ''TEXT''], m_Values = [''3'', ''secret'']\<rparr>"
  let ?s = "\<lparr>sTable = ''Users'', vFields = [''UserID'']\<rparr>"
  have cells: "entry_cells [''UserID''] ?e = [(''UserID'', CInt 3)]" by code_simp
  have "columns_aligned ?e" "m_Columns ?e \<noteq> []"
    "first_subscription (m_Table ?e @ ''s'') (vSubscriptions (CWebsocket\<lparr>vSubscriptions := [?s]\<rparr>)) = Some ?s"
    by (simp_all add: columns_aligned_def)
  from pushed_columns_exact [OF this] show ?thesis
    by (auto simp: cells split: option.splits)
qed

end
