(* ===== verification/PushSync.thy ===== *)
theory PushSync
  imports Websocket
begin

text \<open>
  The push path end to end: a database change, the update hook, the publisher's queue, the web
  socket of a browser and the list of rows a page shows.  The specification is the finite map of
  \<^verbatim>\<open>RowStore\<close>; the theorem says that the page is a view of the table, delayed by what is still
  queued.

  The database is a finite map from keys to rows.  That the hook's \<^verbatim>\<open>SELECT\<close> returns the row as
  it is after the change is what the code relies on; it is the definition \<open>db_select\<close>.
\<close>

type_synonym db_row = "sql_col list"
type_synonym db_table = "int \<Rightarrow> db_row option"

text \<open>
  A row of table \<open>T\<close>: its first column is the integer key \<^verbatim>\<open>TID\<close>, a positive 32-bit number, and
  no two columns have the same name.
\<close>

definition row_admits :: "string \<Rightarrow> int \<Rightarrow> db_row \<Rightarrow> bool" where
  "row_admits T k r \<longleftrightarrow>
     0 < k \<and> k < 2 ^ 31 \<and> distinct (map col_name r) \<and>
     r \<noteq> [] \<and> hd r = \<lparr>col_name = T @ ''ID'', col_is_integer = True, col_text = Some (int_to_string k)\<rparr>"

text \<open>The row as a page sees it, given the fields of the subscription.\<close>

definition col_cell :: "sql_col \<Rightarrow> cell" where
  "col_cell c = (if col_is_integer c then CInt (atoi (text_of c)) else CStr (text_of c))"

definition row_item :: "string list \<Rightarrow> db_row \<Rightarrow> item" where
  "row_item vf r =
     json_sets (map (\<lambda>c. (col_name c, col_cell c)) (filter (\<lambda>c. col_name c \<in> set vf) r)) []"

definition table_view :: "string list \<Rightarrow> db_table \<Rightarrow> int \<Rightarrow> item option" where
  "table_view vf db = (\<lambda>k. map_option (row_item vf) (db k))"

section \<open>The system\<close>

definition db_select :: "string \<Rightarrow> db_table \<Rightarrow> string \<Rightarrow> int \<Rightarrow> db_row list option" where
  "db_select T db t k =
     (if t = T then Some (case db k of None \<Rightarrow> [] | Some r \<Rightarrow> [r]) else None)"

definition change_action :: "db_table \<Rightarrow> db_row change \<Rightarrow> int" where
  "change_action db c = (case c of
      Put k r \<Rightarrow> if db k = None then SQLITE_INSERT else SQLITE_UPDATE
    | Del k \<Rightarrow> SQLITE_DELETE)"

text \<open>What the browser receives of a document: the text parses to the members written.\<close>

definition doc_msg :: "push_doc \<Rightarrow> push_msg" where
  "doc_msg d = (case doc_rows d of None \<Rightarrow> [] | Some (t, row) \<Rightarrow> [(t, [row])])"

fun receive :: "shared_ws \<Rightarrow> item list \<Rightarrow> ws_out \<Rightarrow> item list" where
  "receive page items (WriteFrame f) = items"
| "receive page items (WriteText d) =
     (case on_message page items (doc_msg d) of Inr (Merged i s) \<Rightarrow> i | _ \<Rightarrow> items)"

definition deliver :: "shared_ws \<Rightarrow> websocket \<Rightarrow> item list \<Rightarrow> update_entry \<Rightarrow> item list" where
  "deliver page w items e =
     (case publish_to e w of None \<Rightarrow> items | Some outs \<Rightarrow> foldl (receive page) items outs)"

datatype push_event = Change "db_row change" | Publish

record push_sys =
  sys_db :: db_table
  sys_queue :: "update_entry list"
  sys_page :: "item list"

fun sys_step :: "string \<Rightarrow> shared_ws \<Rightarrow> websocket \<Rightarrow> push_sys \<Rightarrow> push_event \<Rightarrow> push_sys" where
  "sys_step T page w s (Change c) =
     (let db' = spec_change (sys_db s) c
      in s\<lparr>sys_db := db',
           sys_queue := callback (db_select T db') (sys_queue s) (change_action (sys_db s) c) True T
             (change_key c)\<rparr>)"
| "sys_step T page w s Publish =
     (case Do_Work_round (sys_queue s) of
        (None, q) \<Rightarrow> s\<lparr>sys_queue := q\<rparr>
      | (Some e, q) \<Rightarrow> s\<lparr>sys_queue := q, sys_page := deliver page w (sys_page s) e\<rparr>)"

definition sys_run ::
  "string \<Rightarrow> shared_ws \<Rightarrow> websocket \<Rightarrow> push_sys \<Rightarrow> push_event list \<Rightarrow> push_sys" where
  "sys_run T page w = foldl (sys_step T page w)"

fun changes :: "push_event list \<Rightarrow> db_row change list" where
  "changes [] = []"
| "changes (Change c # es) = c # changes es"
| "changes (Publish # es) = changes es"

section \<open>One change through the parts\<close>

text \<open>The entry the hook queues for a change (its action name is not used further on).\<close>

definition entry_for :: "string \<Rightarrow> db_row change \<Rightarrow> update_entry \<Rightarrow> bool" where
  "entry_for T c e \<longleftrightarrow>
     m_Table e = T \<and> m_RowIdx e = change_key c \<and>
     (case c of
        Put k r \<Rightarrow> m_Columns e = map col_name r \<and> m_ColumnTypes e = map type_of r \<and>
          m_Values e = map text_of r
      | Del k \<Rightarrow> m_Columns e = [])"

lemma callback_entry:
  assumes "legal_change (row_admits T) db c"
  shows "\<exists>e. callback (db_select T (spec_change db c)) q (change_action db c) True T (change_key c) =
    q @ [e] \<and> entry_for T c e"
proof (cases c)
  case (Put k r)
  with assms have "key_present r" by (auto simp: row_admits_def key_present_def)
  then show ?thesis
    by (auto simp: Put callback_def change_action_def SQLITE_INSERT_def SQLITE_UPDATE_def
        SQLITE_DELETE_def db_select_def load_cols_key entry_for_def new_update_entry_def Let_def)
next
  case (Del k)
  then show ?thesis
    by (simp add: callback_def change_action_def SQLITE_DELETE_def entry_for_def
        new_update_entry_def Let_def)
qed

lemma entry_cells_row:
  assumes "m_Columns e = map col_name r" "m_ColumnTypes e = map type_of r"
    and "m_Values e = map text_of r"
  shows "entry_cells vf e = map (\<lambda>c. (col_name c, col_cell c)) (filter (\<lambda>c. col_name c \<in> set vf) r)"
  unfolding entry_cells_def assms by (induction r) (auto simp: col_cell_def type_of_def)

lemma map_of_rev_distinct: "distinct (map fst xs) \<Longrightarrow> map_of (rev xs) = map_of xs"
proof (rule ext)
  fix k assume d: "distinct (map fst xs)"
  then have r: "distinct (map fst (rev xs))" by (simp add: rev_map [symmetric])
  show "map_of (rev xs) k = map_of xs k"
  proof (cases "map_of xs k")
    case None
    then have "map_of (rev xs) k = None" by (simp add: map_of_eq_None_iff)
    with None show ?thesis by simp
  next
    case (Some v)
    with d r show ?thesis by (metis map_of_SomeD map_of_eq_Some_iff set_rev)
  qed
qed

lemma distinct_filter_names:
  "distinct (map col_name r) \<Longrightarrow>
   distinct (map fst (map (\<lambda>c. (col_name c, g c)) (filter P r)))"
  by (simp add: comp_def distinct_map_filter)

lemma row_item_lookup:
  assumes "distinct (map col_name r)"
  shows "map_of (row_item vf r) =
    map_of (map (\<lambda>c. (col_name c, col_cell c)) (filter (\<lambda>c. col_name c \<in> set vf) r))"
  using map_of_rev_distinct [OF distinct_filter_names [OF assms, of col_cell]]
  by (simp add: row_item_def map_of_json_sets)

lemma row_item_key:
  assumes "row_admits T k r" and "T @ ''ID'' \<in> set vf"
  shows "map_of (row_item vf r) (T @ ''ID'') = Some (CInt k)"
proof -
  obtain cs where r: "r = \<lparr>col_name = T @ ''ID'', col_is_integer = True,
      col_text = Some (int_to_string k)\<rparr> # cs"
    using assms(1) by (cases r) (auto simp: row_admits_def)
  have "atoi (int_to_string k) = k"
    using assms(1) by (intro atoi_int_to_string) (auto simp: row_admits_def)
  moreover have "distinct (map col_name r)" using assms(1) by (simp add: row_admits_def)
  ultimately show ?thesis
    using assms(2) by (simp add: row_item_lookup) (simp add: r col_cell_def text_of_def)
qed

text \<open>A page of the table: it listens to \<^verbatim>\<open>Ts\<close> and knows its rows by \<^verbatim>\<open>TID\<close>.\<close>

definition page_of :: "string \<Rightarrow> shared_ws \<Rightarrow> bool" where
  "page_of T page \<longleftrightarrow> targetName page = T @ ''s'' \<and> idProp page = T @ ''ID'' \<and> shows_all page"

text \<open>The connection is subscribed to the table, and the key is among the fields.\<close>

definition subscribed :: "string \<Rightarrow> websocket \<Rightarrow> string list \<Rightarrow> bool" where
  "subscribed T w vf \<longleftrightarrow> m_Subscriber w \<and> T @ ''ID'' \<in> set vf \<and>
     first_subscription (T @ ''s'') (vSubscriptions w) = Some \<lparr>sTable = T @ ''s'', vFields = vf\<rparr>"

lemma row_item_for:
  "page_of T page \<Longrightarrow> T @ ''ID'' \<in> set vf \<Longrightarrow> row_admits T k r \<Longrightarrow> row_for page k (row_item vf r)"
  by (simp add: row_for_def getID_def js_prop_def row_item_key page_of_def)
    (simp add: row_admits_def)

lemma receive_change:
  "doc_msg d = change_msg page c \<Longrightarrow> receive page items (WriteText d) = page_change page items c"
  by (simp add: page_change_def)

lemma deliver_entry:
  assumes "page_of T page" and "subscribed T w vf" and "entry_for T c e"
    and "\<And>k r. c = Put k r \<Longrightarrow> row_admits T k r"
  shows "deliver page w items e = page_change page items (map_change (row_item vf) c)"
proof -
  have e: "m_Table e = T" "m_RowIdx e = change_key c" using assms(3) by (auto simp: entry_for_def)
  have pub: "publish_to e w = map_option (\<lambda>d. [WriteText d]) (update_doc vf (T @ ''s'') e)"
    using assms(2) by (simp add: publish_to_def DatabaseUpdate_def subscribed_def e)
  show ?thesis
  proof (cases c)
    case (Put k r)
    then have cols: "m_Columns e = map col_name r" "m_ColumnTypes e = map type_of r"
        "m_Values e = map text_of r" and adm: "row_admits T k r"
      using assms(3,4) by (auto simp: entry_for_def)
    have "r \<noteq> []" using adm by (simp add: row_admits_def)
    moreover have "entry_cells vf e \<noteq> []"
      using adm assms(2) unfolding entry_cells_row [OF cols]
      by (cases r) (auto simp: row_admits_def subscribed_def)
    ultimately have "update_doc vf (T @ ''s'') e =
        Some \<lparr>doc_Count = 1, doc_rows = Some (T @ ''s'', row_item vf r)\<rparr>"
      using update_doc_columns [of e vf "T @ ''s''"] cols entry_cells_row [OF cols, of vf]
      by (simp add: columns_aligned_def doc_cells_def new_doc_def row_item_def)
    then show ?thesis
      using assms(1) receive_change [of _ page "Put k (row_item vf r)"]
      by (simp add: deliver_def pub Put doc_msg_def change_msg_def page_of_def del: receive.simps)
  next
    case (Del k)
    then have "m_Columns e = []" using assms(3) by (simp add: entry_for_def)
    then show ?thesis
      using assms(1) receive_change [of _ page "Del k"]
      by (simp add: deliver_def pub Del update_doc_delete e doc_msg_def change_msg_def page_of_def
          del: receive.simps)
  qed
qed


section \<open>The invariant\<close>

text \<open>
  The changes made so far are those the page has seen and those still queued, in that order.
\<close>

definition in_sync ::
  "string \<Rightarrow> shared_ws \<Rightarrow> string list \<Rightarrow> db_table \<Rightarrow> db_row change list \<Rightarrow> db_row change list
     \<Rightarrow> push_sys \<Rightarrow> bool" where
  "in_sync T page vf db0 past pending s \<longleftrightarrow>
     sys_db s = foldl spec_change db0 (past @ pending) \<and>
     legal (row_admits T) db0 (past @ pending) \<and>
     list_all2 (entry_for T) pending (sys_queue s) \<and>
     keyed page (sys_page s) \<and>
     page_view page (sys_page s) = table_view vf (foldl spec_change db0 past)"

lemma in_sync_change:
  assumes "in_sync T page vf db0 past pending s" and "legal_change (row_admits T) (sys_db s) c"
  shows "in_sync T page vf db0 past (pending @ [c]) (sys_step T page w s (Change c))"
proof -
  obtain e where "callback (db_select T (spec_change (sys_db s) c)) (sys_queue s)
      (change_action (sys_db s) c) True T (change_key c) = sys_queue s @ [e]" "entry_for T c e"
    using callback_entry [OF assms(2)] by blast
  with assms show ?thesis
    by (auto simp: in_sync_def Let_def legal_append intro: list_all2_appendI)
qed

lemma table_view_change:
  "table_view vf (spec_change db c) = spec_change (table_view vf db) (map_change (row_item vf) c)"
  by (simp add: table_view_def spec_change_map)

lemma legal_row_item:
  assumes "page_of T page" and "T @ ''ID'' \<in> set vf" and "legal_change (row_admits T) db c"
  shows "legal_change (row_for page) (table_view vf db) (map_change (row_item vf) c)"
  using assms by (cases c) (auto simp: row_item_for table_view_def)

lemma in_sync_publish:
  assumes "page_of T page" and "subscribed T w vf" and "in_sync T page vf db0 past (c # cs) s"
  shows "in_sync T page vf db0 (past @ [c]) cs (sys_step T page w s Publish)"
proof -
  obtain e q where q: "sys_queue s = e # q" "entry_for T c e" "list_all2 (entry_for T) cs q"
    using assms(3) by (auto simp: in_sync_def list_all2_Cons1)
  let ?db = "foldl spec_change db0 past"
  have leg: "legal_change (row_admits T) ?db c"
    using assms(3) by (simp add: in_sync_def legal_append)
  then have adm: "\<And>k r. c = Put k r \<Longrightarrow> row_admits T k r" by auto
  have vf: "T @ ''ID'' \<in> set vf" and all: "shows_all page"
    using assms(1,2) by (auto simp: subscribed_def page_of_def)
  have "fst (Do_Work_round (sys_queue s)) = Some e \<and> snd (Do_Work_round (sys_queue s)) = q"
    using update_queue.pop_cons [OF q(1)] by simp
  then have step: "sys_step T page w s Publish =
      s\<lparr>sys_queue := q, sys_page := page_change page (sys_page s) (map_change (row_item vf) c)\<rparr>"
    using deliver_entry [OF assms(1,2) q(2) adm] by (simp add: split_beta)
  have "keyed page (sys_page s)" "page_view page (sys_page s) = table_view vf ?db"
    using assms(3) by (auto simp: in_sync_def)
  then show ?thesis
    using page_change_store [OF all, of "sys_page s" "map_change (row_item vf) c"]
      legal_row_item [OF assms(1) vf leg] q(3) assms(3)
    by (simp add: in_sync_def step table_view_change del: sys_step.simps)
qed

lemma in_sync_idle:
  "in_sync T page vf db0 past [] s \<Longrightarrow> sys_step T page w s Publish = s"
  by (simp add: in_sync_def Do_Work_round_def)

lemma in_sync_run:
  assumes "page_of T page" and "subscribed T w vf"
    and "in_sync T page vf db0 past pending s" and "legal (row_admits T) (sys_db s) (changes es)"
  shows "\<exists>past' pending'. in_sync T page vf db0 past' pending' (sys_run T page w s es) \<and>
    past' @ pending' = past @ pending @ changes es"
  using assms(3,4)
proof (induction es arbitrary: past pending s)
  case Nil
  then show ?case by (auto simp: sys_run_def)
next
  case (Cons ev es)
  show ?case
  proof (cases ev)
    case (Change c)
    with Cons.prems have c: "legal_change (row_admits T) (sys_db s) c"
      and rest: "legal (row_admits T) (sys_db (sys_step T page w s (Change c))) (changes es)"
      by (simp_all add: Let_def)
    show ?thesis
      using Cons.IH [OF in_sync_change [OF Cons.prems(1) c] rest]
      by (simp add: Change sys_run_def)
  next
    case Publish
    then have l: "legal (row_admits T) (sys_db (sys_step T page w s Publish)) (changes es)"
      using Cons.prems(2) by (simp split: option.splits prod.splits)
    show ?thesis
    proof (cases pending)
      case Nil
      then have s: "in_sync T page vf db0 past [] s" using Cons.prems(1) by simp
      from Cons.IH [OF s] l show ?thesis
        by (simp add: sys_run_def Publish Nil in_sync_idle [OF s] del: sys_step.simps)
    next
      case p: (Cons c cs)
      have "in_sync T page vf db0 (past @ [c]) cs (sys_step T page w s Publish)"
        using in_sync_publish [OF assms(1,2)] Cons.prems(1) p by simp
      from Cons.IH [OF this l] show ?thesis
        by (simp add: Publish p sys_run_def del: sys_step.simps)
    qed
  qed
qed

lemma in_sync_drain:
  assumes "page_of T page" and "subscribed T w vf" and "in_sync T page vf db0 past pending s"
  shows "in_sync T page vf db0 (past @ pending) []
    (sys_run T page w s (replicate (length pending) Publish))"
  using assms(3)
proof (induction pending arbitrary: past s)
  case (Cons c cs)
  from Cons.IH [OF in_sync_publish [OF assms(1,2) Cons.prems]] show ?case
    by (simp add: sys_run_def del: sys_step.simps)
qed (simp add: sys_run_def)

lemma in_sync_start:
  assumes "keyed page items" and "page_view page items = table_view vf db0"
  shows "in_sync T page vf db0 [] [] \<lparr>sys_db = db0, sys_queue = [], sys_page = items\<rparr>"
  using assms by (simp add: in_sync_def)

lemma in_sync_from_start:
  assumes "page_of T page" and "subscribed T w vf" and "legal (row_admits T) db0 (changes es)"
    and "keyed page items" and "page_view page items = table_view vf db0"
  obtains past pending where
    "in_sync T page vf db0 past pending
       (sys_run T page w \<lparr>sys_db = db0, sys_queue = [], sys_page = items\<rparr> es)"
    and "past @ pending = changes es"
proof -
  have "legal (row_admits T) (sys_db \<lparr>sys_db = db0, sys_queue = [], sys_page = items\<rparr>) (changes es)"
    using assms(3) by simp
  from in_sync_run [OF assms(1,2) in_sync_start [OF assms(4,5)] this] that show ?thesis by auto
qed

text \<open>An example system: the roles page, a row inserted, renamed and deleted.\<close>

definition example_row :: "string \<Rightarrow> db_row" where
  "example_row n = [\<lparr>col_name = ''RoleID'', col_is_integer = True, col_text = Some (int_to_string 1)\<rparr>,
     \<lparr>col_name = ''Name'', col_is_integer = False, col_text = Some n\<rparr>]"

definition example_ws :: websocket where
  "example_ws = CWebsocket\<lparr>m_Subscriber := True,
     vSubscriptions := [\<lparr>sTable = ''Roles'', vFields = [''RoleID'', ''Name'']\<rparr>]\<rparr>"

definition example_events :: "push_event list" where
  "example_events = [Change (Put 1 (example_row ''a'')), Change (Put 1 (example_row ''b'')), Publish]"

lemma example_hyps:
  "page_of ''Role'' Roles_ws" "subscribed ''Role'' example_ws [''RoleID'', ''Name'']"
  "legal (row_admits ''Role'') Map.empty (changes example_events)"
  "keyed Roles_ws []" "page_view Roles_ws [] = table_view [''RoleID'', ''Name''] Map.empty"
  by (simp_all add: page_of_def Roles_ws_def plain_ws_def shows_all_def subscribed_def example_ws_def
      example_events_def row_admits_def example_row_def table_view_def fun_eq_iff)

section \<open>Properties\<close>

text \<open>C1: At every moment of every interleaving of database changes and publisher rounds,
  the page shows the table as it was after a prefix of the changes; what is missing is exactly
  what is still queued.  No update is lost, doubled or reordered on the way from the SQLite hook
  through the queue, the web socket and the merge in the browser.\<close>

theorem page_shows_prefix:
  assumes "page_of T page" and "subscribed T w vf"
    and "legal (row_admits T) db0 (changes es)"
    and "keyed page items" and "page_view page items = table_view vf db0"
  shows "let s = sys_run T page w \<lparr>sys_db = db0, sys_queue = [], sys_page = items\<rparr> es
    in \<exists>n \<le> length (changes es).
      page_view page (sys_page s) = table_view vf (foldl spec_change db0 (take n (changes es))) \<and>
      length (sys_queue s) = length (changes es) - n \<and> keyed page (sys_page s) \<and>
      sys_db s = foldl spec_change db0 (changes es)"
proof -
  let ?s = "sys_run T page w \<lparr>sys_db = db0, sys_queue = [], sys_page = items\<rparr> es"
  obtain past pending where s: "in_sync T page vf db0 past pending ?s"
    and cs: "past @ pending = changes es"
    by (rule in_sync_from_start [OF assms])
  from cs have "take (length past) (changes es) = past" "length past \<le> length (changes es)"
    "length pending = length (changes es) - length past"
    by (auto simp flip: cs)
  with s cs show ?thesis
    by (auto simp: in_sync_def Let_def dest: list_all2_lengthD intro!: exI [of _ "length past"])
qed

theorem page_shows_prefix_witness:
  "let s = sys_run ''Role'' Roles_ws example_ws \<lparr>sys_db = Map.empty, sys_queue = [], sys_page = []\<rparr>
         example_events
   in \<exists>n \<le> 2. page_view Roles_ws (sys_page s) = table_view [''RoleID'', ''Name'']
        (foldl spec_change Map.empty (take n (changes example_events))) \<and>
      length (sys_queue s) = 2 - n"
proof -
  have "length (changes example_events) = 2" by (simp add: example_events_def)
  then show ?thesis
    using page_shows_prefix [OF example_hyps] unfolding Let_def by auto
qed

text \<open>C2: The page converges: from any such moment, as many publisher rounds as there are
  queued entries make it show the current table.\<close>

theorem page_converges:
  assumes "page_of T page" and "subscribed T w vf"
    and "legal (row_admits T) db0 (changes es)"
    and "keyed page items" and "page_view page items = table_view vf db0"
  shows "let s = sys_run T page w \<lparr>sys_db = db0, sys_queue = [], sys_page = items\<rparr> es;
      s' = sys_run T page w s (replicate (length (sys_queue s)) Publish)
    in sys_queue s' = [] \<and> sys_db s' = sys_db s \<and>
      page_view page (sys_page s') = table_view vf (sys_db s)"
proof -
  let ?s = "sys_run T page w \<lparr>sys_db = db0, sys_queue = [], sys_page = items\<rparr> es"
  obtain past pending where s: "in_sync T page vf db0 past pending ?s"
    by (rule in_sync_from_start [OF assms])
  then have "length (sys_queue ?s) = length pending"
    by (auto simp: in_sync_def dest: list_all2_lengthD)
  with in_sync_drain [OF assms(1,2) s] s show ?thesis
    by (simp add: in_sync_def Let_def)
qed


theorem page_converges_witness:
  "let s = sys_run ''Role'' Roles_ws example_ws \<lparr>sys_db = Map.empty, sys_queue = [], sys_page = []\<rparr>
         example_events;
       s' = sys_run ''Role'' Roles_ws example_ws s (replicate (length (sys_queue s)) Publish)
   in page_view Roles_ws (sys_page s') 1 = Some (row_item [''RoleID'', ''Name''] (example_row ''b''))"
proof -
  have "sys_db (sys_run ''Role'' Roles_ws example_ws
      \<lparr>sys_db = Map.empty, sys_queue = [], sys_page = []\<rparr> example_events) 1 = Some (example_row ''b'')"
    by (simp add: sys_run_def example_events_def Let_def split: option.splits prod.splits)
  then show ?thesis
    using page_converges [OF example_hyps] unfolding Let_def by (simp add: table_view_def)
qed

end
