(* ===== verification/Request.thy ===== *)
theory Request
  imports Prelude
begin

text \<open>
  \<^verbatim>\<open>web/webserver/request.hpp\<close> and \<^verbatim>\<open>header.hpp\<close>: a request as it comes from a client, the
  lookup of its headers and of its parameters, and the decoding of a form's content.
\<close>

record header =
  h_name :: string
  h_value :: string

record request =
  host_address :: string
  host_port :: string
  rq_method :: string
  rq_uri :: string
  http_version_major :: int
  http_version_minor :: int
  rq_headers :: "header list"
  content_length :: int
  rq_content :: string
  rq_keep_alive :: bool
  rq_parameters :: "(string \<times> string) list"

definition new_request :: request where
  "new_request = \<lparr>host_address = [], host_port = [], rq_method = [], rq_uri = [],
     http_version_major = 0, http_version_minor = 0, rq_headers = [], content_length = 0,
     rq_content = [], rq_keep_alive = False, rq_parameters = []\<rparr>"

section \<open>Headers\<close>

text \<open>\<^verbatim>\<open>tolower\<close> in the C locale, as a number.\<close>

definition lowercase :: "char \<Rightarrow> nat" where
  "lowercase c = (let n = of_char c in if 65 \<le> n \<and> n \<le> 90 then n + 32 else n)"

text \<open>The end of a list is the terminating NUL.\<close>

fun mg_strcasecmp :: "string \<Rightarrow> string \<Rightarrow> int" where
  "mg_strcasecmp [] [] = 0"
| "mg_strcasecmp [] (d # ds) = - int (lowercase d)"
| "mg_strcasecmp (c # cs) [] = int (lowercase c)"
| "mg_strcasecmp (c # cs) (d # ds) =
     (let diff = int (lowercase c) - int (lowercase d)
      in if diff = 0 \<and> of_char c \<noteq> (0::nat) then mg_strcasecmp cs ds else diff)"

fun find_header :: "header list \<Rightarrow> string \<Rightarrow> string option" where
  "find_header [] name = None"
| "find_header (h # hs) name =
     (if mg_strcasecmp name (h_name h) = 0 then Some (h_value h) else find_header hs name)"

definition get_req_header :: "request \<Rightarrow> string \<Rightarrow> string option" where
  "get_req_header req name = find_header (rq_headers req) name"

section \<open>Parameters\<close>

text \<open>
  A \<^verbatim>\<open>std::multimap\<close> is the list of its pairs in iteration order: sorted by key, equal keys in
  the order of insertion.
\<close>

fun str_less :: "string \<Rightarrow> string \<Rightarrow> bool" where
  "str_less a [] = False"
| "str_less [] (d # ds) = True"
| "str_less (c # cs) (d # ds) =
     (if c = d then str_less cs ds else (of_char c :: nat) < of_char d)"

type_synonym multimap = "(string \<times> string) list"

fun mm_insert :: "string \<Rightarrow> string \<Rightarrow> multimap \<Rightarrow> multimap" where
  "mm_insert k v [] = [(k, v)]"
| "mm_insert k v ((k', v') # m) =
     (if str_less k k' then (k, v) # (k', v') # m else (k', v') # mm_insert k v m)"

definition hasParams :: "request \<Rightarrow> bool" where
  "hasParams req \<longleftrightarrow> rq_parameters req \<noteq> []"

definition findValue_in :: "multimap \<Rightarrow> string \<Rightarrow> string" where
  "findValue_in values name = (case map_of values name of None \<Rightarrow> [] | Some v \<Rightarrow> v)"

definition findValue :: "request \<Rightarrow> string \<Rightarrow> string" where
  "findValue req name = findValue_in (rq_parameters req) name"

definition hasValue :: "request \<Rightarrow> string \<Rightarrow> bool" where
  "hasValue req name \<longleftrightarrow> map_of (rq_parameters req) name \<noteq> None"

definition print_request :: "request \<Rightarrow> string" where
  "print_request req =
     ''['' @ [CHR 0x0A] @
     concat (map (\<lambda>(k, v). k @ '':'' @ v @ '','' @ [CHR 0x0A]) (rq_parameters req)) @ '']''"

section \<open>Form content\<close>

text \<open>The inner loop replaces every plus sign, the first one each time round.\<close>

fun replace_plus :: "string \<Rightarrow> string" where
  "replace_plus [] = []"
| "replace_plus (c # cs) = (if c = CHR ''+'' then CHR '' '' # cs else c # replace_plus cs)"

lemma replace_plus_fewer:
  "CHR ''+'' \<in> set v \<Longrightarrow>
   count_list (replace_plus v) (CHR ''+'') < count_list v (CHR ''+'')"
  by (induction v) auto

function blanks_loop :: "string \<Rightarrow> string" where
  "blanks_loop value =
     (if CHR ''+'' \<in> set value then blanks_loop (replace_plus value) else value)"
  by pat_completeness auto
termination
  by (relation "measure (\<lambda>v. count_list v (CHR ''+''))") (auto simp: replace_plus_fewer)

declare blanks_loop.simps [simp del]

text \<open>
  The outer loop, on what is left of the content from position \<^verbatim>\<open>p\<close> on: a name up to the next
  equals sign, a value up to the next ampersand.
\<close>

function post_values :: "string \<Rightarrow> multimap \<Rightarrow> multimap" where
  "post_values s values =
     (case split_at_char (CHR ''='') s of
        None \<Rightarrow> values
      | Some (name, r) \<Rightarrow>
          (case split_at_char (CHR ''&'') r of
             Some (value, r') \<Rightarrow> post_values r' (mm_insert name (blanks_loop value) values)
           | None \<Rightarrow> mm_insert name (blanks_loop r) values))"
  by pat_completeness auto
termination
  by (relation "measure (\<lambda>(s, v). length s)") (auto dest!: split_at_char_length)

declare post_values.simps [simp del]

definition makeValuesFromPostContent :: "request \<Rightarrow> multimap" where
  "makeValuesFromPostContent req = post_values (rq_content req) []"

section \<open>Lookup lemmas\<close>

definition c_lower :: "string \<Rightarrow> nat list" where
  "c_lower s = map lowercase (takeWhile (\<lambda>c. of_char c \<noteq> (0::nat)) s)"

lemma lowercase_zero: "lowercase c = 0 \<longleftrightarrow> of_char c = (0::nat)"
  by (simp add: lowercase_def Let_def)

lemma mg_strcasecmp_eq: "mg_strcasecmp a b = 0 \<longleftrightarrow> c_lower a = c_lower b"
proof (induction a b rule: mg_strcasecmp.induct)
  case (4 c cs d ds)
  show ?case
  proof (cases "lowercase c = lowercase d")
    case True
    then have "of_char c = (0::nat) \<longleftrightarrow> of_char d = (0::nat)" using lowercase_zero by metis
    with True 4 show ?thesis by (cases "of_char c = (0::nat)") (auto simp: c_lower_def Let_def)
  next
    case False
    then show ?thesis
      using lowercase_zero [of c] lowercase_zero [of d] by (auto simp: c_lower_def Let_def)
  qed
qed (auto simp: c_lower_def lowercase_zero)

lemma blanks_loop_map: "blanks_loop s = map (\<lambda>c. if c = CHR ''+'' then CHR '' '' else c) s"
proof (induction s rule: blanks_loop.induct)
  case (1 s)
  have "map (\<lambda>c. if c = CHR ''+'' then CHR '' '' else c) (replace_plus s) =
      map (\<lambda>c. if c = CHR ''+'' then CHR '' '' else c) s"
    by (induction s) auto
  with 1 show ?case by (subst blanks_loop.simps) (auto intro!: map_idI [symmetric])
qed

text \<open>The pairs as a browser writes them.\<close>

fun form_content :: "(string \<times> string) list \<Rightarrow> string" where
  "form_content [] = []"
| "form_content [(k, v)] = k @ ''='' @ v"
| "form_content ((k, v) # p # ps) = k @ ''='' @ v @ ''&'' @ form_content (p # ps)"

definition form_pair :: "string \<times> string \<Rightarrow> bool" where
  "form_pair p \<longleftrightarrow> CHR ''='' \<notin> set (fst p) \<and> CHR ''&'' \<notin> set (snd p)"

lemma post_values_form:
  "list_all form_pair ps \<Longrightarrow>
   post_values (form_content ps) vs =
     foldl (\<lambda>m (k, v). mm_insert k (blanks_loop v) m) vs ps"
proof (induction ps arbitrary: vs rule: form_content.induct)
  case 1
  then show ?case by (simp add: post_values.simps split_at_char_None)
next
  case (2 k v)
  then show ?case
    by (subst post_values.simps) (simp add: form_pair_def split_at_char_append split_at_char_None)
next
  case (3 k v p ps)
  then show ?case
    by (subst post_values.simps) (simp add: form_pair_def split_at_char_append)
qed

lemma mm_insert_other: "k \<noteq> k' \<Longrightarrow> map_of (mm_insert k v m) k' = map_of m k'"
  by (induction k v m rule: mm_insert.induct) auto

lemma str_less_irrefl [simp]: "\<not> str_less s s"
  by (induction s) auto

text \<open>The first value given for a name is the one found.\<close>

definition mm_sorted :: "multimap \<Rightarrow> bool" where
  "mm_sorted m \<longleftrightarrow> sorted_wrt (\<lambda>a b. \<not> str_less (fst b) (fst a)) m"

lemma str_less_trans: "str_less a b \<Longrightarrow> str_less b c \<Longrightarrow> str_less a c"
proof (induction a b arbitrary: c rule: str_less.induct)
  case (2 d ds)
  then show ?case by (cases c) auto
next
  case (3 c' cs d ds)
  then show ?case by (cases c) (auto split: if_splits)
qed simp

lemma str_less_linear: "a \<noteq> b \<Longrightarrow> str_less a b \<or> str_less b a"
proof (induction a b rule: str_less.induct)
  case (1 a)
  then show ?case by (cases a) auto
next
  case (3 c cs d ds)
  then show ?case by (auto simp: nat_neq_iff [symmetric])
qed simp

lemma mm_insert_set: "set (mm_insert k v m) = insert (k, v) (set m)"
  by (induction k v m rule: mm_insert.induct) auto

lemma mm_insert_sorted: "mm_sorted m \<Longrightarrow> mm_sorted (mm_insert k v m)"
proof (induction k v m rule: mm_insert.induct)
  case (2 k v k' v' m)
  then have m: "mm_sorted m" "\<forall>x \<in> set m. \<not> str_less (fst x) k'"
    by (auto simp: mm_sorted_def)
  show ?case
  proof (cases "str_less k k'")
    case True
    then have "\<not> str_less k' k" using str_less_trans str_less_irrefl by blast
    moreover have "\<forall>x \<in> set m. \<not> str_less (fst x) k" using m(2) True str_less_trans by blast
    ultimately show ?thesis using 2(2) True by (auto simp: mm_sorted_def)
  next
    case False
    with 2 m show ?thesis by (simp add: mm_sorted_def mm_insert_set)
  qed
qed (simp add: mm_sorted_def)

lemma mm_insert_lookup:
  assumes "mm_sorted m"
  shows "map_of (mm_insert k v m) k = (case map_of m k of None \<Rightarrow> Some v | Some w \<Rightarrow> Some w)"
  using assms
proof (induction k v m rule: mm_insert.induct)
  case (2 k v k' v' m)
  show ?case
  proof (cases "str_less k k'")
    case True
    have "map_of ((k', v') # m) k = None"
    proof (rule ccontr)
      assume "map_of ((k', v') # m) k \<noteq> None"
      moreover have "k \<noteq> k'" using True by auto
      ultimately obtain w where "(k, w) \<in> set m" by (auto dest: map_of_SomeD)
      with True 2(2) show False by (auto simp: mm_sorted_def)
    qed
    with True show ?thesis by simp
  next
    case False
    with 2 show ?thesis by (auto simp: mm_sorted_def)
  qed
qed simp

lemma mm_inserts_sorted:
  "mm_sorted m \<Longrightarrow> mm_sorted (foldl (\<lambda>m (k, v). mm_insert k (g v) m) m ps)"
  by (induction ps arbitrary: m) (auto simp: mm_insert_sorted)

lemma mm_inserts_lookup:
  "mm_sorted m \<Longrightarrow> map_of (foldl (\<lambda>m (k, v). mm_insert k (g v) m) m ps) j =
    (case map_of m j of None \<Rightarrow> map_option g (map_of ps j) | Some w \<Rightarrow> Some w)"
proof (induction ps arbitrary: m)
  case (Cons p ps)
  obtain k v where p: "p = (k, v)" by fastforce
  note s = mm_insert_sorted [OF Cons.prems, of k "g v"]
  show ?case
  proof (cases "j = k")
    case True
    then show ?thesis
      using Cons.IH [OF s] mm_insert_lookup [OF Cons.prems, of k "g v"]
      by (simp add: p split: option.splits)
  next
    case False
    then show ?thesis
      using Cons.IH [OF s] mm_insert_other [of k j "g v" m]
      by (simp add: p split: option.splits)
  qed
qed (simp split: option.splits)

section \<open>Properties\<close>

text \<open>Decoding a form gives back what was sent: for pairs whose names hold no equals
  sign and whose values hold no ampersand, each name is found with the first value sent for it,
  its plus signs read as blanks, and no other name is found; the result is a multimap in the
  order of its keys.\<close>

theorem form_values_found:
  assumes "list_all form_pair ps"
  shows "let values = makeValuesFromPostContent (new_request\<lparr>rq_content := form_content ps\<rparr>)
    in mm_sorted values \<and> map_of values j =
      map_option (map (\<lambda>c. if c = CHR ''+'' then CHR '' '' else c)) (map_of ps j)"
proof -
  have s: "mm_sorted []" by (simp add: mm_sorted_def)
  show ?thesis
    using mm_inserts_sorted [OF s, of blanks_loop ps] mm_inserts_lookup [OF s, of blanks_loop ps j]
    by (simp add: makeValuesFromPostContent_def post_values_form [OF assms] blanks_loop_map [abs_def])
qed

theorem form_values_found_witness:
  "findValue_in (makeValuesFromPostContent
     (new_request\<lparr>rq_content := ''user=a+b&pw=x=y&user=c''\<rparr>)) ''user'' = ''a b''"
proof -
  have f: "form_content [(''user'', ''a+b''), (''pw'', ''x=y''), (''user'', ''c'')] =
      ''user=a+b&pw=x=y&user=c''" by simp
  have "list_all form_pair [(''user'', ''a+b''), (''pw'', ''x=y''), (''user'', ''c'')]"
    by (simp add: form_pair_def)
  from form_values_found [OF this, of "''user''", unfolded f Let_def] show ?thesis
    by (simp add: findValue_in_def)
qed

text \<open>A header is found whatever the case of its name, and the first of that name
  wins: names are compared up to the first NUL with ASCII letters folded.\<close>

theorem header_lookup:
  "get_req_header req name =
     map_option h_value (find (\<lambda>h. c_lower (h_name h) = c_lower name) (rq_headers req))"
proof -
  have "find_header hs name = map_option h_value (find (\<lambda>h. c_lower (h_name h) = c_lower name) hs)"
    for hs
    by (induction hs) (auto simp: mg_strcasecmp_eq)
  then show ?thesis by (simp add: get_req_header_def)
qed

end
