(* ===== verification/RequestParser.thy ===== *)
theory RequestParser
  imports Request
begin

text \<open>
  \<^verbatim>\<open>web/webserver/request_parser.cpp\<close>: the HTTP request parser, a machine of 22 states that
  takes one character at a time and keeps its partial result in the request.  The code's one
  \<^verbatim>\<open>switch\<close> is split here into one definition per part of the request line and the headers.
\<close>

datatype parser_state =
    method_start | method_st | uri_start | uri_st
  | http_version_h | http_version_t_1 | http_version_t_2 | http_version_p | http_version_slash
  | http_version_major_start | http_version_major_st | http_version_minor_start
  | http_version_minor_st
  | expecting_newline_1 | header_line_start | header_lws | header_name
  | space_before_header_value | header_value | expecting_newline_2 | expecting_newline_3
  | reading_content

text \<open>
  The result of a step: \<^verbatim>\<open>indeterminate\<close>, a decision, an exception, or a call of \<^verbatim>\<open>back()\<close> on
  an empty vector, which is undefined behaviour.
\<close>

datatype step_result = More | Done bool | Throw | Undef

type_synonym step = "step_result \<times> parser_state \<times> request"

section \<open>Character classes\<close>

text \<open>A \<^verbatim>\<open>char\<close> is signed: a byte from 128 on is negative as an \<^verbatim>\<open>int\<close>.\<close>

definition char_int :: "char \<Rightarrow> int" where
  "char_int c = (let n = of_char c :: nat in if n < 128 then int n else int n - 256)"

definition is_char :: "int \<Rightarrow> bool" where
  "is_char c \<longleftrightarrow> c \<ge> 0 \<and> c \<le> 127"

definition is_ctl :: "int \<Rightarrow> bool" where
  "is_ctl c \<longleftrightarrow> (c \<ge> 0 \<and> c \<le> 31) \<or> c = 127"

definition is_tspecial :: "int \<Rightarrow> bool" where
  "is_tspecial c \<longleftrightarrow> c \<in> set (map char_int
     [CHR ''('', CHR '')'', CHR ''<'', CHR ''>'', CHR ''@'', CHR '','', CHR '';'', CHR '':'',
      CHR 0x5C, CHR 0x22, CHR ''/'', CHR ''['', CHR '']'', CHR ''?'', CHR ''='',
      CHR ''{'', CHR ''}'', CHR '' '', CHR 0x09])"

definition is_digit :: "int \<Rightarrow> bool" where
  "is_digit c \<longleftrightarrow> c \<ge> 48 \<and> c \<le> 57"

definition not_token :: "char \<Rightarrow> bool" where
  "not_token c \<longleftrightarrow> \<not> is_char (char_int c) \<or> is_ctl (char_int c) \<or> is_tspecial (char_int c)"

section \<open>One character\<close>

definition consume_method :: "parser_state \<Rightarrow> request \<Rightarrow> char \<Rightarrow> step" where
  "consume_method st req c =
     (if st = method_start then
        (if not_token c then (Done False, st, req)
         else (More, method_st, req\<lparr>rq_method := rq_method req @ [c]\<rparr>))
      else
        (if c = CHR '' '' then (More, uri_st, req)
         else if not_token c then (Done False, st, req)
         else (More, st, req\<lparr>rq_method := rq_method req @ [c]\<rparr>)))"

definition consume_uri :: "parser_state \<Rightarrow> request \<Rightarrow> char \<Rightarrow> step" where
  "consume_uri st req c =
     (if st = uri_start then
        (if is_ctl (char_int c) then (Done False, st, req)
         else (More, uri_st, req\<lparr>rq_uri := rq_uri req @ [c]\<rparr>))
      else
        (if c = CHR '' '' then (More, http_version_h, req)
         else if is_ctl (char_int c) then (Done False, st, req)
         else (More, st, req\<lparr>rq_uri := rq_uri req @ [c]\<rparr>)))"

definition expect :: "char \<Rightarrow> parser_state \<Rightarrow> parser_state \<Rightarrow> request \<Rightarrow> char \<Rightarrow> step" where
  "expect x next st req c = (if c = x then (More, next, req) else (Done False, st, req))"

definition add_digit :: "int \<Rightarrow> char \<Rightarrow> int" where
  "add_digit v c = wrap32 (v * 10 + char_int c - 48)"

definition consume_version :: "parser_state \<Rightarrow> request \<Rightarrow> char \<Rightarrow> step" where
  "consume_version st req c =
     (case st of
        http_version_h \<Rightarrow> expect (CHR ''H'') http_version_t_1 st req c
      | http_version_t_1 \<Rightarrow> expect (CHR ''T'') http_version_t_2 st req c
      | http_version_t_2 \<Rightarrow> expect (CHR ''T'') http_version_p st req c
      | http_version_p \<Rightarrow> expect (CHR ''P'') http_version_slash st req c
      | http_version_slash \<Rightarrow>
          (if c = CHR ''/'' then
             (More, http_version_major_start,
              req\<lparr>http_version_major := 0, http_version_minor := 0\<rparr>)
           else (Done False, st, req))
      | http_version_major_start \<Rightarrow>
          (if is_digit (char_int c) then
             (More, http_version_major_st,
              req\<lparr>http_version_major := add_digit (http_version_major req) c\<rparr>)
           else (Done False, st, req))
      | http_version_major_st \<Rightarrow>
          (if c = CHR ''.'' then (More, http_version_minor_start, req)
           else if is_digit (char_int c) then
             (More, st, req\<lparr>http_version_major := add_digit (http_version_major req) c\<rparr>)
           else (Done False, st, req))
      | http_version_minor_start \<Rightarrow>
          (if is_digit (char_int c) then
             (More, http_version_minor_st,
              req\<lparr>http_version_minor := add_digit (http_version_minor req) c\<rparr>)
           else (Done False, st, req))
      | _ \<Rightarrow>
          (if c = CHR 0x0D then (More, expecting_newline_1, req)
           else if is_digit (char_int c) then
             (More, st, req\<lparr>http_version_minor := add_digit (http_version_minor req) c\<rparr>)
           else (Done False, st, req)))"

text \<open>\<^verbatim>\<open>req.headers.back()\<close>, changed by \<open>f\<close>.\<close>

definition with_back :: "(header \<Rightarrow> header) \<Rightarrow> parser_state \<Rightarrow> parser_state \<Rightarrow> request \<Rightarrow> step" where
  "with_back f next st req =
     (if rq_headers req = [] then (Undef, st, req)
      else (More, next, req\<lparr>rq_headers := butlast (rq_headers req) @ [f (last (rq_headers req))]\<rparr>))"

definition is_blank :: "char \<Rightarrow> bool" where
  "is_blank c \<longleftrightarrow> c = CHR '' '' \<or> c = CHR 0x09"

definition consume_header :: "parser_state \<Rightarrow> request \<Rightarrow> char \<Rightarrow> step" where
  "consume_header st req c =
     (case st of
        header_line_start \<Rightarrow>
          (if c = CHR 0x0D then (More, expecting_newline_3, req)
           else if rq_headers req \<noteq> [] \<and> is_blank c then (More, header_lws, req)
           else if not_token c then (Done False, st, req)
           else (More, header_name, req\<lparr>rq_headers := rq_headers req @ [\<lparr>h_name = [c], h_value = []\<rparr>]\<rparr>))
      | header_lws \<Rightarrow>
          (if c = CHR 0x0D then (More, expecting_newline_2, req)
           else if is_blank c then (More, st, req)
           else if is_ctl (char_int c) then (Done False, st, req)
           else with_back (\<lambda>h. h\<lparr>h_value := h_value h @ [c]\<rparr>) header_value st req)
      | header_name \<Rightarrow>
          (if c = CHR '':'' then (More, space_before_header_value, req)
           else if not_token c then (Done False, st, req)
           else with_back (\<lambda>h. h\<lparr>h_name := h_name h @ [c]\<rparr>) st st req)
      | space_before_header_value \<Rightarrow> expect (CHR '' '') header_value st req c
      | _ \<Rightarrow>
          (if c = CHR 0x0D then (More, expecting_newline_2, req)
           else if is_ctl (char_int c) then (Done False, st, req)
           else with_back (\<lambda>h. h\<lparr>h_value := h_value h @ [c]\<rparr>) st st req))"

text \<open>The end of the headers: which requests have content, and how much.\<close>

definition body_method :: "string \<Rightarrow> bool" where
  "body_method m \<longleftrightarrow> \<not> (m \<noteq> ''POST'' \<and> m \<noteq> ''PUT'' \<and> m \<noteq> ''PATCH'')"

fun declared_length :: "header list \<Rightarrow> int" where
  "declared_length [] = 0"
| "declared_length (h # hs) =
     (if map lowercase (h_name h) = map of_char ''content-length'' then atoi (h_value h)
      else declared_length hs)"

definition consume_end :: "parser_state \<Rightarrow> request \<Rightarrow> char \<Rightarrow> step" where
  "consume_end st req c =
     (if c = CHR 0x0A then
        (if \<not> body_method (rq_method req) then (Done True, st, req)
         else
           let req' = req\<lparr>content_length := declared_length (rq_headers req)\<rparr>
           in if content_length req' = 0 then (Done True, st, req')
              else (More, reading_content, req'))
      else (Done False, st, req))"

definition consume_char :: "parser_state \<Rightarrow> request \<Rightarrow> char \<Rightarrow> step" where
  "consume_char st req c =
     (if st \<in> {method_start, method_st} then consume_method st req c
      else if st \<in> {uri_start, uri_st} then consume_uri st req c
      else if st = expecting_newline_1 then expect (CHR 0x0A) header_line_start st req c
      else if st = expecting_newline_2 then expect (CHR 0x0A) header_line_start st req c
      else if st = expecting_newline_3 then consume_end st req c
      else if st \<in> {header_line_start, header_lws, header_name, space_before_header_value,
                    header_value} then consume_header st req c
      else consume_version st req c)"

text \<open>
  \<^verbatim>\<open>reading_content\<close>: with the current character given back, \<^verbatim>\<open>end - pInput\<close> characters are
  left.  A negative length makes the string constructor throw.
\<close>

definition read_content :: "request \<Rightarrow> string \<Rightarrow> step_result \<times> parser_state \<times> request \<times> string" where
  "read_content req input =
     (if int (length input) < content_length req then (More, reading_content, req, [])
      else if content_length req < 0 then (Throw, reading_content, req, input)
      else (Done True, reading_content,
            req\<lparr>rq_content := take (nat (content_length req)) input\<rparr>, []))"

text \<open>\<^verbatim>\<open>parse\<close>: characters are consumed until there is a decision; the rest is returned.\<close>

fun req_parse ::
  "parser_state \<Rightarrow> request \<Rightarrow> string \<Rightarrow> step_result \<times> parser_state \<times> request \<times> string" where
  "req_parse st req [] = (More, st, req, [])"
| "req_parse st req (c # cs) =
     (if st = reading_content then read_content req (c # cs)
      else case consume_char st req c of
        (More, st', req') \<Rightarrow> req_parse st' req' cs
      | (r, st', req') \<Rightarrow> (r, st', req', cs))"

definition parse_request :: "string \<Rightarrow> step_result \<times> parser_state \<times> request \<times> string" where
  "parse_request input = req_parse method_start new_request input"

section \<open>Segments of a request\<close>

lemmas consume_defs = consume_char_def consume_method_def consume_uri_def consume_version_def
  consume_header_def expect_def with_back_def

lemma req_parse_method:
  "list_all (\<lambda>c. \<not> not_token c) cs \<Longrightarrow>
   req_parse method_st req (cs @ r) = req_parse method_st (req\<lparr>rq_method := rq_method req @ cs\<rparr>) r"
proof (induction cs arbitrary: req)
  case (Cons c cs)
  moreover have "c \<noteq> CHR '' ''"
    using Cons.prems by (auto simp: not_token_def is_tspecial_def)
  ultimately show ?case by (simp add: consume_defs)
qed simp

definition uri_char :: "char \<Rightarrow> bool" where
  "uri_char c \<longleftrightarrow> c \<noteq> CHR '' '' \<and> \<not> is_ctl (char_int c)"

lemma req_parse_uri:
  "list_all uri_char cs \<Longrightarrow>
   req_parse uri_st req (cs @ r) = req_parse uri_st (req\<lparr>rq_uri := rq_uri req @ cs\<rparr>) r"
  by (induction cs arbitrary: req) (simp_all add: consume_defs uri_char_def)

lemma digit_char_int:
  "is_digit_char c \<Longrightarrow> char_int c = 48 + int (digit_val c)"
  by (auto simp: is_digit_char_def char_int_def digit_val_def Let_def)

lemma digit_char_class:
  "is_digit_char c \<Longrightarrow> is_digit (char_int c) \<and> c \<noteq> CHR ''.'' \<and> c \<noteq> CHR 0x0D"
  by (auto simp: is_digit_char_def is_digit_def char_int_def Let_def)

lemma digits_acc_mono: "n \<le> fst (digits_acc n cs)"
proof (induction cs arbitrary: n)
  case (Cons c cs)
  have "n \<le> 10 * n + digit_val c" by simp
  with Cons [of "10 * n + digit_val c"] show ?case by auto
qed simp

lemma add_digit_acc:
  assumes "is_digit_char c" and "10 * n + digit_val c < 2 ^ 31"
  shows "add_digit (int n) c = int (10 * n + digit_val c)"
  using assms digit_char_int [OF assms(1)] by (simp add: add_digit_def wrap32_small)

lemma req_parse_major:
  "list_all is_digit_char cs \<Longrightarrow> http_version_major req = int n \<Longrightarrow> fst (digits_acc n cs) < 2 ^ 31 \<Longrightarrow>
   req_parse http_version_major_st req (cs @ r) =
     req_parse http_version_major_st (req\<lparr>http_version_major := int (fst (digits_acc n cs))\<rparr>) r"
proof (induction cs arbitrary: req n)
  case Nil
  then show ?case by (cases req) simp
next
  case (Cons c cs)
  then have "10 * n + digit_val c < 2 ^ 31"
    using digits_acc_mono [of "10 * n + digit_val c" cs] by simp
  then show ?case
    using Cons.prems digit_char_class [of c] add_digit_acc [of c n]
      Cons.IH [of "req\<lparr>http_version_major := int (10 * n + digit_val c)\<rparr>" "10 * n + digit_val c"]
    by (simp add: consume_defs)
qed

lemma req_parse_minor:
  "list_all is_digit_char cs \<Longrightarrow> http_version_minor req = int n \<Longrightarrow> fst (digits_acc n cs) < 2 ^ 31 \<Longrightarrow>
   req_parse http_version_minor_st req (cs @ r) =
     req_parse http_version_minor_st (req\<lparr>http_version_minor := int (fst (digits_acc n cs))\<rparr>) r"
proof (induction cs arbitrary: req n)
  case Nil
  then show ?case by (cases req) simp
next
  case (Cons c cs)
  then have "10 * n + digit_val c < 2 ^ 31"
    using digits_acc_mono [of "10 * n + digit_val c" cs] by simp
  then show ?case
    using Cons.prems digit_char_class [of c] add_digit_acc [of c n]
      Cons.IH [of "req\<lparr>http_version_minor := int (10 * n + digit_val c)\<rparr>" "10 * n + digit_val c"]
    by (simp add: consume_defs)
qed

lemma req_parse_major_start:
  assumes "http_version_major req = 0" and "n < 2 ^ 31"
  shows "req_parse http_version_major_start req (nat_to_string n @ r) =
    req_parse http_version_major_st (req\<lparr>http_version_major := int n\<rparr>) r"
proof -
  obtain c cs where n: "nat_to_string n = c # cs" by (cases "nat_to_string n") auto
  then have d: "is_digit_char c" "list_all is_digit_char cs"
    using nat_to_string_digits [of n] by simp_all
  then have acc: "fst (digits_acc (digit_val c) cs) = n"
    using digits_acc_nat_to_string [of n] by (simp add: n)
  then have "digit_val c < 2 ^ 31" using digits_acc_mono [of "digit_val c" cs] assms(2) by simp
  then have "add_digit 0 c = int (digit_val c)" using add_digit_acc [OF d(1), of 0] by simp
  then show ?thesis
    using digit_char_class [OF d(1)] assms acc
      req_parse_major [OF d(2), of "req\<lparr>http_version_major := int (digit_val c)\<rparr>" "digit_val c" r]
    by (simp add: n consume_defs)
qed

lemma req_parse_minor_start:
  assumes "http_version_minor req = 0" and "n < 2 ^ 31"
  shows "req_parse http_version_minor_start req (nat_to_string n @ r) =
    req_parse http_version_minor_st (req\<lparr>http_version_minor := int n\<rparr>) r"
proof -
  obtain c cs where n: "nat_to_string n = c # cs" by (cases "nat_to_string n") auto
  then have d: "is_digit_char c" "list_all is_digit_char cs"
    using nat_to_string_digits [of n] by simp_all
  then have acc: "fst (digits_acc (digit_val c) cs) = n"
    using digits_acc_nat_to_string [of n] by (simp add: n)
  then have "digit_val c < 2 ^ 31" using digits_acc_mono [of "digit_val c" cs] assms(2) by simp
  then have "add_digit 0 c = int (digit_val c)" using add_digit_acc [OF d(1), of 0] by simp
  then show ?thesis
    using digit_char_class [OF d(1)] assms acc
      req_parse_minor [OF d(2), of "req\<lparr>http_version_minor := int (digit_val c)\<rparr>" "digit_val c" r]
    by (simp add: n consume_defs)
qed


lemma req_parse_version:
  assumes "http_version_major req = 0" and "http_version_minor req = 0"
    and "maj < 2 ^ 31" and "mnr < 2 ^ 31"
  shows "req_parse http_version_h req
      (''HTTP/'' @ nat_to_string maj @ ''.'' @ nat_to_string mnr @ [CHR 0x0D, CHR 0x0A] @ r) =
    req_parse header_line_start
      (req\<lparr>http_version_major := int maj, http_version_minor := int mnr\<rparr>) r"
proof -
  let ?r = "''.'' @ nat_to_string mnr @ [CHR 0x0D, CHR 0x0A] @ r"
  have req: "req\<lparr>http_version_major := 0, http_version_minor := 0\<rparr> = req"
    using assms(1,2) by (cases req) simp
  have "req_parse http_version_h req (''HTTP/'' @ nat_to_string maj @ ?r) =
      req_parse http_version_major_start req (nat_to_string maj @ ?r)"
    by (simp add: consume_defs req)
  also have "\<dots> = req_parse http_version_major_st (req\<lparr>http_version_major := int maj\<rparr>) ?r"
    by (rule req_parse_major_start [OF assms(1,3)])
  also have "\<dots> = req_parse http_version_minor_start (req\<lparr>http_version_major := int maj\<rparr>)
      (nat_to_string mnr @ [CHR 0x0D, CHR 0x0A] @ r)"
    by (simp add: consume_defs)
  also have "\<dots> = req_parse http_version_minor_st
      (req\<lparr>http_version_major := int maj, http_version_minor := int mnr\<rparr>) ([CHR 0x0D, CHR 0x0A] @ r)"
    using req_parse_minor_start [OF _ assms(4)] assms(2) by simp
  also have "\<dots> = req_parse header_line_start
      (req\<lparr>http_version_major := int maj, http_version_minor := int mnr\<rparr>) r"
    by (simp add: consume_defs)
  finally show ?thesis .
qed

definition value_char :: "char \<Rightarrow> bool" where
  "value_char c \<longleftrightarrow> \<not> is_ctl (char_int c)"

lemma value_char_not_cr: "value_char c \<Longrightarrow> c \<noteq> CHR 0x0D"
  by (auto simp: value_char_def is_ctl_def char_int_def)

lemma req_parse_header_name:
  "list_all (\<lambda>c. \<not> not_token c) cs \<Longrightarrow> rq_headers req = hs @ [\<lparr>h_name = n, h_value = v\<rparr>] \<Longrightarrow>
   req_parse header_name req (cs @ r) =
     req_parse header_name (req\<lparr>rq_headers := hs @ [\<lparr>h_name = n @ cs, h_value = v\<rparr>]\<rparr>) r"
proof (induction cs arbitrary: req n)
  case Nil
  then show ?case by (cases req) simp
next
  case (Cons c cs)
  moreover have "c \<noteq> CHR '':''"
    using Cons.prems by (auto simp: not_token_def is_tspecial_def)
  ultimately show ?case by (simp add: consume_defs)
qed

lemma req_parse_header_value:
  "list_all value_char cs \<Longrightarrow> rq_headers req = hs @ [\<lparr>h_name = n, h_value = v\<rparr>] \<Longrightarrow>
   req_parse header_value req (cs @ r) =
     req_parse header_value (req\<lparr>rq_headers := hs @ [\<lparr>h_name = n, h_value = v @ cs\<rparr>]\<rparr>) r"
proof (induction cs arbitrary: req v)
  case Nil
  then show ?case by (cases req) simp
next
  case (Cons c cs)
  with value_char_not_cr [of c] show ?case by (simp add: consume_defs value_char_def)
qed

text \<open>A well-formed header, and its line.\<close>

definition header_ok :: "header \<Rightarrow> bool" where
  "header_ok h \<longleftrightarrow> h_name h \<noteq> [] \<and> list_all (\<lambda>c. \<not> not_token c) (h_name h) \<and>
     list_all value_char (h_value h)"

definition header_line :: "header \<Rightarrow> string" where
  "header_line h = h_name h @ '': '' @ h_value h @ [CHR 0x0D, CHR 0x0A]"

lemma token_not_blank: "\<not> not_token c \<Longrightarrow> \<not> is_blank c \<and> c \<noteq> CHR 0x0D"
  by (auto simp: not_token_def is_blank_def is_tspecial_def is_ctl_def char_int_def)

lemma req_parse_header:
  assumes "header_ok h"
  shows "req_parse header_line_start req (header_line h @ r) =
    req_parse header_line_start (req\<lparr>rq_headers := rq_headers req @ [h]\<rparr>) r"
proof -
  obtain c cs where n: "h_name h = c # cs" using assms by (cases "h_name h") (auto simp: header_ok_def)
  then have tok: "\<not> not_token c" "list_all (\<lambda>c. \<not> not_token c) cs" "list_all value_char (h_value h)"
    using assms by (auto simp: header_ok_def)
  let ?hs = "rq_headers req"
  let ?v = "'': '' @ h_value h @ [CHR 0x0D, CHR 0x0A] @ r"
  let ?req = "\<lambda>n v. req\<lparr>rq_headers := ?hs @ [\<lparr>h_name = n, h_value = v\<rparr>]\<rparr>"
  have "req_parse header_line_start req (header_line h @ r) =
      req_parse header_name (?req [c] []) (cs @ ?v)"
    using tok(1) token_not_blank [OF tok(1)] by (simp add: header_line_def n consume_defs)
  also have "\<dots> = req_parse header_name (?req (c # cs) []) ?v"
    using req_parse_header_name [OF tok(2), of "?req [c] []" ?hs "[c]" "[]" ?v] by simp
  also have "\<dots> = req_parse header_value (?req (c # cs) []) (h_value h @ [CHR 0x0D, CHR 0x0A] @ r)"
    by (simp add: consume_defs)
  also have "\<dots> = req_parse header_value (?req (c # cs) (h_value h)) ([CHR 0x0D, CHR 0x0A] @ r)"
    using req_parse_header_value [OF tok(3), of "?req (c # cs) []" ?hs "c # cs" "[]"] by simp
  also have "\<dots> = req_parse header_line_start (?req (c # cs) (h_value h)) r"
    by (simp add: consume_defs)
  finally show ?thesis by (cases h) (simp add: n [symmetric])
qed

lemma req_parse_headers:
  "list_all header_ok hs \<Longrightarrow>
   req_parse header_line_start req (concat (map header_line hs) @ r) =
     req_parse header_line_start (req\<lparr>rq_headers := rq_headers req @ hs\<rparr>) r"
proof (induction hs arbitrary: req)
  case (Cons h hs)
  then show ?case using req_parse_header [of h req "concat (map header_line hs) @ r"] by simp
qed simp

section \<open>Whole requests\<close>

text \<open>A request as a client writes it.\<close>

record wire_request =
  w_method :: string
  w_uri :: string
  w_major :: nat
  w_minor :: nat
  w_headers :: "header list"
  w_content :: string

definition request_head :: "wire_request \<Rightarrow> string" where
  "request_head w = w_method w @ '' '' @ w_uri w @ '' '' @
     ''HTTP/'' @ nat_to_string (w_major w) @ ''.'' @ nat_to_string (w_minor w) @ [CHR 0x0D, CHR 0x0A] @
     concat (map header_line (w_headers w))"

definition request_text :: "wire_request \<Rightarrow> string" where
  "request_text w = request_head w @ [CHR 0x0D, CHR 0x0A] @ w_content w"

definition wire_ok :: "wire_request \<Rightarrow> bool" where
  "wire_ok w \<longleftrightarrow> w_method w \<noteq> [] \<and> list_all (\<lambda>c. \<not> not_token c) (w_method w) \<and>
     list_all uri_char (w_uri w) \<and> w_major w < 2 ^ 31 \<and> w_minor w < 2 ^ 31 \<and>
     list_all header_ok (w_headers w)"

definition head_request :: "wire_request \<Rightarrow> request" where
  "head_request w = new_request\<lparr>rq_method := w_method w, rq_uri := w_uri w,
     http_version_major := int (w_major w), http_version_minor := int (w_minor w),
     rq_headers := w_headers w\<rparr>"

lemma parse_request_head:
  assumes "wire_ok w"
  shows "req_parse method_start new_request (request_head w @ r) =
    req_parse header_line_start (head_request w) r"
proof -
  obtain c cs where m: "w_method w = c # cs" using assms by (cases "w_method w") (auto simp: wire_ok_def)
  then have tok: "\<not> not_token c" "list_all (\<lambda>c. \<not> not_token c) cs"
    using assms by (auto simp: wire_ok_def)
  let ?hdrs = "concat (map header_line (w_headers w)) @ r"
  let ?ver = "''HTTP/'' @ nat_to_string (w_major w) @ ''.'' @ nat_to_string (w_minor w) @
    [CHR 0x0D, CHR 0x0A] @ ?hdrs"
  let ?u = "w_uri w @ '' '' @ ?ver"
  have "req_parse method_start new_request (request_head w @ r) =
      req_parse method_st (new_request\<lparr>rq_method := [c]\<rparr>) (cs @ '' '' @ ?u)"
    using tok(1) by (simp add: request_head_def m consume_defs new_request_def)
  also have "\<dots> = req_parse uri_st (new_request\<lparr>rq_method := w_method w\<rparr>) ?u"
    using req_parse_method [OF tok(2)] by (simp add: m consume_defs)
  also have "\<dots> = req_parse http_version_h (new_request\<lparr>rq_method := w_method w, rq_uri := w_uri w\<rparr>) ?ver"
    using req_parse_uri [of "w_uri w"] assms by (simp add: wire_ok_def consume_defs new_request_def)
  also have "\<dots> = req_parse header_line_start (new_request\<lparr>rq_method := w_method w, rq_uri := w_uri w,
      http_version_major := int (w_major w), http_version_minor := int (w_minor w)\<rparr>) ?hdrs"
    using assms by (intro req_parse_version) (simp_all add: wire_ok_def new_request_def)
  also have "\<dots> = req_parse header_line_start (head_request w) r"
    using req_parse_headers [of "w_headers w"] assms
    by (simp add: wire_ok_def head_request_def new_request_def)
  finally show ?thesis .
qed


lemma parse_request_end:
  assumes "wire_ok w"
  shows "parse_request (request_head w @ [CHR 0x0D, CHR 0x0A] @ r) =
    (if \<not> body_method (w_method w) then (Done True, expecting_newline_3, head_request w, r)
     else if declared_length (w_headers w) = 0 then
       (Done True, expecting_newline_3, head_request w, r)
     else req_parse reading_content
       ((head_request w)\<lparr>content_length := declared_length (w_headers w)\<rparr>) r)"
  using parse_request_head [OF assms, of "[CHR 0x0D, CHR 0x0A] @ r"]
  by (auto simp: parse_request_def consume_defs consume_end_def head_request_def new_request_def Let_def)

lemma req_parse_reading:
  "req_parse reading_content req input =
     (if input = [] then (More, reading_content, req, []) else read_content req input)"
  by (cases input) auto

text \<open>What has been parsed stays parsed when more arrives, and no prefix of it is rejected.\<close>

lemma req_parse_prefix:
  assumes "req_parse st req (p @ q) = (More, st', req', [])" and "st' \<noteq> reading_content"
  shows "fst (req_parse st req p) = More"
  using assms(1)
proof (induction p arbitrary: st req)
  case (Cons c p)
  have "st \<noteq> reading_content"
    using Cons.prems assms(2) by (auto simp: read_content_def split: if_splits)
  moreover from this Cons.prems obtain st1 req1 where "consume_char st req c = (More, st1, req1)"
    by (auto split: prod.splits step_result.splits)
  ultimately show ?case using Cons by simp
qed simp

section \<open>Safety\<close>

definition needs_header :: "parser_state \<Rightarrow> bool" where
  "needs_header st \<longleftrightarrow> st \<in> {header_lws, header_name, space_before_header_value, header_value,
     expecting_newline_2}"

definition parser_inv :: "parser_state \<Rightarrow> request \<Rightarrow> bool" where
  "parser_inv st req \<longleftrightarrow> st \<noteq> uri_start \<and> (needs_header st \<longrightarrow> rq_headers req \<noteq> [])"

lemma consume_char_inv:
  assumes "parser_inv st req" and "st \<noteq> reading_content"
    and "consume_char st req c = (r, st', req')"
  shows "r \<noteq> Undef \<and> parser_inv st' req'"
  using assms
  by (cases st) (auto simp: parser_inv_def needs_header_def consume_defs consume_end_def Let_def
      split: if_splits)

lemma req_parse_inv:
  assumes "parser_inv st req" and "req_parse st req input = (r, st', req', rest)"
  shows "r \<noteq> Undef \<and> parser_inv st' req'"
  using assms
proof (induction st req input rule: req_parse.induct)
  case (2 st req c cs)
  show ?case
  proof (cases "st = reading_content")
    case True
    with 2 show ?thesis by (auto simp: read_content_def parser_inv_def needs_header_def split: if_splits)
  next
    case False
    obtain r1 st1 req1 where s: "consume_char st req c = (r1, st1, req1)" by (metis prod_cases3)
    note inv = consume_char_inv [OF 2(2) False s]
    show ?thesis
    proof (cases "r1 = More")
      case True
      with 2(3) False s have "req_parse st1 req1 cs = (r, st', req', rest)" by simp
      with inv show ?thesis using "2.IH" [OF False s [symmetric] True refl] by simp
    next
      case no: False
      with 2(3) False s have "r = r1 \<and> st' = st1 \<and> req' = req1" by (cases r1) auto
      with inv show ?thesis by simp
    qed
  qed
qed auto

section \<open>Properties\<close>

text \<open>C3: A request without content parses back to what the client wrote: method, URI,
  version and all headers, in order; parsing stops at the empty line and leaves what follows,
  also for a method with content whose declared length is 0.\<close>

theorem request_roundtrip:
  assumes "wire_ok w" and "\<not> body_method (w_method w) \<or> declared_length (w_headers w) = 0"
  shows "parse_request (request_head w @ [CHR 0x0D, CHR 0x0A] @ rest) =
    (Done True, expecting_newline_3, head_request w, rest)"
  using parse_request_end [OF assms(1), of rest] assms(2)
  by (cases "body_method (w_method w)") simp_all

definition example_get :: wire_request where
  "example_get = \<lparr>w_method = ''GET'', w_uri = ''/json.htm?type=x'', w_major = 1, w_minor = 1,
     w_headers = [\<lparr>h_name = ''Host'', h_value = ''pi:8080''\<rparr>], w_content = []\<rparr>"

definition example_post :: wire_request where
  "example_post = \<lparr>w_method = ''POST'', w_uri = ''/login'', w_major = 1, w_minor = 1,
     w_headers = [\<lparr>h_name = ''Content-Length'', h_value = ''3''\<rparr>], w_content = ''a=b''\<rparr>"

lemmas wire_ok_defs = wire_ok_def header_ok_def uri_char_def value_char_def not_token_def
  is_char_def is_ctl_def is_tspecial_def char_int_def

lemma example_wire_ok: "wire_ok example_get" "wire_ok example_post"
  by (simp_all add: example_get_def example_post_def wire_ok_defs)

theorem request_roundtrip_witness:
  "parse_request (''GET /json.htm?type=x HTTP/1.1'' @ [CHR 0x0D, CHR 0x0A] @
     ''Host: pi:8080'' @ [CHR 0x0D, CHR 0x0A, CHR 0x0D, CHR 0x0A] @ ''GET'') =
   (Done True, expecting_newline_3, head_request example_get, ''GET'')"
proof -
  have "request_head example_get = ''GET /json.htm?type=x HTTP/1.1'' @ [CHR 0x0D, CHR 0x0A] @
      ''Host: pi:8080'' @ [CHR 0x0D, CHR 0x0A]"
    by code_simp
  moreover have "\<not> body_method (w_method example_get)" by code_simp
  ultimately show ?thesis
    using request_roundtrip [OF example_wire_ok(1), of "''GET''"] by simp
qed

text \<open>C4: A request with content parses back as well when its declared length is that of
  its content; and whatever follows the content in the buffer is lost, because the parser moves to
  the end of its input.\<close>

theorem request_content_roundtrip:
  assumes "wire_ok w" and "body_method (w_method w)" and "w_content w \<noteq> []"
    and "declared_length (w_headers w) = int (length (w_content w))"
  shows "parse_request (request_text w @ rest) =
    (Done True, reading_content,
     (head_request w)\<lparr>content_length := int (length (w_content w)), rq_content := w_content w\<rparr>, [])"
  using parse_request_end [OF assms(1), of "w_content w @ rest"] assms(2-4)
  by (simp add: request_text_def req_parse_reading read_content_def)

theorem request_content_roundtrip_witness:
  "rq_content (fst (snd (snd (parse_request (request_text example_post @ ''GET /''))))) = ''a=b''"
proof -
  have "body_method (w_method example_post)" "w_content example_post \<noteq> []"
    "declared_length (w_headers example_post) = int (length (w_content example_post))"
    by code_simp+
  from request_content_roundtrip [OF example_wire_ok(2) this, of "''GET /''"] show ?thesis
    by simp (simp add: example_post_def)
qed

text \<open>A request that has not arrived completely is never rejected or accepted early:
  on every proper prefix of a well-formed request the parser asks for more.\<close>

theorem partial_request_waits:
  assumes "wire_ok w" and "w_content w = [] \<or>
      body_method (w_method w) \<and> declared_length (w_headers w) = int (length (w_content w))"
    and "request_text w = p @ q" and "q \<noteq> []"
  shows "fst (parse_request p) = More"
proof -
  let ?h = "request_head w" and ?nl = "[CHR 0x0D, CHR 0x0A]"
  have "(\<exists>us. p @ us = ?h) \<or> (\<exists>us. p = ?h @ us \<and> us @ q = ?nl @ w_content w)"
    using assms(3) by (auto simp: request_text_def append_eq_append_conv2)
  then show ?thesis
  proof (elim disjE exE conjE)
    fix us assume "p @ us = ?h"
    moreover have "req_parse method_start new_request ?h = (More, header_line_start, head_request w, [])"
      using parse_request_head [OF assms(1), of "[]"] by simp
    ultimately show ?thesis
      using req_parse_prefix [of method_start new_request p us header_line_start "head_request w"]
      by (simp add: parse_request_def)
  next
    fix us assume p: "p = ?h @ us" and us: "us @ q = ?nl @ w_content w"
    then consider "us = []" | "us = [CHR 0x0D]" | c where "us = ?nl @ c" "c @ q = w_content w"
      by (cases us rule: remdups_adj.cases) auto
    then show ?thesis
    proof cases
      case 3
      then have "length c + length q = length (w_content w)" by (metis length_append)
      then have "length c < length (w_content w)" "w_content w \<noteq> []"
        using assms(4) by (cases q; auto)+
      then show ?thesis
        using parse_request_end [OF assms(1), of c] assms(2) 3 p
        by (simp add: req_parse_reading read_content_def)
    qed (use parse_request_head [OF assms(1)] parse_request_head [OF assms(1), of "[]"] p in
        \<open>simp_all add: parse_request_def consume_defs\<close>)
  qed
qed

theorem partial_request_waits_witness:
  "fst (parse_request (request_head example_post @ [CHR 0x0D, CHR 0x0A] @ ''a='')) = More"
proof -
  have "w_content example_post = [] \<or> body_method (w_method example_post) \<and>
      declared_length (w_headers example_post) = int (length (w_content example_post))"
    by code_simp
  moreover have "request_text example_post =
      (request_head example_post @ [CHR 0x0D, CHR 0x0A] @ ''a='') @ ''b''"
    by (simp add: request_text_def) (simp add: example_post_def)
  ultimately show ?thesis
    using partial_request_waits [OF example_wire_ok(2), of _ "''b''"] by simp
qed

text \<open>Whatever bytes arrive, the parser never takes the last header of an empty list
  (which would be undefined behaviour), and it never is in the state \<^verbatim>\<open>uri_start\<close>: that case of
  the code is dead.\<close>

theorem parser_safe:
  "fst (parse_request input) \<noteq> Undef \<and> fst (snd (parse_request input)) \<noteq> uri_start"
proof -
  obtain r st req rest where "parse_request input = (r, st, req, rest)" by (metis prod_cases4)
  with req_parse_inv [of method_start new_request input r st req rest] show ?thesis
    by (simp add: parse_request_def parser_inv_def needs_header_def)
qed

text \<open>A negative content length makes the parser throw as soon as one byte of content
  arrives: the string constructor is given the length as an unsigned number.\<close>

theorem negative_length_throws:
  assumes "wire_ok w" and "body_method (w_method w)" and "declared_length (w_headers w) < 0"
    and "rest \<noteq> []"
  shows "fst (parse_request (request_head w @ [CHR 0x0D, CHR 0x0A] @ rest)) = Throw"
  using parse_request_end [OF assms(1), of rest] assms(2-4)
  by (simp add: req_parse_reading read_content_def)

theorem negative_length_throws_witness:
  "fst (parse_request (request_head (example_post\<lparr>w_headers :=
      [\<lparr>h_name = ''content-length'', h_value = ''-1''\<rparr>]\<rparr>) @ [CHR 0x0D, CHR 0x0A] @ ''x'')) = Throw"
proof -
  let ?w = "example_post\<lparr>w_headers := [\<lparr>h_name = ''content-length'', h_value = ''-1''\<rparr>]\<rparr>"
  have "wire_ok ?w" by (simp add: example_post_def wire_ok_defs)
  moreover have "body_method (w_method ?w)" by (simp add: example_post_def body_method_def)
  moreover have "declared_length (w_headers ?w) < 0" by code_simp
  ultimately show ?thesis by (rule negative_length_throws) simp
qed

end
