(* ===== verification/Reply.thy ===== *)
theory Reply
  imports Request
begin

text \<open>
  \<^verbatim>\<open>web/webserver/reply.cpp\<close> and \<^verbatim>\<open>mime_types.cpp\<close>: replies, their stock pages, their header
  operations and their text on the wire.
\<close>

text \<open>The enum \<^verbatim>\<open>reply::status_type\<close>; \<open>st_other\<close> is a number cast to it that it does not name.\<close>

datatype status_type =
    st_switching_protocols | st_download_file | st_ok | st_created | st_accepted | st_no_content
  | st_multiple_choices | st_moved_permanently | st_moved_temporarily | st_not_modified
  | st_bad_request | st_unauthorized | st_forbidden | st_not_found | st_not_allowed
  | st_internal_server_error | st_not_implemented | st_bad_gateway | st_service_unavailable
  | st_other int

fun status_code :: "status_type \<Rightarrow> int" where
  "status_code st_switching_protocols = 101"
| "status_code st_download_file = 102"
| "status_code st_ok = 200"
| "status_code st_created = 201"
| "status_code st_accepted = 202"
| "status_code st_no_content = 204"
| "status_code st_multiple_choices = 300"
| "status_code st_moved_permanently = 301"
| "status_code st_moved_temporarily = 302"
| "status_code st_not_modified = 304"
| "status_code st_bad_request = 400"
| "status_code st_unauthorized = 401"
| "status_code st_forbidden = 403"
| "status_code st_not_found = 404"
| "status_code st_not_allowed = 405"
| "status_code st_internal_server_error = 500"
| "status_code st_not_implemented = 501"
| "status_code st_bad_gateway = 502"
| "status_code st_service_unavailable = 503"
| "status_code (st_other n) = n"

definition crlf :: string where
  "crlf = [CHR 0x0D, CHR 0x0A]"

fun status_line :: "status_type \<Rightarrow> string" where
  "status_line st_switching_protocols = ''HTTP/1.1 101 Switching Protocols'' @ crlf"
| "status_line st_download_file = ''HTTP/1.1 102 Download File'' @ crlf"
| "status_line st_ok = ''HTTP/1.1 200 OK'' @ crlf"
| "status_line st_created = ''HTTP/1.1 201 Created'' @ crlf"
| "status_line st_accepted = ''HTTP/1.1 202 Accepted'' @ crlf"
| "status_line st_no_content = ''HTTP/1.1 204 No Content'' @ crlf"
| "status_line st_multiple_choices = ''HTTP/1.1 300 Multiple Choices'' @ crlf"
| "status_line st_moved_permanently = ''HTTP/1.1 301 Moved Permanently'' @ crlf"
| "status_line st_moved_temporarily = ''HTTP/1.1 302 Moved Temporarily'' @ crlf"
| "status_line st_not_modified = ''HTTP/1.1 304 Not Modified'' @ crlf"
| "status_line st_bad_request = ''HTTP/1.1 400 Bad Request'' @ crlf"
| "status_line st_unauthorized = ''HTTP/1.1 401 Unauthorized'' @ crlf"
| "status_line st_forbidden = ''HTTP/1.1 403 Forbidden'' @ crlf"
| "status_line st_not_found = ''HTTP/1.1 404 Not Found'' @ crlf"
| "status_line st_internal_server_error = ''HTTP/1.1 500 Internal Server Error'' @ crlf"
| "status_line st_not_implemented = ''HTTP/1.1 501 Not Implemented'' @ crlf"
| "status_line st_bad_gateway = ''HTTP/1.1 502 Bad Gateway'' @ crlf"
| "status_line st_service_unavailable = ''HTTP/1.1 503 Service Unavailable'' @ crlf"
| "status_line _ = ''HTTP/1.1 500 Internal Server Error'' @ crlf"

definition stock_page :: "string \<Rightarrow> string \<Rightarrow> string" where
  "stock_page title heading =
     ''<html>'' @ ''<head><title>'' @ title @ ''</title></head>'' @
     ''<body><h1>'' @ heading @ ''</h1></body>'' @ ''</html>''"

fun stock_content :: "status_type \<Rightarrow> string" where
  "stock_content st_switching_protocols = []"
| "stock_content st_download_file = []"
| "stock_content st_ok = []"
| "stock_content st_created = stock_page ''Created'' ''201 Created''"
| "stock_content st_accepted = stock_page ''Accepted'' ''202 Accepted''"
| "stock_content st_no_content = []"
| "stock_content st_multiple_choices = stock_page ''Multiple Choices'' ''300 Multiple Choices''"
| "stock_content st_moved_permanently = stock_page ''Moved Permanently'' ''301 Moved Permanently''"
| "stock_content st_moved_temporarily = stock_page ''Moved Temporarily'' ''302 Moved Temporarily''"
| "stock_content st_not_modified = []"
| "stock_content st_bad_request = stock_page ''Bad Request'' ''400 Bad Request''"
| "stock_content st_unauthorized = stock_page ''Unauthorized'' ''401 Unauthorized''"
| "stock_content st_forbidden = stock_page ''Forbidden'' ''403 Forbidden''"
| "stock_content st_not_found = stock_page ''Not Found'' ''404 Not Found''"
| "stock_content st_not_allowed = stock_page ''Not Allowed'' ''405 Not Allowed''"
| "stock_content st_internal_server_error =
     stock_page ''Internal Server Error'' ''500 Internal Server Error''"
| "stock_content st_not_implemented = stock_page ''Not Implemented'' ''501 Not Implemented''"
| "stock_content st_bad_gateway = stock_page ''Bad Gateway'' ''502 Bad Gateway''"
| "stock_content st_service_unavailable =
     stock_page ''Service Unavailable'' ''503 Service Unavailable''"
| "stock_content (st_other n) = stock_page ''Internal Server Error'' ''500 Internal Server Error''"

record reply =
  rp_status :: status_type
  rp_headers :: "header list"
  rp_content :: string
  rp_bIsGZIP :: bool

definition header_to_string :: "reply \<Rightarrow> string" where
  "header_to_string r =
     status_line (rp_status r) @
     concat (map (\<lambda>h. h_name h @ '': '' @ h_value h @ crlf) (rp_headers r)) @ crlf"

definition reply_to_string :: "string \<Rightarrow> reply \<Rightarrow> string" where
  "reply_to_string method r =
     header_to_string r @ (if method \<noteq> ''HEAD'' then rp_content r else [])"

definition reply_reset :: "reply \<Rightarrow> reply" where
  "reply_reset r = r\<lparr>rp_headers := [], rp_content := [], rp_bIsGZIP := False\<rparr>"

definition stock_reply :: "status_type \<Rightarrow> reply" where
  "stock_reply st =
     (let c = stock_content st
      in \<lparr>rp_status = st,
          rp_headers = (if c \<noteq> [] then
            [\<lparr>h_name = ''Content-Length'', h_value = nat_to_string (length c)\<rparr>,
             \<lparr>h_name = ''Content-Type'', h_value = ''text/html''\<rparr>] else []),
          rp_content = c, rp_bIsGZIP = False\<rparr>)"

text \<open>\<^verbatim>\<open>boost::iequals\<close> in the C locale.\<close>

definition iequals :: "string \<Rightarrow> string \<Rightarrow> bool" where
  "iequals a b \<longleftrightarrow> map lowercase a = map lowercase b"

fun replace_header :: "string \<Rightarrow> string \<Rightarrow> header list \<Rightarrow> header list option" where
  "replace_header n v [] = None"
| "replace_header n v (h # hs) =
     (if iequals (h_name h) n then Some (h\<lparr>h_value := v\<rparr> # hs)
      else map_option ((#) h) (replace_header n v hs))"

definition add_header :: "string \<Rightarrow> string \<Rightarrow> bool \<Rightarrow> reply \<Rightarrow> reply" where
  "add_header n v rpl r =
     (let appended = r\<lparr>rp_headers := rp_headers r @ [\<lparr>h_name = n, h_value = v\<rparr>]\<rparr>
      in if rpl then (case replace_header n v (rp_headers r) of
                        Some hs \<Rightarrow> r\<lparr>rp_headers := hs\<rparr> | None \<Rightarrow> appended)
         else appended)"

definition add_header_if_absent :: "string \<Rightarrow> string \<Rightarrow> reply \<Rightarrow> reply" where
  "add_header_if_absent n v r =
     (if list_ex (\<lambda>h. iequals (h_name h) n) (rp_headers r) then r else add_header n v False r)"

definition set_content :: "string \<Rightarrow> reply \<Rightarrow> reply" where
  "set_content c r = r\<lparr>rp_content := c\<rparr>"

definition add_header_attachment :: "string \<Rightarrow> reply \<Rightarrow> reply" where
  "add_header_attachment a r = add_header ''Content-Disposition'' (''attachment; filename='' @ a) True r"

definition add_header_content_type :: "string \<Rightarrow> reply \<Rightarrow> reply" where
  "add_header_content_type t r = (if t \<noteq> [] then add_header ''Content-Type'' t True r else r)"

section \<open>MIME types\<close>

definition mime_mappings :: "(string \<times> string) list" where
  "mime_mappings =
     [(''gif'', ''image/gif''), (''htm'', ''text/html''), (''html'', ''text/html''),
      (''jpg'', ''image/jpeg''), (''png'', ''image/png''), (''css'', ''text/css''),
      (''xml'', ''application/xml''), (''js'', ''application/javascript''),
      (''json'', ''application/json''), (''swf'', ''application/x-shockwave-flash''),
      (''manifest'', ''text/cache-manifest''), (''appcache'', ''text/cache-manifest''),
      (''xls'', ''application/vnd.openxmlformats-officedocument.spreadsheetml.sheet''),
      (''m3u'', ''audio/mpegurl''), (''mp3'', ''audio/mpeg''), (''ogg'', ''audio/ogg''),
      (''php'', ''text/html''), (''wav'', ''audio/x-wav''), (''svg'', ''image/svg+xml''),
      (''ico'', ''image/x-icon''), (''db'', ''application/octet-stream''),
      (''otf'', ''application/x-font-otf''), (''ttf'', ''application/x-font-ttf''),
      (''woff'', ''application/x-font-woff''), (''flv'', ''video/x-flv''), (''mp4'', ''video/mp4''),
      (''m3u8'', ''application/x-mpegURL''), (''ts'', ''video/MP2T''), (''3gp'', ''video/3gpp''),
      (''mov'', ''video/quicktime''), (''avi'', ''video/x-msvideo''), (''wmv'', ''video/x-ms-wmv''),
      (''h264'', ''video/h264''), (''mp4'', ''video/mp4''), (''wmv'', ''video/x-ms-wmv''),
      (''txt'', ''text/plain''), (''pdf'', ''application/pdf'')]"

definition extension_to_type :: "string \<Rightarrow> string" where
  "extension_to_type e = (case map_of mime_mappings e of None \<Rightarrow> [] | Some t \<Rightarrow> t)"

section \<open>Files\<close>

text \<open>What follows the last dot, if there is one.\<close>

definition after_last_dot :: "string \<Rightarrow> string option" where
  "after_last_dot s =
     (if CHR ''.'' \<in> set s then Some (rev (takeWhile (\<lambda>c. c \<noteq> CHR ''.'') (rev s))) else None)"

definition content_type_of :: "string \<Rightarrow> string" where
  "content_type_of e =
     (let t = extension_to_type e
      in if contains t ''text/'' \<or> contains t ''/xml'' \<or> contains t ''/javascript'' \<or>
            contains t ''/json''
         then t @ '';charset=UTF-8'' else t)"

text \<open>\<open>file\<close> is the content of the file, \<^const>\<open>None\<close> when it cannot be opened.\<close>

definition set_content_from_file :: "string option \<Rightarrow> reply \<Rightarrow> bool \<times> reply" where
  "set_content_from_file file r =
     (case file of None \<Rightarrow> (False, r)
      | Some c \<Rightarrow> (True, if c \<noteq> [] then set_content c r else r))"

definition set_content_from_attachment ::
  "string option \<Rightarrow> string \<Rightarrow> bool \<Rightarrow> reply \<Rightarrow> bool \<times> reply" where
  "set_content_from_attachment file attachment set_type r =
     (case set_content_from_file file r of
        (False, r1) \<Rightarrow> (False, r1)
      | (True, r1) \<Rightarrow>
          let r2 = add_header_attachment attachment r1
          in (True, if set_type then
                      (case after_last_dot attachment of
                         None \<Rightarrow> r2 | Some e \<Rightarrow> add_header_content_type (content_type_of e) r2)
                    else r2))"

definition set_download_file :: "string \<Rightarrow> string \<Rightarrow> reply \<Rightarrow> bool \<times> reply" where
  "set_download_file path attachment r =
     (if path = [] \<or> attachment = [] then (False, r)
      else (True, (reply_reset r)\<lparr>rp_status := st_download_file, rp_content := path @ crlf @ attachment\<rparr>))"

section \<open>Header lemmas\<close>

definition reply_header :: "reply \<Rightarrow> string \<Rightarrow> string option" where
  "reply_header r n = map_option h_value (find (\<lambda>h. iequals (h_name h) n) (rp_headers r))"

definition header_count :: "reply \<Rightarrow> string \<Rightarrow> nat" where
  "header_count r n = length (filter (\<lambda>h. iequals (h_name h) n) (rp_headers r))"

lemma iequals_refl [simp]: "iequals a a"
  by (simp add: iequals_def)

lemma iequals_same: "iequals m n \<Longrightarrow> iequals a m \<longleftrightarrow> iequals a n"
  by (simp add: iequals_def)

lemma replace_header_None: "replace_header n v hs = None \<longleftrightarrow> \<not> list_ex (\<lambda>h. iequals (h_name h) n) hs"
  by (induction hs) auto

lemma replace_header_Some:
  "replace_header n v hs = Some hs' \<Longrightarrow>
   map h_name hs' = map h_name hs \<and>
   map_option h_value (find (\<lambda>h. iequals (h_name h) n) hs') = Some v \<and>
   (\<not> iequals m n \<longrightarrow> find (\<lambda>h. iequals (h_name h) m) hs' = find (\<lambda>h. iequals (h_name h) m) hs)"
proof (induction hs arbitrary: hs')
  case (Cons h hs)
  show ?case
  proof (cases "iequals (h_name h) n")
    case True
    with Cons.prems show ?thesis by (auto simp: iequals_def)
  next
    case False
    with Cons show ?thesis by auto
  qed
qed simp

lemma filter_names: "map h_name xs = map h_name ys \<Longrightarrow>
  length (filter (\<lambda>h. P (h_name h)) xs) = length (filter (\<lambda>h. P (h_name h)) ys)"
proof -
  assume e: "map h_name xs = map h_name ys"
  have "length (filter (\<lambda>h. P (h_name h)) zs) = length (filter P (map h_name zs))" for zs
    by (induction zs) auto
  with e show ?thesis by metis
qed

text \<open>
  Setting a header gives it the value and leaves every other header alone: after \<^verbatim>\<open>add_header\<close>
  with replacement the name (in any case) has the new value, other names have what they had, and
  the name occurs once more only when it did not occur at all.
\<close>

lemma add_header_sets:
  "let r' = add_header n v True r in
    reply_header r' n = Some v \<and>
    (\<forall>m. \<not> iequals m n \<longrightarrow> reply_header r' m = reply_header r m) \<and>
    header_count r' n = max 1 (header_count r n) \<and>
    rp_content r' = rp_content r \<and> rp_status r' = rp_status r"
proof (cases "replace_header n v (rp_headers r)")
  case None
  then have no: "\<forall>h \<in> set (rp_headers r). \<not> iequals (h_name h) n"
    by (simp add: replace_header_None list_ex_iff)
  then have f: "find (\<lambda>h. iequals (h_name h) n) (rp_headers r) = None"
    "filter (\<lambda>h. iequals (h_name h) n) (rp_headers r) = []"
    by (auto simp: find_None_iff filter_empty_conv)
  have fa: "find P (xs @ ys) = (case find P xs of None \<Rightarrow> find P ys | Some x \<Rightarrow> Some x)"
    for P and xs ys :: "header list"
    by (induction xs) auto
  have sym: "iequals n m \<longleftrightarrow> iequals m n" for m by (auto simp: iequals_def)
  show ?thesis
    using None f
    by (auto simp: add_header_def Let_def reply_header_def header_count_def fa sym split: option.splits)
next
  case (Some hs)
  note r = replace_header_Some [OF Some]
  have ne: "\<not> list_all (\<lambda>h. \<not> iequals (h_name h) n) (rp_headers r)"
    using Some replace_header_None [of n v "rp_headers r"] by (auto simp: list_ex_iff list_all_iff)
  then have "filter (\<lambda>h. iequals (h_name h) n) (rp_headers r) \<noteq> []"
    by (auto simp: list_all_iff filter_empty_conv)
  moreover have "length (filter (\<lambda>h. iequals (h_name h) n) hs) =
      length (filter (\<lambda>h. iequals (h_name h) n) (rp_headers r))"
    using r by (intro filter_names) blast
  ultimately show ?thesis
    using Some r by (auto simp: add_header_def Let_def reply_header_def header_count_def Suc_le_eq max_def)
qed

lemma reply_header_add_header [simp]:
  "reply_header (add_header n v True r) m = (if iequals m n then Some v else reply_header r m)"
proof (cases "iequals m n")
  case True
  then have "reply_header q m = reply_header q n" for q
    by (simp add: reply_header_def iequals_same)
  with True add_header_sets [of n v r] show ?thesis by (simp add: Let_def)
next
  case False
  with add_header_sets [of n v r] show ?thesis by (simp add: Let_def)
qed

lemma add_header_fields [simp]:
  "rp_content (add_header n v b r) = rp_content r"
  "rp_status (add_header n v b r) = rp_status r"
  "rp_bIsGZIP (add_header n v b r) = rp_bIsGZIP r"
  by (auto simp: add_header_def Let_def split: option.splits)

lemma add_header_content_type_fields [simp]:
  "rp_content (add_header_content_type t r) = rp_content r"
  "rp_status (add_header_content_type t r) = rp_status r"
  "rp_bIsGZIP (add_header_content_type t r) = rp_bIsGZIP r"
  by (simp_all add: add_header_content_type_def)

lemma reply_header_content_type [simp]:
  "\<not> iequals m ''Content-Type'' \<Longrightarrow> reply_header (add_header_content_type t r) m = reply_header r m"
  by (simp add: add_header_content_type_def)

lemma reply_header_update [simp]:
  "reply_header (r\<lparr>rp_content := c\<rparr>) m = reply_header r m"
  "reply_header (r\<lparr>rp_status := st\<rparr>) m = reply_header r m"
  "reply_header (r\<lparr>rp_bIsGZIP := b\<rparr>) m = reply_header r m"
  by (simp_all add: reply_header_def)

lemma set_content_fields [simp]:
  "rp_content (set_content c r) = c"
  "rp_status (set_content c r) = rp_status r"
  by (simp_all add: set_content_def)

lemma stock_reply_status [simp]: "rp_status (stock_reply st) = st"
  by (simp add: stock_reply_def Let_def)

section \<open>Properties\<close>

text \<open>A stock reply describes itself: its content length header is the length of its
  page, it has no headers when there is no page, and its page names its status code; its status
  line does so too, except for 405, which is sent with the status line of 500.\<close>

theorem stock_reply_consistent:
  "(rp_content (stock_reply st) \<noteq> [] \<longrightarrow>
      reply_header (stock_reply st) ''Content-Length'' = Some (nat_to_string (length (rp_content (stock_reply st))))) \<and>
   (rp_content (stock_reply st) = [] \<longrightarrow> rp_headers (stock_reply st) = []) \<and>
   ((\<forall>n. st \<noteq> st_other n) \<longrightarrow>
      starts_with (''HTTP/1.1 '' @ int_to_string (if st = st_not_allowed then 500 else status_code st))
        (reply_to_string method (stock_reply st)))"
proof -
  have "starts_with (''HTTP/1.1 '' @ int_to_string (if st = st_not_allowed then 500 else status_code st))
      (status_line st)" if "\<forall>n. st \<noteq> st_other n"
    using that
    by (cases st) (simp_all add: int_to_string_def nat_to_string.simps digit_char_chars)
  moreover have "\<exists>rest. reply_to_string method r = status_line (rp_status r) @ rest" for r
    by (simp add: reply_to_string_def header_to_string_def)
  moreover have "rp_status (stock_reply st) = st" by (simp add: stock_reply_def Let_def)
  ultimately have "(\<forall>n. st \<noteq> st_other n) \<longrightarrow>
      starts_with (''HTTP/1.1 '' @ int_to_string (if st = st_not_allowed then 500 else status_code st))
        (reply_to_string method (stock_reply st))"
    by (metis starts_with_extend)
  then show ?thesis
    by (simp add: stock_reply_def Let_def reply_header_def)
qed


theorem stock_reply_consistent_witness:
  "starts_with ''HTTP/1.1 500'' (reply_to_string ''GET'' (stock_reply st_not_allowed)) \<and>
   reply_header (stock_reply st_not_allowed) ''Content-Length'' = Some ''89''"
proof -
  have n: "int_to_string 500 = ''500''" by code_simp
  have c: "rp_content (stock_reply st_not_allowed) \<noteq> []"
    "nat_to_string (length (rp_content (stock_reply st_not_allowed))) = ''89''"
    by code_simp+
  show ?thesis
    using stock_reply_consistent [of st_not_allowed "''GET''"] c by (simp add: n)
qed

end
