(* ===== verification/Connection.thy ===== *)
theory Connection
  imports RequestParser Reply Websocket
begin

text \<open>
  \<^verbatim>\<open>web/webserver/connection.cpp\<close>: one client connection.  Its input is parsed as HTTP until a
  request upgrades it, and as web socket frames from then on; its output is a queue of buffers of
  which one at a time is handed to the socket.

  The socket, the timers and the request handler belong to the environment.  What the connection
  asks of the socket is recorded: \<open>cn_issued\<close> are the buffers given to \<^verbatim>\<open>async_write\<close>, \<open>cn_reading\<close>
  says that a read was asked for, \<open>cn_stopped\<close> that the connection manager was told to stop it.
\<close>

datatype connection_kind = connection_http | connection_websocket | connection_websocket_closing

record connection =
  connection_type :: connection_kind
  conn_keepalive :: bool
  write_in_progress :: bool
  write_buffer :: string
  writeQ :: "string list"
  cn_buf :: string
  websocket_parser :: websocket
  cn_issued :: "string list"
  cn_reading :: bool
  cn_stopped :: bool

definition new_connection :: connection where
  "new_connection = \<lparr>connection_type = connection_http, conn_keepalive = False, write_in_progress = False,
     write_buffer = [], writeQ = [], cn_buf = [], websocket_parser = CWebsocket, cn_issued = [],
     cn_reading = False, cn_stopped = False\<rparr>"

section \<open>Output\<close>

definition SocketWrite :: "string \<Rightarrow> connection \<Rightarrow> connection" where
  "SocketWrite buf c =
     c\<lparr>write_in_progress := True, write_buffer := buf, cn_issued := cn_issued c @ [buf]\<rparr>"

definition MyWrite :: "string \<Rightarrow> connection \<Rightarrow> connection" where
  "MyWrite buf c =
     (if connection_type c = connection_websocket_closing then c
      else if write_in_progress c then c\<lparr>writeQ := writeQ c @ [buf]\<rparr>
      else SocketWrite buf c)"

definition WS_Write :: "bytes \<Rightarrow> connection \<Rightarrow> connection" where
  "WS_Write packet c = MyWrite (string_of_bytes (Create opcode_text packet None)) c"

definition stop_connection :: "connection \<Rightarrow> connection" where
  "stop_connection c = c\<lparr>cn_stopped := True\<rparr>"

text \<open>\<^verbatim>\<open>connection::stop\<close>: the web socket stops listening and the socket is closed.\<close>

definition connection_stop :: "connection \<Rightarrow> connection" where
  "connection_stop c =
     (if connection_type c = connection_websocket
      then c\<lparr>websocket_parser := ws_Stop (websocket_parser c)\<rparr> else c)"

definition handle_write :: "bool \<Rightarrow> connection \<Rightarrow> connection" where
  "handle_write error c =
     (let c1 = c\<lparr>write_buffer := [], write_in_progress := False\<rparr>;
          c2 = (if \<not> error then
                  (case writeQ c1 of
                     buf # q \<Rightarrow> SocketWrite buf (c1\<lparr>writeQ := q\<rparr>)
                   | [] \<Rightarrow> if \<not> conn_keepalive c1 then stop_connection c1 else c1)
                else c1)
      in if \<not> error \<and> conn_keepalive c2 then c2 else stop_connection c2)"

section \<open>Timers\<close>

definition run_output :: "(push_doc \<Rightarrow> bytes) \<Rightarrow> connection \<Rightarrow> ws_out list \<Rightarrow> connection" where
  "run_output jwrite = foldl (\<lambda>c out. case out of
     WriteFrame f \<Rightarrow> MyWrite (string_of_bytes f) c | WriteText d \<Rightarrow> WS_Write (jwrite d) c)"

definition handle_read_timeout :: "(push_doc \<Rightarrow> bytes) \<Rightarrow> bool \<Rightarrow> bool \<Rightarrow> connection \<Rightarrow> connection" where
  "handle_read_timeout jwrite error aborted c =
     (if \<not> error \<and> conn_keepalive c \<and> connection_type c = connection_websocket
      then run_output jwrite c (SendPing (websocket_parser c))
      else if \<not> aborted then stop_connection c else c)"

definition handle_abandoned_timeout :: "bool \<Rightarrow> connection \<Rightarrow> connection" where
  "handle_abandoned_timeout aborted c = (if \<not> aborted then stop_connection c else c)"

section \<open>Input\<close>

definition read_more :: "connection \<Rightarrow> connection" where
  "read_more c = c\<lparr>cn_reading := True\<rparr>"

text \<open>The web socket branch of \<^verbatim>\<open>handle_read\<close>: one frame per read.\<close>

definition handle_read_ws ::
  "json_reader \<Rightarrow> (string \<Rightarrow> result_rows) \<Rightarrow> (push_doc \<Rightarrow> bytes) \<Rightarrow> connection \<Rightarrow> connection option" where
  "handle_read_ws reader safe_query jwrite c =
     (let buf = map (\<lambda>ch. word_of_nat (of_char ch)) (cn_buf c);
          r = ws_parse reader safe_query buf (conn_keepalive c) (websocket_parser c);
          c1 = run_output jwrite c (ws_output r);
          c2 = c1\<lparr>websocket_parser := ws_state r, conn_keepalive := keep_alive r,
                  cn_buf := drop (consumed r) (cn_buf c)\<rparr>
      in case verdict r of
           Raised \<Rightarrow> None
         | Returned v \<Rightarrow>
             Some (if v = Some True then
                     (if conn_keepalive c2 then read_more c2
                      else c2\<lparr>connection_type := connection_websocket_closing\<rparr>)
                   else read_more c2))"

text \<open>
  The HTTP branch.  \<open>handler\<close> is the request handler; the file of a \<^verbatim>\<open>download_file\<close> reply is
  sent by \<open>ConnectionFile\<close>, \<open>send_file\<close> tells here whether it could be opened and with what reply
  otherwise.  A parser exception leaves the \<^verbatim>\<open>tribool\<close> at its initial value, which is false.
\<close>

definition wants_keepalive :: "request \<Rightarrow> bool" where
  "wants_keepalive req = (case get_req_header req ''Connection'' of
      None \<Rightarrow> False | Some v \<Rightarrow> iequals v ''Keep-Alive'')"

definition client_address :: "string \<Rightarrow> string" where
  "client_address a = (if substr a 0 7 = ''::ffff:'' then drop 7 a else a)"

definition keepalive_headers :: "string \<Rightarrow> request \<Rightarrow> reply \<Rightarrow> reply" where
  "keepalive_headers limits req rep =
     (if rq_keep_alive req \<and> rp_status rep \<in> {st_ok, st_no_content, st_not_modified}
      then add_header_if_absent ''Keep-Alive'' limits
             (add_header_if_absent ''Connection'' ''Keep-Alive'' rep)
      else rep)"

definition finish_request :: "string \<Rightarrow> request \<Rightarrow> reply \<Rightarrow> connection \<Rightarrow> connection" where
  "finish_request limits req rep c =
     (let c1 = MyWrite (reply_to_string (rq_method req) (keepalive_headers limits req rep)) c;
          c2 = (if rp_status rep = st_switching_protocols
                then c1\<lparr>connection_type := connection_websocket\<rparr> else c1)
      in if conn_keepalive c2 then read_more c2 else c2)"

definition handle_request ::
  "(request \<Rightarrow> reply) \<Rightarrow> (string \<Rightarrow> string \<Rightarrow> reply option) \<Rightarrow> string \<Rightarrow> string \<Rightarrow> request \<Rightarrow> connection
     \<Rightarrow> connection" where
  "handle_request handler send_file address limits req0 c =
     (let ka = wants_keepalive req0;
          req = req0\<lparr>rq_keep_alive := ka, host_address := client_address address\<rparr>;
          rep = handler req;
          c1 = c\<lparr>conn_keepalive := ka\<rparr>
      in if rp_status rep = st_switching_protocols then
           finish_request limits req rep
             (c1\<lparr>connection_type := connection_websocket, conn_keepalive := True,
                 websocket_parser := ws_Start (websocket_parser c1)\<rparr>)
         else if rp_status rep = st_download_file then
           (case str_find crlf (rp_content rep) 0 of
              None \<Rightarrow> finish_request limits req (stock_reply st_internal_server_error) c1
            | Some n \<Rightarrow>
                (case send_file (take n (rp_content rep)) (drop (n + 2) (rp_content rep)) of
                   None \<Rightarrow> c1
                 | Some rep' \<Rightarrow> finish_request limits req rep' c1))
         else finish_request limits req rep c1)"

definition handle_read_http ::
  "(request \<Rightarrow> reply) \<Rightarrow> (string \<Rightarrow> string \<Rightarrow> reply option) \<Rightarrow> string \<Rightarrow> string \<Rightarrow> connection \<Rightarrow> connection" where
  "handle_read_http handler send_file address limits c =
     (case parse_request (cn_buf c) of
        (Done True, st, req, rest) \<Rightarrow>
          handle_request handler send_file address limits req (c\<lparr>cn_buf := rest\<rparr>)
      | (More, st, req, rest) \<Rightarrow> read_more c
      | (_, st, req, rest) \<Rightarrow>
          MyWrite (reply_to_string (rq_method req) (stock_reply st_bad_request)) (c\<lparr>conn_keepalive := False\<rparr>))"

text \<open>\<^verbatim>\<open>handle_read\<close>: data came in, or an error.\<close>

definition handle_read ::
  "(request \<Rightarrow> reply) \<Rightarrow> (string \<Rightarrow> string \<Rightarrow> reply option) \<Rightarrow> string \<Rightarrow> string \<Rightarrow> json_reader
     \<Rightarrow> (string \<Rightarrow> result_rows) \<Rightarrow> (push_doc \<Rightarrow> bytes) \<Rightarrow> bool \<Rightarrow> bool \<Rightarrow> string \<Rightarrow> connection
     \<Rightarrow> connection option" where
  "handle_read handler send_file address limits reader safe_query jwrite error aborted input c =
     (let c0 = c\<lparr>cn_reading := False\<rparr>
      in if \<not> error \<and> input \<noteq> [] then
           let c1 = c0\<lparr>cn_buf := cn_buf c0 @ input\<rparr>
           in if connection_type c1 = connection_http
              then Some (handle_read_http handler send_file address limits c1)
              else handle_read_ws reader safe_query jwrite c1
         else if \<not> aborted then Some (stop_connection c0) else Some c0)"

section \<open>The output queue\<close>

text \<open>
  The queue contract for what waits behind the buffer that is being written: \<^verbatim>\<open>MyWrite\<close> puts a
  buffer at its end, the completion of a write takes the first one.
\<close>

definition wq_push :: "string list \<Rightarrow> string \<Rightarrow> string list" where
  "wq_push q b = writeQ (MyWrite b (new_connection\<lparr>write_in_progress := True, writeQ := q\<rparr>))"

definition wq_pop :: "string list \<Rightarrow> string option \<times> string list" where
  "wq_pop q =
     (let c = handle_write False (new_connection\<lparr>write_in_progress := True, conn_keepalive := True, writeQ := q\<rparr>)
      in (if write_in_progress c then Some (write_buffer c) else None, writeQ c))"

interpretation write_queue: fifo_queue "\<lambda>q. q" wq_push wq_pop
  by unfold_locales
    (simp_all add: wq_push_def wq_pop_def MyWrite_def handle_write_def SocketWrite_def new_connection_def Let_def)

datatype write_op = DoWrite string | WriteDone

fun write_step :: "connection \<Rightarrow> write_op \<Rightarrow> connection" where
  "write_step c (DoWrite b) = MyWrite b c"
| "write_step c WriteDone = (if write_in_progress c then handle_write False c else c)"

definition writes :: "write_op list \<Rightarrow> string list" where
  "writes ops = concat (map (\<lambda>x. case x of DoWrite b \<Rightarrow> [b] | WriteDone \<Rightarrow> []) ops)"

definition write_inv :: "connection \<Rightarrow> bool" where
  "write_inv c \<longleftrightarrow> connection_type c \<noteq> connection_websocket_closing \<and>
     (\<not> write_in_progress c \<longrightarrow> writeQ c = [])"

lemma write_step_order:
  assumes "write_inv c"
  shows "write_inv (write_step c x) \<and>
    cn_issued (write_step c x) @ writeQ (write_step c x) = cn_issued c @ writeQ c @ writes [x] \<and>
    conn_keepalive (write_step c x) = conn_keepalive c \<and> (conn_keepalive c \<longrightarrow> cn_stopped (write_step c x) = cn_stopped c)"
proof (cases x)
  case (DoWrite b)
  with assms show ?thesis
    by (auto simp: write_inv_def MyWrite_def SocketWrite_def writes_def)
next
  case WriteDone
  with assms show ?thesis
    by (cases "writeQ c")
      (auto simp: write_inv_def handle_write_def SocketWrite_def stop_connection_def writes_def Let_def)
qed

lemma write_steps_order:
  "write_inv c \<Longrightarrow> write_inv (foldl write_step c ops) \<and>
    cn_issued (foldl write_step c ops) @ writeQ (foldl write_step c ops) = cn_issued c @ writeQ c @ writes ops \<and>
    (conn_keepalive c \<longrightarrow> cn_stopped (foldl write_step c ops) = cn_stopped c)"
proof (induction ops arbitrary: c)
  case Nil
  then show ?case by (simp add: writes_def)
next
  case (Cons x ops)
  have w: "writes (x # ops) = writes [x] @ writes ops" by (simp add: writes_def)
  show ?case
    using Cons.IH [of "write_step c x"] write_step_order [OF Cons.prems, of x] by (auto simp: w)
qed

section \<open>What the frame parser reports\<close>

lemma dispatch_True:
  "verdict (dispatch_packet reader sq n ka w) = Returned (Some True) \<Longrightarrow>
   keep_alive (dispatch_packet reader sq n ka w) = ka"
  by (simp add: dispatch_packet_def split: prod.splits if_splits)

lemma ws_parse_True:
  assumes "verdict (ws_parse reader sq buf ka w) = Returned (Some True)"
  shows "keep_alive (ws_parse reader sq buf ka w) = ka"
proof (cases "Parse buf")
  case (Some f)
  show ?thesis
  proof (cases "fin f")
    case True
    with assms show ?thesis by (simp add: ws_parse_final [OF Some] dispatch_True)
  next
    case False
    then show ?thesis by (simp add: ws_parse_fragment [OF Some])
  qed
qed (use assms in \<open>simp add: ws_parse_def\<close>)

section \<open>Properties\<close>



text \<open>A connection that is not kept alive is stopped by the completion of its first
  write even when more buffers wait: the next buffer is handed to the socket and the connection is
  stopped in the same step, and the rest never leaves the queue.\<close>

theorem close_drops_queue:
  assumes "\<not> conn_keepalive c" and "writeQ c = b # q"
  shows "let c' = handle_write False c in
    cn_stopped c' \<and> write_in_progress c' \<and> write_buffer c' = b \<and> writeQ c' = q"
  using assms by (simp add: handle_write_def SocketWrite_def stop_connection_def Let_def)

theorem close_drops_queue_witness:
  "let c' = handle_write False (new_connection\<lparr>write_in_progress := True, writeQ := [''a'', ''b'']\<rparr>)
   in cn_stopped c' \<and> writeQ c' = [''b'']"
  using close_drops_queue [of "new_connection\<lparr>write_in_progress := True, writeQ := [''a'', ''b'']\<rparr>" "''a''" "[''b'']"]
  by (simp add: new_connection_def Let_def)

text \<open>The closing state of a web socket is never entered while the connection is kept
  alive: the parser reports success only for data, not for a close frame, so a close frame is
  answered and the connection goes on reading.\<close>

theorem closing_not_entered:
  assumes "connection_type c = connection_websocket" and "conn_keepalive c"
    and "handle_read_ws reader sq jwrite c = Some c'"
  shows "connection_type c' = connection_websocket \<and> cn_reading c'"
proof -
  let ?buf = "map (\<lambda>ch. word_of_nat (of_char ch)) (cn_buf c) :: bytes"
  note ka = ws_parse_True [of reader sq ?buf]
  have ty: "connection_type (run_output jwrite c0 os) = connection_type c0" for c0 os
    by (induction os arbitrary: c0)
      (auto simp: run_output_def MyWrite_def WS_Write_def SocketWrite_def split: ws_out.splits)
  show ?thesis
    using assms ka [of True "websocket_parser c"]
    by (auto simp: handle_read_ws_def Let_def read_more_def ty split: verdict.splits if_splits)
qed

theorem closing_not_entered_witness:
  "\<exists>c'. handle_read_ws (\<lambda>_. None) (\<lambda>_. []) (\<lambda>_. [])
      (new_connection\<lparr>connection_type := connection_websocket, conn_keepalive := True,
         cn_buf := [CHR 0x88, CHR 0x00]\<rparr>) = Some c' \<and>
    connection_type c' = connection_websocket \<and> \<not> conn_keepalive c' \<and> cn_reading c'"
proof -
  let ?c = "new_connection\<lparr>connection_type := connection_websocket, conn_keepalive := True,
         cn_buf := [CHR 0x88, CHR 0x00]\<rparr>"
  have p: "Parse [0x88, 0x00] = Some (parsed_frame [0x88, 0])" "fin (parsed_frame [0x88, 0])"
    "f_opcode (parsed_frame [0x88, 0]) = opcode_close"
    by code_simp+
  have b: "map (\<lambda>ch. word_of_nat (of_char ch)) (cn_buf ?c) = [0x88, 0x00 :: byte]" by code_simp
  have l: "last_opcode (add_frame (parsed_frame [0x88, 0]) CWebsocket) = opcode_close"
    by (simp add: add_frame_def CWebsocket_def p(3))
  have "ws_parse (\<lambda>_. None) (\<lambda>_. []) [0x88, 0x00] True CWebsocket =
      ws_result (Returned (Some False)) (bytes_consumed (parsed_frame [0x88, 0])) False
        ((add_frame (parsed_frame [0x88, 0]) CWebsocket)\<lparr>start_new_packet := True\<rparr>) (SendClose [])"
    unfolding ws_parse_final [OF p(1,2)] dispatch_packet_def by (simp add: l) (simp add: opcode_defs)
  moreover have "conn_keepalive ?c" "websocket_parser ?c = CWebsocket"
    by (simp_all add: new_connection_def)
  ultimately obtain c' where c': "handle_read_ws (\<lambda>_. None) (\<lambda>_. []) (\<lambda>_. []) ?c = Some c'"
      "\<not> conn_keepalive c'"
    unfolding handle_read_ws_def Let_def b by (simp add: read_more_def)
  with closing_not_entered [OF _ _ c'(1)] show ?thesis by (auto simp: new_connection_def)
qed

text \<open>A complete request is answered exactly once and what follows it stays in the
  buffer: for a well-formed request without content, whatever follows, the handler's reply is
  written with the header the client's keep-alive asks for, and the connection reads on exactly
  when the client asked to keep it alive.\<close>

theorem request_answered:
  assumes "wire_ok w" and "\<not> body_method (w_method w)"
    and "connection_type c = connection_http" and "\<not> write_in_progress c"
    and "cn_buf c = request_head w @ crlf @ rest"
    and "\<And>req. rp_status (handler req) \<notin> {st_switching_protocols, st_download_file}"
  shows "let c' = handle_read_http handler send_file addr limits c; req = head_request w;
      ka = wants_keepalive req;
      req' = req\<lparr>rq_keep_alive := ka, host_address := client_address addr\<rparr>
    in cn_issued c' = cn_issued c @ [reply_to_string (w_method w) (keepalive_headers limits req' (handler req'))] \<and>
       cn_buf c' = rest \<and> conn_keepalive c' = ka \<and> (cn_reading c' \<longleftrightarrow> ka \<or> cn_reading c)"
proof -
  let ?req = "head_request w"
  have p: "parse_request (cn_buf c) = (Done True, expecting_newline_3, ?req, rest)"
    using parse_request_end [OF assms(1), of rest] assms(2,5) by (simp add: crlf_def)
  have m: "rq_method ?req = w_method w" by (simp add: head_request_def)
  let ?req' = "?req\<lparr>rq_keep_alive := wants_keepalive ?req, host_address := client_address addr\<rparr>"
  have s: "rp_status (handler ?req') \<noteq> st_switching_protocols" "rp_status (handler ?req') \<noteq> st_download_file"
    using assms(6) by auto
  show ?thesis
    using assms(3,4) s
    by (simp add: handle_read_http_def p handle_request_def finish_request_def MyWrite_def SocketWrite_def
        read_more_def m Let_def)
qed

theorem request_answered_witness:
  "cn_buf (handle_read_http (\<lambda>_. stock_reply st_not_found) (\<lambda>_ _. None) [] []
     (new_connection\<lparr>cn_buf := request_head example_get @ crlf @ ''next''\<rparr>)) = ''next''"
proof -
  have "\<not> body_method (w_method example_get)" by code_simp
  from request_answered [OF example_wire_ok(1) this, of "new_connection\<lparr>cn_buf := request_head example_get @ crlf @ ''next''\<rparr>"
      "''next''" "\<lambda>_. stock_reply st_not_found" "\<lambda>_ _. None" "[]" "[]"]
  show ?thesis by (simp add: new_connection_def Let_def stock_reply_def)
qed

end
