(* ===== verification/Rest.thy ===== *)
theory Rest
  imports Reply DataAccess
begin

text \<open>
  \<^verbatim>\<open>web/REST.cpp\<close> and \<^verbatim>\<open>CWebServer::HandleREST\<close>: the REST interface to the database tables.
  The URI chooses the table and the key; the verb chooses the statement that is built and run.

  The database is a state of type \<open>'db\<close> with two operations, arguments of the definitions:
  \<open>query\<close> runs a statement and returns its rows, \<open>exec\<close> prepares a statement, binds values to its
  placeholders and runs it; its flag tells of an error.  The JSON reader and writer are arguments
  as well.
\<close>

text \<open>
  \<^verbatim>\<open>CSQLHelper::safe_query(fmt, ...)\<close> expands its argument as a format.  Most callers here pass
  the statement itself as the format and no further argument: two percent signs become one, and
  any other percent sign asks for an argument that was not passed, which is \<^const>\<open>None\<close>.
\<close>

fun expand_format :: "string \<Rightarrow> string option" where
  "expand_format [] = Some []"
| "expand_format [c] = (if c = CHR ''%'' then None else Some [c])"
| "expand_format (c # d # s) =
     (if c = CHR ''%'' then
        (if d = CHR ''%'' then map_option ((#) c) (expand_format s) else None)
      else map_option ((#) c) (expand_format (d # s)))"

definition query_format ::
  "('db \<Rightarrow> string \<Rightarrow> result_rows \<times> 'db) \<Rightarrow> 'db \<Rightarrow> string \<Rightarrow> (result_rows \<times> 'db) option" where
  "query_format query db s = map_option (query db) (expand_format s)"

text \<open>\<^verbatim>\<open>CSQLHelper::execute_sql\<close>: the number of rows the statement changed.\<close>

definition execute_sql ::
  "('db \<Rightarrow> string \<Rightarrow> result_rows \<times> 'db) \<Rightarrow> ('db \<Rightarrow> string \<Rightarrow> string list \<Rightarrow> bool \<times> 'db)
     \<Rightarrow> 'db \<Rightarrow> string \<Rightarrow> string list \<Rightarrow> int \<times> 'db" where
  "execute_sql query exec db s vals =
     (case exec db s vals of
        (True, db1) \<Rightarrow> (0, db1)
      | (False, db1) \<Rightarrow>
          (case query db1 ''SELECT changes();'' of
             ((c # _) # _, db2) \<Rightarrow> (if c = ''0'' then 0 else atoi c, db2)
           | (_, db2) \<Rightarrow> (0, db2)))"

section \<open>The request's data\<close>

text \<open>
  A member of the JSON content.  \<open>JDouble\<close> carries the text \<^verbatim>\<open>std::to_string\<close> gives; \<open>JOther\<close>
  is null, an array, an object or a number that is no \<^verbatim>\<open>int\<close>.
\<close>

datatype json_value = JStr string | JInt int | JBool bool | JDouble string | JOther

type_synonym json_members = "(string \<times> json_value) list"

fun json_text :: "json_value \<Rightarrow> string option" where
  "json_text (JStr s) = Some s"
| "json_text (JInt i) = Some (int_to_string i)"
| "json_text (JBool b) = Some (if b then ''1'' else ''0'')"
| "json_text (JDouble s) = Some s"
| "json_text JOther = None"

definition usable_field :: "data_access \<Rightarrow> string \<Rightarrow> bool" where
  "usable_field d n \<longleftrightarrow> n \<noteq> m_Tab d @ ''ID'' \<and> n \<noteq> ''Timestamp'' \<and>
     list_ex (\<lambda>row. fieldName row = n) (m_ValidFields d)"

fun members_loop ::
  "data_access \<Rightarrow> json_members \<Rightarrow> string list \<times> string list \<Rightarrow> string list \<times> string list" where
  "members_loop d [] (fs, vs) = (fs, vs)"
| "members_loop d ((n, v) # ms) (fs, vs) =
     (if usable_field d n then
        members_loop d ms
          (fs @ [n], case json_text v of Some t \<Rightarrow> vs @ [t] | None \<Rightarrow> vs)
      else members_loop d ms (fs, vs))"

text \<open>\<^const>\<open>Inl\<close> is the status of the stock reply that is set when the function returns false.\<close>

definition getFieldsAndValues ::
  "(string \<Rightarrow> json_members option) \<Rightarrow> request \<Rightarrow> data_access
     \<Rightarrow> status_type + (string list \<times> string list)" where
  "getFieldsAndValues reader req d =
     (case reader (rq_content req) of
        None \<Rightarrow> Inl st_bad_request
      | Some ms \<Rightarrow>
          let (fs, vs) = members_loop d ms ([], [])
          in if length fs \<noteq> length vs then Inl st_bad_request
             else if fs = [] then Inl st_not_allowed
             else Inr (fs, vs))"

section \<open>Statements\<close>

text \<open>The loops that put a separator after every element but the last.\<close>

fun join_sep :: "string \<Rightarrow> string list \<Rightarrow> string" where
  "join_sep sep [] = []"
| "join_sep sep [x] = x"
| "join_sep sep (x # y # xs) = x @ sep @ join_sep sep (y # xs)"

definition insert_sql :: "string \<Rightarrow> string list \<Rightarrow> string list \<Rightarrow> string" where
  "insert_sql t fs vs =
     ''INSERT INTO '' @ t @ '' ('' @ join_sep '', '' fs @ '') VALUES ('' @
     join_sep '', '' (map (\<lambda>_. ''?'') vs) @ '');''"

definition update_sql :: "string \<Rightarrow> string list \<Rightarrow> bool \<Rightarrow> int \<Rightarrow> string" where
  "update_sql t fs has_ts key =
     ''UPDATE '' @ t @ '' SET '' @ join_sep '', '' (map (\<lambda>f. f @ ''=?'') fs) @
     (if has_ts then '', Timestamp=CURRENT_TIMESTAMP'' else []) @
     '' WHERE '' @ t @ ''ID='' @ int_to_string key @ ''; ''"

definition delete_sql :: "string \<Rightarrow> int \<Rightarrow> string" where
  "delete_sql t key =
     ''DELETE FROM '' @ t @ '' WHERE '' @ t @ ''ID = '' @ int_to_string key @ '';''"

section \<open>POST, PUT, PATCH and DELETE\<close>

text \<open>The outcome of a request: the reply and the database, \<^const>\<open>None\<close> for undefined behaviour.\<close>

type_synonym 'db rest_result = "(reply \<times> 'db) option"

text \<open>\<open>jwrite n\<close> is the text of the object whose \<^verbatim>\<open>Count\<close> is \<open>n\<close>.\<close>

definition count_reply :: "(int \<Rightarrow> string) \<Rightarrow> status_type \<Rightarrow> int \<Rightarrow> reply" where
  "count_reply jwrite st n = set_content (jwrite n) (stock_reply st)"

definition POST where
  "POST reader jwrite query exec req d rep db =
     (if content_length req = 0 then Some (rep, db)
      else case getFieldsAndValues reader req d of
        Inl st \<Rightarrow> Some (stock_reply st, db)
      | Inr (fs, vs) \<Rightarrow>
          (let (n, db') = execute_sql query exec db (insert_sql (m_Tab d) fs vs) vs
           in Some (count_reply jwrite (if n = 0 then st_bad_request else st_created) n, db')))"

definition PUT where
  "PUT reader jwrite query exec req d rep db =
     (if content_length req = 0 then Some (rep, db)
      else let has_ts = hasTimestamp d; d' = StripForbiddenFields d
      in case getFieldsAndValues reader req d' of
        Inl st \<Rightarrow> Some (stock_reply st, db)
      | Inr (fs, vs) \<Rightarrow>
          (let (n, db') = execute_sql query exec db (update_sql (m_Tab d) fs has_ts (m_TableKey d)) vs
           in Some (count_reply jwrite (if n = 0 then st_bad_request else st_created) n, db')))"

definition PATCH where
  "PATCH reader jwrite query exec req d rep db =
     (if content_length req = 0 then Some (rep, db)
      else let has_ts = hasTimestamp d; d' = StripForbiddenFields d
      in case getFieldsAndValues reader req d' of
        Inl st \<Rightarrow> Some (stock_reply st, db)
      | Inr (fs, vs) \<Rightarrow>
          (let (n, db') = execute_sql query exec db (update_sql (m_Tab d) fs has_ts (m_TableKey d)) vs
           in Some (count_reply jwrite (if n = 0 then st_bad_request else st_created) n, db')))"

definition DELETE where
  "DELETE jwrite query req d db =
     (if content_length req \<noteq> 0 then Some (stock_reply st_bad_request, db)
      else case query_format query db (delete_sql (m_Tab d) (m_TableKey d)) of
        None \<Rightarrow> None
      | Some (_, db1) \<Rightarrow>
          (case query_format query db1 ''SELECT changes();'' of
             Some ((c # _) # _, db2) \<Rightarrow> Some (count_reply jwrite st_no_content (atoi c), db2)
           | Some ([], db2) \<Rightarrow> Some (count_reply jwrite st_not_found 0, db2)
           | _ \<Rightarrow> None))"

section \<open>GET\<close>

definition select_sql :: "data_access \<Rightarrow> string" where
  "select_sql d =
     ''SELECT '' @ join_sep '','' (map (\<lambda>row. ''T.'' @ fieldName row) (m_ValidFields d)) @
     '' FROM '' @ m_Tab d @ '' T '' @
     (if m_TableKey d \<noteq> 0 then
        '' WHERE T.'' @ m_Tab d @ ''ID='' @ int_to_string (m_TableKey d) else [])"

text \<open>The parent's key: first as a key of the table, and when that gives no row the other way.\<close>

definition parent_sql :: "data_access \<Rightarrow> string \<Rightarrow> string \<Rightarrow> string" where
  "parent_sql d k sql =
     sql @ '', '' @ m_Parent d @ '' P WHERE P.'' @ m_Parent d @ ''ID='' @ int_to_string (m_ParentKey d) @
     '' AND P.'' @ k @ ''ID=T.'' @ k @ ''ID''"

definition add_parent where
  "add_parent query d db sql =
     (if m_ParentKey d = 0 then Some (sql, db)
      else case query_format query db (parent_sql d (m_Parent d) sql) of
        None \<Rightarrow> None
      | Some (test, db') \<Rightarrow>
          Some (if test = [] then parent_sql d (m_Tab d) sql else parent_sql d (m_Parent d) sql, db'))"

definition find_field :: "data_access \<Rightarrow> string \<Rightarrow> string list option" where
  "find_field d n = find (\<lambda>row. n = fieldName row) (m_ValidFields d)"

text \<open>The loop over the parameters: the statement and the order clause so far.\<close>

fun params_loop :: "data_access \<Rightarrow> multimap \<Rightarrow> string \<times> string \<Rightarrow> string \<times> string" where
  "params_loop d [] (sql, ord) = (sql, ord)"
| "params_loop d ((p, v) # ps) (sql, ord) =
     params_loop d ps
       (if p = ''Order'' then
          (sql, case find_field d v of
                  None \<Rightarrow> ord
                | Some row \<Rightarrow> if fieldType row = ''TEXT'' then [CHR 0x27] @ v @ [CHR 0x27] else v)
        else
          (case find_field d p of
             None \<Rightarrow> sql
           | Some row \<Rightarrow>
               sql @ (if contains sql ''WHERE'' then '' AND '' else '' WHERE '') @
               (if fieldType row = ''TEXT''
                then '' T.'' @ p @ ''='' @ [CHR 0x27] @ v @ [CHR 0x27]
                else '' T.'' @ p @ ''='' @ v), ord))"

definition get_sql :: "data_access \<Rightarrow> multimap \<Rightarrow> string \<Rightarrow> string" where
  "get_sql d params sql0 =
     (let (sql, ord) = params_loop d params (sql0, [])
      in if ord \<noteq> [] then sql @ '' ORDER BY T.'' @ ord else sql)"

text \<open>A result row as an object; a row longer than the field list is read out of bounds.\<close>

fun row_object :: "result_rows \<Rightarrow> string list \<Rightarrow> (string \<times> (string + int)) list option" where
  "row_object [] [] = Some []"
| "row_object (f # fs) [] = Some []"
| "row_object [] (c # cs) = None"
| "row_object (f # fs) (c # cs) =
     map_option ((#) (fieldName f, if fieldType f = ''INTEGER'' then Inr (atoi c) else Inl c))
       (row_object fs cs)"

definition those_rows :: "'a option list \<Rightarrow> 'a list option" where
  "those_rows xs = (if list_all (\<lambda>x. x \<noteq> None) xs then Some (map the xs) else None)"

definition output_name :: "data_access \<Rightarrow> string" where
  "output_name d = m_Tab d @ (if m_TableKey d = 0 then ''s'' else [])"

definition GET where
  "GET rows_write query req d db =
     (if content_length req \<noteq> 0 then Some (stock_reply st_bad_request, db)
      else let d' = StripForbiddenFields d
      in case add_parent query d' db (select_sql d') of
        None \<Rightarrow> None
      | Some (sql0, db1) \<Rightarrow>
          (case query_format query db1 (get_sql d' (rq_parameters req) sql0) of
             None \<Rightarrow> None
           | Some (result, db2) \<Rightarrow>
               (case those_rows (map (row_object (m_ValidFields d')) result) of
                  None \<Rightarrow> None
                | Some rows \<Rightarrow>
                    Some (set_content (rows_write (nat_to_string (length result)) (output_name d') rows)
                            (stock_reply (if result \<noteq> [] then st_ok else st_no_content)), db2))))"

text \<open>\<^verbatim>\<open>CRESTSession::GET\<close> drops the first \<^verbatim>\<open>AuthToken\<close> column.\<close>

fun erase_field :: "string \<Rightarrow> result_rows \<Rightarrow> result_rows" where
  "erase_field n [] = []"
| "erase_field n (row # rows) = (if fieldName row = n then rows else row # erase_field n rows)"

definition session_GET where
  "session_GET rows_write query req d db =
     GET rows_write query req (d\<lparr>m_ValidFields := erase_field ''AuthToken'' (m_ValidFields d)\<rparr>) db"

section \<open>Dispatch\<close>

definition ProcessRequest where
  "ProcessRequest reader jwrite rows_write query exec is_session req d rep db =
     (if m_Verb d = ''POST'' then POST reader jwrite query exec req d rep db
      else if m_Verb d = ''GET'' then
        (if is_session then session_GET rows_write query req d db else GET rows_write query req d db)
      else if m_Verb d = ''PUT'' then PUT reader jwrite query exec req d rep db
      else if m_Verb d = ''PATCH'' then PATCH reader jwrite query exec req d rep db
      else if m_Verb d = ''DELETE'' then DELETE jwrite query req d db
      else Some (stock_reply st_not_allowed, db))"


section \<open>The URI\<close>

text \<open>The query string is cut off, unless the question mark is the first character.\<close>

definition strip_query :: "string \<Rightarrow> string" where
  "strip_query u =
     (if str_find ''?'' u 0 = Some 0 then u else takeWhile (\<lambda>c. c \<noteq> CHR ''?'') u)"

text \<open>The parts between slashes from position 5 on, the empty ones left out.\<close>

fun split_slash :: "string \<Rightarrow> string \<Rightarrow> string list" where
  "split_slash acc [] = (if acc \<noteq> [] then [acc] else [])"
| "split_slash acc (c # cs) =
     (if c = CHR ''/'' then (if acc \<noteq> [] then [acc] else []) @ split_slash [] cs
      else split_slash (acc @ [c]) cs)"

text \<open>Where \<^verbatim>\<open>strtol\<close> stops: at the start when there is no number.\<close>

definition strtol_end :: "string \<Rightarrow> string" where
  "strtol_end s =
     (let t = dropWhile is_c_space s;
          u = (case t of c # cs \<Rightarrow> if c = CHR ''-'' \<or> c = CHR ''+'' then cs else t | [] \<Rightarrow> [])
      in case u of
           c # cs \<Rightarrow> if is_digit_char c then snd (digits_acc 0 u) else s
         | [] \<Rightarrow> s)"

text \<open>
  The rightmost element that is not a number: its index and what follows a number at its start.
  When all are numbers the index ends at 0 and there is no table.
\<close>

fun find_table :: "string list \<Rightarrow> nat \<Rightarrow> nat \<times> string" where
  "find_table es 0 = (0, [])"
| "find_table es (Suc i) =
     (let p = strtol_end (es ! i) in if p \<noteq> [] then (i, p) else find_table es i)"

definition drop_last :: "string \<Rightarrow> string" where
  "drop_last s = (if s \<noteq> [] then substr s 0 (length s - 1) else s)"

text \<open>
  \<^verbatim>\<open>Create\<close>: \<^const>\<open>Inl\<close> is the exception of \<^verbatim>\<open>substr\<close> on a URI shorter than \<^verbatim>\<open>/API/\<close>;
  otherwise there may be a request, with a flag that says whether it is for sessions.
\<close>

datatype rest_error = OutOfRange

definition rest_access :: "request \<Rightarrow> string \<Rightarrow> int \<Rightarrow> string \<Rightarrow> int \<Rightarrow> data_access" where
  "rest_access req t k p pk =
     setParent p pk (setTable t k (new_data_access ''Admin'' [] (rq_method req)))"

definition Create_elements :: "request \<Rightarrow> string list \<Rightarrow> (bool \<times> data_access) option" where
  "Create_elements req es =
     (if es = [] then None
      else
        let (i, p) = find_table es (length es);
            t = drop_last p;
            k = (if i + 1 < length es then atoi (es ! (i + 1)) else 0);
            (pk, par) = (if i > 1 \<and> k = 0 then (atoi (es ! (i - 1)), drop_last (es ! (i - 2)))
                         else (0, []))
        in if (i = 0 \<and> t \<noteq> [] \<and> k = 0 \<and> pk = 0) \<or> (t \<noteq> [] \<and> k \<noteq> 0 \<and> pk = 0) \<or>
              (t \<noteq> [] \<and> k = 0 \<and> pk \<noteq> 0 \<and> par \<noteq> [])
           then Some (t = ''Session'', rest_access req t k par pk) else None)"

definition rest_Create :: "request \<Rightarrow> rest_error + (bool \<times> data_access) option" where
  "rest_Create req =
     (let u = strip_query (rq_uri req)
      in if length u < 5 then Inl OutOfRange
         else Inr (Create_elements req (split_slash [] (drop 5 u))))"

text \<open>\<^verbatim>\<open>CWebServer::HandleREST\<close>.  Reading rights and columns leaves the database as it is.\<close>

definition HandleREST where
  "HandleREST reader jwrite rows_write query exec req rep db =
     (case rest_Create req of
        Inl e \<Rightarrow> Inl e
      | Inr None \<Rightarrow> Inr (Some (stock_reply st_bad_request, db))
      | Inr (Some (is_session, d)) \<Rightarrow>
          (case UserHasAccess (\<lambda>s. fst (query db s)) d of
             (False, _) \<Rightarrow> Inr (Some (stock_reply st_forbidden, db))
           | (True, d') \<Rightarrow>
               Inr (ProcessRequest reader jwrite rows_write query exec is_session req d' rep db)))"

section \<open>Routing lemmas\<close>

lemma split_slash_part:
  "CHR ''/'' \<notin> set a \<Longrightarrow> split_slash acc (a @ CHR ''/'' # s) =
     (if acc @ a \<noteq> [] then [acc @ a] else []) @ split_slash [] s"
  by (induction a arbitrary: acc) auto

lemma split_slash_last:
  "CHR ''/'' \<notin> set a \<Longrightarrow> split_slash acc a = (if acc @ a \<noteq> [] then [acc @ a] else [])"
  by (induction a arbitrary: acc) auto

text \<open>A name as tables have it: it starts with a letter and has no slash or question mark.\<close>

definition name_ok :: "string \<Rightarrow> bool" where
  "name_ok t \<longleftrightarrow> (case t of [] \<Rightarrow> False
     | c # _ \<Rightarrow> \<not> is_c_space c \<and> \<not> is_digit_char c \<and> c \<noteq> CHR ''-'' \<and> c \<noteq> CHR ''+'') \<and>
     CHR ''/'' \<notin> set t \<and> CHR ''?'' \<notin> set t"

lemma strtol_end_name: "name_ok t \<Longrightarrow> strtol_end (t @ s) = t @ s"
  by (cases t) (auto simp: name_ok_def strtol_end_def Let_def)

lemma strtol_end_number: "strtol_end (nat_to_string n) = []"
proof -
  obtain c cs where n: "nat_to_string n = c # cs" by (cases "nat_to_string n") auto
  then have "is_digit_char c" using nat_to_string_digits [of n] by simp
  with n digits_acc_nat_to_string [of n] show ?thesis
    by (simp add: strtol_end_def digit_not_sign)
qed

lemma drop_last_s: "drop_last (t @ ''s'') = t"
  by (simp add: drop_last_def substr_def)

lemma atoi_nat: "n < 2 ^ 31 \<Longrightarrow> atoi (nat_to_string n) = int n"
  using atoi_int_to_string [of "int n"] by (simp add: int_to_string_def)

lemma digit_not_slash: "is_digit_char c \<Longrightarrow> c \<noteq> CHR ''/'' \<and> c \<noteq> CHR ''?''"
  by (auto simp: is_digit_char_def)

lemma number_no_slash: "CHR ''/'' \<notin> set (nat_to_string n)" "CHR ''?'' \<notin> set (nat_to_string n)"
  using nat_to_string_digits [of n] digit_not_slash by (auto simp: list_all_iff)

lemma find_char_0: "str_find [c] s 0 = Some 0 \<longleftrightarrow> starts_with [c] s"
proof (cases s)
  case (Cons d s')
  then show ?thesis
    using find_at_bounds [of 1 "[c]" s' 0] by (auto simp: str_find_def)
qed (simp add: str_find_def)

lemma strip_query_plain: "CHR ''?'' \<notin> set u \<Longrightarrow> strip_query u = u"
  by (auto simp: strip_query_def takeWhile_eq_all_conv)

lemma strip_query_cut: "u \<noteq> [] \<Longrightarrow> CHR ''?'' \<notin> set u \<Longrightarrow> strip_query (u @ ''?'' @ q) = u"
  by (cases u) (auto simp: strip_query_def find_char_0 takeWhile_append takeWhile_eq_all_conv)


lemma create_table:
  assumes "name_ok t"
  shows "Create_elements req [t @ ''s''] = Some (t = ''Session'', rest_access req t 0 [] 0)"
  using assms strtol_end_name [OF assms, of "''s''"] drop_last_s [of t]
  by (auto simp: Create_elements_def Let_def name_ok_def)

lemma create_key:
  assumes "name_ok t" and "0 < k" and "k < 2 ^ 31"
  shows "Create_elements req [t @ ''s'', nat_to_string k] =
    Some (t = ''Session'', rest_access req t (int k) [] 0)"
  using assms strtol_end_name [OF assms(1), of "''s''"] drop_last_s [of t]
  by (auto simp: Create_elements_def Let_def name_ok_def strtol_end_number atoi_nat numeral_2_eq_2)

lemma create_parent:
  assumes "name_ok t" and "name_ok p" and "0 < k" and "k < 2 ^ 31"
  shows "Create_elements req [p @ ''s'', nat_to_string k, t @ ''s''] =
    Some (t = ''Session'', rest_access req t 0 p (int k))"
  using assms strtol_end_name [OF assms(1), of "''s''"] drop_last_s [of t] drop_last_s [of p]
  by (auto simp: Create_elements_def Let_def name_ok_def atoi_nat numeral_3_eq_3)

lemma name_s: "name_ok t \<Longrightarrow> CHR ''/'' \<notin> set (t @ ''s'') \<and> CHR ''?'' \<notin> set (t @ ''s'') \<and> t @ ''s'' \<noteq> []"
  by (simp add: name_ok_def)

lemma rest_Create_path:
  assumes "rq_uri req = ''/API/'' @ path @ q" and "q = [] \<or> starts_with ''?'' q"
    and "CHR ''?'' \<notin> set path"
  shows "rest_Create req = Inr (Create_elements req (split_slash [] path))"
proof -
  have "strip_query (rq_uri req) = ''/API/'' @ path"
  proof (cases "q = []")
    case True
    then show ?thesis using assms(1,3) by (simp add: strip_query_plain)
  next
    case False
    then obtain x where "q = ''?'' @ x" using assms(2) by (auto simp: starts_with_iff)
    then show ?thesis
      using assms(1,3) strip_query_cut [of "''/API/'' @ path" x] by simp
  qed
  then show ?thesis by (simp add: rest_Create_def Let_def)
qed

section \<open>Field lemmas\<close>

lemma members_loop_fields:
  assumes "members_loop d ms (fs0, vs0) = (fs, vs)" and "list_all (usable_field d) fs0"
  shows "list_all (usable_field d) fs \<and> set fs \<subseteq> set fs0 \<union> fst ` set ms"
  using assms
proof (induction d ms "(fs0, vs0)" arbitrary: fs0 vs0 rule: members_loop.induct)
  case (2 d n v ms fs0 vs0)
  show ?case
  proof (cases "usable_field d n")
    case True
    from 2(1) [OF True] 2(3,4) True show ?thesis by auto
  next
    case False
    from 2(2) [OF False] 2(3,4) False show ?thesis by auto
  qed
qed auto

lemma getFieldsAndValues_Inr:
  assumes "getFieldsAndValues reader req d = Inr (fs, vs)"
  shows "length fs = length vs \<and> fs \<noteq> [] \<and> list_all (usable_field d) fs"
  using assms members_loop_fields [of d _ "[]" "[]" fs vs]
  by (auto simp: getFieldsAndValues_def Let_def split: option.splits prod.splits if_splits)

lemma expand_format_plain: "CHR ''%'' \<notin> set s \<Longrightarrow> expand_format s = Some s"
  by (induction s rule: expand_format.induct) auto

lemma expand_format_bad:
  "CHR ''%'' \<notin> set a \<Longrightarrow> c \<noteq> CHR ''%'' \<Longrightarrow> expand_format (a @ CHR ''%'' # c # s) = None"
proof (induction a)
  case (Cons x a)
  then show ?case by (cases a) auto
qed simp

lemma quote_q_plain: "CHR 0x27 \<notin> set v \<Longrightarrow> quote_q v = v"
  by (induction v) auto

lemma strip_frame:
  "m_ParentKey (StripForbiddenFields d) = m_ParentKey d \<and> m_Tab (StripForbiddenFields d) = m_Tab d"
  by (simp add: StripForbiddenFields_def split: option.splits)

lemma uri_routes:
  assumes "name_ok t" and "name_ok p" and "0 < k" and "k < 2 ^ 31"
    and "q = [] \<or> starts_with ''?'' q"
  shows "rest_Create (new_request\<lparr>rq_method := m, rq_uri := ''/API/'' @ t @ ''s'' @ q\<rparr>) =
      Inr (Some (t = ''Session'', (new_data_access ''Admin'' t m))) \<and>
    rest_Create (new_request\<lparr>rq_method := m, rq_uri := ''/API/'' @ t @ ''s/'' @ nat_to_string k @ q\<rparr>) =
      Inr (Some (t = ''Session'', (new_data_access ''Admin'' t m)\<lparr>m_TableKey := int k\<rparr>)) \<and>
    rest_Create (new_request\<lparr>rq_method := m,
        rq_uri := ''/API/'' @ p @ ''s/'' @ nat_to_string k @ ''/'' @ t @ ''s'' @ q\<rparr>) =
      Inr (Some (t = ''Session'', (new_data_access ''Admin'' t m)\<lparr>m_Parent := p, m_ParentKey := int k\<rparr>))"
proof (intro conjI)
  let ?k = "nat_to_string k"
  have acc: "rest_access (new_request\<lparr>rq_method := m, rq_uri := u\<rparr>) t i p' j =
      (new_data_access ''Admin'' t m)\<lparr>m_TableKey := i, m_Parent := p', m_ParentKey := j\<rparr>" for u i p' j
    by (simp add: rest_access_def setParent_def setTable_def new_data_access_def new_request_def)
  have t: "CHR ''/'' \<notin> set (t @ ''s'')" "CHR ''?'' \<notin> set (t @ ''s'')"
    and p: "CHR ''/'' \<notin> set (p @ ''s'')" "CHR ''?'' \<notin> set (p @ ''s'')"
    using name_s [OF assms(1)] name_s [OF assms(2)] by blast+
  note k = number_no_slash [of k]
  have "split_slash [] (t @ ''s'') = [t @ ''s'']"
    using split_slash_last [OF t(1), of "[]"] by simp
  then show "rest_Create (new_request\<lparr>rq_method := m, rq_uri := ''/API/'' @ t @ ''s'' @ q\<rparr>) =
      Inr (Some (t = ''Session'', (new_data_access ''Admin'' t m)))"
    using rest_Create_path [of "new_request\<lparr>rq_method := m, rq_uri := ''/API/'' @ t @ ''s'' @ q\<rparr>" "t @ ''s''" q]
      assms(5) t(2) create_table [OF assms(1)] by (simp add: acc) (simp add: new_data_access_def)
  have "split_slash [] ((t @ ''s'') @ CHR ''/'' # ?k) = [t @ ''s'', ?k]"
    using split_slash_part [OF t(1), of "[]" ?k] split_slash_last [OF k(1), of "[]"] by simp
  then show "rest_Create (new_request\<lparr>rq_method := m, rq_uri := ''/API/'' @ t @ ''s/'' @ ?k @ q\<rparr>) =
      Inr (Some (t = ''Session'', (new_data_access ''Admin'' t m)\<lparr>m_TableKey := int k\<rparr>))"
    using rest_Create_path [of "new_request\<lparr>rq_method := m, rq_uri := ''/API/'' @ t @ ''s/'' @ ?k @ q\<rparr>"
        "(t @ ''s'') @ CHR ''/'' # ?k" q]
      assms(5) t(2) k(2) create_key [OF assms(1,3,4)] by (simp add: acc) (simp add: new_data_access_def)
  have "split_slash [] ((p @ ''s'') @ CHR ''/'' # ?k @ CHR ''/'' # (t @ ''s'')) = [p @ ''s'', ?k, t @ ''s'']"
    using split_slash_part [OF p(1), of "[]" "?k @ CHR ''/'' # (t @ ''s'')"]
      split_slash_part [OF k(1), of "[]" "t @ ''s''"] split_slash_last [OF t(1), of "[]"] by simp
  then show "rest_Create (new_request\<lparr>rq_method := m,
        rq_uri := ''/API/'' @ p @ ''s/'' @ ?k @ ''/'' @ t @ ''s'' @ q\<rparr>) =
      Inr (Some (t = ''Session'', (new_data_access ''Admin'' t m)\<lparr>m_Parent := p, m_ParentKey := int k\<rparr>))"
    using rest_Create_path [of "new_request\<lparr>rq_method := m,
        rq_uri := ''/API/'' @ p @ ''s/'' @ ?k @ ''/'' @ t @ ''s'' @ q\<rparr>"
        "(p @ ''s'') @ CHR ''/'' # ?k @ CHR ''/'' # (t @ ''s'')" q]
      assms(5) t(2) p(2) k(2) create_parent [OF assms(1-4)] by (simp add: acc) (simp add: new_data_access_def)
qed


section \<open>Properties\<close>

text \<open>C10: The three forms of URI reach the right table, key and parent, with or without a
  query string: \<^verbatim>\<open>/API/Ts\<close> is the whole table, \<^verbatim>\<open>/API/Ts/k\<close> one row and \<^verbatim>\<open>/API/Ps/k/Ts\<close> the
  rows that belong to one parent.\<close>

theorem rest_routes:
  assumes "name_ok t" and "name_ok p" and "0 < k" and "k < 2 ^ 31"
    and "q = [] \<or> starts_with ''?'' q"
  shows "rest_Create (new_request\<lparr>rq_method := m, rq_uri := ''/API/'' @ t @ ''s'' @ q\<rparr>) =
      Inr (Some (t = ''Session'', (new_data_access ''Admin'' t m))) \<and>
    rest_Create (new_request\<lparr>rq_method := m, rq_uri := ''/API/'' @ t @ ''s/'' @ nat_to_string k @ q\<rparr>) =
      Inr (Some (t = ''Session'', (new_data_access ''Admin'' t m)\<lparr>m_TableKey := int k\<rparr>)) \<and>
    rest_Create (new_request\<lparr>rq_method := m,
        rq_uri := ''/API/'' @ p @ ''s/'' @ nat_to_string k @ ''/'' @ t @ ''s'' @ q\<rparr>) =
      Inr (Some (t = ''Session'', (new_data_access ''Admin'' t m)\<lparr>m_Parent := p, m_ParentKey := int k\<rparr>))"
  by (rule uri_routes [OF assms])

theorem rest_routes_witness:
  "rest_Create (new_request\<lparr>rq_method := ''GET'', rq_uri := ''/API/Interfaces/12/Devices?Order=Name''\<rparr>) =
   Inr (Some (False, (new_data_access ''Admin'' ''Device'' ''GET'')\<lparr>m_Parent := ''Interface'', m_ParentKey := 12\<rparr>))"
proof -
  have "name_ok ''Device''" "name_ok ''Interface''" by code_simp+
  moreover have "nat_to_string 12 = ''12''" by code_simp
  ultimately show ?thesis
    using rest_routes [of "''Device''" "''Interface''" 12 "''?Order=Name''" "''GET''"] by simp
qed


text \<open>The right to update can be exceeded: when the first column of the table (its key)
  is not among the fields the role may set, a request for the second column is carried out
  although the role may not set that one either.\<close>

theorem second_column_writable:
  assumes "forbidden d = Some bad" and "m_ValidFields d = key # col # rows" and "bad key"
    and "fieldName col \<noteq> m_Tab d @ ''ID''" and "fieldName col \<noteq> ''Timestamp''"
    and "reader (rq_content req) = Some [(fieldName col, JStr v)]" and "content_length req \<noteq> 0"
  shows "PUT reader jwrite query exec req d rep db =
    (let (n, db') = execute_sql query exec db
           (update_sql (m_Tab d) [fieldName col] (hasTimestamp d) (m_TableKey d)) [v]
     in Some (count_reply jwrite (if n = 0 then st_bad_request else st_created) n, db'))"
proof -
  have "m_ValidFields (StripForbiddenFields d) = col # filter (\<lambda>f. \<not> bad f) rows"
    using assms(1-3) by (simp add: StripForbiddenFields_def strip_loop_exact)
  moreover have "m_Tab (StripForbiddenFields d) = m_Tab d"
    by (simp add: StripForbiddenFields_def split: option.splits)
  ultimately have "getFieldsAndValues reader req (StripForbiddenFields d) = Inr ([fieldName col], [v])"
    using assms(4-6) by (simp add: getFieldsAndValues_def usable_field_def)
  with assms(7) show ?thesis by (simp add: PUT_def Let_def)
qed

theorem second_column_writable_witness:
  "PUT (\<lambda>_. Some [(''Password'', JStr ''x'')]) int_to_string (\<lambda>db s. ([[''1'']], db)) (\<lambda>db s vs. (False, (s, vs)))
     (new_request\<lparr>content_length := 1\<rparr>)
     ((new_data_access ''Admin'' ''User'' ''PUT'')\<lparr>m_TableKey := 7, m_PUTFields := ''Theme'',
        m_ValidFields := [[''0'', ''UserID'', ''INTEGER''], [''1'', ''Password'', ''TEXT'']]\<rparr>)
     (stock_reply st_ok) ([], []) =
   Some (count_reply int_to_string st_created 1,
     (''UPDATE User SET Password=? WHERE UserID=7; '', [''x'']))"
proof -
  let ?d = "(new_data_access ''Admin'' ''User'' ''PUT'')\<lparr>m_TableKey := 7, m_PUTFields := ''Theme'',
    m_ValidFields := [[''0'', ''UserID'', ''INTEGER''], [''1'', ''Password'', ''TEXT'']]\<rparr>"
  have f: "forbidden ?d = Some (\<lambda>row. \<not> contains ''Theme'' (fieldName row))"
    by (simp add: forbidden_def new_data_access_def)
  have c: "\<not> contains ''Theme'' (fieldName [''0'', ''UserID'', ''INTEGER''])" by code_simp
  have u: "update_sql ''User'' [''Password''] False 7 = ''UPDATE User SET Password=? WHERE UserID=7; ''"
    "atoi ''1'' = 1" by code_simp+
  show ?thesis
    using second_column_writable [OF f, of "[''0'', ''UserID'', ''INTEGER'']" "[''1'', ''Password'', ''TEXT'']" "[]"
        "\<lambda>_. Some [(''Password'', JStr ''x'')]" "new_request\<lparr>content_length := 1\<rparr>" "''x''"
        int_to_string "\<lambda>db s. ([[''1'']], db)" "\<lambda>db s vs. (False, (s, vs))" "stock_reply st_ok" "([], [])"] c u
    by (simp add: fieldName_def new_data_access_def hasTimestamp_def execute_sql_def)
qed

text \<open>A GET request can change the statement that is run: the value of a parameter that
  names a text column is put between quotes as it is, so that SQLite's literal ends at its first
  quote and what follows is read as part of the statement.\<close>

theorem get_parameter_injection:
  assumes "find_field d p = Some row" and "fieldType row = ''TEXT''" and "p \<noteq> ''Order''"
    and "CHR 0x27 \<notin> set v" and "\<not> starts_with [CHR 0x27] tail" and "tail \<noteq> []"
  shows "\<exists>pre. get_sql d [(p, v @ CHR 0x27 # tail)] sql = pre @ [CHR 0x27] @ v @ CHR 0x27 # tail @ [CHR 0x27] \<and>
    read_literal (v @ CHR 0x27 # tail @ [CHR 0x27]) = Some (v, tail @ [CHR 0x27])"
proof -
  have "\<not> starts_with [CHR 0x27] (tail @ [CHR 0x27])" using assms(5,6) by (cases tail) auto
  then have "read_literal (v @ CHR 0x27 # tail @ [CHR 0x27]) = Some (v, tail @ [CHR 0x27])"
    using read_literal_quote [of "tail @ [CHR 0x27]" v] quote_q_plain [OF assms(4)] by simp
  then show ?thesis using assms(1-3) by (simp add: get_sql_def)
qed

theorem get_parameter_injection_witness:
  "get_sql ((new_data_access ''Admin'' ''Device'' ''GET'')\<lparr>m_ValidFields := [[''1'', ''Name'', ''TEXT'']]\<rparr>)
     [(''Name'', ''x'' @ CHR 0x27 # '' OR 1=1 --'')] ''SELECT T.Name FROM Device T '' =
   ''SELECT T.Name FROM Device T  WHERE  T.Name='' @ [CHR 0x27] @ ''x'' @ CHR 0x27 # '' OR 1=1 --'' @ [CHR 0x27] \<and>
   read_literal (''x'' @ CHR 0x27 # '' OR 1=1 --'' @ [CHR 0x27]) = Some (''x'', '' OR 1=1 --'' @ [CHR 0x27])"
proof -
  let ?d = "(new_data_access ''Admin'' ''Device'' ''GET'')\<lparr>m_ValidFields := [[''1'', ''Name'', ''TEXT'']]\<rparr>"
  have "find_field ?d ''Name'' = Some [''1'', ''Name'', ''TEXT'']"
    by (simp add: find_field_def fieldName_def)
  from get_parameter_injection [OF this, of "''x''" "'' OR 1=1 --''" "''SELECT T.Name FROM Device T ''"]
  have "read_literal (''x'' @ CHR 0x27 # '' OR 1=1 --'' @ [CHR 0x27]) = Some (''x'', '' OR 1=1 --'' @ [CHR 0x27])"
    by (simp add: fieldType_def)
  moreover have "\<not> contains ''SELECT T.Name FROM Device T '' ''WHERE''" by code_simp
  ultimately show ?thesis
    by (simp add: get_sql_def find_field_def fieldName_def fieldType_def)
qed

text \<open>The statement of a GET request is passed to \<^verbatim>\<open>safe_query\<close> as a format: a percent
  sign in the value of a parameter, unless it is followed by another one, makes it read an argument
  that was never passed.\<close>

theorem get_parameter_format:
  assumes "content_length req = 0" and "m_ParentKey d = 0"
    and "rq_parameters req = [(p, v @ CHR ''%'' # c # tail)]"
    and "find_field (StripForbiddenFields d) p \<noteq> None" and "p \<noteq> ''Order''"
    and "CHR ''%'' \<notin> set (select_sql (StripForbiddenFields d)) \<union> set p \<union> set v" and "c \<noteq> CHR ''%''"
  shows "GET rows_write query req d db = None"
proof -
  let ?d = "StripForbiddenFields d"
  obtain row where row: "find_field ?d p = Some row" using assms(4) by auto
  have k: "m_ParentKey ?d = 0" using assms(2) strip_frame [of d] by simp
  let ?sep = "if contains (select_sql ?d) ''WHERE'' then '' AND '' else '' WHERE ''"
  have "get_sql ?d (rq_parameters req) (select_sql ?d) =
      (select_sql ?d @ ?sep @ '' T.'' @ p @ ''='' @ (if fieldType row = ''TEXT'' then [CHR 0x27] else []) @ v) @
      CHR ''%'' # c # tail @ (if fieldType row = ''TEXT'' then [CHR 0x27] else [])"
    using assms(3,5) row by (simp add: get_sql_def)
  moreover have "CHR ''%'' \<notin> set (select_sql ?d @ ?sep @ '' T.'' @ p @ ''='' @
      (if fieldType row = ''TEXT'' then [CHR 0x27] else []) @ v)"
    using assms(6) by simp
  ultimately have "expand_format (get_sql ?d (rq_parameters req) (select_sql ?d)) = None"
    using expand_format_bad [OF _ assms(7)] by presburger
  then show ?thesis using assms(1) k by (simp add: GET_def Let_def add_parent_def query_format_def)
qed

theorem get_parameter_format_witness:
  "GET (\<lambda>n t rows. []) (\<lambda>db s. ([], db)) (new_request\<lparr>rq_parameters := [(''Name'', ''100%d'')]\<rparr>)
     ((new_data_access ''Admin'' ''Device'' ''GET'')\<lparr>m_ValidFields := [[''1'', ''Name'', ''TEXT'']]\<rparr>) () = None"
proof -
  let ?d = "(new_data_access ''Admin'' ''Device'' ''GET'')\<lparr>m_ValidFields := [[''1'', ''Name'', ''TEXT'']]\<rparr>"
  have d: "StripForbiddenFields ?d = ?d"
    by (simp add: StripForbiddenFields_def forbidden_def new_data_access_def)
  have sel: "CHR ''%'' \<notin> set (select_sql ?d)" and f: "find_field ?d ''Name'' \<noteq> None"
    by (simp_all add: select_sql_def find_field_def fieldName_def new_data_access_def)
  show ?thesis
    using get_parameter_format [of "new_request\<lparr>rq_parameters := [(''Name'', ''100%d'')]\<rparr>" ?d "''Name''"
        "''100''" "CHR ''d''" "[]" "\<lambda>n t rows. []" "\<lambda>db s. ([], db)" "()"]
      sel f by (simp add: d) (simp add: new_request_def new_data_access_def)
qed

text \<open>C12: Nothing happens without rights: a request that changes the database was recognised
  and its user has access to its table with its verb; for POST, PUT and PATCH it also had content.
  Refused requests are answered with 400 or 403.\<close>

theorem rest_needs_access:
  assumes "HandleREST reader jwrite rows_write query exec req rep db = Inr (Some (rep', db'))"
  shows "(db' = db \<and> (rep' = stock_reply st_bad_request \<or> rep' = stock_reply st_forbidden)) \<or>
    (\<exists>is_session d d'. rest_Create req = Inr (Some (is_session, d)) \<and>
       UserHasAccess (\<lambda>s. fst (query db s)) d = (True, d') \<and>
       (db' \<noteq> db \<and> m_Verb d' \<in> {''POST'', ''PUT'', ''PATCH''} \<longrightarrow> content_length req \<noteq> 0))"
proof -
  consider "rest_Create req = Inr None"
    | b d d' where "rest_Create req = Inr (Some (b, d))" "UserHasAccess (\<lambda>s. fst (query db s)) d = (False, d')"
    | b d d' where "rest_Create req = Inr (Some (b, d))" "UserHasAccess (\<lambda>s. fst (query db s)) d = (True, d')"
    using assms by (auto simp: HandleREST_def split: sum.splits option.splits prod.splits bool.splits)
  then show ?thesis
  proof cases
    case (3 b d d')
    have "db' = db" if "content_length req = 0" "m_Verb d' \<in> {''POST'', ''PUT'', ''PATCH''}"
      using that assms 3
      by (auto simp: HandleREST_def ProcessRequest_def POST_def PUT_def PATCH_def)
    with 3 show ?thesis by blast
  qed (use assms in \<open>auto simp: HandleREST_def\<close>)
qed

theorem rest_needs_access_witness:
  "\<exists>d d'. rest_Create (new_request\<lparr>rq_method := ''DELETE'', rq_uri := ''/API/Users/3''\<rparr>) = Inr (Some (False, d)) \<and>
     UserHasAccess (\<lambda>s. [[''1'', [], [], []]]) d = (True, d')"
proof -
  let ?req = "new_request\<lparr>rq_method := ''DELETE'', rq_uri := ''/API/Users/3''\<rparr>"
  let ?q = "\<lambda>db s. ([[''1'', [], [], []]], db + (1::nat))"
  have c: "rest_Create ?req = Inr (Some (False, (new_data_access ''Admin'' ''User'' ''DELETE'')\<lparr>m_TableKey := 3\<rparr>))"
    by code_simp
  have v: "m_Verb (new_data_access u t v) = v" "content_length (new_request\<lparr>rq_method := v, rq_uri := u\<rparr>) = 0" for u t v
    by (simp_all add: new_data_access_def new_request_def)
  have "\<exists>rep'. HandleREST (\<lambda>_. None) int_to_string (\<lambda>n t rows. []) ?q (\<lambda>db s vs. (True, db)) ?req
      (stock_reply st_ok) 0 = Inr (Some (rep', 2))"
    by (simp add: HandleREST_def c UserHasAccess_def Let_def ProcessRequest_def DELETE_def v
        query_format_def expand_format_plain delete_sql_def int_to_string_def nat_to_string.simps
        digit_char_chars new_data_access_def)
  then obtain rep' where "HandleREST (\<lambda>_. None) int_to_string (\<lambda>n t rows. []) ?q (\<lambda>db s vs. (True, db)) ?req
      (stock_reply st_ok) 0 = Inr (Some (rep', 2))" by blast
  from rest_needs_access [OF this] c show ?thesis by auto
qed

end
