(* ===== verification/ApiClient.thy ===== *)
theory ApiClient
  imports Rest
begin

text \<open>
  The data services of the browser application (\<^verbatim>\<open>web/www/main-es2015...js\<close>): one class per
  table, whose methods build the URLs of the REST interface.  They are the client of
  \<^verbatim>\<open>Rest\<close>: the properties say that what they ask for is what the server looks up.

  An argument that may be \<^verbatim>\<open>undefined\<close> is an option; identifiers are the strings they are
  concatenated as.
\<close>

datatype http_call = Call string string

text \<open>The \<^verbatim>\<open>forEach\<close> that collects a query string.\<close>

definition query_string :: "(string \<times> string) list \<Rightarrow> string" where
  "query_string kvs =
     foldl (\<lambda>e (k, v). e @ (if length e \<noteq> 0 then ''&'' else ''?'') @ k @ ''='' @ v) [] kvs"

definition optional_query :: "(string \<times> string) list option \<Rightarrow> string" where
  "optional_query q = (case q of None \<Rightarrow> [] | Some kvs \<Rightarrow> query_string kvs)"

text \<open>The conditional expression the services share, for table \<open>t\<close> with parent table \<open>p\<close>.\<close>

definition list_url :: "string \<Rightarrow> string \<Rightarrow> string option \<Rightarrow> string \<Rightarrow> string" where
  "list_url t p i q =
     (case i of None \<Rightarrow> ''API/'' @ t @ ''s'' @ q
      | Some k \<Rightarrow> ''API/'' @ p @ ''s/'' @ k @ ''/'' @ t @ ''s'' @ q)"

definition item_url :: "string \<Rightarrow> string \<Rightarrow> string" where
  "item_url t k = ''API/'' @ t @ ''s/'' @ k"

section \<open>The services\<close>

definition getLayouts where "getLayouts q = Call ''GET'' (''API/Layouts'' @ optional_query q)"
definition getTabs where "getTabs i q = Call ''GET'' (list_url ''Tab'' ''Layout'' i (optional_query q))"
definition getTiles where "getTiles i q = Call ''GET'' (list_url ''Tile'' ''Tab'' i (optional_query q))"
definition getUsers where "getUsers i = Call ''GET'' (list_url ''User'' ''Role'' i [])"
definition getTableAccesss where
  "getTableAccesss i = Call ''GET'' (list_url ''TableAccess'' ''Role'' i [])"
definition getInterfaceLogs where
  "getInterfaceLogs i = Call ''GET'' (list_url ''InterfaceLog'' ''Interface'' i [])"
definition getDevices where "getDevices i = Call ''GET'' (list_url ''Device'' ''Interface'' i [])"
definition getDeviceLogs where
  "getDeviceLogs i = Call ''GET'' (list_url ''DeviceLog'' ''Device'' i [])"
definition getValues where "getValues i = Call ''GET'' (list_url ''Value'' ''Device'' i [])"
definition getValueLogs where "getValueLogs i = Call ''GET'' (list_url ''ValueLog'' ''Value'' i [])"
definition getValueHistorys where
  "getValueHistorys i = Call ''GET'' (list_url ''ValueHistory'' ''Value'' i [])"

text \<open>
  The tables whose service has no parent form: \<^verbatim>\<open>Roles\<close>, \<^verbatim>\<open>Interfaces\<close>, \<^verbatim>\<open>Units\<close>,
  \<^verbatim>\<open>Preferences\<close>, \<^verbatim>\<open>TimerPlans\<close>, \<^verbatim>\<open>Scenes\<close>.
\<close>

definition getAll where "getAll t = Call ''GET'' (''API/'' @ t @ ''s'')"

definition getOne where "getOne t k = Call ''GET'' (item_url t k)"
definition createOne where "createOne t = Call ''POST'' (''API/'' @ t @ ''s'')"
definition updateOne where "updateOne t k = Call ''PUT'' (item_url t k)"
definition deleteOne where "deleteOne t k = Call ''DELETE'' (item_url t k)"

text \<open>The single-row request of the table access service leaves out the plural \<^verbatim>\<open>s\<close>.\<close>

definition getTableAccess where "getTableAccess k = Call ''GET'' (''API/TableAccess/'' @ k)"

text \<open>The request the server sees: the URL is relative to the root of the site.\<close>

definition sent :: "http_call \<Rightarrow> request" where
  "sent c = (case c of Call m u \<Rightarrow> new_request\<lparr>rq_method := m, rq_uri := ''/'' @ u\<rparr>)"

text \<open>The tables of the services and their parents.\<close>

definition service_tables :: "(string \<times> string) list" where
  "service_tables =
     [(''Tab'', ''Layout''), (''Tile'', ''Tab''), (''User'', ''Role''), (''TableAccess'', ''Role''),
      (''InterfaceLog'', ''Interface''), (''Device'', ''Interface''), (''DeviceLog'', ''Device''),
      (''Value'', ''Device''), (''ValueLog'', ''Value''), (''ValueHistory'', ''Value'')]"

section \<open>Query strings\<close>

lemma query_fold:
  "e \<noteq> [] \<Longrightarrow>
   foldl (\<lambda>e (k, v). e @ (if length e \<noteq> 0 then ''&'' else ''?'') @ k @ ''='' @ v) e kvs =
     e @ concat (map (\<lambda>(k, v). ''&'' @ k @ ''='' @ v) kvs)"
  by (induction kvs arbitrary: e) auto

lemma query_string_Cons:
  "query_string ((k, v) # kvs) = ''?'' @ k @ ''='' @ v @ concat (map (\<lambda>(k, v). ''&'' @ k @ ''='' @ v) kvs)"
  using query_fold [of "''?'' @ k @ ''='' @ v" kvs] by (simp add: query_string_def)

lemma optional_query_starts: "optional_query q = [] \<or> starts_with ''?'' (optional_query q)"
proof (cases q)
  case (Some kvs)
  show ?thesis
  proof (cases kvs)
    case Nil
    with Some show ?thesis by (simp add: optional_query_def query_string_def)
  next
    case (Cons p ps)
    with Some show ?thesis by (cases p) (simp add: optional_query_def query_string_Cons)
  qed
qed (simp add: optional_query_def)

lemma service_names: "(t, p) \<in> set service_tables \<Longrightarrow> name_ok t \<and> name_ok p"
proof -
  have "list_all (\<lambda>(t, p). name_ok t \<and> name_ok p) service_tables" by code_simp
  then show "(t, p) \<in> set service_tables \<Longrightarrow> name_ok t \<and> name_ok p" by (auto simp: list_all_iff)
qed

section \<open>Properties\<close>



text \<open>Requests for a single row, to read, change or delete it, reach that row.\<close>

theorem client_items_routed:
  assumes "name_ok t" and "0 < k" and "k < 2 ^ 31"
  shows "\<forall>c \<in> {getOne t (nat_to_string k), updateOne t (nat_to_string k), deleteOne t (nat_to_string k)}.
    \<exists>m. rest_Create (sent c) =
      Inr (Some (t = ''Session'', (new_data_access ''Admin'' t m)\<lparr>m_TableKey := int k\<rparr>))"
  using uri_routes [of t t k "[]"] assms
  by (auto simp: sent_def item_url_def getOne_def updateOne_def deleteOne_def)

theorem client_items_routed_witness:
  "\<exists>m. rest_Create (sent (deleteOne ''Unit'' ''31'')) =
     Inr (Some (False, (new_data_access ''Admin'' ''Unit'' m)\<lparr>m_TableKey := 31\<rparr>))"
proof -
  have "name_ok ''Unit''" "nat_to_string 31 = ''31''" by code_simp+
  with client_items_routed [of "''Unit''" 31] show ?thesis by simp
qed

text \<open>The browser's request for one table access row asks for a table that does not
  exist: the server takes the last letter of \<^verbatim>\<open>TableAccess\<close> for the plural.\<close>

theorem table_access_misrouted:
  assumes "0 < k" and "k < 2 ^ 31"
  shows "rest_Create (sent (getTableAccess (nat_to_string k))) =
    Inr (Some (False, (new_data_access ''Admin'' ''TableAcces'' ''GET'')\<lparr>m_TableKey := int k\<rparr>))"
proof -
  have "name_ok ''TableAcces''" by code_simp
  with uri_routes [of "''TableAcces''" "''TableAcces''" k "[]" "''GET''"] assms show ?thesis
    by (simp add: sent_def getTableAccess_def)
qed

theorem table_access_misrouted_witness:
  "rest_Create (sent (getTableAccess ''2'')) =
    Inr (Some (False, (new_data_access ''Admin'' ''TableAcces'' ''GET'')\<lparr>m_TableKey := 2\<rparr>))"
proof -
  have "nat_to_string 2 = ''2''" by code_simp
  with table_access_misrouted [of 2] show ?thesis by simp
qed

end
