(* ===== verification/Base64.thy ===== *)
theory Base64
  imports Prelude
begin

unbundle bit_operations_syntax

text \<open>
  \<^verbatim>\<open>web/webserver/Base64.cpp\<close>: the encoder and the decoder, each a loop that fills a small
  array and empties it when it is full.  The array with its fill count \<^verbatim>\<open>i\<close> is the list of the
  elements stored so far.
\<close>

definition base64_chars :: string where
  "base64_chars = ''ABCDEFGHIJKLMNOPQRSTUVWXYZabcdefghijklmnopqrstuvwxyz0123456789+/''"

definition is_alnum :: "char \<Rightarrow> bool" where
  "is_alnum c = (let n = of_char c :: nat in (48 \<le> n \<and> n \<le> 57) \<or> (65 \<le> n \<and> n \<le> 90) \<or> (97 \<le> n \<and> n \<le> 122))"

definition is_base64 :: "char \<Rightarrow> bool" where
  "is_base64 c \<longleftrightarrow> is_alnum c \<or> c = CHR ''+'' \<or> c = CHR ''/''"

section \<open>Encoding\<close>

definition to_quad :: "byte \<Rightarrow> byte \<Rightarrow> byte \<Rightarrow> bytes" where
  "to_quad a b c =
     [drop_bit 2 (a AND 0xfc),
      push_bit 4 (a AND 0x03) + drop_bit 4 (b AND 0xf0),
      push_bit 2 (b AND 0x0f) + drop_bit 6 (c AND 0xc0),
      c AND 0x3f]"

definition b64_char :: "byte \<Rightarrow> char" where
  "b64_char x = base64_chars ! unat x"

definition enc_quad :: "bytes \<Rightarrow> string" where
  "enc_quad arr = map b64_char (to_quad (arr ! 0) (arr ! 1) (arr ! 2))"

definition enc_tail :: "bytes \<Rightarrow> string" where
  "enc_tail arr =
     (let i = length arr
      in if i \<noteq> 0 then
           take (i + 1) (enc_quad (arr @ replicate (3 - i) 0)) @ replicate (3 - i) (CHR ''='')
         else [])"

fun enc_loop :: "bytes \<Rightarrow> bytes \<Rightarrow> string" where
  "enc_loop arr [] = enc_tail arr"
| "enc_loop arr (b # bs) =
     (let arr' = arr @ [b]
      in if length arr' = 3 then enc_quad arr' @ enc_loop [] bs else enc_loop arr' bs)"

definition base64_encode :: "bytes \<Rightarrow> string" where
  "base64_encode bs = enc_loop [] bs"

section \<open>Decoding\<close>

text \<open>\<^verbatim>\<open>(unsigned char) base64_chars.find(c)\<close>: \<^verbatim>\<open>npos\<close> becomes 255.\<close>

definition b64_find :: "char \<Rightarrow> byte" where
  "b64_find c = (case str_find [c] base64_chars 0 of None \<Rightarrow> 255 | Some i \<Rightarrow> word_of_nat i)"

definition of_quad :: "byte \<Rightarrow> byte \<Rightarrow> byte \<Rightarrow> byte \<Rightarrow> bytes" where
  "of_quad p q r s =
     [push_bit 2 p + drop_bit 4 (q AND 0x30),
      push_bit 4 (q AND 0xf) + drop_bit 2 (r AND 0x3c),
      push_bit 6 (r AND 0x3) + s]"

definition dec_quad :: "string \<Rightarrow> bytes" where
  "dec_quad arr = of_quad (b64_find (arr ! 0)) (b64_find (arr ! 1)) (b64_find (arr ! 2)) (b64_find (arr ! 3))"

definition dec_tail :: "string \<Rightarrow> bytes" where
  "dec_tail arr =
     (let i = length arr
      in if i \<noteq> 0 then take (i - 1) (dec_quad (arr @ replicate (4 - i) (CHR 0x00))) else [])"

fun dec_loop :: "string \<Rightarrow> string \<Rightarrow> bytes" where
  "dec_loop arr [] = dec_tail arr"
| "dec_loop arr (c # cs) =
     (if c \<noteq> CHR ''='' \<and> is_base64 c then
        (let arr' = arr @ [c]
         in if length arr' = 4 then dec_quad arr' @ dec_loop [] cs else dec_loop arr' cs)
      else dec_tail arr)"

definition base64_decode :: "string \<Rightarrow> bytes" where
  "base64_decode s = dec_loop [] s"

section \<open>Bits of a byte\<close>

lemma byte_eqI:
  assumes "bit x 0 = bit y 0" "bit x 1 = bit y 1" "bit x 2 = bit y 2" "bit x 3 = bit y 3"
    "bit x 4 = bit y 4" "bit x 5 = bit y 5" "bit x 6 = bit y 6" "bit x 7 = bit y 7"
  shows "x = (y :: byte)"
proof (rule bit_word_eqI)
  fix n :: nat assume "n < LENGTH(8)"
  then have "n = 0 \<or> n = 1 \<or> n = 2 \<or> n = 3 \<or> n = 4 \<or> n = 5 \<or> n = 6 \<or> n = 7" by auto
  with assms show "bit x n = bit y n" by auto
qed

lemma byte_add: "x AND y = 0 \<Longrightarrow> x + y = x OR (y :: byte)"
  using word_plus_and_or [of x y] by simp

lemma quad_disjoint:
  "push_bit 4 (a AND 0x03) AND drop_bit 4 (b AND 0xf0) = (0 :: byte)"
  "push_bit 2 (b AND 0x0f) AND drop_bit 6 (c AND 0xc0) = (0 :: byte)"
  by (rule byte_eqI; simp add: bit_simps)+

lemma quad_add:
  "push_bit 4 (a AND 0x03) + drop_bit 4 (b AND 0xf0) = push_bit 4 (a AND 0x03) OR drop_bit 4 (b AND (0xf0 :: byte))"
  "push_bit 2 (b AND 0x0f) + drop_bit 6 (c AND 0xc0) = push_bit 2 (b AND 0x0f) OR drop_bit 6 (c AND (0xc0 :: byte))"
  by (simp_all only: byte_add quad_disjoint)

lemma triple_first:
  "push_bit 2 (drop_bit 2 (a AND 0xfc)) +
     drop_bit 4 ((push_bit 4 (a AND 0x03) + drop_bit 4 (b AND 0xf0)) AND 0x30) = (a :: byte)"
proof -
  have "push_bit 2 (drop_bit 2 (a AND 0xfc)) AND
     drop_bit 4 ((push_bit 4 (a AND 0x03) OR drop_bit 4 (b AND 0xf0)) AND 0x30) = (0 :: byte)"
    by (rule byte_eqI; simp add: bit_simps)
  then show ?thesis
    unfolding quad_add byte_add [OF \<open>_ = 0\<close>] by (intro byte_eqI; simp add: bit_simps)
qed

lemma triple_second:
  "push_bit 4 ((push_bit 4 (a AND 0x03) + drop_bit 4 (b AND 0xf0)) AND 0xf) +
     drop_bit 2 ((push_bit 2 (b AND 0x0f) + drop_bit 6 (c AND 0xc0)) AND 0x3c) = (b :: byte)"
proof -
  have "push_bit 4 ((push_bit 4 (a AND 0x03) OR drop_bit 4 (b AND 0xf0)) AND 0xf) AND
     drop_bit 2 ((push_bit 2 (b AND 0x0f) OR drop_bit 6 (c AND 0xc0)) AND 0x3c) = (0 :: byte)"
    by (rule byte_eqI; simp add: bit_simps)
  then show ?thesis
    unfolding quad_add byte_add [OF \<open>_ = 0\<close>] by (intro byte_eqI; simp add: bit_simps)
qed

lemma triple_third:
  "push_bit 6 ((push_bit 2 (b AND 0x0f) + drop_bit 6 (c AND 0xc0)) AND 0x3) + (c AND 0x3f) = (c :: byte)"
proof -
  have "push_bit 6 ((push_bit 2 (b AND 0x0f) OR drop_bit 6 (c AND 0xc0)) AND 0x3) AND (c AND 0x3f) = (0 :: byte)"
    by (rule byte_eqI; simp add: bit_simps)
  then show ?thesis
    unfolding quad_add byte_add [OF \<open>_ = 0\<close>] by (intro byte_eqI; simp add: bit_simps)
qed


section \<open>The alphabet\<close>

lemma alphabet: "list_all (\<lambda>i. str_find [base64_chars ! i] base64_chars 0 = Some i \<and>
    is_base64 (base64_chars ! i) \<and> base64_chars ! i \<noteq> CHR ''='') [0..<64]"
  by code_simp

lemma b64_char_inv:
  assumes "unat x < 64"
  shows "b64_find (b64_char x) = x" and "is_base64 (b64_char x)" and "b64_char x \<noteq> CHR ''=''"
  using alphabet assms by (auto simp: list_all_iff b64_find_def b64_char_def)

lemma six_bits:
  assumes "\<not> bit x 6" and "\<not> bit x 7"
  shows "unat (x :: byte) < 64"
proof -
  have "take_bit 6 x = x" using assms by (intro byte_eqI; simp add: bit_simps)
  then have "unat x = take_bit 6 (unat x)" by (metis unsigned_take_bit_eq)
  then show ?thesis using take_bit_nat_less_exp [of 6 "unat x"] by simp
qed

lemma to_quad_small: "list_all (\<lambda>x. unat x < 64) (to_quad a b c)"
proof -
  have "unat (drop_bit 2 (a AND 0xfc)) < 64" "unat (c AND 0x3f) < 64"
    "unat (push_bit 4 (a AND 0x03) OR drop_bit 4 (b AND 0xf0)) < 64"
    "unat (push_bit 2 (b AND 0x0f) OR drop_bit 6 (c AND 0xc0)) < 64"
    by (rule six_bits; simp add: bit_simps)+
  then show ?thesis by (simp only: to_quad_def quad_add list.pred_inject conj_assoc simp_thms)
qed

lemma to_quad_length [simp]: "length (to_quad a b c) = 4"
  by (simp add: to_quad_def)

lemma of_to_quad:
  "of_quad (to_quad a b c ! 0) (to_quad a b c ! 1) (to_quad a b c ! 2) (to_quad a b c ! 3) = [a, b, c]"
  using triple_first triple_second triple_third
  by (simp add: of_quad_def to_quad_def)

text \<open>The characters of a full group, and what they decode to.\<close>

lemma quad_chars:
  obtains w x y z where "map b64_char (to_quad a b c) = [w, x, y, z]"
    and "list_all (\<lambda>c. is_base64 c \<and> c \<noteq> CHR ''='') [w, x, y, z]"
    and "dec_quad [w, x, y, z] = [a, b, c]"
proof -
  obtain p q r s where q: "to_quad a b c = [p, q, r, s]" by (simp add: to_quad_def)
  have small: "unat p < 64" "unat q < 64" "unat r < 64" "unat s < 64"
    using to_quad_small [of a b c] by (simp_all add: q)
  have "of_quad p q r s = [a, b, c]" using of_to_quad [of a b c] by (simp add: q)
  then show thesis
    using small b64_char_inv by (intro that [of "b64_char p" "b64_char q" "b64_char r" "b64_char s"])
      (simp_all add: q dec_quad_def)
qed

lemma dec_loop_stop: "\<not> is_base64 c \<or> c = CHR ''='' \<Longrightarrow> dec_loop arr (c # s) = dec_tail arr"
  by auto

lemma dec_quad_2: "take 1 (dec_quad (w # x # r)) = take 1 (dec_quad (w # x # r'))"
  by (simp add: dec_quad_def of_quad_def)

lemma dec_quad_3: "take 2 (dec_quad (w # x # y # r)) = take 2 (dec_quad (w # x # y # r'))"
  by (simp add: dec_quad_def of_quad_def numeral_2_eq_2)

lemma dec_enc_1: "dec_loop [] (enc_loop [] [a]) = [a]"
proof -
  obtain w x y z where q: "map b64_char (to_quad a 0 0) = [w, x, y, z]"
    "list_all (\<lambda>c. is_base64 c \<and> c \<noteq> CHR ''='') [w, x, y, z]" "dec_quad [w, x, y, z] = [a, 0, 0]"
    by (rule quad_chars)
  have "enc_loop [] [a] = [w, x, CHR ''='', CHR ''='']"
    using q(1) by (simp add: enc_tail_def enc_quad_def numeral_eq_Suc)
  moreover have "take 1 (dec_quad [w, x, CHR 0x00, CHR 0x00]) = [a]"
    using q(3) dec_quad_2 [of w x "[CHR 0x00, CHR 0x00]" "[y, z]"] by simp
  ultimately show ?thesis
    using q(2) by (simp add: dec_tail_def numeral_eq_Suc)
qed

lemma dec_enc_2: "dec_loop [] (enc_loop [] [a, b]) = [a, b]"
proof -
  obtain w x y z where q: "map b64_char (to_quad a b 0) = [w, x, y, z]"
    "list_all (\<lambda>c. is_base64 c \<and> c \<noteq> CHR ''='') [w, x, y, z]" "dec_quad [w, x, y, z] = [a, b, 0]"
    by (rule quad_chars)
  have "enc_loop [] [a, b] = [w, x, y, CHR ''='']"
    using q(1) by (simp add: enc_tail_def enc_quad_def numeral_eq_Suc)
  moreover have "take 2 (dec_quad [w, x, y, CHR 0x00]) = [a, b]"
    using q(3) dec_quad_3 [of w x y "[CHR 0x00]" "[z]"] by (simp add: numeral_2_eq_2)
  ultimately show ?thesis
    using q(2) by (simp add: dec_tail_def numeral_eq_Suc)
qed

lemma dec_enc_3:
  "dec_loop [] (enc_loop [] (a # b # c # bs)) = a # b # c # dec_loop [] (enc_loop [] bs)"
proof -
  obtain w x y z where q: "map b64_char (to_quad a b c) = [w, x, y, z]"
    "list_all (\<lambda>c. is_base64 c \<and> c \<noteq> CHR ''='') [w, x, y, z]" "dec_quad [w, x, y, z] = [a, b, c]"
    by (rule quad_chars)
  have "enc_loop [] (a # b # c # bs) = [w, x, y, z] @ enc_loop [] bs"
    using q(1) by (simp add: enc_quad_def)
  then show ?thesis using q(2,3) by simp
qed

lemma dec_enc: "dec_loop [] (enc_loop [] bs) = bs"
proof (induction bs rule: measure_induct_rule [of length])
  case (less bs)
  consider "bs = []" | a where "bs = [a]" | a b where "bs = [a, b]"
    | a b c cs where "bs = a # b # c # cs"
    by (metis list.exhaust)
  then show ?case
  proof cases
    case 1
    then show ?thesis by (simp add: enc_tail_def dec_tail_def)
  next
    case 4
    with less [of cs] show ?thesis by (simp only: dec_enc_3) simp
  qed (simp_all only: dec_enc_1 dec_enc_2)
qed

lemma length_enc_quad [simp]: "length (enc_quad arr) = 4"
  by (simp add: enc_quad_def)

lemma enc_length: "length (enc_loop [] bs) = 4 * ((length bs + 2) div 3)"
proof (induction bs rule: measure_induct_rule [of length])
  case (less bs)
  consider "bs = []" | a where "bs = [a]" | a b where "bs = [a, b]"
    | a b c cs where "bs = a # b # c # cs"
    by (metis list.exhaust)
  then show ?case
  proof cases
    case 4
    have "(length cs + 2 + 3) div 3 = (length cs + 2) div 3 + 1" by (rule div_add_self2) simp
    with 4 less [of cs] show ?thesis by (simp add: add.commute)
  qed (simp_all add: enc_tail_def Let_def)
qed

lemma base64_nonempty: "bs \<noteq> [] \<Longrightarrow> base64_encode bs \<noteq> []"
proof
  assume "bs \<noteq> []" "base64_encode bs = []"
  then have "(length bs + 2) div 3 = 0" using enc_length [of bs] by (simp add: base64_encode_def)
  then have "length bs + 2 < 3" by (simp only: div_eq_0_iff) simp
  with \<open>bs \<noteq> []\<close> show False by simp
qed

lemma enc_quad_chars: "c \<in> set (enc_quad arr) \<Longrightarrow> is_base64 c"
  using to_quad_small b64_char_inv(2) by (auto simp: enc_quad_def list_all_iff)

lemma enc_loop_chars: "c \<in> set (enc_loop arr bs) \<Longrightarrow> is_base64 c \<or> c = CHR ''=''"
proof (induction arr bs rule: enc_loop.induct)
  case (1 arr)
  then show ?case by (auto simp: enc_tail_def Let_def dest: in_set_takeD enc_quad_chars split: if_splits)
next
  case (2 arr b bs)
  then show ?case by (auto simp: Let_def dest: enc_quad_chars split: if_splits)
qed

lemma base64_encode_chars: "c \<in> set (base64_encode bs) \<Longrightarrow> is_base64 c \<or> c = CHR ''=''"
  unfolding base64_encode_def by (rule enc_loop_chars)

section \<open>Properties\<close>

text \<open>Base64 round trip: decoding what the encoder wrote gives back the bytes, for every
  length and so for every kind of padding, and the encoding has four characters for every three
  bytes begun.\<close>

theorem base64_roundtrip:
  "base64_decode (base64_encode bs) = bs \<and> length (base64_encode bs) = 4 * ((length bs + 2) div 3)"
  by (simp add: base64_decode_def base64_encode_def dec_enc enc_length)

end
