(* ===== verification/WebpackRuntime.thy ===== *)
theory WebpackRuntime
  imports Prelude
begin

text \<open>
  The module loader of the web application, \<^verbatim>\<open>web/www/runtime-es2015...js\<close> and its identical
  \<^verbatim>\<open>runtime-es5\<close> twin.  \<^verbatim>\<open>r\<close> is the callback scripts push their modules to, \<^verbatim>\<open>t\<close> runs the entry
  modules whose scripts are all there, \<^verbatim>\<open>l\<close> is \<^verbatim>\<open>require\<close>.

  A module body is what the runtime can see of it: the modules it requires, in order.  An entry
  is a module with the scripts (chunks) it needs.
\<close>

type_synonym modid = string
type_synonym chunk = nat

text \<open>A chunk is loaded (0) or being loaded, with the callback that resolves its promise.\<close>

datatype chunk_state = Loaded | Loading nat

record jsonp_data =
  chunkIds :: "chunk list"
  moreModules :: "(modid \<times> modid list) list"
  executeModules :: "(modid \<times> chunk list) list"

text \<open>
  \<^verbatim>\<open>rt_modules\<close> is \<^verbatim>\<open>e\<close> (a later definition of a module hides an earlier one), \<^verbatim>\<open>rt_cache\<close> is
  \<^verbatim>\<open>n\<close> with its flag \<^verbatim>\<open>l\<close>, \<^verbatim>\<open>rt_chunks\<close> is \<^verbatim>\<open>o\<close>, \<^verbatim>\<open>rt_deferred\<close> is \<^verbatim>\<open>u\<close>, \<^verbatim>\<open>rt_array\<close> the array
  \<^verbatim>\<open>window.webpackJsonp\<close> that \<^verbatim>\<open>a\<close> pushes to once \<^verbatim>\<open>rt_parent\<close> is set.  \<^verbatim>\<open>rt_ran\<close> and
  \<^verbatim>\<open>rt_resolved\<close> record the bodies entered and the callbacks called.
\<close>

record runtime =
  rt_modules :: "(modid \<times> modid list) list"
  rt_cache :: "(modid \<times> bool) list"
  rt_chunks :: "(chunk \<times> chunk_state) list"
  rt_deferred :: "(modid \<times> chunk list) list"
  rt_array :: "jsonp_data list"
  rt_parent :: bool
  rt_ran :: "modid list"
  rt_resolved :: "nat list"

text \<open>Running code: out of fuel, or a result (an exception or a normal end) and the new state.\<close>

type_synonym run = "(js_error option \<times> runtime) option"

fun exec_all :: "('a \<Rightarrow> runtime \<Rightarrow> run) \<Rightarrow> 'a list \<Rightarrow> runtime \<Rightarrow> run" where
  "exec_all f [] s = Some (None, s)"
| "exec_all f (x # xs) s =
     (case f x s of
        None \<Rightarrow> None
      | Some (Some err, s') \<Rightarrow> Some (Some err, s')
      | Some (None, s') \<Rightarrow> exec_all f xs s')"

text \<open>
  \<^verbatim>\<open>l\<close>: a cached module is not run again.  The module is cached before its body runs, so a cycle
  of modules ends; a module that does not exist stays cached although its call raises.
\<close>

fun require_fuel :: "nat \<Rightarrow> modid \<Rightarrow> runtime \<Rightarrow> run" where
  "require_fuel 0 m s = None"
| "require_fuel (Suc n) m s =
     (case map_of (rt_cache s) m of
        Some _ \<Rightarrow> Some (None, s)
      | None \<Rightarrow>
          let s1 = s\<lparr>rt_cache := (m, False) # rt_cache s\<rparr>
          in case map_of (rt_modules s1) m of
               None \<Rightarrow> Some (Some TypeError, s1)
             | Some deps \<Rightarrow>
                 (case exec_all (require_fuel n) deps (s1\<lparr>rt_ran := rt_ran s1 @ [m]\<rparr>) of
                    Some (None, s2) \<Rightarrow> Some (None, s2\<lparr>rt_cache := (m, True) # rt_cache s2\<rparr>)
                  | res \<Rightarrow> res))"

definition require :: "modid \<Rightarrow> runtime \<Rightarrow> run" where
  "require m s = require_fuel (Suc (length (rt_modules s))) m s"

definition chunk_loaded :: "runtime \<Rightarrow> chunk \<Rightarrow> bool" where
  "chunk_loaded s c \<longleftrightarrow> map_of (rt_chunks s) c = Some Loaded"

text \<open>
  \<^verbatim>\<open>t\<close>: the loop over the deferred entries; the entries before index \<^verbatim>\<open>r\<close> are \<open>kept\<close>, those
  from it on are the list.  An entry is taken out before it runs.
\<close>

fun deferred_loop ::
  "(modid \<times> chunk list) list \<Rightarrow> (modid \<times> chunk list) list \<Rightarrow> runtime \<Rightarrow> run" where
  "deferred_loop kept [] s = Some (None, s\<lparr>rt_deferred := kept\<rparr>)"
| "deferred_loop kept ((m, cs) # es) s =
     (if list_all (chunk_loaded s) cs then
        (case require m (s\<lparr>rt_deferred := kept @ es\<rparr>) of
           Some (None, s') \<Rightarrow> deferred_loop kept es s'
         | res \<Rightarrow> res)
      else deferred_loop (kept @ [(m, cs)]) es s)"

definition checkDeferredModules :: "runtime \<Rightarrow> run" where
  "checkDeferredModules s = deferred_loop [] (rt_deferred s) s"

text \<open>\<^verbatim>\<open>r\<close>: its loops over the chunks and the modules, then the parent, the callbacks and the entries.\<close>

fun mark_chunks :: "chunk list \<Rightarrow> runtime \<Rightarrow> nat list \<Rightarrow> runtime \<times> nat list" where
  "mark_chunks [] s res = (s, res)"
| "mark_chunks (c # cs) s res =
     mark_chunks cs (s\<lparr>rt_chunks := (c, Loaded) # rt_chunks s\<rparr>)
       (case map_of (rt_chunks s) c of Some (Loading p) \<Rightarrow> res @ [p] | _ \<Rightarrow> res)"

definition webpackJsonpCallback :: "jsonp_data \<Rightarrow> runtime \<Rightarrow> run" where
  "webpackJsonpCallback d s =
     (let (s1, res) = mark_chunks (chunkIds d) s [];
          s2 = s1\<lparr>rt_modules := rev (moreModules d) @ rt_modules s1\<rparr>;
          s3 = (if rt_parent s2 then s2\<lparr>rt_array := rt_array s2 @ [d]\<rparr> else s2);
          s4 = s3\<lparr>rt_resolved := rt_resolved s3 @ res\<rparr>
      in checkDeferredModules (s4\<lparr>rt_deferred := rt_deferred s4 @ executeModules d\<rparr>))"

text \<open>The script itself: what was pushed before it ran is replayed, then \<^verbatim>\<open>a\<close> is set.\<close>

definition initial_runtime :: "jsonp_data list \<Rightarrow> runtime" where
  "initial_runtime pushed = \<lparr>rt_modules = [], rt_cache = [], rt_chunks = [(0, Loaded)],
     rt_deferred = [], rt_array = pushed, rt_parent = False, rt_ran = [], rt_resolved = []\<rparr>"

definition bootstrap :: "jsonp_data list \<Rightarrow> run" where
  "bootstrap pushed =
     (case exec_all webpackJsonpCallback pushed (initial_runtime pushed) of
        Some (None, s) \<Rightarrow> checkDeferredModules (s\<lparr>rt_parent := True\<rparr>)
      | res \<Rightarrow> res)"

section \<open>Running ends\<close>

definition uncached :: "runtime \<Rightarrow> modid set" where
  "uncached s = {m. m \<in> fst ` set (rt_modules s) \<and> map_of (rt_cache s) m = None}"

lemma finite_uncached [simp]: "finite (uncached s)"
  by (rule finite_subset [of _ "fst ` set (rt_modules s)"]) (auto simp: uncached_def)

lemma card_uncached: "card (uncached s) \<le> length (rt_modules s)"
proof -
  have "card (uncached s) \<le> card (fst ` set (rt_modules s))"
    by (rule card_mono) (auto simp: uncached_def)
  also have "\<dots> \<le> length (rt_modules s)"
    using card_length [of "map fst (rt_modules s)"] by simp
  finally show ?thesis .
qed

text \<open>A run extends another when only the cache and the records grow.\<close>

definition grows :: "runtime \<Rightarrow> runtime \<Rightarrow> bool" where
  "grows s s' \<longleftrightarrow>
     rt_modules s' = rt_modules s \<and> rt_chunks s' = rt_chunks s \<and> rt_deferred s' = rt_deferred s \<and>
     rt_array s' = rt_array s \<and> rt_parent s' = rt_parent s \<and> rt_resolved s' = rt_resolved s \<and>
     (\<forall>m. map_of (rt_cache s) m \<noteq> None \<longrightarrow> map_of (rt_cache s') m \<noteq> None)"

lemma grows_refl [simp]: "grows s s"
  by (simp add: grows_def)

lemma grows_trans: "grows s t \<Longrightarrow> grows t u \<Longrightarrow> grows s u"
  by (simp add: grows_def)

lemma grows_uncached: "grows s s' \<Longrightarrow> card (uncached s') \<le> card (uncached s)"
  by (intro card_mono) (auto simp: grows_def uncached_def)

text \<open>
  The invariant of a run: a property of the state that survives it, for bodies that run with
  enough fuel.
\<close>

definition safe_run :: "run \<Rightarrow> runtime \<Rightarrow> bool" where
  "safe_run res s \<longleftrightarrow> (\<exists>err s'. res = Some (err, s') \<and> grows s s')"

lemma exec_all_safe:
  assumes "\<And>x s'. x \<in> set xs \<Longrightarrow> grows s s' \<Longrightarrow> safe_run (f x s') s'"
  shows "safe_run (exec_all f xs s) s"
  using assms
proof (induction xs arbitrary: s)
  case (Cons x xs)
  have "safe_run (f x s) s" using Cons.prems [of x s] by simp
  then obtain err s' where f: "f x s = Some (err, s')" "grows s s'"
    by (auto simp: safe_run_def)
  show ?case
  proof (cases err)
    case None
    have "safe_run (exec_all f xs s') s'"
      using Cons.prems grows_trans [OF f(2)] by (intro Cons.IH) auto
    with f None show ?thesis by (auto simp: safe_run_def intro: grows_trans)
  next
    case (Some e)
    with f show ?thesis by (simp add: safe_run_def)
  qed
qed (simp add: safe_run_def)

lemma require_fuel_safe: "card (uncached s) < n \<Longrightarrow> safe_run (require_fuel n m s) s"
proof (induction n arbitrary: m s)
  case (Suc n)
  let ?s1 = "s\<lparr>rt_cache := (m, False) # rt_cache s\<rparr>"
  show ?case
  proof (cases "map_of (rt_cache s) m")
    case uncached: None
    show ?thesis
    proof (cases "map_of (rt_modules s) m")
      case None
      with uncached show ?thesis by (simp add: safe_run_def grows_def)
    next
      case (Some deps)
      let ?s2 = "?s1\<lparr>rt_ran := rt_ran s @ [m]\<rparr>"
      have "m \<in> uncached s"
        using uncached Some by (auto simp: uncached_def dest: map_of_SomeD intro: rev_image_eqI)
      moreover have "uncached ?s2 = uncached s - {m}" by (auto simp: uncached_def)
      ultimately have "Suc (card (uncached ?s2)) = card (uncached s)"
        using card_Suc_Diff1 [of "uncached s" m] by simp
      then have "card (uncached ?s2) < n" using Suc.prems by simp
      then have "safe_run (exec_all (require_fuel n) deps ?s2) ?s2"
        using grows_uncached by (intro exec_all_safe Suc.IH) (meson le_less_trans)
      then obtain err s3 where "exec_all (require_fuel n) deps ?s2 = Some (err, s3)" "grows ?s2 s3"
        by (auto simp: safe_run_def)
      with uncached Some show ?thesis
        by (cases err) (auto simp: safe_run_def grows_def split: if_splits)
    qed
  qed (simp add: safe_run_def)
qed simp

lemma require_safe: "safe_run (require m s) s"
  using card_uncached [of s] by (simp add: require_def require_fuel_safe del: require_fuel.simps)


lemma deferred_loop_total: "\<exists>err s'. deferred_loop kept es s = Some (err, s')"
proof (induction kept es s rule: deferred_loop.induct)
  case (2 kept m cs es s)
  obtain err s' where "require m (s\<lparr>rt_deferred := kept @ es\<rparr>) = Some (err, s')"
    using require_safe [of m "s\<lparr>rt_deferred := kept @ es\<rparr>"] by (auto simp: safe_run_def)
  with 2 show ?case by (cases err) auto
qed simp

section \<open>Bodies run once\<close>

definition ran_inv :: "runtime \<Rightarrow> bool" where
  "ran_inv s \<longleftrightarrow> distinct (rt_ran s) \<and> (\<forall>m \<in> set (rt_ran s). map_of (rt_cache s) m \<noteq> None)"

definition keeps_ran :: "run \<Rightarrow> runtime \<Rightarrow> bool" where
  "keeps_ran res s \<longleftrightarrow> (\<forall>err s'. ran_inv s \<longrightarrow> res = Some (err, s') \<longrightarrow> ran_inv s')"

lemma keeps_ranI:
  "(\<And>err s'. ran_inv s \<Longrightarrow> res = Some (err, s') \<Longrightarrow> ran_inv s') \<Longrightarrow> keeps_ran res s"
  unfolding keeps_ran_def by blast

lemma keeps_ranD: "keeps_ran res s \<Longrightarrow> ran_inv s \<Longrightarrow> res = Some (err, s') \<Longrightarrow> ran_inv s'"
  unfolding keeps_ran_def by blast

lemma exec_all_ran:
  assumes "\<And>x s'. keeps_ran (f x s') s'"
  shows "keeps_ran (exec_all f xs s) s"
proof (induction xs arbitrary: s)
  case Nil
  show ?case by (rule keeps_ranI) simp
next
  case (Cons x xs)
  show ?case
  proof (rule keeps_ranI)
    fix err s' assume inv: "ran_inv s" and r: "exec_all f (x # xs) s = Some (err, s')"
    then obtain e1 s1 where f: "f x s = Some (e1, s1)" by (auto split: option.splits)
    have "ran_inv s1" by (rule keeps_ranD [OF assms inv f])
    with Cons [of s1] r f show "ran_inv s'" by (cases e1) (auto dest: keeps_ranD)
  qed
qed

lemma ran_inv_enter:
  "ran_inv s \<Longrightarrow> map_of (rt_cache s) m = None \<Longrightarrow>
   ran_inv (s\<lparr>rt_cache := (m, False) # rt_cache s, rt_ran := rt_ran s @ [m]\<rparr>)"
  by (auto simp: ran_inv_def)

lemma ran_inv_cache: "ran_inv s \<Longrightarrow> ran_inv (s\<lparr>rt_cache := (m, b) # rt_cache s\<rparr>)"
  by (auto simp: ran_inv_def)

lemma require_fuel_ran: "keeps_ran (require_fuel n m s) s"
proof (induction n arbitrary: m s)
  case 0
  show ?case by (rule keeps_ranI) simp
next
  case (Suc n)
  show ?case
  proof (rule keeps_ranI)
    fix err s' assume inv: "ran_inv s" and r: "require_fuel (Suc n) m s = Some (err, s')"
    show "ran_inv s'"
    proof (cases "map_of (rt_cache s) m = None \<and> map_of (rt_modules s) m \<noteq> None")
      case False
      with r inv show ?thesis by (auto simp: Let_def ran_inv_cache split: option.splits)
    next
      case True
      then obtain deps where deps: "map_of (rt_modules s) m = Some deps" by auto
      let ?s2 = "s\<lparr>rt_cache := (m, False) # rt_cache s, rt_ran := rt_ran s @ [m]\<rparr>"
      obtain e s3 where e: "exec_all (require_fuel n) deps ?s2 = Some (e, s3)"
        using r True deps by (auto simp: Let_def split: option.splits)
      have "ran_inv s3"
        using keeps_ranD [OF exec_all_ran [OF Suc.IH] ran_inv_enter [OF inv] e] True by simp
      then have "ran_inv (s3\<lparr>rt_cache := (m, True) # rt_cache s3\<rparr>)" by (rule ran_inv_cache)
      with r True deps e \<open>ran_inv s3\<close> show ?thesis by (cases e) auto
    qed
  qed
qed

lemma ran_inv_cong:
  "rt_ran s' = rt_ran s \<Longrightarrow> rt_cache s' = rt_cache s \<Longrightarrow> ran_inv s' = ran_inv s"
  by (simp add: ran_inv_def)

lemma deferred_loop_ran: "keeps_ran (deferred_loop kept es s) s"
proof (induction kept es s rule: deferred_loop.induct)
  case (1 kept s)
  show ?case by (rule keeps_ranI) (auto simp: ran_inv_def)
next
  case (2 kept m cs es s)
  let ?s = "s\<lparr>rt_deferred := kept @ es\<rparr>"
  show ?case
  proof (rule keeps_ranI)
    fix err s' assume inv: "ran_inv s" and r: "deferred_loop kept ((m, cs) # es) s = Some (err, s')"
    show "ran_inv s'"
    proof (cases "list_all (chunk_loaded s) cs")
      case False
      with r have "deferred_loop (kept @ [(m, cs)]) es s = Some (err, s')" by simp
      then show ?thesis by (rule keeps_ranD [OF "2.IH"(2) [OF False] inv])
    next
      case True
      obtain e s1 where e: "require m ?s = Some (e, s1)"
        using require_safe [of m ?s] by (auto simp: safe_run_def)
      have "ran_inv ?s" using inv by (simp add: ran_inv_def)
      then have "ran_inv s1" using require_fuel_ran e unfolding require_def by (metis keeps_ranD)
      show ?thesis
      proof (cases e)
        case None
        with r True e have "deferred_loop kept es s1 = Some (err, s')" by simp
        then show ?thesis
          using keeps_ranD [OF "2.IH"(1) [OF True e refl None] \<open>ran_inv s1\<close>] by simp
      next
        case (Some x)
        with r True e \<open>ran_inv s1\<close> show ?thesis by simp
      qed
    qed
  qed
qed

lemma mark_chunks_frame:
  "rt_ran (fst (mark_chunks cs s res)) = rt_ran s \<and> rt_cache (fst (mark_chunks cs s res)) = rt_cache s \<and>
   rt_modules (fst (mark_chunks cs s res)) = rt_modules s \<and>
   rt_deferred (fst (mark_chunks cs s res)) = rt_deferred s \<and>
   rt_resolved (fst (mark_chunks cs s res)) = rt_resolved s \<and>
   rt_array (fst (mark_chunks cs s res)) = rt_array s \<and>
   rt_parent (fst (mark_chunks cs s res)) = rt_parent s"
  by (induction cs s res rule: mark_chunks.induct) auto

text \<open>The state in which \<^verbatim>\<open>r\<close> calls \<^verbatim>\<open>t\<close>.\<close>

definition callback_state :: "jsonp_data \<Rightarrow> runtime \<Rightarrow> runtime" where
  "callback_state d s =
     (let (s1, res) = mark_chunks (chunkIds d) s []
      in s1\<lparr>rt_modules := rev (moreModules d) @ rt_modules s,
            rt_array := (if rt_parent s then rt_array s @ [d] else rt_array s),
            rt_resolved := rt_resolved s @ res, rt_deferred := rt_deferred s @ executeModules d\<rparr>)"

lemma callback_eq: "webpackJsonpCallback d s = checkDeferredModules (callback_state d s)"
proof -
  obtain s1 res where "mark_chunks (chunkIds d) s [] = (s1, res)" by fastforce
  with mark_chunks_frame [of "chunkIds d" s "[]"] show ?thesis
    by (cases s1) (simp add: webpackJsonpCallback_def callback_state_def Let_def)
qed

lemma callback_state_ran: "ran_inv (callback_state d s) = ran_inv s"
proof -
  obtain s1 res where "mark_chunks (chunkIds d) s [] = (s1, res)" by fastforce
  with mark_chunks_frame [of "chunkIds d" s "[]"] show ?thesis
    by (intro ran_inv_cong) (simp_all add: callback_state_def)
qed

lemma callback_ran: "keeps_ran (webpackJsonpCallback d s) s"
  using deferred_loop_ran [of "[]" "rt_deferred (callback_state d s)" "callback_state d s"]
  by (simp add: callback_eq checkDeferredModules_def keeps_ran_def callback_state_ran)

lemma callback_total: "\<exists>err s'. webpackJsonpCallback d s = Some (err, s')"
  by (simp add: callback_eq checkDeferredModules_def deferred_loop_total)

section \<open>Entries wait for their chunks\<close>

definition waits :: "runtime \<Rightarrow> modid \<times> chunk list \<Rightarrow> bool" where
  "waits s e \<longleftrightarrow> \<not> list_all (chunk_loaded s) (snd e)"

lemma require_grows: "require m s = Some (err, s') \<Longrightarrow> grows s s'"
  using require_safe [of m s] by (simp add: safe_run_def)

lemma require_cached: "require m s = Some (None, s') \<Longrightarrow> map_of (rt_cache s') m \<noteq> None"
  by (auto simp: require_def Let_def split: option.splits prod.splits)

lemma waits_cong: "rt_chunks s' = rt_chunks s \<Longrightarrow> waits s' = waits s"
proof -
  assume "rt_chunks s' = rt_chunks s"
  then have "chunk_loaded s' = chunk_loaded s" by (simp add: chunk_loaded_def fun_eq_iff)
  then show "waits s' = waits s" by (intro ext) (simp add: waits_def)
qed

text \<open>
  A pass without exception leaves exactly the entries that still wait, in their order, and every
  other one has been required.
\<close>

lemma deferred_loop_result:
  assumes "deferred_loop kept es s = Some (None, s')"
  shows "rt_deferred s' = kept @ filter (waits s) es \<and> rt_chunks s' = rt_chunks s \<and>
    (\<forall>e \<in> set es. \<not> waits s e \<longrightarrow> map_of (rt_cache s') (fst e) \<noteq> None) \<and>
    (\<forall>m. map_of (rt_cache s) m \<noteq> None \<longrightarrow> map_of (rt_cache s') m \<noteq> None)"
  using assms
proof (induction kept es s rule: deferred_loop.induct)
  case (1 kept s)
  then show ?case by auto
next
  case (2 kept m cs es s)
  show ?case
  proof (cases "list_all (chunk_loaded s) cs")
    case False
    with "2.IH"(2) [OF False] "2.prems" show ?thesis by (simp add: waits_def)
  next
    case True
    let ?s = "s\<lparr>rt_deferred := kept @ es\<rparr>"
    obtain err s1 where r: "require m ?s = Some (err, s1)"
      using require_safe [of m ?s] by (auto simp: safe_run_def)
    with "2.prems" True have "err = None" by (cases err) auto
    with r have r: "require m ?s = Some (None, s1)" by simp
    have g: "grows ?s s1" by (rule require_grows [OF r])
    then have "waits s1 = waits s" by (intro waits_cong) (simp add: grows_def)
    moreover have "deferred_loop kept es s1 = Some (None, s')" using "2.prems" True r by simp
    ultimately show ?thesis
      using "2.IH"(1) [OF True r refl refl] g require_cached [OF r] True
      by (auto simp: grows_def waits_def)
  qed
qed


section \<open>The whole page load\<close>

text \<open>Scripts that arrive one after the other; an exception in one does not stop the next.\<close>

fun load_scripts :: "jsonp_data list \<Rightarrow> runtime \<Rightarrow> runtime option" where
  "load_scripts [] s = Some s"
| "load_scripts (d # ds) s =
     (case webpackJsonpCallback d s of None \<Rightarrow> None | Some (_, s') \<Rightarrow> load_scripts ds s')"

lemma exec_all_total:
  "(\<And>x s. \<exists>err s'. f x s = Some (err, s')) \<Longrightarrow> \<exists>err s'. exec_all f xs s = Some (err, s')"
proof (induction xs arbitrary: s)
  case (Cons x xs)
  then obtain err s' where "f x s = Some (err, s')" by meson
  with Cons show ?case by (cases err) auto
qed simp

lemma check_ran: "keeps_ran (checkDeferredModules s) s"
  unfolding checkDeferredModules_def by (rule deferred_loop_ran)

lemma bootstrap_total_ran: "\<exists>err s. bootstrap pushed = Some (err, s) \<and> ran_inv s"
proof -
  let ?s0 = "initial_runtime pushed"
  have "ran_inv ?s0" by (simp add: ran_inv_def initial_runtime_def)
  moreover obtain err s1 where r: "exec_all webpackJsonpCallback pushed ?s0 = Some (err, s1)"
    using exec_all_total [where f = webpackJsonpCallback, OF callback_total] by meson
  ultimately have s1: "ran_inv s1"
    using keeps_ranD [OF exec_all_ran [where f = webpackJsonpCallback, OF callback_ran]] by blast
  obtain err2 s2 where c: "checkDeferredModules (s1\<lparr>rt_parent := True\<rparr>) = Some (err2, s2)"
    using deferred_loop_total unfolding checkDeferredModules_def by meson
  have "ran_inv (s1\<lparr>rt_parent := True\<rparr>)" using s1 by (simp add: ran_inv_def)
  then have "ran_inv s2" by (rule keeps_ranD [OF check_ran _ c])
  with r s1 c show ?thesis by (cases err) (auto simp: bootstrap_def)
qed

lemma load_scripts_total_ran: "ran_inv s \<Longrightarrow> \<exists>s'. load_scripts ds s = Some s' \<and> ran_inv s'"
proof (induction ds arbitrary: s)
  case (Cons d ds)
  obtain err s1 where c: "webpackJsonpCallback d s = Some (err, s1)" using callback_total by blast
  with Cons.IH [OF keeps_ranD [OF callback_ran Cons.prems c]] show ?case by simp
qed simp

section \<open>Properties\<close>

text \<open>C24: Loading the page ends and runs no module body twice: whatever scripts were pushed
  before the runtime ran and whichever follow, whatever the modules require of each other
  (cycles and missing modules included), the loader returns and the bodies it entered are all
  different.\<close>

theorem modules_run_once:
  "\<exists>err s s'. bootstrap pushed = Some (err, s) \<and> load_scripts ds s = Some s' \<and> distinct (rt_ran s')"
  using bootstrap_total_ran [of pushed] load_scripts_total_ran unfolding ran_inv_def by blast

text \<open>An entry module runs when its last chunk arrives and not before: after a push
  that raises nothing, exactly the entries with a missing chunk are still deferred, in the order
  they were registered, and every other one has been required.\<close>

theorem entries_wait_for_chunks:
  assumes "webpackJsonpCallback d s = Some (None, s')"
  shows "rt_deferred s' =
      filter (\<lambda>e. \<not> list_all (chunk_loaded s') (snd e)) (rt_deferred s @ executeModules d) \<and>
    (\<forall>e \<in> set (rt_deferred s @ executeModules d). list_all (chunk_loaded s') (snd e) \<longrightarrow>
       map_of (rt_cache s') (fst e) \<noteq> None) \<and>
    (\<forall>c \<in> set (chunkIds d). chunk_loaded s' c)"
proof -
  let ?c = "callback_state d s"
  obtain s1 res where m: "mark_chunks (chunkIds d) s [] = (s1, res)" by fastforce
  have loaded: "\<forall>c. chunk_loaded s0 c \<or> c \<in> set cs \<longrightarrow> chunk_loaded (fst (mark_chunks cs s0 r)) c"
    for cs s0 r
    by (induction cs s0 r rule: mark_chunks.induct) (auto simp: chunk_loaded_def)
  have def: "rt_deferred ?c = rt_deferred s @ executeModules d" and ch: "rt_chunks ?c = rt_chunks s1"
    using m by (simp_all add: callback_state_def)
  have r: "deferred_loop [] (rt_deferred ?c) ?c = Some (None, s')"
    using assms by (simp add: callback_eq checkDeferredModules_def)
  note res = deferred_loop_result [OF r]
  then have eq: "chunk_loaded s' = chunk_loaded ?c" by (simp add: chunk_loaded_def fun_eq_iff)
  moreover have "\<forall>c \<in> set (chunkIds d). chunk_loaded s1 c"
    using loaded [of s "chunkIds d" "[]"] m by simp
  ultimately show ?thesis
    using res ch def by (simp add: waits_def [abs_def] chunk_loaded_def)
qed

theorem entries_wait_for_chunks_witness:
  "\<exists>s'. webpackJsonpCallback
       \<lparr>chunkIds = [1], moreModules = [(''0'', [''zUnb'']), (''zUnb'', [])],
        executeModules = [(''0'', [0]), (''1'', [7])]\<rparr> (initial_runtime []) = Some (None, s') \<and>
     rt_deferred s' = [(''1'', [7])] \<and> rt_ran s' = [''0'', ''zUnb'']"
proof -
  let ?d = "\<lparr>chunkIds = [1], moreModules = [(''0'', [''zUnb'']), (''zUnb'', [])],
    executeModules = [(''0'', [0]), (''1'', [7])]\<rparr>"
  obtain s' where s': "webpackJsonpCallback ?d (initial_runtime []) = Some (None, s')"
    "rt_ran s' = [''0'', ''zUnb'']" "chunk_loaded s' 0" "\<not> chunk_loaded s' 7"
    by (simp add: webpackJsonpCallback_def initial_runtime_def checkDeferredModules_def
        chunk_loaded_def require_def numeral_eq_Suc Let_def)
  with entries_wait_for_chunks [OF s'(1)] show ?thesis by (simp add: initial_runtime_def)
qed

end
