(* ===== verification/WebPath.thy ===== *)
theory WebPath
  imports Request
begin

text \<open>
  The paths of requests: \<^verbatim>\<open>request_handler::url_decode\<close>, and of \<^verbatim>\<open>web/webserver/cWebem.cpp\<close>
  \<^verbatim>\<open>SetWebRoot\<close>, \<^verbatim>\<open>SetWebTheme\<close>, \<^verbatim>\<open>ExtractRequestPath\<close>, \<^verbatim>\<open>IsBadRequestPath\<close>,
  \<^verbatim>\<open>GetURICommandParameter\<close> and the loop that reads the parameters of a query.
\<close>

section \<open>Decoding\<close>

text \<open>
  \<^verbatim>\<open>is >> std::hex >> value\<close> on two characters: white space, a sign and a prefix \<^verbatim>\<open>0x\<close> are
  taken too, what follows the digits is left.  \<^const>\<open>None\<close> sets the fail bit.
\<close>

definition hex_val :: "char \<Rightarrow> nat option" where
  "hex_val c =
     (let n = of_char c :: nat
      in if 48 \<le> n \<and> n \<le> 57 then Some (n - 48)
         else if 65 \<le> n \<and> n \<le> 70 then Some (n - 55)
         else if 97 \<le> n \<and> n \<le> 102 then Some (n - 87) else None)"

fun hex_digits :: "nat \<Rightarrow> string \<Rightarrow> nat" where
  "hex_digits n [] = n"
| "hex_digits n (c # cs) = (case hex_val c of None \<Rightarrow> n | Some d \<Rightarrow> hex_digits (16 * n + d) cs)"

definition scan_hex :: "string \<Rightarrow> int option" where
  "scan_hex s =
     (let t = dropWhile is_c_space s;
          neg = (case t of c # cs \<Rightarrow> c = CHR ''-'' | [] \<Rightarrow> False);
          u = (case t of c # cs \<Rightarrow> if c = CHR ''-'' \<or> c = CHR ''+'' then cs else t | [] \<Rightarrow> []);
          v = (case u of z # x # r \<Rightarrow>
                 if z = CHR ''0'' \<and> (x = CHR ''x'' \<or> x = CHR ''X'') then r else u
               | _ \<Rightarrow> u)
      in case v of
           [] \<Rightarrow> None
         | c # cs \<Rightarrow> if hex_val c = None then None
                   else Some (if neg then - int (hex_digits 0 v) else int (hex_digits 0 v)))"

text \<open>The result of \<^verbatim>\<open>url_decode\<close> with the content of its output, partial when it is false.\<close>

fun url_decode :: "string \<Rightarrow> bool \<times> string" where
  "url_decode [] = (True, [])"
| "url_decode (c # cs) =
     (if c = CHR ''%'' then
        (case cs of
           x # y # r \<Rightarrow>
             (case scan_hex [x, y] of
                None \<Rightarrow> (False, [])
              | Some v \<Rightarrow> let (ok, out) = url_decode r in (ok, char_of (v mod 256) # out))
         | _ \<Rightarrow> (False, []))
      else let (ok, out) = url_decode cs in (ok, (if c = CHR ''+'' then CHR '' '' else c) # out))"

section \<open>Root and theme\<close>

definition SetWebTheme :: "string \<Rightarrow> string" where
  "SetWebTheme themename = ''/styles/'' @ themename"

definition SetWebRoot :: "string \<Rightarrow> string" where
  "SetWebRoot webRoot =
     (let r = (if webRoot \<noteq> [] \<and> last webRoot = CHR ''/'' then butlast webRoot else webRoot)
      in if r \<noteq> [] \<and> hd r \<noteq> CHR ''/'' then CHR ''/'' # webRoot else r)"

text \<open>
  \<^verbatim>\<open>ExtractRequestPath\<close>, with the root and the theme of the server.  The last character of an
  empty path is read out of bounds, which is \<^const>\<open>None\<close>.
\<close>

definition ExtractRequestPath :: "string \<Rightarrow> string \<Rightarrow> string \<Rightarrow> string option" where
  "ExtractRequestPath root theme original =
     (let p1 = takeWhile (\<lambda>c. c \<noteq> CHR ''?'') original;
          p2 = (if starts_with (root @ ''/@login'') p1 then root @ ''/'' else p1)
      in if p2 = [] then None
         else
           let p3 = (if last p2 = CHR ''/'' then p2 @ ''index.html'' else p2);
               p4 = (if root \<noteq> [] then (if starts_with root p3 then drop (length root) p3 else [])
                     else p3)
           in Some (if starts_with ''/acttheme/'' p4 then theme @ drop 9 p4 else p4))"

definition IsBadRequestPath :: "string \<Rightarrow> string \<Rightarrow> bool" where
  "IsBadRequestPath root path \<longleftrightarrow>
     path = [] \<or> hd path \<noteq> CHR ''/'' \<or> contains path ''..'' \<or> contains path ''.htpasswd'' \<or>
     (root \<noteq> [] \<and> \<not> starts_with root path)"

section \<open>The query\<close>

text \<open>\<^verbatim>\<open>GetURICommandParameter\<close>: what follows the first \<^verbatim>\<open>param=\<close>, or the whole URI.\<close>

definition GetURICommandParameter :: "string \<Rightarrow> string" where
  "GetURICommandParameter uri =
     (let cut = (\<lambda>p. takeWhile (\<lambda>c. c \<noteq> CHR ''&'') (drop (p + 7) uri))
      in case (str_find ''&param='' uri 0, str_find ''?param='' uri 0) of
           (None, None) \<Rightarrow> uri
         | (None, Some p2) \<Rightarrow> cut p2
         | (Some p1, None) \<Rightarrow> cut p1
         | (Some p1, Some p2) \<Rightarrow> cut (if p2 < p1 then p2 else p1))"

text \<open>
  The loop of \<^verbatim>\<open>CheckForPageOverride\<close> over what follows the question mark: as for form content,
  and a value is decoded whether or not its encoding is valid.
\<close>

function query_values :: "string \<Rightarrow> multimap \<Rightarrow> multimap" where
  "query_values s values =
     (case split_at_char (CHR ''='') s of
        None \<Rightarrow> values
      | Some (name, r) \<Rightarrow>
          (case split_at_char (CHR ''&'') r of
             Some (value, r') \<Rightarrow>
               query_values r' (mm_insert name (snd (url_decode (blanks_loop value))) values)
           | None \<Rightarrow> mm_insert name (snd (url_decode (blanks_loop r))) values))"
  by pat_completeness auto
termination
  by (relation "measure (\<lambda>(s, v). length s)") (auto dest!: split_at_char_length)

declare query_values.simps [simp del]

definition query_params :: "string \<Rightarrow> multimap" where
  "query_params uri =
     (case split_at_char (CHR ''?'') uri of
        None \<Rightarrow> [] | Some (path, params) \<Rightarrow> query_values params [])"

section \<open>Extensions\<close>

definition find_last :: "char \<Rightarrow> string \<Rightarrow> nat option" where
  "find_last c s =
     (if c \<in> set s then Some (length s - 1 - length (takeWhile (\<lambda>x. x \<noteq> c) (rev s))) else None)"

lemma find_last_less: "find_last c s = Some i \<Longrightarrow> i < length s"
  by (cases s) (auto simp: find_last_def split: if_splits)

text \<open>Without a slash its position is \<^verbatim>\<open>npos\<close>, which no dot follows.\<close>

definition path_extension :: "string \<Rightarrow> string" where
  "path_extension p =
     (case (find_last (CHR ''.'') p, find_last (CHR ''/'') p) of
        (Some d, Some s) \<Rightarrow> if d > s then drop (d + 1) p else []
      | _ \<Rightarrow> [])"

section \<open>Encoded values\<close>

text \<open>\<^verbatim>\<open>encodeURIComponent\<close>, on the bytes of a string.\<close>

definition unreserved :: "char \<Rightarrow> bool" where
  "unreserved c \<longleftrightarrow> is_digit_char c \<or> (65 \<le> (of_char c :: nat) \<and> (of_char c :: nat) \<le> 90) \<or>
     (97 \<le> (of_char c :: nat) \<and> (of_char c :: nat) \<le> 122) \<or>
     c \<in> set [CHR ''-'', CHR ''_'', CHR ''.'', CHR ''!'', CHR ''~'', CHR ''*'', CHR 0x27, CHR ''('', CHR '')'']"

definition hex_char :: "nat \<Rightarrow> char" where
  "hex_char d = (if d < 10 then char_of (48 + d) else char_of (55 + d))"

definition encode_char :: "char \<Rightarrow> string" where
  "encode_char c =
     (if unreserved c then [c] else [CHR ''%'', hex_char (of_char c div 16), hex_char (of_char c mod 16)])"

definition url_encode :: "string \<Rightarrow> string" where
  "url_encode s = concat (map encode_char s)"

lemma hex_val_char [simp]: "d < 16 \<Longrightarrow> hex_val (hex_char d) = Some d"
  by (auto simp: hex_val_def hex_char_def Let_def)

lemma hex_char_plain: "d < 16 \<Longrightarrow> \<not> is_c_space (hex_char d) \<and> hex_char d \<noteq> CHR ''-'' \<and> hex_char d \<noteq> CHR ''+''
   \<and> hex_char d \<noteq> CHR ''x'' \<and> hex_char d \<noteq> CHR ''X'' \<and> hex_char d \<noteq> CHR ''&''"
proof -
  assume "d < 16"
  then have "(of_char (hex_char d) :: nat) = (if d < 10 then 48 + d else 55 + d)"
    by (auto simp: hex_char_def)
  with \<open>d < 16\<close> show ?thesis
    by (cases "d < 10") (auto simp: is_c_space_def dest!: arg_cong [of "hex_char d" _ "of_char :: char \<Rightarrow> nat"])
qed

lemma scan_hex_pair: "a < 16 \<Longrightarrow> b < 16 \<Longrightarrow> scan_hex [hex_char a, hex_char b] = Some (int (16 * a + b))"
  using hex_char_plain [of a] hex_char_plain [of b] by (simp add: scan_hex_def Let_def)

lemma of_char_div16 [simp]: "(of_char c :: nat) div 16 < 16"
proof -
  have "(of_char c :: nat) mod 256 < 256" by (rule mod_less_divisor) simp
  then show ?thesis by (simp only: of_char_mod_256)
qed

lemma unreserved_plain: "unreserved c \<Longrightarrow> c \<noteq> CHR ''%'' \<and> c \<noteq> CHR ''+'' \<and> c \<noteq> CHR ''&''"
  by (auto simp: unreserved_def is_digit_char_def)

lemma url_decode_encode: "url_decode (url_encode s @ t) = (fst (url_decode t), s @ snd (url_decode t))"
proof (induction s)
  case (Cons c s)
  have "16 * ((of_char c :: nat) div 16) + of_char c mod 16 = of_char c" by simp
  then have "scan_hex [hex_char (of_char c div 16), hex_char (of_char c mod 16)] = Some (int (of_char c))"
    using scan_hex_pair [of "of_char c div 16" "of_char c mod 16"] by simp
  moreover have "char_of (int (of_char c :: nat) mod 256) = c"
    by simp
  ultimately show ?case using Cons
    using unreserved_plain [of c] by (simp add: url_encode_def encode_char_def split_beta)
qed (simp add: url_encode_def)

lemma url_encode_plain: "CHR ''&'' \<notin> set (url_encode s) \<and> CHR ''+'' \<notin> set (url_encode s)"
proof -
  have "CHR ''&'' \<notin> set (encode_char c) \<and> CHR ''+'' \<notin> set (encode_char c)" for c
    using unreserved_plain [of c] hex_char_plain [of "of_char c div 16"] hex_char_plain [of "of_char c mod 16"]
    by (auto simp: encode_char_def)
  then show ?thesis by (auto simp: url_encode_def)
qed

lemma query_values_form:
  "list_all form_pair ps \<Longrightarrow>
   query_values (form_content ps) vs =
     foldl (\<lambda>m (k, v). mm_insert k (snd (url_decode (blanks_loop v))) m) vs ps"
proof (induction ps arbitrary: vs rule: form_content.induct)
  case 1
  then show ?case by (simp add: query_values.simps split_at_char_None)
next
  case (2 k v)
  then show ?case
    by (subst query_values.simps) (simp add: form_pair_def split_at_char_append split_at_char_None)
next
  case (3 k v p ps)
  then show ?case
    by (subst query_values.simps) (simp add: form_pair_def split_at_char_append)
qed

definition query_uri :: "string \<Rightarrow> (string \<times> string) list \<Rightarrow> string" where
  "query_uri path ps = path @ ''?'' @ form_content (map (\<lambda>(n, v). (n, url_encode v)) ps)"

text \<open>The parameters of a query arrive as they were sent: for names without an equals sign
  and any values, written as a browser encodes them, every name is found with the first value
  given for it and no other name is found, whatever bytes the values hold.\<close>

theorem query_params_roundtrip:
  assumes "list_all (\<lambda>(n, v). CHR ''='' \<notin> set n) ps" "CHR ''?'' \<notin> set path"
  shows "mm_sorted (query_params (query_uri path ps)) \<and> map_of (query_params (query_uri path ps)) j = map_of ps j"
proof -
  let ?g = "\<lambda>v. snd (url_decode (blanks_loop v))"
  let ?ps = "map (\<lambda>(n, v). (n, url_encode v)) ps"
  have f: "list_all form_pair ?ps"
    using assms(1) url_encode_plain by (auto simp: list_all_iff form_pair_def)
  have "blanks_loop (url_encode v) = url_encode v" for v
    using url_encode_plain [of v] by (subst blanks_loop.simps) simp
  then have g: "?g (url_encode v) = v" for v using url_decode_encode [of v "[]"] by simp
  have s: "mm_sorted []" by (simp add: mm_sorted_def)
  have "map_option ?g (map_of ?ps j) = map_of ps j"
    by (induction ps) (auto simp: g)
  then show ?thesis
    using mm_inserts_sorted [OF s, of ?g ?ps] mm_inserts_lookup [OF s, of ?g ?ps j]
    by (simp add: query_params_def query_uri_def split_at_char_append [OF assms(2)] query_values_form [OF f])
qed

theorem query_params_roundtrip_witness:
  "map_of (query_params ''/API/Devices?Name=a%26b%3D%25&Order=Name'') ''Name'' = Some ''a&b=%''"
proof -
  let ?ps = "[(''Name'', ''a&b=%''), (''Order'', ''Name'')]"
  have u: "query_uri ''/API/Devices'' ?ps = ''/API/Devices?Name=a%26b%3D%25&Order=Name''"
    by code_simp
  show ?thesis
    using query_params_roundtrip [of ?ps "''/API/Devices''" "''Name''"] by (simp add: u)
qed

section \<open>Paths that are served\<close>

lemma contains_Cons: "contains (c # cs) pat \<longleftrightarrow> starts_with pat (c # cs) \<or> contains cs pat"
proof (cases "starts_with pat (c # cs)")
  case True
  then show ?thesis by (simp add: contains_def str_find_def)
next
  case False
  then show ?thesis
    using find_at_None_iff [of 0 pat cs] find_at_None_iff [of 1 pat cs]
    by (simp add: contains_def str_find_def)
qed

lemma contains_Nil [simp]: "contains [] (c # cs) = False"
  by (simp add: contains_def str_find_def)

lemma contains_dots_append:
  "contains (a @ b) ''..'' \<longleftrightarrow> contains a ''..'' \<or> contains b ''..'' \<or>
     (a \<noteq> [] \<and> b \<noteq> [] \<and> last a = CHR ''.'' \<and> hd b = CHR ''.'')"
proof (induction a)
  case (Cons c a)
  then show ?case by (cases a; cases b) (auto simp: contains_Cons)
qed simp

lemma contains_dots_takeWhile: "contains (takeWhile P s) ''..'' \<Longrightarrow> contains s ''..''"
  using contains_dots_append [of "takeWhile P s" "dropWhile P s"] by simp

lemma contains_dots_drop: "contains (drop n s) ''..'' \<Longrightarrow> contains s ''..''"
  using contains_dots_append [of "take n s" "drop n s"] by simp

lemma starts_with_hd: "starts_with (c # p) s \<Longrightarrow> s \<noteq> [] \<and> hd s = c"
  by (cases s) auto

text \<open>A path that is not refused stays inside the document root: what \<^verbatim>\<open>ExtractRequestPath\<close>
  makes of it holds no two dots in a row, wherever they could come from, and when the server has
  no web root it starts with a slash.\<close>

lemma extracted_path_inside:
  assumes bad: "\<not> IsBadRequestPath root path"
    and ext: "ExtractRequestPath root (SetWebTheme name) path = Some p"
    and name: "\<not> contains name ''..''"
  shows "\<not> contains p ''..'' \<and> (root = [] \<longrightarrow> p \<noteq> [] \<and> hd p = CHR ''/'')"
proof -
  define p1 where "p1 = takeWhile (\<lambda>c. c \<noteq> CHR ''?'') path"
  define p2 where "p2 = (if starts_with (root @ ''/@login'') p1 then root @ ''/'' else p1)"
  define p3 where "p3 = (if last p2 = CHR ''/'' then p2 @ ''index.html'' else p2)"
  define p4 where "p4 = (if root \<noteq> [] then (if starts_with root p3 then drop (length root) p3 else []) else p3)"
  have ne: "p2 \<noteq> []" and p: "p = (if starts_with ''/acttheme/'' p4 then SetWebTheme name @ drop 9 p4 else p4)"
    using ext [unfolded ExtractRequestPath_def Let_def, folded p1_def, folded p2_def,
        folded p3_def, folded p4_def] by (simp_all split: if_splits)
  have path: "path \<noteq> []" "hd path = CHR ''/''" "\<not> contains path ''..''"
    using bad by (auto simp: IsBadRequestPath_def)
  then have 1: "\<not> contains p1 ''..''" using contains_dots_takeWhile p1_def by metis
  have "p1 \<noteq> [] \<and> hd p1 = CHR ''/''" using path by (cases path) (auto simp: p1_def)
  moreover have "\<not> contains (root @ ''/'') ''..''" if "starts_with (root @ ''/@login'') p1"
  proof -
    from that obtain t where "p1 = root @ ''/@login'' @ t" by (auto simp: starts_with_iff)
    with 1 show ?thesis by (simp add: contains_dots_append contains_Cons)
  qed
  ultimately have 2: "\<not> contains p2 ''..''" "root = [] \<longrightarrow> hd p2 = CHR ''/''"
    using 1 by (auto simp: p2_def)
  then have 3: "\<not> contains p3 ''..''" "root = [] \<longrightarrow> p3 \<noteq> [] \<and> hd p3 = CHR ''/''"
    using ne by (auto simp: p3_def contains_dots_append contains_Cons)
  then have 4: "\<not> contains p4 ''..''" "root = [] \<longrightarrow> p4 \<noteq> [] \<and> hd p4 = CHR ''/''"
    using contains_dots_drop [of "length root" p3] by (auto simp: p4_def)
  show ?thesis
  proof (cases "starts_with ''/acttheme/'' p4")
    case True
    then obtain t where t: "p4 = ''/acttheme/'' @ t" by (auto simp: starts_with_iff)
    with 4 name True show ?thesis
      by (auto simp: p SetWebTheme_def contains_dots_append contains_Cons)
  next
    case False
    with 4 p show ?thesis by simp
  qed
qed

text \<open>
  With a web root the prefix is compared without the slash that ends it, so a path next to the
  document root is reached; and a root written with a slash at its end only keeps that slash.
\<close>

lemma root_prefix_without_slash:
  "\<not> IsBadRequestPath ''/dz'' ''/dz-private/key.pem'' \<and>
   ExtractRequestPath ''/dz'' (SetWebTheme []) ''/dz-private/key.pem'' = Some ''-private/key.pem''"
  by code_simp

lemma root_keeps_slash: "SetWebRoot ''dz/'' = ''/dz/'' \<and> SetWebRoot ''/dz/'' = ''/dz''"
  by code_simp


end
