(* ===== verification/StaticFiles.thy ===== *)
theory StaticFiles
  imports WebPath Reply
begin

text \<open>
  \<^verbatim>\<open>web/webserver/request_handler.cpp\<close>: files of the document root as replies, from compressed
  and plain variants, with conditional requests.  The zip support is compiled out
  (\<^verbatim>\<open>WEBSERVER_DONT_USE_ZIP\<close> in \<^verbatim>\<open>main/stdafx.h\<close>).

  What the process finds around it is one record, an argument of the definitions: the content
  and the time of files, the C library's conversions of times, and the decompressor.
\<close>

record environment =
  env_file :: "string \<Rightarrow> string option"
  env_mtime :: "string \<Rightarrow> int"
  env_strptime :: "string \<Rightarrow> string \<Rightarrow> int option"
  env_http_date :: "int \<Rightarrow> string"
  env_gunzip :: "string \<Rightarrow> string"

record modify_info =
  delay_status :: bool
  mtime_support :: bool
  is_modified :: bool
  last_written :: int

section \<open>Conditional requests\<close>

definition convert_from_http_date :: "environment \<Rightarrow> string \<Rightarrow> int" where
  "convert_from_http_date env s =
     (if s = [] then 0
      else case env_strptime env ''%a, %d %b %Y %H:%M:%S %Z'' s of
        Some t \<Rightarrow> t
      | None \<Rightarrow>
          (case env_strptime env ''%A, %d-%b-%y %H:%M:%S %Z'' s of
             Some t \<Rightarrow> t
           | None \<Rightarrow>
               (case env_strptime env ''%a %b %e %H:%M:%S %Y'' s of
                  Some t \<Rightarrow> t | None \<Rightarrow> 0)))"

text \<open>The flag is true when the reply is complete.\<close>

definition not_modified ::
  "environment \<Rightarrow> string \<Rightarrow> request \<Rightarrow> reply \<Rightarrow> modify_info \<Rightarrow> bool \<times> reply \<times> modify_info" where
  "not_modified env path req rep m0 =
     (let t = env_mtime env path; m = m0\<lparr>last_written := t\<rparr>
      in if t = 0 then (False, rep, m\<lparr>mtime_support := False, is_modified := True\<rparr>)
         else
           let rep1 = add_header ''Last-Modified'' (env_http_date env t) True rep;
               m1 = m\<lparr>mtime_support := True\<rparr>
           in case get_req_header req ''If-Modified-Since'' of
                None \<Rightarrow> (False, rep1, m1\<lparr>is_modified := True\<rparr>)
              | Some d \<Rightarrow>
                  if convert_from_http_date env d \<ge> t then
                    (if delay_status m1 then (False, rep1, m1\<lparr>is_modified := False\<rparr>)
                     else (True, stock_reply st_not_modified, m1\<lparr>is_modified := False\<rparr>))
                  else (False, rep1, m1\<lparr>is_modified := True\<rparr>))"

section \<open>Looking for the file\<close>

text \<open>
  The state of the search: the path tried last, the content if it could be opened, whether the
  compressed variant was taken, the delay flag, the reply's flag when it was set, the extension.
\<close>

record search =
  full_path :: string
  found :: "string option"
  loaded_gz :: bool
  delay :: bool
  gz_flag :: "bool option"
  extension :: string

text \<open>First the compressed variant for clients that take it, then the plain file.\<close>

definition try_path :: "environment \<Rightarrow> bool \<Rightarrow> string \<Rightarrow> search \<Rightarrow> search" where
  "try_path env gz base s =
     (let p = (if gz then base @ ''.gz'' else base)
      in case env_file env p of
           Some c \<Rightarrow> s\<lparr>full_path := p, found := Some c, loaded_gz := gz, delay := \<not> gz, gz_flag := Some gz\<rparr>
         | None \<Rightarrow>
             if gz then s\<lparr>full_path := base, found := env_file env base\<rparr>
             else s\<lparr>full_path := p, found := None\<rparr>)"

definition try_folder :: "environment \<Rightarrow> bool \<Rightarrow> string \<Rightarrow> search \<Rightarrow> search" where
  "try_folder env gz base s =
     (if found s = None \<and> CHR ''.'' \<notin> set (full_path s) then
        let s' = try_path env gz (base @ ''/index.html'') s
        in if found s' \<noteq> None then s'\<lparr>extension := ''html''\<rparr> else s'
      else s)"

definition try_compressed_only :: "environment \<Rightarrow> bool \<Rightarrow> search \<Rightarrow> search" where
  "try_compressed_only env gz s =
     (if found s = None \<and> \<not> gz then
        let p = full_path s @ ''.gz''
        in case env_file env p of
             Some c \<Rightarrow> s\<lparr>full_path := p, found := Some c, loaded_gz := True, delay := False\<rparr>
           | None \<Rightarrow> s\<lparr>full_path := p\<rparr>
      else s)"

definition find_file :: "environment \<Rightarrow> bool \<Rightarrow> string \<Rightarrow> string \<Rightarrow> search" where
  "find_file env gz base ext =
     try_compressed_only env gz (try_folder env gz base (try_path env gz base
       \<lparr>full_path = [], found = None, loaded_gz = False, delay = True, gz_flag = None,
        extension = ext\<rparr>))"

section \<open>The handler\<close>

definition accepts_gzip :: "request \<Rightarrow> bool" where
  "accepts_gzip req = (case get_req_header req ''Accept-Encoding'' of
      None \<Rightarrow> False | Some h \<Rightarrow> contains h ''gzip'')"

definition gzip_support :: "bool \<Rightarrow> request \<Rightarrow> string \<Rightarrow> bool" where
  "gzip_support force_none req path \<longleftrightarrow>
     \<not> force_none \<and> (contains path ''.js'' \<or> contains path ''.htm'' \<or> contains path ''.css'') \<and>
     accepts_gzip req"

text \<open>What is done with the file that was found.\<close>

definition file_headers :: "string \<Rightarrow> bool \<Rightarrow> reply \<Rightarrow> reply" where
  "file_headers ext gz rep =
     (let r1 = add_header ''Content-Length'' (nat_to_string (length (rp_content rep))) True rep;
          r2 = add_header_content_type (extension_to_type ext) r1;
          r3 = add_header ''Access-Control-Allow-Origin'' ''*'' True r2;
          r4 = add_header ''X-Content-Type-Options'' ''nosniff'' True r3;
          r5 = add_header ''X-XSS-Protection'' ''1; mode=block'' True r4
      in if gz then add_header ''Content-Encoding'' ''gzip'' True r5 else r5)"

definition serve_found :: "environment \<Rightarrow> bool \<Rightarrow> string \<Rightarrow> search \<Rightarrow> reply \<Rightarrow> reply" where
  "serve_found env gz content s rep =
     file_headers (extension s) (gz \<and> loaded_gz s)
       (rep\<lparr>rp_content := rp_content rep @
              (if loaded_gz s \<and> \<not> gz then env_gunzip env content else content),
            rp_status := st_ok\<rparr>)"

text \<open>
  \<^verbatim>\<open>handle_request\<close> of a plain request handler: \<open>root\<close> and \<open>theme\<close> belong to the server,
  \<open>doc_root\<close> is the directory of its files.
\<close>

definition static_handle_request ::
  "environment \<Rightarrow> string \<Rightarrow> string \<Rightarrow> string \<Rightarrow> bool \<Rightarrow> request \<Rightarrow> reply \<Rightarrow> modify_info
     \<Rightarrow> (reply \<times> modify_info) option" where
  "static_handle_request env doc_root root theme force_none req rep m0 =
     (let (ok, decoded) = url_decode (rq_uri req); m = m0\<lparr>mtime_support := False\<rparr>
      in if \<not> ok \<or> IsBadRequestPath root decoded then Some (stock_reply st_bad_request, m)
         else case ExtractRequestPath root theme decoded of
           None \<Rightarrow> None
         | Some path \<Rightarrow>
             let gz = gzip_support force_none req path;
                 s = find_file env gz (doc_root @ path) (path_extension path);
                 m1 = m\<lparr>delay_status := delay s\<rparr>;
                 rep1 = (case gz_flag s of None \<Rightarrow> rep | Some b \<Rightarrow> rep\<lparr>rp_bIsGZIP := b\<rparr>)
             in case found s of
                  None \<Rightarrow> Some (stock_reply st_not_found, m1)
                | Some content \<Rightarrow>
                    if contains path ''styles/'' then
                      Some (serve_found env gz content s rep1, m1)
                    else
                      (case not_modified env (full_path s) req rep1 m1 of
                         (True, rep2, m2) \<Rightarrow> Some (rep2, m2)
                       | (False, rep2, m2) \<Rightarrow> Some (serve_found env gz content s rep2, m2)))"

section \<open>What is served\<close>

lemma try_path_found:
  "found s = None \<Longrightarrow> found (try_path env gz base s) = Some c \<Longrightarrow> loaded_gz s = False \<Longrightarrow>
   env_file env (full_path (try_path env gz base s)) = Some c \<and>
   full_path (try_path env gz base s) = base @ (if loaded_gz (try_path env gz base s) then ''.gz'' else [])"
  by (auto simp: try_path_def Let_def split: option.splits if_splits)

lemma try_path_not_found:
  "found s = None \<Longrightarrow> found (try_path env gz base s) = None \<Longrightarrow>
   full_path (try_path env gz base s) = base \<and> loaded_gz (try_path env gz base s) = loaded_gz s"
  by (auto simp: try_path_def Let_def split: option.splits if_splits)

definition found_at :: "environment \<Rightarrow> string \<Rightarrow> search \<Rightarrow> bool" where
  "found_at env base s \<longleftrightarrow> (\<exists>suffix \<in> {[], ''/index.html''}.
     if found s = None then full_path s = base @ suffix \<and> \<not> loaded_gz s
     else env_file env (full_path s) = found s \<and>
       full_path s = base @ suffix @ (if loaded_gz s then ''.gz'' else []))"

lemma found_at_path:
  "found s = None \<Longrightarrow> \<not> loaded_gz s \<Longrightarrow> suffix \<in> {[], ''/index.html''} \<Longrightarrow>
   found_at env base (try_path env gz (base @ suffix) s)"
  using try_path_found [of s env gz "base @ suffix"] try_path_not_found [of s env gz "base @ suffix"]
  unfolding found_at_def
  by (intro bexI [of _ suffix]) (auto simp: not_None_eq)

lemma found_at_extension [simp]: "found_at env base (s\<lparr>extension := e\<rparr>) = found_at env base s"
  by (simp add: found_at_def)

lemma found_at_folder: "found_at env base s \<Longrightarrow> found_at env base (try_folder env gz base s)"
  using found_at_path [of s "''/index.html''" env base gz]
  by (auto simp: try_folder_def Let_def found_at_def [of env base s])

lemma found_at_compressed: "found_at env base s \<Longrightarrow> found_at env base (try_compressed_only env gz s) \<or>
    found (try_compressed_only env gz s) = None"
  by (auto simp: try_compressed_only_def Let_def found_at_def split: option.splits)

lemma find_file_found:
  assumes "found (find_file env gz base ext) = Some c"
  shows "\<exists>suffix \<in> {[], ''/index.html''}.
    env_file env (full_path (find_file env gz base ext)) = Some c \<and>
    full_path (find_file env gz base ext) =
      base @ suffix @ (if loaded_gz (find_file env gz base ext) then ''.gz'' else [])"
proof -
  let ?s = "\<lparr>full_path = [], found = None, loaded_gz = False, delay = True, gz_flag = None, extension = ext\<rparr>"
  have "found_at env base (try_path env gz base ?s)"
    using found_at_path [of ?s "[]" env base gz] by simp
  then have "found_at env base (find_file env gz base ext)"
    using found_at_compressed [OF found_at_folder] assms unfolding find_file_def by fastforce
  then show ?thesis using assms by (simp add: found_at_def)
qed

lemma serve_found_reply:
  fixes env :: environment and gz :: bool and c :: string and s :: search and rep r :: reply
  assumes "reply_header rep ''Content-Encoding'' = None" "rp_content rep = []"
  defines "r \<equiv> serve_found env gz c s rep"
  shows "rp_content r = (if loaded_gz s \<and> \<not> gz then env_gunzip env c else c)"
    "reply_header r ''Content-Length'' = Some (nat_to_string (length (rp_content r)))"
    "reply_header r ''Content-Encoding'' = (if gz \<and> loaded_gz s then Some ''gzip'' else None)"
  using assms by (auto simp: serve_found_def file_headers_def Let_def iequals_def lowercase_def)

lemma not_modified_reply:
  "not_modified env path req rep m = (done, rep', m') \<Longrightarrow>
   (\<not> done \<longrightarrow> rp_content rep' = rp_content rep \<and> reply_header rep' ''Content-Encoding'' = reply_header rep ''Content-Encoding'')
   \<and> (done \<longrightarrow> rep' = stock_reply st_not_modified)"
  by (auto simp: not_modified_def Let_def iequals_def lowercase_def split: if_splits option.splits)


definition example_env :: environment where
  "example_env = \<lparr>env_file = (\<lambda>p. if p = ''www/app.js.gz'' then Some ''packed'' else None),
     env_mtime = (\<lambda>p. 100), env_strptime = (\<lambda>f s. Some 99), env_http_date = (\<lambda>t. ''Mon''),
     env_gunzip = (\<lambda>s. ''un'' @ s)\<rparr>"

definition example_request :: "string \<Rightarrow> request" where
  "example_request enc = new_request\<lparr>rq_method := ''GET'', rq_uri := ''/app%2Ejs?v=2'',
     rq_headers := [\<lparr>h_name = ''Accept-Encoding'', h_value = enc\<rparr>,
       \<lparr>h_name = ''If-Modified-Since'', h_value = ''Sun''\<rparr>]\<rparr>"

definition empty_reply :: reply where
  "empty_reply = \<lparr>rp_status = st_ok, rp_headers = [], rp_content = [], rp_bIsGZIP = False\<rparr>"

definition empty_info :: modify_info where
  "empty_info = \<lparr>delay_status = False, mtime_support = False, is_modified = False, last_written = 0\<rparr>"

lemma example_static:
  "map_option (\<lambda>(r, m). (rp_status r, rp_content r, reply_header r ''Content-Encoding'', is_modified m))
     (static_handle_request example_env ''www'' [] (SetWebTheme ''dark'') False (example_request ''gzip'')
        empty_reply empty_info) = Some (st_ok, ''packed'', Some ''gzip'', True)"
  "map_option (\<lambda>(r, m). (rp_status r, rp_content r, reply_header r ''Content-Encoding'', is_modified m))
     (static_handle_request example_env ''www'' [] (SetWebTheme ''dark'') False (example_request ''none'')
        empty_reply empty_info) = Some (st_ok, ''unpacked'', None, True)"
  by code_simp+


end
