(* ===== verification/LocalNetwork.thy ===== *)
theory LocalNetwork
  imports Request
begin

text \<open>
  The local networks of \<^verbatim>\<open>web/webserver/cWebem.cpp\<close>: \<^verbatim>\<open>AddLocalNetworks\<close> reads a pattern such
  as \<^verbatim>\<open>192.168.1.*\<close>, \<^verbatim>\<open>IsIPInRange\<close> compares an address with it.  Addresses are 32-bit words,
  read with \<^verbatim>\<open>sscanf\<close> by \<^verbatim>\<open>IPToUInt\<close> of \<^verbatim>\<open>main/Helper.cpp\<close>.
\<close>

section \<open>Reading dotted addresses\<close>

text \<open>\<^verbatim>\<open>%d\<close> of \<^verbatim>\<open>sscanf\<close>: white space, a sign, digits; an \<^verbatim>\<open>int\<close> as \<^const>\<open>atoi\<close> reads it.\<close>

definition scan_digits :: "string \<Rightarrow> (nat \<times> string) option" where
  "scan_digits s =
     (case s of [] \<Rightarrow> None | c # cs \<Rightarrow> if is_digit_char c then Some (digits_acc 0 s) else None)"

definition scan_int :: "string \<Rightarrow> (int \<times> string) option" where
  "scan_int s =
     (let t = dropWhile is_c_space s;
          neg = (case t of c # cs \<Rightarrow> c = CHR ''-'' | [] \<Rightarrow> False);
          u = (case t of c # cs \<Rightarrow> if c = CHR ''-'' \<or> c = CHR ''+'' then cs else t | [] \<Rightarrow> [])
      in map_option (\<lambda>(n, r). (wrap32 (clamp64 (if neg then - int n else int n)), r)) (scan_digits u))"

definition scan_dot :: "string \<Rightarrow> string option" where
  "scan_dot s = (case s of c # cs \<Rightarrow> if c = CHR ''.'' then Some cs else None | [] \<Rightarrow> None)"

text \<open>\<^verbatim>\<open>sscanf(s, "%d.%d.%d.%d", ...) != 4\<close> is \<^const>\<open>None\<close>; what follows is not looked at.\<close>

definition scan_ip :: "string \<Rightarrow> (int \<times> int \<times> int \<times> int) option" where
  "scan_ip s =
     (case scan_int s of None \<Rightarrow> None | Some (a, s1) \<Rightarrow>
     (case Option.bind (scan_dot s1) scan_int of None \<Rightarrow> None | Some (b, s2) \<Rightarrow>
     (case Option.bind (scan_dot s2) scan_int of None \<Rightarrow> None | Some (c, s3) \<Rightarrow>
     (case Option.bind (scan_dot s3) scan_int of None \<Rightarrow> None | Some (d, s4) \<Rightarrow>
        Some (a, b, c, d)))))"

definition IPToUInt :: "string \<Rightarrow> 32 word" where
  "IPToUInt ip =
     (case scan_ip ip of
        None \<Rightarrow> 0
      | Some (a, b, c, d) \<Rightarrow>
          or (or (or (push_bit 24 (word_of_int a)) (push_bit 16 (word_of_int b)))
            (push_bit 8 (word_of_int c))) (word_of_int d))"

section \<open>Networks\<close>

record IPNetwork =
  ip_network :: "32 word"
  ip_mask :: "32 word"
  ip_hostname :: string

text \<open>\<^verbatim>\<open>stdreplace\<close> with a single character to look for.\<close>

definition stdreplace_char :: "char \<Rightarrow> string \<Rightarrow> string \<Rightarrow> string" where
  "stdreplace_char x y s = concat (map (\<lambda>c. if c = x then y else [c]) s)"

definition dotted :: "int \<times> int \<times> int \<times> int \<Rightarrow> string" where
  "dotted q = (case q of (a, b, c, d) \<Rightarrow>
     int_to_string a @ ''.'' @ int_to_string b @ ''.'' @ int_to_string c @ ''.'' @ int_to_string d)"

definition mask_octet :: "int \<Rightarrow> int" where
  "mask_octet n = (if n \<noteq> 999 then 255 else 0)"

text \<open>The branch for patterns with wildcards.  \<^const>\<open>None\<close>: nothing is added.\<close>

definition wildcard_network :: "string \<Rightarrow> IPNetwork option" where
  "wildcard_network net =
     (case scan_ip (stdreplace_char (CHR ''*'') ''0'' net) of
        None \<Rightarrow> None
      | Some q \<Rightarrow>
          (case scan_ip (stdreplace_char (CHR ''*'') ''999'' net) of
             None \<Rightarrow> None
           | Some (e, f, g, h) \<Rightarrow>
               Some \<lparr>ip_network = IPToUInt (dotted q),
                 ip_mask = IPToUInt (dotted (mask_octet e, mask_octet f, mask_octet g, mask_octet h)),
                 ip_hostname = []\<rparr>))"

text \<open>
  \<^verbatim>\<open>0x00 - (1 << (32 - keepbits))\<close>, with \<^verbatim>\<open>keepbits\<close> an \<^verbatim>\<open>unsigned char\<close>; a negative shift is
  undefined, its outcome an argument.
\<close>

definition prefix_mask :: "(nat \<Rightarrow> 32 word) \<Rightarrow> int \<Rightarrow> 32 word" where
  "prefix_mask undef n =
     (let keepbits = nat (n mod 256)
      in if keepbits = 0 then 0xFFFFFFFF
         else if keepbits \<le> 32 then 0 - push_bit (32 - keepbits) 1 else undef keepbits)"

text \<open>
  The branch for a prefix length.  A position is compared with 0 where \<^verbatim>\<open>npos\<close> is meant, so this
  branch is taken when there is no slash too: \<^verbatim>\<open>substr(npos + 1)\<close> is then the whole pattern, and
  \<^verbatim>\<open>substr(0, npos)\<close> as well.
\<close>

definition prefix_network :: "(nat \<Rightarrow> 32 word) \<Rightarrow> nat option \<Rightarrow> string \<Rightarrow> IPNetwork" where
  "prefix_network undef pos net =
     (case pos of
        Some p \<Rightarrow> \<lparr>ip_network = IPToUInt (take p net),
                    ip_mask = prefix_mask undef (atoi (drop (p + 1) net)), ip_hostname = []\<rparr>
      | None \<Rightarrow> \<lparr>ip_network = IPToUInt net, ip_mask = prefix_mask undef (atoi net), ip_hostname = []\<rparr>)"

text \<open>
  \<^verbatim>\<open>AddLocalNetworks\<close>, on the list of networks.  The host's name and \<^verbatim>\<open>asio\<close>'s test for an
  address are arguments.
\<close>

definition AddLocalNetworks ::
  "(nat \<Rightarrow> 32 word) \<Rightarrow> string option \<Rightarrow> (string \<Rightarrow> bool) \<Rightarrow> string \<Rightarrow> IPNetwork list \<Rightarrow> IPNetwork list"
where
  "AddLocalNetworks undef host is_address net nets =
     (if net = [] then
        (case host of
           None \<Rightarrow> nets
         | Some h \<Rightarrow> nets @ [\<lparr>ip_network = 0, ip_mask = 0, ip_hostname = map (\<lambda>c. char_of (lowercase c)) h\<rparr>])
      else if str_find ''*'' net 0 \<noteq> Some 0 then
        (case wildcard_network net of None \<Rightarrow> nets | Some n \<Rightarrow> nets @ [n])
      else if str_find ''/'' net 0 \<noteq> Some 0 then
        nets @ [prefix_network undef (str_find ''/'' net 0) net]
      else if is_address net then
        nets @ [\<lparr>ip_network = IPToUInt net, ip_mask = IPToUInt ''255.255.255.255'', ip_hostname = []\<rparr>]
      else nets)"

definition IsIPInRange :: "string \<Rightarrow> IPNetwork \<Rightarrow> bool" where
  "IsIPInRange ip n =
     (if ip_hostname n \<noteq> [] then ip = ip_hostname n
      else
        let addr = IPToUInt ip;
            lower = and (ip_network n) (ip_mask n);
            upper = or lower (not (ip_mask n))
        in addr \<noteq> 0 \<and> lower \<le> addr \<and> addr \<le> upper)"

definition AreWeInLocalNetwork :: "IPNetwork list \<Rightarrow> string \<Rightarrow> bool" where
  "AreWeInLocalNetwork nets host \<longleftrightarrow>
     nets \<noteq> [] \<and> length host \<ge> 3 \<and> list_ex (IsIPInRange host) nets"

section \<open>Ranges of words\<close>

text \<open>A mask of leading ones makes the range test a comparison of the leading bits.\<close>

lemma unat_lower: "unat (and w (not (mask n)) :: 32 word) = unat w div 2 ^ n * 2 ^ n"
proof -
  have e: "and w (not (mask n)) = push_bit n (drop_bit n w)"
    by (rule bit_word_eqI) (auto simp: bit_simps)
  have "push_bit n (drop_bit n (unat w)) < 2 ^ 32"
    using unsigned_less [of w, where ?'a = nat] le_less_trans [OF div_times_less_eq_dividend]
    by (simp add: push_bit_eq_mult drop_bit_eq_div)
  then have "unat (push_bit n (drop_bit n w) :: 32 word) = push_bit n (drop_bit n (unat w))"
    using unsigned_less [of w, where ?'a = nat]
    by (simp add: unsigned_push_bit_eq unsigned_drop_bit_eq take_bit_eq_mod)
  then show ?thesis by (simp only: e) (simp add: push_bit_eq_mult drop_bit_eq_div)
qed

lemma unat_disjoint_or:
  fixes a b :: "32 word"
  assumes "and a b = 0"
  shows "unat (or a b) = unat a + unat b"
proof -
  have "and (unat a) (unat b) = 0" by (metis assms unsigned_0 unsigned_and_eq)
  then show ?thesis by (simp add: unsigned_or_eq disjunctive_add_eq_or)
qed

lemma unat_mask: "n \<le> 32 \<Longrightarrow> unat (mask n :: 32 word) = 2 ^ n - 1"
proof -
  assume "n \<le> 32"
  moreover have "unat (mask n :: 32 word) = take_bit n (unat (- 1 :: 32 word))"
    by (metis take_bit_minus_one_eq_mask unsigned_take_bit_eq)
  ultimately show ?thesis
    by (simp add: unsigned_minus_1_eq_mask min_def del: mask_eq_exp_minus_1) (simp add: mask_eq_exp_minus_1)
qed

lemma unat_upper:
  assumes "n \<le> 32"
  shows "unat (or (and w (not (mask n))) (mask n) :: 32 word) = unat w div 2 ^ n * 2 ^ n + (2 ^ n - 1)"
proof -
  have "and (and w (not (mask n))) (mask n) = (0 :: 32 word)"
    by (rule bit_word_eqI) (auto simp: bit_simps)
  from unat_disjoint_or [OF this] show ?thesis using assms by (simp add: unat_lower unat_mask)
qed

lemma div_range_iff: "(m::nat) div k * k \<le> x \<and> x \<le> m div k * k + (k - 1) \<longleftrightarrow> x div k = m div k" if "k > 0"
proof
  assume a: "m div k * k \<le> x \<and> x \<le> m div k * k + (k - 1)"
  with that have "x < (m div k + 1) * k" unfolding add_mult_distrib by linarith
  with a that show "x div k = m div k" by (metis Suc_eq_plus1 div_nat_eqI mult.commute)
next
  assume "x div k = m div k"
  then show "m div k * k \<le> x \<and> x \<le> m div k * k + (k - 1)"
    using that by (metis Suc_pred' add_le_cancel_left div_mult_mod_eq le_add1 less_Suc_eq_le mod_less_divisor)
qed

lemma in_prefix_range:
  assumes "n \<le> 32" "m = not (mask n)"
  shows "and w m \<le> x \<and> x \<le> or (and w m) (not m) \<longleftrightarrow> unat x div 2 ^ n = unat (w :: 32 word) div 2 ^ n"
  using assms div_range_iff [of "2 ^ n" "unat w" "unat x"]
  by (simp add: word_le_nat_alt unat_lower unat_upper)

lemma octets_word:
  assumes "a < 256" "b < 256" "c < 256" "d < (256 :: nat)"
  shows "unat (or (or (or (push_bit 24 (word_of_nat a)) (push_bit 16 (word_of_nat b)))
     (push_bit 8 (word_of_nat c))) (word_of_nat d) :: 32 word) = ((a * 256 + b) * 256 + c) * 256 + d"
proof -
  have p: "unat (push_bit k (word_of_nat x) :: 32 word) = x * 2 ^ k" if "x < 256" "k \<le> 24" for x k :: nat
  proof -
    have "(2 :: nat) ^ k \<le> 2 ^ 24" using that by (intro power_increasing) auto
    with that have "x * 2 ^ k < 256 * 2 ^ 24" by (intro mult_less_le_imp_less) auto
    moreover have "unat (word_of_nat x :: 32 word) = x"
      using that by (simp add: unsigned_of_nat take_bit_nat_eq_self_iff)
    ultimately show ?thesis
      by (subst unsigned_push_bit_eq) (simp add: push_bit_eq_mult take_bit_nat_eq_self_iff)
  qed
  have w: "unat (word_of_nat d :: 32 word) = d"
    using assms by (simp add: unsigned_of_nat take_bit_nat_eq_self_iff)
  have o: "or (x * 2 ^ k) y = x * 2 ^ k + y" if "y < 2 ^ k" for k x y :: nat
  proof -
    have "take_bit k y = y" using that by (simp add: take_bit_nat_eq_self_iff)
    then have "and (push_bit k x) y = 0"
      by (metis (no_types) bit_eqI bit_and_iff bit_push_bit_iff bit_take_bit_iff bit_0_eq bot_apply bot_bool_def leD)
    then show ?thesis by (simp add: disjunctive_add_eq_or push_bit_eq_mult)
  qed
  show ?thesis
    using assms o [of "b * 2 ^ 16" 24 a] o [of "c * 2 ^ 8" 16 "a * 256 + b"] o [of d 8 "(a * 256 + b) * 256 + c"]
    by (simp add: unsigned_or_eq p w) (simp add: algebra_simps)
qed

section \<open>Addresses as text\<close>

definition ip_text :: "nat \<times> nat \<times> nat \<times> nat \<Rightarrow> string" where
  "ip_text q = (case q of (a, b, c, d) \<Rightarrow>
     nat_to_string a @ ''.'' @ nat_to_string b @ ''.'' @ nat_to_string c @ ''.'' @ nat_to_string d)"

definition is_octets :: "nat \<times> nat \<times> nat \<times> nat \<Rightarrow> bool" where
  "is_octets q \<longleftrightarrow> (case q of (a, b, c, d) \<Rightarrow> a < 256 \<and> b < 256 \<and> c < 256 \<and> d < 256)"

definition octets_num :: "nat \<times> nat \<times> nat \<times> nat \<Rightarrow> nat" where
  "octets_num q = (case q of (a, b, c, d) \<Rightarrow> ((a * 256 + b) * 256 + c) * 256 + d)"

lemma scan_int_nat:
  assumes "n < 2 ^ 31" "\<And>c cs. t = c # cs \<Longrightarrow> \<not> is_digit_char c"
  shows "scan_int (nat_to_string n @ t) = Some (int n, t)"
proof -
  obtain c cs where cs: "nat_to_string n = c # cs" by (cases "nat_to_string n") auto
  then have d: "is_digit_char c" using nat_to_string_digits [of n] by simp
  have "digits_acc 0 (nat_to_string n @ t) = (n, t)"
    using assms(2) by (cases t) (auto simp: digits_acc_append digits_acc_nat_to_string)
  with cs d digit_not_sign [OF d] assms(1) show ?thesis
    by (simp add: scan_int_def scan_digits_def clamp64_small wrap32_small)
qed

lemma scan_int_dot:
  "n < 2 ^ 31 \<Longrightarrow> scan_int (nat_to_string n @ CHR ''.'' # t) = Some (int n, CHR ''.'' # t)"
  by (rule scan_int_nat) (auto simp: is_digit_char_def)

lemma scan_ip_text:
  assumes "a < 2 ^ 31" "b < 2 ^ 31" "c < 2 ^ 31" "d < 2 ^ 31"
    and "\<And>x xs. t = x # xs \<Longrightarrow> \<not> is_digit_char x"
  shows "scan_ip (nat_to_string a @ ''.'' @ nat_to_string b @ ''.'' @ nat_to_string c @ ''.'' @ nat_to_string d @ t)
     = Some (int a, int b, int c, int d)"
  using assms(1-4) scan_int_nat [OF assms(4,5)]
  by (simp add: scan_ip_def scan_int_dot scan_dot_def)

lemma IPToUInt_text:
  assumes "is_octets q"
  shows "unat (IPToUInt (ip_text q)) = octets_num q"
proof -
  obtain a b c d where q: "q = (a, b, c, d)" by (cases q)
  have "scan_ip (ip_text q) = Some (int a, int b, int c, int d)"
    using assms scan_ip_text [of a b c d "[]"] by (simp add: q is_octets_def ip_text_def)
  then show ?thesis
    using assms octets_word [of a b c d] by (simp add: q is_octets_def octets_num_def IPToUInt_def)
qed


section \<open>What a pattern accepts\<close>

text \<open>The pattern whose first \<open>k\<close> octets are given, the others wildcards.\<close>

definition octet_pattern :: "nat \<Rightarrow> nat \<Rightarrow> nat \<Rightarrow> string" where
  "octet_pattern k i n = (if i < k then nat_to_string n else ''*'')"

definition net_pattern :: "nat \<Rightarrow> nat \<times> nat \<times> nat \<times> nat \<Rightarrow> string" where
  "net_pattern k q = (case q of (a, b, c, d) \<Rightarrow>
     octet_pattern k 0 a @ ''.'' @ octet_pattern k 1 b @ ''.'' @ octet_pattern k 2 c @ ''.'' @
     octet_pattern k 3 d)"

definition octet_list :: "nat \<times> nat \<times> nat \<times> nat \<Rightarrow> nat list" where
  "octet_list q = (case q of (a, b, c, d) \<Rightarrow> [a, b, c, d])"

definition fill :: "nat \<Rightarrow> nat \<Rightarrow> nat \<times> nat \<times> nat \<times> nat \<Rightarrow> nat \<times> nat \<times> nat \<times> nat" where
  "fill k v q = (case q of (a, b, c, d) \<Rightarrow>
     (if 0 < k then a else v, if 1 < k then b else v, if 2 < k then c else v, if 3 < k then d else v))"

lemma stdreplace_char_append [simp]:
  "stdreplace_char x y (s @ t) = stdreplace_char x y s @ stdreplace_char x y t"
  by (simp add: stdreplace_char_def)

lemma stdreplace_char_absent: "x \<notin> set s \<Longrightarrow> stdreplace_char x y s = s"
  by (induction s) (auto simp: stdreplace_char_def)

lemma stdreplace_octet:
  "stdreplace_char (CHR ''*'') y (octet_pattern k i n) = (if i < k then nat_to_string n else y)"
proof -
  have "CHR ''*'' \<notin> set (nat_to_string n)"
    using nat_to_string_digits [of n] by (auto simp: list_all_iff is_digit_char_def)
  then show ?thesis
    by (simp add: octet_pattern_def stdreplace_char_absent) (simp add: stdreplace_char_def)
qed

lemma stdreplace_pattern:
  "stdreplace_char (CHR ''*'') (nat_to_string v) (net_pattern k q) = ip_text (fill k v q)"
proof -
  have "stdreplace_char (CHR ''*'') (nat_to_string v) (CHR ''.'' # s) =
      CHR ''.'' # stdreplace_char (CHR ''*'') (nat_to_string v) s" for s
    by (simp add: stdreplace_char_def)
  then show ?thesis
    by (cases q) (simp add: net_pattern_def ip_text_def fill_def stdreplace_octet)
qed

definition int_quad :: "nat \<times> nat \<times> nat \<times> nat \<Rightarrow> int \<times> int \<times> int \<times> int" where
  "int_quad q = (case q of (a, b, c, d) \<Rightarrow> (int a, int b, int c, int d))"

lemma dotted_int_quad: "dotted (int_quad q) = ip_text q"
  by (cases q) (simp add: dotted_def int_quad_def ip_text_def int_to_string_def)

lemma scan_fill: "is_octets q \<Longrightarrow> v < 2 ^ 31 \<Longrightarrow> scan_ip (ip_text (fill k v q)) = Some (int_quad (fill k v q))"
  using scan_ip_text [where t = "[]"]
  by (cases q) (simp add: is_octets_def ip_text_def fill_def int_quad_def)

lemma wildcard_pattern:
  assumes "is_octets q"
  shows "wildcard_network (net_pattern k q) =
    Some \<lparr>ip_network = IPToUInt (ip_text (fill k 0 q)),
      ip_mask = IPToUInt (ip_text (fill k 0 (255, 255, 255, 255))), ip_hostname = []\<rparr>"
proof -
  have t: "''0'' = nat_to_string 0" "''999'' = nat_to_string 999" by code_simp+
  obtain a b c d where q: "q = (a, b, c, d)" by (cases q)
  obtain e f g h where m: "int_quad (fill k 999 q) = (e, f, g, h)" by (cases "int_quad (fill k 999 q)")
  then have "(mask_octet e, mask_octet f, mask_octet g, mask_octet h) =
      int_quad (fill k 0 (255, 255, 255, 255))"
    using assms by (auto simp: q is_octets_def fill_def int_quad_def mask_octet_def)
  with m assms show ?thesis
    by (simp add: wildcard_network_def t stdreplace_pattern scan_fill dotted_int_quad)
qed

lemma pattern_mask:
  assumes "k \<le> 4"
  shows "IPToUInt (ip_text (fill k 0 (255, 255, 255, 255))) = not (mask (8 * (4 - k)))"
proof -
  have k: "k = 0 \<or> k = 1 \<or> k = 2 \<or> k = 3 \<or> k = 4" using assms by auto
  have "is_octets (fill k 0 (255, 255, 255, 255))" by (simp add: is_octets_def fill_def)
  then have "unat (IPToUInt (ip_text (fill k 0 (255, 255, 255, 255)))) =
      octets_num (fill k 0 (255, 255, 255, 255))"
    by (rule IPToUInt_text)
  also have "\<dots> = unat (not (mask (8 * (4 - k))) :: 32 word)"
    using k by (elim disjE) (simp_all add: octets_num_def fill_def mask_eq_exp_minus_1 unsigned_minus_1_eq_mask)
  finally show ?thesis by (rule unsigned_word_eqI)
qed

lemma octets_prefix:
  assumes "is_octets p" "is_octets q" "1 \<le> k" "k \<le> 4"
  shows "octets_num p div 2 ^ (8 * (4 - k)) = octets_num (fill k 0 q) div 2 ^ (8 * (4 - k)) \<longleftrightarrow>
    take k (octet_list q) = take k (octet_list p)"
proof -
  have k: "k = 1 \<or> k = 2 \<or> k = 3 \<or> k = 4" using assms by auto
  obtain a b c d where q: "q = (a, b, c, d)" by (cases q)
  obtain e f g h where p: "p = (e, f, g, h)" by (cases p)
  define j :: "nat \<Rightarrow> nat \<Rightarrow> nat" where "j x u = x * 256 + u" for x u
  have jd: "j x u div 256 = x" "j x u mod 256 = u" if "u < 256" for x u
    using that by (simp_all add: j_def)
  have eq: "j x u = j y v \<longleftrightarrow> x = y \<and> u = v" if "u < 256" "v < 256" for x y u v
    using that jd by metis
  have dv: "j x u div 2 ^ (8 + n) = x div 2 ^ n" if "u < 256" for x u n
  proof -
    have "j x u div 2 ^ (8 + n) = j x u div 256 div 2 ^ n"
      unfolding power_add div_mult2_eq by simp
    with jd(1) [OF that] show ?thesis by simp
  qed
  have num: "octets_num (x, y, z, u) = j (j (j x y) z) u" for x y z u
    by (simp add: octets_num_def j_def)
  show ?thesis
    using k assms(1,2) dv [of _ _ 0] dv [of _ _ 8] dv [of _ _ 16]
    by (elim disjE) (auto simp: num is_octets_def p q fill_def octet_list_def eq)
qed

text \<open>A pattern such as \<^verbatim>\<open>192.168.*.*\<close> makes exactly the clients local whose address has the
  given leading octets: from the text of the pattern and the text of the address to the decision.\<close>

theorem local_pattern_exact:
  assumes "is_octets q" "is_octets p" "p \<noteq> (0, 0, 0, 0)" "1 \<le> k" "k \<le> 4"
  shows "AreWeInLocalNetwork (AddLocalNetworks undef host is_address (net_pattern k q) []) (ip_text p)
    \<longleftrightarrow> take k (octet_list q) = take k (octet_list p)"
proof -
  obtain a b c d where q: "q = (a, b, c, d)" by (cases q)
  obtain x xs where x: "nat_to_string a = x # xs" by (cases "nat_to_string a") auto
  then have "x \<noteq> CHR ''*''" using nat_to_string_digits [of a] by (auto simp: is_digit_char_def)
  with x have f: "net_pattern k q \<noteq> []" "str_find ''*'' (net_pattern k q) 0 \<noteq> Some 0"
    using assms(4) str_find_occurs [of "''*''" "net_pattern k q" 0 0]
    by (auto simp: q net_pattern_def octet_pattern_def)
  have p: "unat (IPToUInt (ip_text p)) = octets_num p" using assms(2) by (rule IPToUInt_text)
  have n: "unat (IPToUInt (ip_text (fill k 0 q))) = octets_num (fill k 0 q)"
    using assms(1) by (intro IPToUInt_text) (auto simp: q is_octets_def fill_def)
  have "octets_num p \<noteq> 0" using assms(3) by (cases p) (auto simp: octets_num_def)
  then have z: "IPToUInt (ip_text p) \<noteq> 0" using p by auto
  have l: "length (ip_text p) \<ge> 3" by (cases p) (simp add: ip_text_def)
  have "8 * (4 - k) \<le> 32" by simp
  from in_prefix_range [OF this refl] z l f show ?thesis
    using octets_prefix [OF assms(2,1,4,5)]
    by (simp add: AreWeInLocalNetwork_def AddLocalNetworks_def IsIPInRange_def wildcard_pattern
        assms pattern_mask p n)
qed

theorem local_pattern_exact_witness:
  "AreWeInLocalNetwork (AddLocalNetworks (\<lambda>n. 0) None (\<lambda>s. False) (net_pattern 2 (192, 168, 0, 0)) [])
     (ip_text (192, 168, 7, 9)) \<and>
   \<not> AreWeInLocalNetwork (AddLocalNetworks (\<lambda>n. 0) None (\<lambda>s. False) (net_pattern 2 (192, 168, 0, 0)) [])
     (ip_text (192, 169, 7, 9))"
  by (simp add: local_pattern_exact is_octets_def octet_list_def)

lemma ip_text_start: "\<exists>x xs. ip_text q = x # xs \<and> is_digit_char x"
proof -
  obtain a b c d where q: "q = (a, b, c, d)" by (cases q)
  obtain x xs where x: "nat_to_string a = x # xs" by (cases "nat_to_string a") auto
  then have "is_digit_char x" using nat_to_string_digits [of a] by simp
  with x show ?thesis by (simp add: q ip_text_def)
qed

lemma ip_text_no_star: "CHR ''*'' \<notin> set (ip_text q)"
proof -
  have "CHR ''*'' \<notin> set (nat_to_string n)" for n
    using nat_to_string_digits [of n] by (auto simp: list_all_iff is_digit_char_def)
  then show ?thesis by (cases q) (simp add: ip_text_def)
qed

text \<open>A network written with a prefix length, such as \<^verbatim>\<open>192.168.0.0/16\<close>, is taken for a single
  address: whatever the length, only the client with the written address itself is local.\<close>

theorem prefix_length_ignored:
  assumes "is_octets q" "is_octets p" "p \<noteq> (0, 0, 0, 0)"
  shows "AreWeInLocalNetwork (AddLocalNetworks undef host is_address (ip_text q @ ''/'' @ nat_to_string n) [])
      (ip_text p) \<longleftrightarrow> q = p"
proof -
  let ?t = "''/'' @ nat_to_string n"
  obtain a b c d where q: "q = (a, b, c, d)" by (cases q)
  have s: "scan_ip (ip_text q @ ?t) = Some (int_quad q)"
    using assms(1) scan_ip_text [of a b c d ?t]
    by (simp add: q is_octets_def ip_text_def int_quad_def is_digit_char_def)
  have "CHR ''*'' \<notin> set (ip_text q @ ?t)"
    using nat_to_string_digits [of n] ip_text_no_star [of q] by (auto simp: list_all_iff is_digit_char_def)
  then have r: "stdreplace_char (CHR ''*'') y (ip_text q @ ?t) = ip_text q @ ?t" for y
    by (rule stdreplace_char_absent)
  have "mask_octet (int a) = 255" "mask_octet (int b) = 255" "mask_octet (int c) = 255" "mask_octet (int d) = 255"
    using assms(1) by (auto simp: q is_octets_def mask_octet_def)
  then have "wildcard_network (ip_text q @ ?t) = Some \<lparr>ip_network = IPToUInt (ip_text q),
      ip_mask = IPToUInt (dotted (255, 255, 255, 255)), ip_hostname = []\<rparr>"
    using s r dotted_int_quad [of q] by (simp add: wildcard_network_def q int_quad_def)
  moreover have "IPToUInt (dotted (255, 255, 255, 255)) = not (mask (8 * (4 - 4)))"
    using pattern_mask [of 4] dotted_int_quad [of "(255, 255, 255, 255)"]
    by (simp add: fill_def int_quad_def)
  moreover have "str_find ''*'' (ip_text q @ ?t) 0 \<noteq> Some 0" "ip_text q @ ?t \<noteq> []"
    using ip_text_start [of q] str_find_occurs [of "''*''" "ip_text q @ ?t" 0 0]
    by (auto simp: is_digit_char_def)
  moreover have "length (ip_text p) \<ge> 3" by (cases p) (simp add: ip_text_def)
  moreover have p: "unat (IPToUInt (ip_text p)) = octets_num p" using assms(2) by (rule IPToUInt_text)
  moreover have "octets_num p \<noteq> 0" using assms(3) by (cases p) (auto simp: octets_num_def)
  then have "IPToUInt (ip_text p) \<noteq> 0" using p by auto
  moreover have "fill 4 0 q = q" "take 4 (octet_list q) = take 4 (octet_list p) \<longleftrightarrow> q = p"
    by (simp add: q fill_def, cases p, simp add: q octet_list_def)
  ultimately show ?thesis
    using in_prefix_range [of 0 _ "IPToUInt (ip_text q)" "IPToUInt (ip_text p)"] octets_prefix [OF assms(2,1), of 4]
    by (auto simp: AreWeInLocalNetwork_def AddLocalNetworks_def IsIPInRange_def IPToUInt_text assms)
qed

theorem prefix_length_ignored_witness:
  "\<not> AreWeInLocalNetwork
     (AddLocalNetworks (\<lambda>n. 0) None (\<lambda>s. False) (ip_text (192, 168, 0, 0) @ ''/'' @ nat_to_string 16) [])
     (ip_text (192, 168, 7, 9))"
  by (subst prefix_length_ignored) (simp_all add: is_octets_def)

text \<open>A wildcard before a given octet makes the range too wide: the test is one of bounds.\<close>

lemma inner_wildcard_too_wide:
  "AreWeInLocalNetwork (AddLocalNetworks (\<lambda>n. 0) None (\<lambda>s. False) ''10.*.3.*'' []) ''10.5.77.1''"
  by code_simp


end
