(* ===== verification/WebSession.thy ===== *)
theory WebSession
  imports LocalNetwork Reply DataAccess Base64 "HOL-Library.AList"
begin

text \<open>
  Users and sessions of \<^verbatim>\<open>web/webserver/cWebem.cpp\<close>, the interface \<^verbatim>\<open>session_store\<close>
  (\<^verbatim>\<open>web/webserver/session_store.hpp\<close>) and its implementation in \<^verbatim>\<open>web/WebServer.cpp\<close>.
\<close>

section \<open>Times\<close>

text \<open>\<^verbatim>\<open>gmtime_r\<close>: the proleptic Gregorian calendar; a year that is no \<^verbatim>\<open>int\<close> is an error.\<close>

record tm =
  tm_sec :: int
  tm_min :: int
  tm_hour :: int
  tm_mday :: int
  tm_mon :: int
  tm_year :: int
  tm_wday :: int

definition gmtime_r :: "int \<Rightarrow> tm option" where
  "gmtime_r t =
     (let days = t div 86400; secs = t mod 86400;
          z = days + 719468; era = z div 146097; doe = z mod 146097;
          yoe = (doe - doe div 1460 + doe div 36524 - doe div 146096) div 365;
          doy = doe - (365 * yoe + yoe div 4 - yoe div 100);
          mp = (5 * doy + 2) div 153;
          month = (if mp < 10 then mp + 3 else mp - 9);
          year = yoe + era * 400 + (if month \<le> 2 then 1 else 0) - 1900
      in if year < - (2 ^ 31) \<or> year \<ge> 2 ^ 31 then None
         else Some \<lparr>tm_sec = secs mod 60, tm_min = secs div 60 mod 60, tm_hour = secs div 3600,
           tm_mday = doy - (153 * mp + 2) div 5 + 1, tm_mon = month - 1, tm_year = year,
           tm_wday = (days + 4) mod 7\<rparr>)"

definition months :: "string list" where
  "months = [''Jan'', ''Feb'', ''Mar'', ''Apr'', ''May'', ''Jun'', ''Jul'', ''Aug'', ''Sep'',
     ''Oct'', ''Nov'', ''Dec'']"

definition wkdays :: "string list" where
  "wkdays = [''Sun'', ''Mon'', ''Tue'', ''Wed'', ''Thu'', ''Fri'', ''Sat'']"

text \<open>\<^verbatim>\<open>%0nd\<close>: zeros come after a sign, which counts.\<close>

definition pad_zero :: "nat \<Rightarrow> int \<Rightarrow> string" where
  "pad_zero n i =
     (let s = nat_to_string (nat (abs i)); sign = (if i < 0 then ''-'' else [])
      in sign @ replicate (n - length sign - length s) (CHR ''0'') @ s)"

definition make_web_time :: "int \<Rightarrow> string" where
  "make_web_time rawtime =
     (case gmtime_r rawtime of
        None \<Rightarrow> ''Thu, 1 Jan 1970 00:00:00 GMT''
      | Some g \<Rightarrow>
          wkdays ! nat (tm_wday g) @ '', '' @ pad_zero 2 (tm_mday g) @ '' '' @
          months ! nat (tm_mon g) @ '' '' @ pad_zero 4 (tm_year g + 1900) @ '' '' @
          pad_zero 2 (tm_hour g) @ '':'' @ pad_zero 2 (tm_min g) @ '':'' @ pad_zero 2 (tm_sec g) @
          '' GMT'')"

lemma make_web_time_examples:
  "make_web_time 0 = ''Thu, 01 Jan 1970 00:00:00 GMT''"
  "make_web_time 784111777 = ''Sun, 06 Nov 1994 08:49:37 GMT''"
  by code_simp+

section \<open>Sessions and users\<close>

datatype auth_method = AUTH_LOGIN | AUTH_BASIC

record web_user =
  Username :: string
  Password :: string
  userrights :: int

record WebEmSession =
  se_id :: string
  remote_host :: string
  auth_token :: string
  se_username :: string
  reply_status :: status_type
  timeout :: int
  expires :: int
  rights :: int
  rememberme :: bool
  isnew :: bool
  forcelogin :: bool

record stored_session =
  ss_id :: string
  ss_remote_host :: string
  ss_auth_token :: string
  ss_username :: string
  ss_expires :: int

text \<open>The virtual methods of a session store, on a database of type \<open>'d\<close>.\<close>

record 'd session_store =
  store_GetSession :: "'d \<Rightarrow> string \<Rightarrow> stored_session"
  store_StoreSession :: "stored_session \<Rightarrow> 'd \<Rightarrow> 'd"
  store_RemoveSession :: "string \<Rightarrow> 'd \<Rightarrow> 'd"
  store_CleanSessions :: "'d \<Rightarrow> 'd"

text \<open>
  The state of a \<^verbatim>\<open>cWebem\<close> that handling a request reads and changes.  The map of sessions is an
  association list, \<open>web_db\<close> the database behind the session store, and \<open>m_failcounter\<close> the
  global counter.
\<close>

record 'd webem =
  m_userpasswords :: "web_user list"
  m_localnetworks :: "IPNetwork list"
  myRemoteProxyIPs :: "string list"
  m_authmethod :: auth_method
  m_DigistRealm :: string
  myWhitelistURLs :: "string list"
  m_sessions :: "(string \<times> WebEmSession) list"
  mySessionStore :: "'d session_store option"
  web_db :: 'd
  m_failcounter :: int

definition AddUserPassword :: "string \<Rightarrow> string \<Rightarrow> int \<Rightarrow> 'd webem \<Rightarrow> 'd webem" where
  "AddUserPassword u p r w =
     w\<lparr>m_userpasswords := m_userpasswords w @ [\<lparr>Username = u, Password = p, userrights = r\<rparr>]\<rparr>"

definition ClearUserPasswords :: "'d webem \<Rightarrow> 'd webem" where
  "ClearUserPasswords w = w\<lparr>m_userpasswords := [], m_sessions := []\<rparr>"

definition SetAuthenticationMethod :: "auth_method \<Rightarrow> 'd webem \<Rightarrow> 'd webem" where
  "SetAuthenticationMethod a w = w\<lparr>m_authmethod := a\<rparr>"

definition RegisterWhitelistURLString :: "string \<Rightarrow> 'd webem \<Rightarrow> 'd webem" where
  "RegisterWhitelistURLString u w = w\<lparr>myWhitelistURLs := myWhitelistURLs w @ [u]\<rparr>"

definition ClearLocalNetworks :: "'d webem \<Rightarrow> 'd webem" where
  "ClearLocalNetworks w = w\<lparr>m_localnetworks := []\<rparr>"

definition AddRemoteProxyIPs :: "string \<Rightarrow> 'd webem \<Rightarrow> 'd webem" where
  "AddRemoteProxyIPs ip w = w\<lparr>myRemoteProxyIPs := myRemoteProxyIPs w @ [ip]\<rparr>"

definition ClearRemoteProxyIPs :: "'d webem \<Rightarrow> 'd webem" where
  "ClearRemoteProxyIPs w = w\<lparr>myRemoteProxyIPs := []\<rparr>"

definition SetDigistRealm :: "string \<Rightarrow> 'd webem \<Rightarrow> 'd webem" where
  "SetDigistRealm r w = w\<lparr>m_DigistRealm := r\<rparr>"

definition SetSessionStore :: "'d session_store option \<Rightarrow> 'd webem \<Rightarrow> 'd webem" where
  "SetSessionStore st w = w\<lparr>mySessionStore := st\<rparr>"

definition GetSession :: "'d webem \<Rightarrow> string \<Rightarrow> WebEmSession option" where
  "GetSession w ssid = map_of (m_sessions w) ssid"

definition AddSession :: "WebEmSession \<Rightarrow> 'd webem \<Rightarrow> 'd webem" where
  "AddSession s w = w\<lparr>m_sessions := AList.update (se_id s) s (m_sessions w)\<rparr>"

definition RemoveSession :: "string \<Rightarrow> 'd webem \<Rightarrow> 'd webem" where
  "RemoveSession ssid w = w\<lparr>m_sessions := AList.delete ssid (m_sessions w)\<rparr>"

definition CountSessions :: "'d webem \<Rightarrow> nat" where
  "CountSessions w = length (m_sessions w)"

text \<open>The session is removed by its own id, which is its key.\<close>

definition CleanSessions :: "int \<Rightarrow> 'd webem \<Rightarrow> 'd webem" where
  "CleanSessions now w =
     (let ssids = map (\<lambda>(k, s). se_id s) (filter (\<lambda>(k, s). timeout s < now) (m_sessions w));
          w1 = foldl (\<lambda>v ssid. RemoveSession ssid v) w ssids
      in case mySessionStore w1 of
           None \<Rightarrow> w1
         | Some st \<Rightarrow> w1\<lparr>web_db := store_CleanSessions st (web_db w1)\<rparr>)"

section \<open>The session store of the server\<close>

text \<open>
  \<^verbatim>\<open>CWebServer\<close> keeps sessions in a table.  Its \<^verbatim>\<open>SELECT\<close> names five columns of which it reads the
  third as the token and the fourth as the expiry; \<open>expiry\<close> stands for \<^verbatim>\<open>ParseSQLdatetime\<close> in the
  local time zone, \<open>junk\<close> for the members of a session that are not initialised.  The
  \<^verbatim>\<open>INSERT\<close> passes a string object and one argument too few to a variadic function, which is
  undefined: its outcome is the argument \<open>undef_insert\<close>.
\<close>

definition select_session_sql :: "string \<Rightarrow> string" where
  "select_session_sql sid =
     ''SELECT SessionID, UserID, RoleID, AuthToken, Expiry FROM Session WHERE SessionID = '' @
     [CHR 0x27] @ quote_q sid @ [CHR 0x27]"

definition server_GetSession ::
  "('d \<Rightarrow> string \<Rightarrow> result_rows) \<Rightarrow> (string \<Rightarrow> int) \<Rightarrow> int \<Rightarrow> 'd \<Rightarrow> string \<Rightarrow> stored_session" where
  "server_GetSession query expiry junk db sid =
     (let none = \<lparr>ss_id = [], ss_remote_host = [], ss_auth_token = [], ss_username = [],
                   ss_expires = junk\<rparr>
      in if sid = [] then none
         else case query db (select_session_sql sid) of
           [] \<Rightarrow> none
         | row # _ \<Rightarrow>
             none\<lparr>ss_id := row ! 0, ss_username := map (\<lambda>b. char_of (unat b)) (base64_decode (row ! 1)),
                  ss_auth_token := row ! 2, ss_expires := expiry (row ! 3)\<rparr>)"

definition update_session_sql :: "stored_session \<Rightarrow> string \<Rightarrow> string" where
  "update_session_sql s exp =
     ''UPDATE Session set AuthToken = '' @ [CHR 0x27] @ quote_q (ss_auth_token s) @ [CHR 0x27] @
     '', Expiry = '' @ [CHR 0x27] @ quote_q exp @ [CHR 0x27] @ '') WHERE SessionID = '' @
     [CHR 0x27] @ quote_q (ss_id s) @ [CHR 0x27]"

definition server_StoreSession where
  "server_StoreSession query exec expiry local_time junk undef_insert s db =
     (if ss_id s = [] then db
      else if ss_id (server_GetSession query expiry junk db (ss_id s)) = [] then undef_insert s db
      else exec db (update_session_sql s (local_time (ss_expires s))))"

definition server_RemoveSession :: "('d \<Rightarrow> string \<Rightarrow> 'd) \<Rightarrow> string \<Rightarrow> 'd \<Rightarrow> 'd" where
  "server_RemoveSession exec sid db =
     (if sid = [] then db
      else exec db (''DELETE FROM Session WHERE SessionID = '' @ [CHR 0x27] @ quote_q sid @ [CHR 0x27]))"

definition server_CleanSessions :: "('d \<Rightarrow> string \<Rightarrow> 'd) \<Rightarrow> 'd \<Rightarrow> 'd" where
  "server_CleanSessions exec db =
     exec db (''DELETE FROM Session WHERE Expiry < datetime('' @ [CHR 0x27] @ ''now'' @ [CHR 0x27] @
       '', '' @ [CHR 0x27] @ ''localtime'' @ [CHR 0x27] @ '')'')"

definition server_RemoveUsersSessions ::
  "('d \<Rightarrow> string \<Rightarrow> 'd) \<Rightarrow> string \<Rightarrow> WebEmSession \<Rightarrow> 'd \<Rightarrow> 'd" where
  "server_RemoveUsersSessions exec username except db =
     exec db (''DELETE FROM Session US, User U WHERE (U.Username =='' @
       [CHR 0x27] @ quote_q username @ [CHR 0x27] @
       '') AND (U.UserID = US.UserID) AND (SessionID!='' @ [CHR 0x27] @ quote_q (se_id except) @
       [CHR 0x27] @ '')'')"

definition CWebServer_store where
  "CWebServer_store query exec expiry local_time junk undef_insert =
     \<lparr>store_GetSession = server_GetSession query expiry junk,
      store_StoreSession = server_StoreSession query exec expiry local_time junk undef_insert,
      store_RemoveSession = server_RemoveSession exec,
      store_CleanSessions = server_CleanSessions exec\<rparr>"

section \<open>Hashes\<close>

text \<open>
  \<^verbatim>\<open>GenerateMD5Hash\<close> of \<^verbatim>\<open>main/Helper.cpp\<close> without salt, on OpenSSL's digest.
\<close>

definition hex_text :: "byte \<Rightarrow> string" where
  "hex_text b = [''0123456789abcdef'' ! (unat b div 16), ''0123456789abcdef'' ! (unat b mod 16)]"

definition GenerateMD5Hash :: "(string \<Rightarrow> bytes) \<Rightarrow> string \<Rightarrow> string" where
  "GenerateMD5Hash digest s = concat (map hex_text (take 16 (digest s)))"

lemma hex_digit_alnum: "i < 16 \<Longrightarrow> is_alnum (''0123456789abcdef'' ! i)"
proof -
  have "list_all (\<lambda>i. is_alnum (''0123456789abcdef'' ! i)) [0..<16]" by code_simp
  then show "i < 16 \<Longrightarrow> ?thesis" by (simp add: list_all_iff)
qed

lemma hex_text_alnum: "c \<in> set (hex_text b) \<Longrightarrow> is_alnum c"
proof -
  have "unat b < 256" using unsigned_less [of b, where ?'a = nat] by simp
  then show "c \<in> set (hex_text b) \<Longrightarrow> is_alnum c" by (auto simp: hex_text_def hex_digit_alnum)
qed

lemma md5_alnum: "c \<in> set (GenerateMD5Hash digest s) \<Longrightarrow> is_alnum c"
  using hex_text_alnum by (auto simp: GenerateMD5Hash_def)

lemma md5_length: "length (digest s) = 16 \<Longrightarrow> length (GenerateMD5Hash digest s) = 32"
proof -
  have "length (concat (map hex_text bs)) = 2 * length bs" for bs
    by (induction bs) (auto simp: hex_text_def)
  then show "length (digest s) = 16 \<Longrightarrow> ?thesis" by (simp add: GenerateMD5Hash_def)
qed

section \<open>The map of sessions\<close>

text \<open>Every session is stored once and under its own id.\<close>

definition sessions_keyed :: "'d webem \<Rightarrow> bool" where
  "sessions_keyed w \<longleftrightarrow> distinct (map fst (m_sessions w)) \<and> list_all (\<lambda>(k, s). se_id s = k) (m_sessions w)"

lemma sessions_keyed_Get: "sessions_keyed w \<Longrightarrow> GetSession w k = Some s \<Longrightarrow> se_id s = k"
  by (auto simp: sessions_keyed_def GetSession_def list_all_iff dest: map_of_SomeD)

lemma update_entries: "(k, v) \<in> set (AList.update k' v' m) \<Longrightarrow> (k, v) = (k', v') \<or> (k, v) \<in> set m"
  by (induction m) (auto split: if_splits)

lemma sessions_keyed_Add [intro]: "sessions_keyed w \<Longrightarrow> sessions_keyed (AddSession s w)"
  by (auto simp: sessions_keyed_def AddSession_def AList.distinct_update list_all_iff dest!: update_entries)

lemma sessions_keyed_Remove [intro]: "sessions_keyed w \<Longrightarrow> sessions_keyed (RemoveSession k w)"
  by (auto simp: sessions_keyed_def RemoveSession_def list_all_iff AList.delete_eq intro: distinct_map_filter)

lemma GetSession_Add [simp]:
  "GetSession (AddSession s w) k = (if k = se_id s then Some s else GetSession w k)"
  by (simp add: GetSession_def AddSession_def AList.update_conv')

lemma GetSession_Remove [simp]:
  "GetSession (RemoveSession k' w) k = (if k = k' then None else GetSession w k)"
  by (simp add: GetSession_def RemoveSession_def AList.delete_conv')

lemma sessions_keyed_Clean [intro]: "sessions_keyed w \<Longrightarrow> sessions_keyed (CleanSessions now w)"
proof -
  have "sessions_keyed w \<Longrightarrow> sessions_keyed (foldl (\<lambda>v ssid. RemoveSession ssid v) w ids)" for ids
    by (induction ids arbitrary: w) auto
  moreover have "sessions_keyed (v\<lparr>web_db := db\<rparr>) = sessions_keyed v" for v and db :: 'a
    by (simp add: sessions_keyed_def)
  ultimately show "sessions_keyed w \<Longrightarrow> ?thesis"
    by (simp add: CleanSessions_def Let_def split: option.split)
qed

section \<open>Example data\<close>

definition example_user :: web_user where
  "example_user = \<lparr>Username = ''u'', Password = replicate 32 (CHR ''0''), userrights = 1\<rparr>"

definition example_digest :: "string \<Rightarrow> bytes" where
  "example_digest s = replicate 16 0"

definition table_store :: "(string \<Rightarrow> stored_session) session_store" where
  "table_store = \<lparr>store_GetSession = (\<lambda>db sid. db sid), store_StoreSession = (\<lambda>x db. db(ss_id x := x)),
     store_RemoveSession = (\<lambda>sid db. db(sid := (db sid)\<lparr>ss_id := []\<rparr>)), store_CleanSessions = (\<lambda>db. db)\<rparr>"

definition example_webem :: "'d session_store \<Rightarrow> 'd \<Rightarrow> 'd webem" where
  "example_webem st db = \<lparr>m_userpasswords = [example_user], m_localnetworks = [], myRemoteProxyIPs = [],
     m_authmethod = AUTH_LOGIN, m_DigistRealm = ''Domoticz.com'', myWhitelistURLs = [], m_sessions = [],
     mySessionStore = Some st, web_db = db, m_failcounter = 0\<rparr>"

definition no_session :: WebEmSession where
  "no_session = \<lparr>se_id = [], remote_host = ''10.0.0.9'', auth_token = [], se_username = [],
     reply_status = st_ok, timeout = 0, expires = 0, rights = 0, rememberme = False, isnew = False,
     forcelogin = False\<rparr>"

definition no_stored :: stored_session where
  "no_stored = \<lparr>ss_id = [], ss_remote_host = [], ss_auth_token = [], ss_username = [], ss_expires = 0\<rparr>"

lemma example_md5: "GenerateMD5Hash example_digest = (\<lambda>s. replicate 32 (CHR ''0''))"
  by (simp add: GenerateMD5Hash_def example_digest_def fun_eq_iff) code_simp

section \<open>Properties\<close>

lemma clean_ids:
  "GetSession (foldl (\<lambda>v ssid. RemoveSession ssid v) w ids) k = (if k \<in> set ids then None else GetSession w k)"
  by (induction ids arbitrary: w) (auto simp: GetSession_def RemoveSession_def AList.delete_conv')

text \<open>The clean-up removes exactly the sessions that timed out: when every session is stored
  under its own id, looking one up afterwards gives what it gave before, unless its timeout lies in
  the past.\<close>

theorem clean_sessions:
  assumes "sessions_keyed w"
  shows "GetSession (CleanSessions now w) k =
    (case GetSession w k of None \<Rightarrow> None | Some s \<Rightarrow> if timeout s < now then None else Some s)"
proof -
  let ?ids = "map (\<lambda>(k, s). se_id s) (filter (\<lambda>(k, s). timeout s < now) (m_sessions w))"
  have "k \<in> set ?ids \<longleftrightarrow> (\<exists>s. (k, s) \<in> set (m_sessions w) \<and> timeout s < now)"
    using assms by (force simp: sessions_keyed_def list_all_iff image_iff)
  also have "\<dots> \<longleftrightarrow> (\<exists>s. GetSession w k = Some s \<and> timeout s < now)"
    using assms by (auto simp: sessions_keyed_def GetSession_def map_of_eq_Some_iff)
  finally have i: "k \<in> set ?ids \<longleftrightarrow> (\<exists>s. GetSession w k = Some s \<and> timeout s < now)" .
  have "GetSession (CleanSessions now w) k = (if k \<in> set ?ids then None else GetSession w k)"
    using clean_ids [of w ?ids k]
    by (simp add: CleanSessions_def Let_def GetSession_def split: option.split)
  with i show ?thesis by (cases "GetSession w k") auto
qed

theorem clean_sessions_witness:
  "GetSession (CleanSessions 100 (AddSession (no_session\<lparr>se_id := ''a'', timeout := 99\<rparr>)
     (AddSession (no_session\<lparr>se_id := ''b'', timeout := 100\<rparr>) (example_webem table_store (\<lambda>sid. no_stored))))) ''a''
   = None"
proof -
  have "sessions_keyed (example_webem table_store (\<lambda>sid. no_stored))"
    by (simp add: sessions_keyed_def example_webem_def)
  then show ?thesis by (subst clean_sessions) auto
qed

end
