(* ===== verification/PageDispatch.thy ===== *)
theory PageDispatch
  imports StaticFiles WebSession
begin

text \<open>
  The pages of \<^verbatim>\<open>cWebem\<close> (\<^verbatim>\<open>web/webserver/cWebem.cpp\<close>): text that is included in files, the
  lookup of the function registered for a path, the parameters it is given and the reply it makes,
  and form actions.

  Functions registered by the application are arguments: a page takes the session, the request, the
  reply and the server and changes all but the request; an action may change the session, the URI it
  redirects to, and the server.  An exception they throw is caught and leaves what they had changed,
  so it needs no case.  \<^const>\<open>None\<close> is undefined behaviour, or an exception that leaves the
  handler (\<^verbatim>\<open>substr\<close> beyond the end).
\<close>

type_synonym 'd page =
  "WebEmSession \<Rightarrow> request \<Rightarrow> reply \<Rightarrow> 'd webem \<Rightarrow> (WebEmSession \<times> reply \<times> 'd webem) option"

type_synonym 'd action = "WebEmSession \<Rightarrow> request \<Rightarrow> 'd webem \<Rightarrow> WebEmSession \<times> string \<times> 'd webem"

datatype compression_mode = WWW_USE_GZIP | WWW_USE_STATIC_GZ_FILES | WWW_FORCE_NO_GZIP_SUPPORT

text \<open>
  What does not change while a request is handled.  \<open>site_includes\<close> gives the text of a registered
  include code, already converted to UTF-8; \<open>site_gzip\<close> is the compressor.
\<close>

record 'd site =
  myPages :: "(string \<times> 'd page) list"
  myPages_w :: "(string \<times> 'd page) list"
  myActions :: "(string \<times> 'd action) list"
  site_includes :: "string \<Rightarrow> string option"
  m_webRoot :: string
  m_actTheme :: string
  m_gzipmode :: compression_mode
  doc_root :: string
  site_env :: environment
  site_gzip :: "string \<Rightarrow> string"

text \<open>Pages and actions are registered in a map, which keeps the first function of a path.\<close>

definition RegisterPageCode :: "string \<Rightarrow> 'd page \<Rightarrow> 'd site \<Rightarrow> 'd site" where
  "RegisterPageCode url f site =
     (if map_of (myPages site) url \<noteq> None then site else site\<lparr>myPages := myPages site @ [(url, f)]\<rparr>)"

definition RegisterPageCodeW :: "string \<Rightarrow> 'd page \<Rightarrow> 'd site \<Rightarrow> 'd site" where
  "RegisterPageCodeW url f site =
     (if map_of (myPages_w site) url \<noteq> None then site else site\<lparr>myPages_w := myPages_w site @ [(url, f)]\<rparr>)"

definition RegisterActionCode :: "string \<Rightarrow> 'd action \<Rightarrow> 'd site \<Rightarrow> 'd site" where
  "RegisterActionCode name f site =
     (if map_of (myActions site) name \<noteq> None then site else site\<lparr>myActions := myActions site @ [(name, f)]\<rparr>)"

definition SetWebCompressionMode :: "compression_mode \<Rightarrow> 'd site \<Rightarrow> 'd site" where
  "SetWebCompressionMode m site = site\<lparr>m_gzipmode := m\<rparr>"

section \<open>Included text\<close>

text \<open>
  The loop of \<^verbatim>\<open>Include\<close> on the text from the current position on.  The code of a marker starts
  after a blank and ends one character before the closing arrow; for a marker too short for that the
  length wraps around and the code is all that follows.  Text is inserted before the marker, which
  stays.
\<close>

definition embed_mark :: string where "embed_mark = ''<!--#embed''"

definition embed_code :: "string \<Rightarrow> nat \<Rightarrow> nat \<Rightarrow> string" where
  "embed_code s p q = (if q - p < 15 then drop (p + 11) s else substr s (p + 11) (q - p - 15))"

function include_loop :: "(string \<Rightarrow> string option) \<Rightarrow> string \<Rightarrow> bool \<times> string" where
  "include_loop inc s =
     (case str_find embed_mark s 0 of
        None \<Rightarrow> (False, s)
      | Some p \<Rightarrow>
          (case str_find ''-->'' s p of
             None \<Rightarrow> (False, s)
           | Some q0 \<Rightarrow>
               let q = q0 + 3;
                   text = inc (embed_code s p q);
                   (res, rest) = include_loop inc (drop q s)
               in (res \<or> text \<noteq> None,
                   take p s @ (case text of None \<Rightarrow> [] | Some t \<Rightarrow> t) @ substr s p (q - p) @ rest)))"
  by pat_completeness auto
termination
  by (relation "measure (\<lambda>(inc, s). length s)") (auto dest: str_find_bounds)

declare include_loop.simps [simp del]

definition Include :: "'d site \<Rightarrow> string \<Rightarrow> bool \<times> string" where
  "Include site s = include_loop (site_includes site) s"

section \<open>Actions\<close>

definition IsAction :: "request \<Rightarrow> bool" where
  "IsAction req \<longleftrightarrow> contains (rq_uri req) ''.webem''"

text \<open>Everything up to the next line end, and what follows it.\<close>

definition cut_line :: "string \<Rightarrow> (string \<times> string) option" where
  "cut_line s = map_option (\<lambda>p. (take p s, drop (p + 2) s)) (str_find crlf s 0)"

lemma cut_line_length: "cut_line s = Some (a, b) \<Longrightarrow> length b < length s"
  by (auto simp: cut_line_def crlf_def dest: str_find_bounds)

definition is_file_type :: "string \<Rightarrow> bool" where
  "is_file_type t \<longleftrightarrow> contains t ''application/octet-stream'' \<or> contains t ''application/json'' \<or>
     contains t ''Content-Type: text/xml'' \<or> contains t ''Content-Type: text/x-hex'' \<or>
     contains t ''Content-Type: image/''"

text \<open>The name in the header line of a part.\<close>

definition part_name :: "string \<Rightarrow> string option" where
  "part_name line =
     (if \<not> starts_with ''Content-Disposition'' line then None
      else Option.bind (str_find (''name='' @ [CHR 0x22]) line 0)
        (\<lambda>p. map_option fst (split_at_char (CHR 0x22) (drop (p + 6) line))))"

text \<open>
  One part of a form with files: its name and value and what follows it.  A file type line is
  followed by an empty line.  The value ends two characters before the boundary; \<^verbatim>\<open>pos - 2\<close> wraps
  around when the boundary comes first or second, so all that is left is the value.
\<close>

definition form_part :: "string \<Rightarrow> string \<Rightarrow> ((string \<times> string) \<times> string) option" where
  "form_part boundary s =
     (case cut_line s of None \<Rightarrow> None | Some (line, s1) \<Rightarrow>
     (case part_name line of None \<Rightarrow> None | Some name \<Rightarrow>
     (case cut_line s1 of None \<Rightarrow> None | Some (ty, s2) \<Rightarrow>
     (case (if is_file_type ty then map_option snd (cut_line s2)
            else if ty \<noteq> [] then None else Some s2) of None \<Rightarrow> None | Some s3 \<Rightarrow>
     (case str_find boundary s3 0 of None \<Rightarrow> None | Some pos \<Rightarrow>
     (case cut_line (drop (pos + length boundary) s3) of None \<Rightarrow> None | Some (_, s4) \<Rightarrow>
        Some ((name, if pos < 2 then s3 else take (pos - 2) s3), s4)))))))"

lemma form_part_length: "form_part boundary s = Some (nv, t) \<Longrightarrow> length t < length s"
  by (fastforce simp: form_part_def dest: cut_line_length split: option.splits prod.splits if_splits)

text \<open>
  The parts of a form.  The flag tells whether the end was reached; when the code gives up on a part
  it returns without calling the action.
\<close>

function form_parts :: "string \<Rightarrow> string \<Rightarrow> multimap \<Rightarrow> bool \<times> multimap" where
  "form_parts boundary s params =
     (if s = [] then (True, params)
      else case form_part boundary s of
        None \<Rightarrow> (False, params)
      | Some ((name, value), t) \<Rightarrow> form_parts boundary t (mm_insert name value params))"
  by pat_completeness auto
termination
  by (relation "measure (\<lambda>(b, s, p). length s)") (auto dest: form_part_length)

declare form_parts.simps [simp del]

text \<open>The pairs of a query or of simple form content; a name without an equals sign gives up.\<close>

function action_values :: "string \<Rightarrow> multimap \<Rightarrow> bool \<times> multimap" where
  "action_values s values =
     (case split_at_char (CHR ''='') s of
        None \<Rightarrow> (False, values)
      | Some (name, r) \<Rightarrow>
          (case split_at_char (CHR ''&'') r of
             Some (value, r') \<Rightarrow> action_values r' (mm_insert name (blanks_loop value) values)
           | None \<Rightarrow> (True, mm_insert name (blanks_loop r) values)))"
  by pat_completeness auto
termination
  by (relation "measure (\<lambda>(s, v). length s)") (auto dest!: split_at_char_length)

declare action_values.simps [simp del]

text \<open>
  The parameters of an action request: \<open>uri\<close> is its path and \<open>q\<close> the position of the suffix in it;
  without one (it was in the query, which the path has lost) \<^verbatim>\<open>npos + 7\<close> is 6.
\<close>

definition action_params :: "request \<Rightarrow> string \<Rightarrow> nat option \<Rightarrow> bool \<times> multimap" where
  "action_params req uri q =
     (if rq_method req = ''POST'' then
        (if (case get_req_header req ''Content-Type'' of
               None \<Rightarrow> False | Some t \<Rightarrow> contains t ''multipart/form-data'')
         then (case cut_line (rq_content req) of
                 None \<Rightarrow> (False, [])
               | Some (boundary, s) \<Rightarrow>
                   let (ok, ps) = form_parts boundary s [] in (ok \<and> ps \<noteq> [], ps))
         else action_values (rq_content req) [])
      else action_values (drop (case q of Some p \<Rightarrow> p + 7 | None \<Rightarrow> 6) uri) [])"

text \<open>The code of an action is its path without the first slash and the suffix.\<close>

definition action_code :: "string \<Rightarrow> nat option \<Rightarrow> string" where
  "action_code uri q =
     (case q of Some (Suc p) \<Rightarrow> substr uri 1 p | _ \<Rightarrow> drop 1 uri)"

text \<open>
  \<^verbatim>\<open>CheckForAction\<close>.  The URI the action leaves is the one the request has afterwards; a root that is
  missing in it is put in front.
\<close>

definition add_root :: "string \<Rightarrow> string \<Rightarrow> string" where
  "add_root root uri =
     (if uri \<noteq> [] \<and> hd uri = CHR ''/'' \<and> root \<noteq> [] \<and> \<not> starts_with root uri then root @ uri else uri)"

definition CheckForAction ::
  "'d site \<Rightarrow> WebEmSession \<Rightarrow> request \<Rightarrow> 'd webem \<Rightarrow> (WebEmSession \<times> request \<times> 'd webem) option" where
  "CheckForAction site s req0 w =
     (if \<not> IsAction req0 then Some (s, req0, w)
      else
        let req = req0\<lparr>rq_parameters := []\<rparr>
        in case ExtractRequestPath (m_webRoot site) (m_actTheme site) (rq_uri req) of
             None \<Rightarrow> None
           | Some uri \<Rightarrow>
               let q = str_find ''.webem'' uri 0
               in if uri = [] then None
                  else case map_of (myActions site) (action_code uri q) of
                    None \<Rightarrow> Some (s, req, w)
                  | Some f \<Rightarrow>
                      let (ok, ps) = action_params req uri q; req1 = req\<lparr>rq_parameters := ps\<rparr>
                      in if \<not> ok then Some (s, req1, w)
                         else let (s', redirect, w') = f s req1 w
                              in Some (s', req1\<lparr>rq_uri := add_root (m_webRoot site) redirect\<rparr>, w'))"

section \<open>Page overrides\<close>

definition IsPageOverride :: "'d site \<Rightarrow> request \<Rightarrow> reply \<Rightarrow> (bool \<times> reply) option" where
  "IsPageOverride site req rep =
     (case url_decode (rq_uri req) of
        (False, _) \<Rightarrow> Some (False, stock_reply st_bad_request)
      | (True, decoded) \<Rightarrow>
          map_option (\<lambda>p.
            let path = takeWhile (\<lambda>c. c \<noteq> CHR ''?'') p
            in (map_of (myPages site) path \<noteq> None \<or> map_of (myPages_w site) path \<noteq> None, rep))
            (ExtractRequestPath (m_webRoot site) (m_actTheme site) decoded))"

text \<open>\<^verbatim>\<open>safeGetline\<close>: the line read (the old one at the end of input), the rest, and the end flag.\<close>

definition safeGetline :: "string \<Rightarrow> string \<Rightarrow> string \<times> string \<times> bool" where
  "safeGetline old s =
     (if s = [] then (old, [], True)
      else
        let l = takeWhile (\<lambda>c. c \<noteq> CHR 0x0A) s;
            line = (if l \<noteq> [] \<and> last l = CHR 0x0D then butlast l else l)
        in if CHR 0x0A \<in> set s then (line, drop (length l + 1) s, False) else (line, [], True))"

datatype part_result = Parameters multimap | Bad_Request | Exception

text \<open>
  A multipart body: the boundary, then the name, then an empty line; what follows, without the last
  boundary, is the value.  Sizes are unsigned, so a body too short for its last boundary is taken to
  its end.  At the end of the input \<^verbatim>\<open>tellg\<close> fails and the position is out of range.
\<close>

definition part_value :: "string \<Rightarrow> string \<Rightarrow> string" where
  "part_value boundary rest =
     (if length rest < length boundary + 6 then rest else take (length rest - length boundary - 6) rest)"

function multipart_body ::
  "string \<Rightarrow> nat \<Rightarrow> string \<Rightarrow> string \<Rightarrow> multimap \<Rightarrow> string \<Rightarrow> part_result" where
  "multipart_body boundary ii vName old params s =
     (let (line, rest, eof) = safeGetline old s;
          continue = (\<lambda>i n. if eof then Parameters params
                            else multipart_body boundary i n line params rest)
      in if ii = 0 then (if line \<noteq> boundary then Bad_Request else continue 1 vName)
         else if ii = 1 then
           (if contains line ''Content-Disposition:'' then
              (case str_find (''name='' @ [CHR 0x22]) line 0 of
                 None \<Rightarrow> Bad_Request
               | Some p \<Rightarrow>
                   (case split_at_char (CHR 0x22) (drop (p + 6) line) of
                      None \<Rightarrow> Bad_Request | Some (n, _) \<Rightarrow> continue 2 n))
            else continue 1 vName)
         else if line = [] then
           (if eof then Exception
            else Parameters (mm_insert vName (part_value boundary rest) params))
         else continue ii vName)"
  by pat_completeness auto
termination
  by (relation "measure (\<lambda>(b, i, n, l, p, s). length s)")
    (auto simp: safeGetline_def Let_def split: if_splits)

declare multipart_body.simps [simp del]

definition page_params :: "request \<Rightarrow> part_result" where
  "page_params req =
     (let params = query_params (rq_uri req)
      in if rq_method req = ''POST'' then
           (case get_req_header req ''Content-Type'' of
              None \<Rightarrow> Parameters params
            | Some t \<Rightarrow>
                if contains t ''multipart'' then
                  (case str_find ''boundary='' t 0 of
                     None \<Rightarrow> Parameters params
                   | Some p \<Rightarrow> multipart_body (''--'' @ drop (p + 9) t) 0 [] [] params (rq_content req))
                else Parameters params)
         else Parameters params)"

text \<open>The page of a path, or of the nearest path above it.\<close>

function find_page :: "(string \<times> 'p) list \<Rightarrow> string \<Rightarrow> 'p option" where
  "find_page pages path =
     (case map_of pages path of
        Some f \<Rightarrow> Some f
      | None \<Rightarrow>
          (case find_last (CHR ''/'') path of
             None \<Rightarrow> None | Some i \<Rightarrow> find_page pages (take i path)))"
  by pat_completeness auto
termination
  by (relation "measure (\<lambda>(p, s). length s)") (auto dest: find_last_less)

declare find_page.simps [simp del]

text \<open>The type of an attachment, from the first header that announces one.\<close>

definition attachment_type :: "reply \<Rightarrow> string option" where
  "attachment_type rep =
     Option.bind (reply_header rep ''Content-Disposition'') (\<lambda>v.
       let a = (case str_find ''='' v 0 of None \<Rightarrow> v | Some p \<Rightarrow> drop (p + 1) v)
       in map_option (\<lambda>d. extension_to_type (drop (d + 1) a)) (find_last (CHR ''.'') a))"

definition page_headers :: "string \<Rightarrow> reply \<Rightarrow> reply" where
  "page_headers mime0 rep =
     (let mime = (case attachment_type rep of None \<Rightarrow> mime0 | Some t \<Rightarrow> t);
          r1 = add_header ''Content-Length'' (nat_to_string (length (rp_content rep))) True rep
      in if \<not> starts_with ''image'' mime then
           add_header_content_type (if mime \<noteq> [] then mime @ '';charset=UTF-8'' else mime)
             (add_header ''Access-Control-Allow-Origin'' ''*'' True
               (add_header ''Pragma'' ''no-cache'' True
                 (add_header ''Cache-Control'' ''no-cache'' True r1)))
         else add_header_content_type mime
                (add_header ''Cache-Control'' ''max-age=3600, public'' True r1))"

definition wide_page_headers :: "string \<Rightarrow> reply \<Rightarrow> reply" where
  "wide_page_headers mime rep =
     add_header ''Access-Control-Allow-Origin'' ''*'' True
       (add_header ''Pragma'' ''no-cache'' True
         (add_header ''Cache-Control'' ''no-cache'' True
           (add_header ''Content-Type'' (mime @ ''; charset=UTF-8'') True
             (add_header ''Content-Length'' (nat_to_string (length (rp_content rep))) True
               (rep\<lparr>rp_status := st_ok\<rparr>)))))"

text \<open>\<^verbatim>\<open>CheckForPageOverride\<close>: whether a page answered, the session, the request with its
  parameters, the reply and the server.\<close>

definition CheckForPageOverride ::
  "'d site \<Rightarrow> WebEmSession \<Rightarrow> request \<Rightarrow> reply \<Rightarrow> 'd webem
     \<Rightarrow> (bool \<times> WebEmSession \<times> request \<times> reply \<times> 'd webem) option" where
  "CheckForPageOverride site s req rep w =
     (case url_decode (rq_uri req) of
        (False, _) \<Rightarrow> Some (False, s, req, stock_reply st_bad_request, w)
      | (True, decoded) \<Rightarrow>
          (case ExtractRequestPath (m_webRoot site) (m_actTheme site) decoded of
             None \<Rightarrow> None
           | Some path \<Rightarrow>
               (case page_params req of
                  Exception \<Rightarrow> None
                | Bad_Request \<Rightarrow>
                    Some (False, s, req\<lparr>rq_parameters := query_params (rq_uri req)\<rparr>,
                          stock_reply st_bad_request, w)
                | Parameters ps \<Rightarrow>
                    let req1 = req\<lparr>rq_parameters := ps\<rparr>;
                        mime = extension_to_type
                          (if contains (rq_uri req) ''json.htm'' then ''json'' else path_extension path)
                    in case find_page (myPages site) path of
                         Some f \<Rightarrow>
                           map_option (\<lambda>(s', rep', w'). (True, s', req1, page_headers mime rep', w'))
                             (f s req1 (rep\<lparr>rp_status := st_ok\<rparr>) w)
                       | None \<Rightarrow>
                           (case map_of (myPages_w site) path of
                              None \<Rightarrow> Some (False, s, req1, rep, w)
                            | Some f \<Rightarrow>
                                map_option (\<lambda>(s', rep', w'). (True, s', req1, wide_page_headers mime rep', w'))
                                  (f s req1 rep w)))))"

end
