(* ===== verification/WebAuth.thy ===== *)
theory WebAuth
  imports WebSession WebPath
begin

text \<open>
  Authentication in \<^verbatim>\<open>web/webserver/cWebem.cpp\<close>: passwords, cookies and session tokens.
  \<open>md5\<close> is \<^verbatim>\<open>GenerateMD5Hash\<close>, a parameter since it is OpenSSL's; \<open>now\<close> is the time.
\<close>

definition SHORT_SESSION_TIMEOUT :: int where "SHORT_SESSION_TIMEOUT = 600"
definition LONG_SESSION_TIMEOUT :: int where "LONG_SESSION_TIMEOUT = 30 * 86400"

section \<open>Passwords\<close>

text \<open>\<^verbatim>\<open>boost::icontains\<close>.\<close>

definition icontains :: "string \<Rightarrow> string \<Rightarrow> bool" where
  "icontains s pat \<longleftrightarrow> contains (map lowercase s) (map lowercase pat)"

text \<open>The value of one field of an X509 name: up to the next slash.\<close>

definition dn_field :: "string \<Rightarrow> string \<Rightarrow> string" where
  "dn_field dn key =
     (case str_find key dn 0 of
        None \<Rightarrow> []
      | Some spos \<Rightarrow>
          let epos = (case str_find ''/'' dn (spos + 1) of Some e \<Rightarrow> e | None \<Rightarrow> length dn)
          in substr dn (spos + length key) (epos - spos - length key))"

definition bytes_string :: "bytes \<Rightarrow> string" where
  "bytes_string bs = map (\<lambda>b. char_of (unat b)) bs"

text \<open>The user and the response, or \<^const>\<open>None\<close> for a return value of 0.\<close>

definition parse_auth_header :: "request \<Rightarrow> (string \<times> string) option" where
  "parse_auth_header req =
     (case get_req_header req ''Authorization'' of
        None \<Rightarrow> None
      | Some h \<Rightarrow>
          if icontains h ''/CN='' then
            (let user = dn_field h ''/CN=''; response = dn_field h ''/emailAddress=''
             in if user = [] then None else Some (user, response))
          else if icontains h ''Basic '' then
            split_at_char (CHR '':'') (bytes_string (base64_decode (drop 6 h)))
          else None)"

text \<open>The nonce of a parsed header is always empty.\<close>

definition check_password :: "(string \<Rightarrow> string) \<Rightarrow> string \<Rightarrow> string \<Rightarrow> bool" where
  "check_password md5 response ha1 \<longleftrightarrow> response \<noteq> [] \<and> ha1 = md5 response"

definition find_user :: "web_user list \<Rightarrow> string \<Rightarrow> web_user option" where
  "find_user us name = find (\<lambda>u. Username u = name) us"

definition grant :: "web_user \<Rightarrow> WebEmSession \<Rightarrow> WebEmSession" where
  "grant u s = s\<lparr>isnew := True, se_username := Username u, rights := userrights u, rememberme := False\<rparr>"

type_synonym 'd authorize_result = "bool \<times> WebEmSession \<times> 'd webem"

definition login_failed :: "WebEmSession \<Rightarrow> 'd webem \<Rightarrow> 'd authorize_result" where
  "login_failed s w = (False, s, w\<lparr>m_failcounter := m_failcounter w + 1\<rparr>)"

definition login_ok :: "web_user \<Rightarrow> WebEmSession \<Rightarrow> 'd webem \<Rightarrow> 'd authorize_result" where
  "login_ok u s w = (True, grant u s, w\<lparr>m_failcounter := 0\<rparr>)"

text \<open>The name and the password in a URI, still encoded, after the first such texts in it.\<close>

definition uri_value :: "string \<Rightarrow> string \<Rightarrow> string option" where
  "uri_value uri key =
     map_option (\<lambda>p. takeWhile (\<lambda>c. c \<noteq> CHR ''&'') (drop (p + length key) uri)) (str_find key uri 0)"

definition authorize_uri ::
  "(string \<Rightarrow> string) \<Rightarrow> string \<Rightarrow> WebEmSession \<Rightarrow> 'd webem \<Rightarrow> 'd authorize_result" where
  "authorize_uri md5 uri s w =
     (case (uri_value uri ''username='', uri_value uri ''password='') of
        (Some tmpuname, Some tmpupass) \<Rightarrow>
          (case (url_decode tmpuname, url_decode tmpupass) of
             ((True, u), (True, p)) \<Rightarrow>
               (case find_user (m_userpasswords w) (bytes_string (base64_decode u)) of
                  None \<Rightarrow> login_failed s w
                | Some user \<Rightarrow>
                    if Password user = md5 (bytes_string (base64_decode p)) then login_ok user s w
                    else login_failed s w)
           | _ \<Rightarrow> login_failed s w)
      | _ \<Rightarrow> (False, s, w))"

definition authorize ::
  "(string \<Rightarrow> string) \<Rightarrow> request \<Rightarrow> WebEmSession \<Rightarrow> 'd webem \<Rightarrow> 'd authorize_result" where
  "authorize md5 req s w =
     (case parse_auth_header req of
        None \<Rightarrow> authorize_uri md5 (rq_uri req) s w
      | Some (user, response) \<Rightarrow>
          (case find_user (m_userpasswords w) user of
             None \<Rightarrow> login_failed s w
           | Some u \<Rightarrow>
               if check_password md5 response (Password u) then login_ok u s w else login_failed s w))"

section \<open>Cookies\<close>

definition send_remove_cookie :: "reply \<Rightarrow> reply" where
  "send_remove_cookie rep =
     add_header ''Set-Cookie'' (''DMZSID=none; HttpOnly; Expires='' @ make_web_time 0) False rep"

definition send_cookie :: "WebEmSession \<Rightarrow> reply \<Rightarrow> reply" where
  "send_cookie s rep =
     add_header ''Set-Cookie''
       (''DMZSID='' @ se_id s @ ''_'' @ auth_token s @ ''.'' @ int_to_string (expires s) @
        ''; HttpOnly; path=/; Expires='' @ make_web_time (expires s)) False rep"

definition send_authorization_request :: "'d webem \<Rightarrow> reply" where
  "send_authorization_request w =
     (let rep = send_remove_cookie (stock_reply st_unauthorized)
      in if m_authmethod w = AUTH_BASIC
         then add_header ''WWW-Authenticate''
           (''Basic realm='' @ [CHR 0x22] @ m_DigistRealm w @ [CHR 0x22]) True rep
         else rep)"

text \<open>The id, the token and the time in a cookie.\<close>

definition parse_session_cookie :: "string \<Rightarrow> (string \<times> string \<times> string) option" where
  "parse_session_cookie cookie =
     (case str_find ''DMZSID='' cookie 0 of
        None \<Rightarrow> None
      | Some fpos \<Rightarrow>
          let c = takeWhile (\<lambda>x. x \<noteq> CHR '';'') (drop fpos cookie)
          in case str_find ''_'' c 0 of
               None \<Rightarrow> None
             | Some upos \<Rightarrow>
                 (case str_find ''.'' c upos of
                    None \<Rightarrow> None
                  | Some ppos \<Rightarrow>
                      Some (substr c 7 (upos - 7), substr c (upos + 1) (ppos - upos - 1),
                            drop (ppos + 1) c)))"

text \<open>
  \<^verbatim>\<open>sstr >> stime\<close>: at the end of the stream nothing is assigned, so the variable keeps the value
  \<open>junk\<close> it never got; text that is no number gives 0, a number too large the largest.
\<close>

definition stream_time :: "int \<Rightarrow> string \<Rightarrow> int" where
  "stream_time junk s = (if list_all is_c_space s then junk else clamp64 (strtol10 s))"

section \<open>Session tokens\<close>

definition removeAuthToken :: "string \<Rightarrow> 'd webem \<Rightarrow> 'd webem" where
  "removeAuthToken sid w =
     (case mySessionStore w of
        None \<Rightarrow> w | Some st \<Rightarrow> w\<lparr>web_db := store_RemoveSession st sid (web_db w)\<rparr>)"

text \<open>A session of an administrator is given the stored expiry.\<close>

definition restore_admin ::
  "int \<Rightarrow> stored_session \<Rightarrow> WebEmSession \<Rightarrow> 'd webem \<Rightarrow> 'd authorize_result" where
  "restore_admin now stored s w =
     (let s1 = s\<lparr>expires := ss_expires stored\<rparr>
      in if expires s1 < now then (False, s1, removeAuthToken (se_id s1) w)
         else let s2 = s1\<lparr>timeout := now + SHORT_SESSION_TIMEOUT\<rparr> in (True, s2, AddSession s2 w))"

definition restore_user ::
  "int \<Rightarrow> stored_session \<Rightarrow> WebEmSession \<Rightarrow> 'd webem \<Rightarrow> 'd authorize_result" where
  "restore_user now stored s w =
     (let s1 = s\<lparr>se_username := ss_username stored, expires := ss_expires stored\<rparr>
      in case find_user (m_userpasswords w) (se_username s1) of
           None \<Rightarrow> (False, s1, removeAuthToken (se_id s1) w)
         | Some u \<Rightarrow>
             let s2 = s1\<lparr>rights := userrights u\<rparr>
             in if expires s2 < now then (False, s2, removeAuthToken (se_id s2) w)
                else (True, s2, case GetSession w (se_id s2) of
                        None \<Rightarrow> AddSession s2 w | Some _ \<Rightarrow> w))"

definition checkAuthToken ::
  "(string \<Rightarrow> string) \<Rightarrow> int \<Rightarrow> WebEmSession \<Rightarrow> 'd webem \<Rightarrow> 'd authorize_result" where
  "checkAuthToken md5 now s w =
     (case mySessionStore w of
        None \<Rightarrow> (True, s, w)
      | Some st \<Rightarrow>
          if se_id s = [] \<or> auth_token s = [] then (False, s, w)
          else
            let stored = store_GetSession st (web_db w) (se_id s)
            in if ss_id stored = [] then (False, s, w)
               else if ss_auth_token stored \<noteq> md5 (auth_token s) then
                 (False, s, removeAuthToken (se_id s) w)
               else if rights s = 2 then restore_admin now stored s w
               else if se_username s = [] then restore_user now stored s w
               else (True, s, w))"

definition generateAuthToken ::
  "(string \<Rightarrow> string) \<Rightarrow> bytes \<Rightarrow> WebEmSession \<Rightarrow> 'd webem \<Rightarrow> string \<times> 'd webem" where
  "generateAuthToken md5 uuid s w =
     (let token = base64_encode uuid
      in (token, case mySessionStore w of
            None \<Rightarrow> w
          | Some st \<Rightarrow>
              w\<lparr>web_db := store_StoreSession st
                  \<lparr>ss_id = se_id s, ss_remote_host = remote_host s, ss_auth_token = md5 token,
                   ss_username = se_username s, ss_expires = expires s\<rparr> (web_db w)\<rparr>))"

definition generateSessionID :: "(string \<Rightarrow> string) \<Rightarrow> bytes \<Rightarrow> string" where
  "generateSessionID md5 uuid = md5 (base64_encode uuid)"

section \<open>The decision\<close>

text \<open>The result, the session, the reply and the server.\<close>

type_synonym 'd auth_result = "bool \<times> WebEmSession \<times> reply \<times> 'd webem"

definition refuse :: "WebEmSession \<Rightarrow> 'd webem \<Rightarrow> 'd auth_result" where
  "refuse s w = (False, s, send_authorization_request w, w)"

definition whitelisted :: "'d webem \<Rightarrow> string \<Rightarrow> bool" where
  "whitelisted w uri \<longleftrightarrow>
     list_ex (\<lambda>u. starts_with u (GetURICommandParameter uri)) (myWhitelistURLs w)"

definition whitelist_or_refuse ::
  "request \<Rightarrow> WebEmSession \<Rightarrow> reply \<Rightarrow> 'd webem \<Rightarrow> 'd auth_result" where
  "whitelist_or_refuse req s rep w =
     (if whitelisted w (rq_uri req) then (True, s, rep, w) else refuse s w)"

text \<open>A client with all rights: local, or no users are defined.  Its session is taken up.\<close>

definition admin_cookie ::
  "(string \<Rightarrow> string) \<Rightarrow> int \<Rightarrow> string \<Rightarrow> string \<Rightarrow> bool \<Rightarrow> WebEmSession \<Rightarrow> reply \<Rightarrow> 'd webem
     \<Rightarrow> 'd auth_result" where
  "admin_cookie md5 now sid token expired s rep w =
     (let (s1, ex, w1) =
        (if sid = [] then (s, expired, w)
         else case GetSession w sid of
           None \<Rightarrow>
             let (ok, s', w') = checkAuthToken md5 now (s\<lparr>se_id := sid, auth_token := token\<rparr>) w
             in (s', \<not> ok, w')
         | Some old \<Rightarrow> (old, expires old < now, w))
      in (True, if sid = [] \<or> ex then s1\<lparr>isnew := True\<rparr> else s1, rep, w1))"

text \<open>A client that has to show its token.\<close>

definition token_cookie ::
  "(string \<Rightarrow> string) \<Rightarrow> int \<Rightarrow> string \<Rightarrow> string \<Rightarrow> bool \<Rightarrow> WebEmSession \<Rightarrow> reply \<Rightarrow> 'd webem
     \<Rightarrow> 'd auth_result" where
  "token_cookie md5 now sid token expired s rep w =
     (let old = GetSession w sid;
          ex = (expired \<or> (case old of None \<Rightarrow> False | Some o1 \<Rightarrow> expires o1 < now))
      in if ex then
           (let w1 = w\<lparr>m_failcounter := 0\<rparr>
            in refuse s (if old = None then w1 else removeAuthToken sid (RemoveSession sid w1)))
         else
           let s1 = (case old of None \<Rightarrow> s\<lparr>se_id := sid\<rparr> | Some o1 \<Rightarrow> o1);
               (ok, s2, w2) = checkAuthToken md5 now (s1\<lparr>auth_token := token\<rparr>) w
           in if ok then (True, s2, rep, w2) else refuse s2 w2)"

text \<open>What comes after the cookie.\<close>

definition without_cookie ::
  "(string \<Rightarrow> string) \<Rightarrow> request \<Rightarrow> WebEmSession \<Rightarrow> reply \<Rightarrow> 'd webem \<Rightarrow> 'd auth_result" where
  "without_cookie md5 req s rep w =
     (if rights s = 2 \<and> se_id s = [] then (True, s\<lparr>isnew := True\<rparr>, rep, w)
      else
        let (ok, s1, w1) = (if contains (rq_uri req) ''json.htm'' then authorize md5 req s w
                            else (False, s, w))
        in if ok then (True, s1, rep, w1)
           else if m_authmethod w1 = AUTH_BASIC then
             (let (ok2, s2, w2) = authorize md5 req s1 w1
              in if ok2 then (True, s2, rep, w2)
                 else if m_failcounter w2 > 2 then
                   (False, s2, stock_reply st_service_unavailable, w2\<lparr>m_failcounter := 0\<rparr>)
                 else refuse s2 w2)
           else whitelist_or_refuse req s1 rep w1)"

definition CheckAuthentication ::
  "(string \<Rightarrow> string) \<Rightarrow> int \<Rightarrow> int \<Rightarrow> request \<Rightarrow> WebEmSession \<Rightarrow> reply \<Rightarrow> 'd webem
     \<Rightarrow> 'd auth_result" where
  "CheckAuthentication md5 junk now req s0 rep w =
     (let s = s0\<lparr>se_id := [],
            rights := (if m_userpasswords w = [] \<or>
                          AreWeInLocalNetwork (m_localnetworks w) (remote_host s0) then 2 else - 1)\<rparr>
      in case get_req_header req ''Cookie'' of
           None \<Rightarrow> without_cookie md5 req s rep w
         | Some cookie \<Rightarrow>
             let (sid, token, time) = (case parse_session_cookie cookie of
                   None \<Rightarrow> ([], [], []) | Some t \<Rightarrow> t);
                 expired = (parse_session_cookie cookie \<noteq> None \<and> stream_time junk time < now)
             in if rights s = 2 then admin_cookie md5 now sid token expired s rep w
                else if sid \<noteq> [] \<and> token \<noteq> [] \<and> time \<noteq> [] then
                  token_cookie md5 now sid token expired s rep w
                else if m_authmethod w \<noteq> AUTH_BASIC then whitelist_or_refuse req s rep w
                else without_cookie md5 req s rep w)"

section \<open>Who is let in\<close>

definition token_shown :: "(string \<Rightarrow> string) \<Rightarrow> 'd webem \<Rightarrow> request \<Rightarrow> bool" where
  "token_shown md5 w req \<longleftrightarrow>
     (\<exists>cookie sid token time st. get_req_header req ''Cookie'' = Some cookie \<and>
        parse_session_cookie cookie = Some (sid, token, time) \<and> token \<noteq> [] \<and> mySessionStore w = Some st \<and>
        ss_id (store_GetSession st (web_db w) sid) \<noteq> [] \<and>
        ss_auth_token (store_GetSession st (web_db w) sid) = md5 token)"

definition password_shown :: "(string \<Rightarrow> string) \<Rightarrow> web_user list \<Rightarrow> request \<Rightarrow> web_user \<Rightarrow> bool" where
  "password_shown md5 us req u \<longleftrightarrow> find_user us (Username u) = Some u \<and>
     (\<exists>p. Password u = md5 p \<and>
       (case parse_auth_header req of
          Some (name, response) \<Rightarrow> name = Username u \<and> response = p \<and> p \<noteq> []
        | None \<Rightarrow> \<exists>tu tp eu ep. uri_value (rq_uri req) ''username='' = Some tu \<and>
            uri_value (rq_uri req) ''password='' = Some tp \<and>
            url_decode tu = (True, eu) \<and> url_decode tp = (True, ep) \<and>
            Username u = bytes_string (base64_decode eu) \<and> p = bytes_string (base64_decode ep)))"

lemma find_user_name: "find_user us n = Some u \<Longrightarrow> Username u = n"
  by (auto simp: find_user_def find_Some_iff)

lemma login_failed_eq: "login_failed s w = (ok, s', w') \<longleftrightarrow>
    \<not> ok \<and> s' = s \<and> w' = w\<lparr>m_failcounter := m_failcounter w + 1\<rparr>"
  by (auto simp: login_failed_def)

lemma login_ok_eq: "login_ok u s w = (ok, s', w') \<longleftrightarrow>
    ok \<and> s' = grant u s \<and> w' = w\<lparr>m_failcounter := 0\<rparr>"
  by (auto simp: login_ok_def)

lemma authorize_cases:
  assumes "authorize md5 req s w = (ok, s', w')"
  shows "(ok \<and> (\<exists>u. password_shown md5 (m_userpasswords w) req u \<and> s' = grant u s) \<or> \<not> ok \<and> s' = s) \<and>
    (\<exists>n. w' = w\<lparr>m_failcounter := n\<rparr>)"
proof (cases "parse_auth_header req")
  case (Some nr)
  obtain name response where "nr = (name, response)" by (cases nr)
  with assms Some show ?thesis
    by (auto simp: authorize_def login_failed_eq login_ok_eq check_password_def password_shown_def
        dest: find_user_name split: option.splits if_splits)
next
  case None
  have w: "\<exists>n. w = w\<lparr>m_failcounter := n\<rparr>" by (rule exI [of _ "m_failcounter w"]) simp
  show ?thesis
  proof (cases ok)
    case False
    with assms None w show ?thesis
      by (auto simp: authorize_def authorize_uri_def login_failed_eq login_ok_eq
          split: option.splits prod.splits if_splits bool.splits)
  next
    case True
    with assms None obtain tu tp eu ep u where
        "uri_value (rq_uri req) ''username='' = Some tu" "uri_value (rq_uri req) ''password='' = Some tp"
        "url_decode tu = (True, eu)" "url_decode tp = (True, ep)"
        "find_user (m_userpasswords w) (bytes_string (base64_decode eu)) = Some u"
        "Password u = md5 (bytes_string (base64_decode ep))" "s' = grant u s" "w' = w\<lparr>m_failcounter := 0\<rparr>"
      by (auto simp: authorize_def authorize_uri_def login_failed_eq login_ok_eq
          split: option.splits prod.splits if_splits bool.splits)
    moreover from this(5) have "Username u = bytes_string (base64_decode eu)" by (rule find_user_name)
    ultimately have "password_shown md5 (m_userpasswords w) req u"
      using None by (auto simp: password_shown_def)
    with True \<open>s' = grant u s\<close> \<open>w' = _\<close> show ?thesis by blast
  qed
qed

lemma checkAuthToken_sound:
  assumes "checkAuthToken md5 now s w = (True, s', w')" "mySessionStore w = Some st"
  shows "se_id s \<noteq> [] \<and> auth_token s \<noteq> [] \<and> ss_id (store_GetSession st (web_db w) (se_id s)) \<noteq> [] \<and>
    ss_auth_token (store_GetSession st (web_db w) (se_id s)) = md5 (auth_token s)"
  using assms by (auto simp: checkAuthToken_def Let_def split: if_splits)

lemma without_cookie_sound:
  assumes "without_cookie md5 req s rep w = (True, s', rep', w')" "rights s \<noteq> 2"
  shows "(\<exists>u. password_shown md5 (m_userpasswords w) req u \<and> rights s' = userrights u) \<or>
    (whitelisted w (rq_uri req) \<and> rights s' = rights s)"
proof -
  obtain ok s1 w1 where 1: "(if contains (rq_uri req) ''json.htm'' then authorize md5 req s w
      else (False, s, w)) = (ok, s1, w1)"
    by (cases "if contains (rq_uri req) ''json.htm'' then authorize md5 req s w else (False, s, w)")
  obtain ok2 s2 w2 where 2: "authorize md5 req s1 w1 = (ok2, s2, w2)"
    by (cases "authorize md5 req s1 w1")
  have w: "\<exists>n. w = w\<lparr>m_failcounter := n\<rparr>" by (rule exI [of _ "m_failcounter w"]) simp
  have a: "(ok \<and> (\<exists>u. password_shown md5 (m_userpasswords w) req u \<and> s1 = grant u s) \<or> \<not> ok \<and> s1 = s) \<and>
    (\<exists>n. w1 = w\<lparr>m_failcounter := n\<rparr>)"
  proof (cases "contains (rq_uri req) ''json.htm''")
    case True
    with 1 show ?thesis by (intro authorize_cases) simp
  next
    case False
    with 1 w show ?thesis by simp
  qed
  have g: "rights (grant u t) = userrights u" for u t by (simp add: grant_def)
  have b: "without_cookie md5 req s rep w =
      (if ok then (True, s1, rep, w1)
       else if m_authmethod w1 = AUTH_BASIC then
         (if ok2 then (True, s2, rep, w2)
          else if m_failcounter w2 > 2 then (False, s2, stock_reply st_service_unavailable, w2\<lparr>m_failcounter := 0\<rparr>)
          else refuse s2 w2)
       else whitelist_or_refuse req s1 rep w1)"
    using assms(2) unfolding without_cookie_def 1 2 Let_def prod.case by simp
  show ?thesis
  proof (cases ok)
    case True
    with a b assms(1) g show ?thesis by auto
  next
    case False
    with a obtain n where n: "s1 = s" "w1 = w\<lparr>m_failcounter := n\<rparr>" by auto
    have wl: "whitelisted w1 = whitelisted w" by (rule ext) (simp add: n whitelisted_def)
    show ?thesis
    proof (cases "m_authmethod w1 = AUTH_BASIC")
      case True
      with False b assms(1) have "ok2" "s2 = s'" by (auto simp: refuse_def split: if_splits)
      with authorize_cases [OF 2] n g show ?thesis by auto
    next
      case f: False
      with False b assms(1) n wl show ?thesis
        by (simp add: whitelist_or_refuse_def refuse_def split: if_splits)
    qed
  qed
qed

section \<open>Cookies round trip\<close>

lemma find_at_char: "c \<notin> set a \<Longrightarrow> find_at i [c] (a @ c # b) = Some (i + length a)"
  by (induction a arbitrary: i) auto

lemma str_find_char: "c \<notin> set a \<Longrightarrow> str_find [c] (p @ a @ c # b) (length p) = Some (length p + length a)"
  by (simp add: str_find_def find_at_char)

definition session_cookie :: "WebEmSession \<Rightarrow> string" where
  "session_cookie s = ''DMZSID='' @ se_id s @ ''_'' @ auth_token s @ ''.'' @ int_to_string (expires s)"

lemma send_cookie_eq:
  "send_cookie s rep = add_header ''Set-Cookie''
     (session_cookie s @ ''; HttpOnly; path=/; Expires='' @ make_web_time (expires s)) False rep"
  by (simp add: send_cookie_def session_cookie_def)

lemma int_to_string_chars: "c \<in> set (int_to_string i) \<Longrightarrow> is_digit_char c \<or> c = CHR ''-''"
  using nat_to_string_digits by (auto simp: int_to_string_def list_all_iff split: if_splits)

lemma drop_exact: "n = length a \<Longrightarrow> s = a @ b \<Longrightarrow> drop n s = b"
  by simp

lemma parse_session_cookie_own:
  assumes "list_all is_alnum (se_id s)" "list_all (\<lambda>c. is_base64 c \<or> c = CHR ''='') (auth_token s)"
    and "rest = [] \<or> hd rest = CHR '';''"
  shows "parse_session_cookie (session_cookie s @ rest) =
    Some (se_id s, auth_token s, int_to_string (expires s))"
proof -
  have al: "\<not> is_alnum (CHR ''_'')" "\<not> is_alnum (CHR '';'')" "\<not> is_alnum (CHR ''.'')"
    by code_simp+
  have i: "CHR ''_'' \<notin> set (se_id s)" "CHR '';'' \<notin> set (se_id s)"
    using assms(1) al by (auto simp: list_all_iff)
  have t: "CHR ''.'' \<notin> set (auth_token s)" "CHR '';'' \<notin> set (auth_token s)"
    using assms(2) al by (auto simp: list_all_iff is_base64_def)
  have e: "CHR '';'' \<notin> set (int_to_string (expires s))"
    using int_to_string_chars [of "CHR '';''"] by (auto simp: is_digit_char_def)
  have "CHR '';'' \<notin> set (session_cookie s)"
    using i t e by (simp add: session_cookie_def)
  then have c: "takeWhile (\<lambda>x. x \<noteq> CHR '';'') (session_cookie s @ rest) = session_cookie s"
    using assms(3) by (cases rest) (auto simp: takeWhile_append)
  have d: "str_find ''DMZSID='' (session_cookie s @ rest) 0 = Some 0"
    by (simp add: session_cookie_def str_find_def)
  let ?n = "7 + length (se_id s)"
  have u: "str_find ''_'' (session_cookie s) 0 = Some ?n"
    using str_find_char [of "CHR ''_''" "''DMZSID='' @ se_id s" "[]"
        "auth_token s @ ''.'' @ int_to_string (expires s)"] i
    by (simp add: session_cookie_def)
  have "str_find ''.'' ((''DMZSID='' @ se_id s) @ (''_'' @ auth_token s) @ CHR ''.'' # int_to_string (expires s))
      (length (''DMZSID='' @ se_id s)) =
      Some (length (''DMZSID='' @ se_id s) + length (''_'' @ auth_token s))"
    using t by (intro str_find_char) simp
  moreover have "length (''DMZSID='' @ se_id s) = ?n" by simp
  moreover have "(''DMZSID='' @ se_id s) @ (''_'' @ auth_token s) @ CHR ''.'' # int_to_string (expires s) =
      session_cookie s" by (simp add: session_cookie_def)
  ultimately have "str_find ''.'' (session_cookie s) ?n = Some (?n + length (''_'' @ auth_token s))"
    by (simp only:)
  moreover have "substr (session_cookie s) 7 (?n - 7) = se_id s"
    by (simp add: session_cookie_def substr_def)
  moreover have "drop (?n + 1) (session_cookie s) = auth_token s @ ''.'' @ int_to_string (expires s)"
    by (rule drop_exact [of _ "''DMZSID='' @ se_id s @ ''_''"]) (simp_all add: session_cookie_def)
  moreover have "drop (?n + length (''_'' @ auth_token s) + 1) (session_cookie s) = int_to_string (expires s)"
    by (rule drop_exact [of _ "''DMZSID='' @ se_id s @ ''_'' @ auth_token s @ ''.''"])
      (simp_all add: session_cookie_def)
  ultimately show ?thesis
    unfolding parse_session_cookie_def d option.case Let_def drop_0 c u by (simp add: substr_def)
qed

lemma stream_time_text:
  assumes "- (2 ^ 63) \<le> t" "t < 2 ^ 63"
  shows "stream_time junk (int_to_string t) = t"
proof -
  have "\<not> list_all is_c_space (nat_to_string n)" for n
  proof (cases "nat_to_string n")
    case (Cons c cs)
    then show ?thesis using nat_to_string_digits [of n] digit_not_sign [of c] by simp
  qed simp
  then have "\<not> list_all is_c_space (int_to_string t)" by (auto simp: int_to_string_def)
  with assms show ?thesis
    by (simp add: stream_time_def strtol10_int_to_string clamp64_def)
qed

section \<open>Properties\<close>

text \<open>C14: Nobody is let in without credentials: when \<^verbatim>\<open>CheckAuthentication\<close> says yes, then no users
  are defined, or the client is in a local network, or its cookie names a stored session and shows
  the token whose hash is stored, or it showed the password of a user, whose rights it gets, or the
  command is on the white list and the session has no rights.  This holds for every session store.\<close>

theorem access_needs_credentials:
  assumes "CheckAuthentication md5 junk now req s rep w = (True, s', rep', w')" "mySessionStore w \<noteq> None"
    and "sessions_keyed w"
  shows "m_userpasswords w = [] \<or> AreWeInLocalNetwork (m_localnetworks w) (remote_host s) \<or>
    token_shown md5 w req \<or>
    (\<exists>u. password_shown md5 (m_userpasswords w) req u \<and> rights s' = userrights u) \<or>
    (whitelisted w (rq_uri req) \<and> rights s' = - 1)"
proof (rule ccontr)
  assume n: "\<not> ?thesis"
  define s0 where "s0 = s\<lparr>se_id := [], rights := - 1\<rparr>"
  have r: "rights s0 = - 1" by (simp add: s0_def)
  note wc = without_cookie_sound [of md5 req s0 rep w s' rep' w']
  obtain st where st: "mySessionStore w = Some st" using assms(2) by auto
  show False
  proof (cases "get_req_header req ''Cookie''")
    case None
    with assms(1) n have "without_cookie md5 req s0 rep w = (True, s', rep', w')"
      by (simp add: CheckAuthentication_def s0_def)
    from wc [OF this] n r show False by auto
  next
    case (Some cookie)
    obtain sid token time where p: "(case parse_session_cookie cookie of None \<Rightarrow> ([], [], []) | Some t \<Rightarrow> t) = (sid, token, time)"
      by (cases "case parse_session_cookie cookie of None \<Rightarrow> ([], [], []) | Some t \<Rightarrow> t")
    define ex where "ex = (parse_session_cookie cookie \<noteq> None \<and> stream_time junk time < now)"
    show False
    proof (cases "sid \<noteq> [] \<and> token \<noteq> [] \<and> time \<noteq> []")
      case True
      then have c: "parse_session_cookie cookie = Some (sid, token, time)"
        using p by (auto split: option.splits)
      have "token_cookie md5 now sid token ex s0 rep w = (True, s', rep', w')"
        using assms(1) n Some p True by (simp add: CheckAuthentication_def s0_def ex_def)
      then obtain s1 where "checkAuthToken md5 now (s1\<lparr>auth_token := token\<rparr>) w = (True, s', w')"
          "s1 = (case GetSession w sid of None \<Rightarrow> s0\<lparr>se_id := sid\<rparr> | Some o1 \<Rightarrow> o1)"
        by (auto simp: token_cookie_def Let_def refuse_def split: if_splits prod.splits bool.splits)
      moreover from this(2) have "se_id s1 = sid"
        using assms(3) by (auto dest: sessions_keyed_Get split: option.splits)
      ultimately have "ss_id (store_GetSession st (web_db w) sid) \<noteq> [] \<and>
          ss_auth_token (store_GetSession st (web_db w) sid) = md5 token"
        using checkAuthToken_sound [of md5 now "s1\<lparr>auth_token := token\<rparr>" w s' w' st] st by simp
      with c Some st True n show False unfolding token_shown_def by blast
    next
      case False
      then have "(if m_authmethod w \<noteq> AUTH_BASIC then whitelist_or_refuse req s0 rep w
          else without_cookie md5 req s0 rep w) = (True, s', rep', w')"
        using assms(1) n Some p by (auto simp: CheckAuthentication_def s0_def split: if_splits)
      with wc n r show False
        by (auto simp: whitelist_or_refuse_def refuse_def split: if_splits)
    qed
  qed
qed

theorem access_needs_credentials_witness:
  "\<exists>u. password_shown (GenerateMD5Hash example_digest) [example_user]
     (new_request\<lparr>rq_uri := ''/json.htm'', rq_headers := [\<lparr>h_name = ''Authorization'', h_value = ''Basic dTpw''\<rparr>]\<rparr>) u"
proof -
  let ?req = "new_request\<lparr>rq_uri := ''/json.htm'', rq_headers := [\<lparr>h_name = ''Authorization'', h_value = ''Basic dTpw''\<rparr>]\<rparr>"
  let ?w = "example_webem table_store (\<lambda>sid. no_stored)"
  have e: "fst (CheckAuthentication (\<lambda>s. replicate 32 (CHR ''0'')) 0 0 ?req no_session (stock_reply st_ok) ?w)"
    by code_simp
  then obtain s' rep' w' where "CheckAuthentication (GenerateMD5Hash example_digest) 0 0 ?req no_session
      (stock_reply st_ok) ?w = (True, s', rep', w')"
    by (cases "CheckAuthentication (\<lambda>s. replicate 32 (CHR ''0'')) 0 0 ?req no_session
      (stock_reply st_ok) ?w") (auto simp: example_md5)
  from access_needs_credentials [OF this] show ?thesis
    by (auto simp: example_webem_def sessions_keyed_def GetSession_def AreWeInLocalNetwork_def
        token_shown_def whitelisted_def get_req_header_def new_request_def lowercase_def)
qed

text \<open>A session outlives the server: with a store that gives back what was stored, the cookie sent
  with a new token lets the client in again after all sessions in memory are gone, as the same user
  with that user's rights, until the session expires.\<close>

theorem token_restores_session:
  assumes contract: "\<And>x db. store_GetSession st (store_StoreSession st x db) (ss_id x) = x"
    and digest: "\<And>x. length (digest x) = 16"
    and st: "mySessionStore w = Some st" and uuid: "uuid \<noteq> []"
    and id: "se_id s = generateSessionID (GenerateMD5Hash digest) uuid'"
    and user: "find_user (m_userpasswords w) (se_username s) = Some u"
    and time: "now \<le> expires s" "0 \<le> now" "expires s < 2 ^ 63"
    and token: "generateAuthToken (GenerateMD5Hash digest) uuid s w = (token, w1)"
    and cookie: "get_req_header req ''Cookie'' = Some (session_cookie (s\<lparr>auth_token := token\<rparr>))"
    and remote: "\<not> AreWeInLocalNetwork (m_localnetworks w) (remote_host s0)" "se_username s0 = []"
    and name: "se_username s \<noteq> []"
  shows "\<exists>s' w'. CheckAuthentication (GenerateMD5Hash digest) junk now req s0 rep (w1\<lparr>m_sessions := []\<rparr>) =
      (True, s', rep, w') \<and> se_id s' = se_id s \<and> se_username s' = se_username s \<and>
      rights s' = userrights u \<and> GetSession w' (se_id s) = Some s'"
proof -
  let ?md5 = "GenerateMD5Hash digest" and ?w = "w1\<lparr>m_sessions := []\<rparr>"
  let ?x = "\<lparr>ss_id = se_id s, ss_remote_host = remote_host s, ss_auth_token = ?md5 token,
     ss_username = se_username s, ss_expires = expires s\<rparr>"
  have t: "token = base64_encode uuid" and w1: "w1 = w\<lparr>web_db := store_StoreSession st ?x (web_db w)\<rparr>"
    using token st by (auto simp: generateAuthToken_def Let_def)
  have stored: "store_GetSession st (web_db w1) (se_id s) = ?x"
    using contract [of ?x "web_db w"] by (simp add: w1)
  have idne: "se_id s \<noteq> []" using md5_length [of digest "base64_encode uuid'", OF digest]
    by (auto simp: id generateSessionID_def)
  have tne: "token \<noteq> []" using base64_nonempty [OF uuid] by (simp add: t)
  have p: "parse_session_cookie (session_cookie (s\<lparr>auth_token := token\<rparr>)) =
      Some (se_id s, token, int_to_string (expires s))"
    using parse_session_cookie_own [of "s\<lparr>auth_token := token\<rparr>" "[]"] md5_alnum base64_encode_chars
    by (auto simp: id generateSessionID_def t list_all_iff)
  have e: "stream_time junk (int_to_string (expires s)) = expires s"
    using time by (intro stream_time_text) auto
  have ne: "int_to_string (expires s) \<noteq> []" by (simp add: int_to_string_def)
  have us: "m_userpasswords w \<noteq> []" using user by (auto simp: find_user_def)
  define s1 where "s1 = s0\<lparr>rights := - 1, se_id := se_id s, auth_token := token\<rparr>"
  define s2 where "s2 = s1\<lparr>se_username := se_username s, expires := expires s, rights := userrights u\<rparr>"
  have "checkAuthToken ?md5 now s1 ?w = (True, s2, AddSession s2 ?w)"
    using st stored idne tne remote(2) user time(1)
    by (simp add: checkAuthToken_def Let_def s1_def s2_def restore_user_def GetSession_def w1)
  then have "CheckAuthentication ?md5 junk now req s0 rep ?w = (True, s2, rep, AddSession s2 ?w)"
    using cookie p e ne idne tne us remote(1) time(1)
    by (simp add: CheckAuthentication_def Let_def token_cookie_def GetSession_def w1 s1_def)
  moreover have "GetSession (AddSession s2 ?w) (se_id s) = Some s2"
    by (simp add: GetSession_def AddSession_def s2_def s1_def)
  ultimately show ?thesis by (auto simp: s2_def s1_def)
qed

theorem token_restores_session_witness:
  "\<exists>s' w'. CheckAuthentication (GenerateMD5Hash example_digest) 0 100
      (new_request\<lparr>rq_headers := [\<lparr>h_name = ''Cookie'', h_value = session_cookie
        (no_session\<lparr>se_id := replicate 32 (CHR ''0''), expires := 700, auth_token := ''AQ==''\<rparr>)\<rparr>]\<rparr>)
      no_session (stock_reply st_ok)
      (snd (generateAuthToken (GenerateMD5Hash example_digest) [1]
         (no_session\<lparr>se_id := replicate 32 (CHR ''0''), se_username := ''u'', expires := 700\<rparr>)
         (example_webem table_store (\<lambda>sid. no_stored)))\<lparr>m_sessions := []\<rparr>) = (True, s', stock_reply st_ok, w') \<and>
    rights s' = 1"
proof -
  let ?s = "no_session\<lparr>se_id := replicate 32 (CHR ''0''), se_username := ''u'', expires := 700\<rparr>"
  let ?w = "example_webem table_store (\<lambda>sid. no_stored)"
  have t: "base64_encode [1] = ''AQ==''" by code_simp
  obtain token w1 where g: "generateAuthToken (GenerateMD5Hash example_digest) [1] ?s ?w = (token, w1)"
    by (cases "generateAuthToken (GenerateMD5Hash example_digest) [1] ?s ?w")
  then have tok: "token = ''AQ==''" by (auto simp: generateAuthToken_def Let_def t)
  have c: "store_GetSession table_store (store_StoreSession table_store x db) (ss_id x) = x" for x db
    by (simp add: table_store_def)
  have d: "length (example_digest x) = 16" for x by (simp add: example_digest_def)
  have i: "se_id ?s = generateSessionID (GenerateMD5Hash example_digest) []"
    by (simp add: generateSessionID_def example_md5)
  have m: "mySessionStore ?w = Some table_store" by (simp add: example_webem_def)
  have u: "find_user (m_userpasswords ?w) (se_username ?s) = Some example_user"
    by (simp add: example_webem_def find_user_def example_user_def)
  let ?req = "new_request\<lparr>rq_headers := [\<lparr>h_name = ''Cookie'', h_value = session_cookie
    (no_session\<lparr>se_id := replicate 32 (CHR ''0''), expires := 700, auth_token := ''AQ==''\<rparr>)\<rparr>]\<rparr>"
  have h: "get_req_header ?req ''Cookie'' = Some (session_cookie (?s\<lparr>auth_token := token\<rparr>))"
    by (simp add: get_req_header_def new_request_def lowercase_def session_cookie_def tok)
  have l: "\<not> AreWeInLocalNetwork (m_localnetworks ?w) (remote_host no_session)"
    by (simp add: example_webem_def AreWeInLocalNetwork_def)
  have r: "userrights example_user = 1" by (simp add: example_user_def)
  have "\<exists>s' w'. CheckAuthentication (GenerateMD5Hash example_digest) 0 100 ?req no_session
      (stock_reply st_ok) (w1\<lparr>m_sessions := []\<rparr>) = (True, s', stock_reply st_ok, w') \<and>
      se_id s' = se_id ?s \<and> se_username s' = se_username ?s \<and> rights s' = userrights example_user \<and>
      GetSession w' (se_id ?s) = Some s'"
    by (rule token_restores_session [OF c d m _ i u _ _ _ g h l]) (simp_all add: no_session_def)
  then show ?thesis by (auto simp: g r)
qed

text \<open>With the session store of the server no token is ever accepted: it compares the hash of the
  token with the third column of its \<^verbatim>\<open>SELECT\<close>, an integer, so every restored session is refused.\<close>

theorem server_store_rejects:
  assumes "mySessionStore w = Some (CWebServer_store query exec expiry local_time junk undef_insert)"
    and "\<And>x. length (digest x) = 16"
    and "\<And>sql row. row \<in> set (query (web_db w) sql) \<Longrightarrow> length (row ! 2) \<le> 20"
  shows "fst (checkAuthToken (GenerateMD5Hash digest) now s w) = False"
proof -
  have "length (ss_auth_token (server_GetSession query expiry junk (web_db w) sid)) < 32" for sid
    using assms(3) [of _ "select_session_sql sid", THEN le_less_trans, of _ 32]
    by (cases "query (web_db w) (select_session_sql sid)")
      (auto simp: server_GetSession_def Let_def)
  then have "ss_auth_token (server_GetSession query expiry junk (web_db w) sid) \<noteq> GenerateMD5Hash digest x" for sid x
    using md5_length [of digest x, OF assms(2)] by (metis less_irrefl)
  then show ?thesis
    using assms(1) by (simp add: checkAuthToken_def Let_def CWebServer_store_def)
qed

theorem server_store_rejects_witness:
  "fst (checkAuthToken (GenerateMD5Hash example_digest) 100 (no_session\<lparr>se_id := ''a'', auth_token := ''t''\<rparr>)
     (example_webem (CWebServer_store (\<lambda>db sql. [[''a'', ''dQ=='', ''3'', replicate 32 (CHR ''0''), ''2030'']])
        (\<lambda>db sql. db) (\<lambda>s. 0) (\<lambda>t. []) 0 (\<lambda>s db. db)) ())) = False"
  by (rule server_store_rejects) (auto simp: example_webem_def example_digest_def)

end
