(* ===== verification/Sha1.thy ===== *)
theory Sha1
  imports Prelude
begin

unbundle bit_operations_syntax

text \<open>
  \<^verbatim>\<open>web/webserver/sha1.hpp\<close>: SHA-1 with one buffer of 80 words that is reused for all blocks and
  not cleared between them, and with padding written into that buffer, against the algorithm as the
  standard states it: a padded message, a schedule defined by recursion, 80 rounds.
\<close>

type_synonym word32 = "32 word"
type_synonym sha_state = "word32 \<times> word32 \<times> word32 \<times> word32 \<times> word32"

section \<open>The code\<close>

definition rol :: "word32 \<Rightarrow> nat \<Rightarrow> word32" where
  "rol value steps = push_bit steps value OR drop_bit (32 - steps) value"

definition clearWBuffert :: "word32 list \<Rightarrow> word32 list" where
  "clearWBuffert w = replicate 16 0 @ drop 16 w"

definition sha1macro :: "(word32 \<Rightarrow> word32 \<Rightarrow> word32 \<Rightarrow> word32) \<Rightarrow> word32 \<Rightarrow> word32 \<Rightarrow> sha_state \<Rightarrow> sha_state"
where
  "sha1macro f val wr s = (case s of (a, b, c, d, e) \<Rightarrow>
     let t = rol a 5 + f b c d + e + val + wr in (t, a, rol b 30, c, d))"

text \<open>A round with the schedule computed on the way: the state and the buffer.\<close>

definition expand_at :: "nat \<Rightarrow> word32 list \<Rightarrow> word32 list" where
  "expand_at r w =
     w[r := rol (w ! (r - 3) XOR w ! (r - 8) XOR w ! (r - 14) XOR w ! (r - 16)) 1]"

definition expanding_round ::
  "(word32 \<Rightarrow> word32 \<Rightarrow> word32 \<Rightarrow> word32) \<Rightarrow> word32 \<Rightarrow> sha_state \<times> word32 list \<Rightarrow> nat
     \<Rightarrow> sha_state \<times> word32 list" where
  "expanding_round f val sw r = (case sw of (s, w) \<Rightarrow>
     let w' = expand_at r w in (sha1macro f val (w' ! r) s, w'))"

definition f_choose :: "word32 \<Rightarrow> word32 \<Rightarrow> word32 \<Rightarrow> word32" where
  "f_choose b c d = (b AND c) OR (NOT b AND d)"
definition f_parity :: "word32 \<Rightarrow> word32 \<Rightarrow> word32 \<Rightarrow> word32" where
  "f_parity b c d = b XOR c XOR d"
definition f_majority :: "word32 \<Rightarrow> word32 \<Rightarrow> word32 \<Rightarrow> word32" where
  "f_majority b c d = (b AND c) OR (b AND d) OR (c AND d)"

definition add_state :: "sha_state \<Rightarrow> sha_state \<Rightarrow> sha_state" where
  "add_state r s = (case (r, s) of ((h0, h1, h2, h3, h4), (a, b, c, d, e)) \<Rightarrow>
     (h0 + a, h1 + b, h2 + c, h3 + d, h4 + e))"

text \<open>The five loops over the rounds.\<close>

definition innerHash :: "sha_state \<Rightarrow> word32 list \<Rightarrow> sha_state \<times> word32 list" where
  "innerHash result w =
     (let s1 = foldl (\<lambda>s r. sha1macro f_choose 0x5a827999 (w ! r) s) result [0..<16];
          x2 = foldl (expanding_round f_choose 0x5a827999) (s1, w) [16..<20];
          x3 = foldl (expanding_round f_parity 0x6ed9eba1) x2 [20..<40];
          x4 = foldl (expanding_round f_majority 0x8f1bbcdc) x3 [40..<60];
          (s5, w5) = foldl (expanding_round f_parity 0xca62c1d6) x4 [60..<80]
      in (add_state result s5, w5))"

text \<open>A block of 64 bytes as big-endian words in front of the buffer.\<close>

definition word4 :: "byte \<Rightarrow> byte \<Rightarrow> byte \<Rightarrow> byte \<Rightarrow> word32" where
  "word4 b0 b1 b2 b3 =
     ucast b3 OR push_bit 8 (ucast b2) OR push_bit 16 (ucast b1) OR push_bit 24 (ucast b0)"

definition block_words :: "bytes \<Rightarrow> word32 list" where
  "block_words bs =
     map (\<lambda>i. word4 (bs ! (4 * i)) (bs ! (4 * i + 1)) (bs ! (4 * i + 2)) (bs ! (4 * i + 3))) [0..<16]"

fun full_blocks :: "sha_state \<times> word32 list \<Rightarrow> bytes \<Rightarrow> (sha_state \<times> word32 list) \<times> bytes" where
  "full_blocks (result, w) src =
     (if length src \<ge> 64
      then full_blocks (innerHash result (block_words (take 64 src) @ drop 16 w)) (drop 64 src)
      else ((result, w), src))"

declare full_blocks.simps [simp del]

definition or_byte :: "word32 list \<Rightarrow> nat \<times> byte \<Rightarrow> word32 list" where
  "or_byte w ib = (case ib of (i, b) \<Rightarrow>
     w[i div 4 := w ! (i div 4) OR push_bit ((3 - i mod 4) * 8) (ucast b)])"

definition hash_bytes :: "sha_state \<Rightarrow> bytes" where
  "hash_bytes s = (case s of (a, b, c, d, e) \<Rightarrow>
     concat (map (\<lambda>x. map (\<lambda>i. ucast (drop_bit ((3 - i) * 8) x)) [0..<4]) [a, b, c, d, e]))"

definition sha_init :: sha_state where
  "sha_init = (0x67452301, 0xefcdab89, 0x98badcfe, 0x10325476, 0xc3d2e1f0)"

text \<open>\<open>w0\<close> is the buffer, which is not initialised.\<close>

definition calc :: "word32 list \<Rightarrow> bytes \<Rightarrow> bytes" where
  "calc w0 src =
     (let ((r1, w1), rest) = full_blocks (sha_init, w0) src;
          w2 = foldl or_byte (clearWBuffert w1) (zip [0..<length rest] rest);
          w3 = or_byte w2 (length rest, 0x80);
          (r4, w4) = (if length rest \<ge> 56
                      then let (r, w) = innerHash r1 w3 in (r, clearWBuffert w) else (r1, w3));
          w5 = w4[15 := word_of_nat (length src * 8)]
      in hash_bytes (fst (innerHash r4 w5)))"

section \<open>The standard\<close>

fun schedule :: "word32 list \<Rightarrow> nat \<Rightarrow> word32" where
  "schedule m t =
     (if t < 16 then m ! t
      else rol (schedule m (t - 3) XOR schedule m (t - 8) XOR schedule m (t - 14) XOR
                schedule m (t - 16)) 1)"

declare schedule.simps [simp del]

definition sha_f :: "nat \<Rightarrow> word32 \<Rightarrow> word32 \<Rightarrow> word32 \<Rightarrow> word32" where
  "sha_f t x y z =
     (if t < 20 then (x AND y) XOR (NOT x AND z)
      else if t < 40 then x XOR y XOR z
      else if t < 60 then (x AND y) XOR (x AND z) XOR (y AND z)
      else x XOR y XOR z)"

definition sha_k :: "nat \<Rightarrow> word32" where
  "sha_k t = (if t < 20 then 0x5a827999 else if t < 40 then 0x6ed9eba1
     else if t < 60 then 0x8f1bbcdc else 0xca62c1d6)"

definition sha_round :: "word32 list \<Rightarrow> sha_state \<Rightarrow> nat \<Rightarrow> sha_state" where
  "sha_round m s t = (case s of (a, b, c, d, e) \<Rightarrow>
     (rol a 5 + sha_f t b c d + e + sha_k t + schedule m t, a, rol b 30, c, d))"

definition sha_compress :: "sha_state \<Rightarrow> word32 list \<Rightarrow> sha_state" where
  "sha_compress h m = add_state h (foldl (sha_round m) h [0..<80])"

text \<open>One bit, zeros and the length in 64 bits, up to a multiple of 64 bytes.\<close>

definition length_bytes :: "nat \<Rightarrow> bytes" where
  "length_bytes n = map (\<lambda>i. word_of_nat (n * 8 div 256 ^ (7 - i))) [0..<8]"

definition sha_pad :: "bytes \<Rightarrow> bytes" where
  "sha_pad src = src @ [0x80] @ replicate ((119 - length src mod 64) mod 64) 0 @ length_bytes (length src)"

fun sha_blocks :: "sha_state \<Rightarrow> bytes \<Rightarrow> sha_state" where
  "sha_blocks h bs =
     (if length bs \<ge> 64 then sha_blocks (sha_compress h (block_words (take 64 bs))) (drop 64 bs) else h)"

declare sha_blocks.simps [simp del]

definition SHA1 :: "bytes \<Rightarrow> bytes" where
  "SHA1 src = hash_bytes (sha_blocks sha_init (sha_pad src))"

section \<open>The rounds\<close>

lemma sha_f_eq:
  "t < 20 \<Longrightarrow> sha_f t = f_choose"
  "20 \<le> t \<Longrightarrow> t < 40 \<Longrightarrow> sha_f t = f_parity"
  "40 \<le> t \<Longrightarrow> t < 60 \<Longrightarrow> sha_f t = f_majority"
  "60 \<le> t \<Longrightarrow> sha_f t = f_parity"
  by (intro ext bit_word_eqI;
      auto simp: sha_f_def f_choose_def f_parity_def f_majority_def bit_simps)+

text \<open>The state and the buffer after \<open>r\<close> rounds on the block in the first words of the buffer.\<close>

definition rounds_done :: "word32 list \<Rightarrow> sha_state \<Rightarrow> nat \<Rightarrow> sha_state \<times> word32 list \<Rightarrow> bool" where
  "rounds_done m h r sw \<longleftrightarrow> length (snd sw) = 80 \<and>
     (\<forall>t < max 16 r. snd sw ! t = schedule m t) \<and> fst sw = foldl (sha_round m) h [0..<r]"

lemma sha_round_macro: "sha_round m s r = sha1macro (sha_f r) (sha_k r) (schedule m r) s"
  by (cases s) (simp add: sha_round_def sha1macro_def Let_def)

lemma plain_rounds:
  assumes "\<forall>t < 16. w ! t = schedule m t" "r \<le> 16"
  shows "foldl (\<lambda>s r. sha1macro f_choose 0x5a827999 (w ! r) s) h [0..<r] = foldl (sha_round m) h [0..<r]"
  using assms(2)
proof (induction r)
  case (Suc r)
  then show ?case using assms(1) by (simp add: sha_round_macro sha_f_eq sha_k_def)
qed simp

lemma expanding_round_done:
  assumes "rounds_done m h r sw" "16 \<le> r" "r < 80" "f = sha_f r" "k = sha_k r"
  shows "rounds_done m h (Suc r) (expanding_round f k sw r)"
proof -
  obtain s w where sw: "sw = (s, w)" by (cases sw)
  have w: "length w = 80" "\<forall>t < r. w ! t = schedule m t" "s = foldl (sha_round m) h [0..<r]"
    using assms(1,2) by (auto simp: rounds_done_def sw)
  have e: "expand_at r w ! r = schedule m r"
    using w assms(2,3) by (subst schedule.simps) (simp add: expand_at_def)
  have o: "expand_at r w ! t = w ! t" if "t \<noteq> r" for t using that by (simp add: expand_at_def)
  have "expand_at r w ! t = schedule m t" if "t < Suc r" for t
    using that w e o by (cases "t = r") auto
  moreover have "length (expand_at r w) = 80" using w by (simp add: expand_at_def)
  ultimately show ?thesis
    using assms(2,4,5) w e by (auto simp: rounds_done_def expanding_round_def sw Let_def sha_round_macro)
qed

lemma expanding_rounds_done:
  assumes "rounds_done m h a sw" "16 \<le> a" "a \<le> b" "b \<le> 80"
    and "\<And>r. a \<le> r \<Longrightarrow> r < b \<Longrightarrow> f = sha_f r \<and> k = sha_k r"
  shows "rounds_done m h b (foldl (expanding_round f k) sw [a..<b])"
  using assms(3,4,5)
proof (induction b rule: dec_induct)
  case base
  then show ?case using assms(1) by simp
next
  case (step b)
  then have "rounds_done m h b (foldl (expanding_round f k) sw [a..<b])" by simp
  then show ?case
    using step assms(2) expanding_round_done [of m h b _ f k] by simp
qed

lemma innerHash_eq:
  assumes "length w = 80"
  shows "fst (innerHash h w) = sha_compress h (take 16 w)" "length (snd (innerHash h w)) = 80"
proof -
  let ?m = "take 16 w"
  have s: "\<forall>t < 16. w ! t = schedule ?m t" by (simp add: schedule.simps)
  let ?x1 = "(foldl (\<lambda>s r. sha1macro f_choose 0x5a827999 (w ! r) s) h [0..<16], w)"
  have 1: "rounds_done ?m h 16 ?x1"
    using s plain_rounds [OF s order.refl] assms by (simp add: rounds_done_def)
  let ?x2 = "foldl (expanding_round f_choose 0x5a827999) ?x1 [16..<20]"
  have 2: "rounds_done ?m h 20 ?x2"
    by (rule expanding_rounds_done [OF 1]) (simp_all add: sha_f_eq sha_k_def)
  let ?x3 = "foldl (expanding_round f_parity 0x6ed9eba1) ?x2 [20..<40]"
  have 3: "rounds_done ?m h 40 ?x3"
    by (rule expanding_rounds_done [OF 2]) (simp_all add: sha_f_eq sha_k_def)
  let ?x4 = "foldl (expanding_round f_majority 0x8f1bbcdc) ?x3 [40..<60]"
  have 4: "rounds_done ?m h 60 ?x4"
    by (rule expanding_rounds_done [OF 3]) (simp_all add: sha_f_eq sha_k_def)
  let ?x5 = "foldl (expanding_round f_parity 0xca62c1d6) ?x4 [60..<80]"
  have 5: "rounds_done ?m h 80 ?x5"
    by (rule expanding_rounds_done [OF 4]) (simp_all add: sha_f_eq sha_k_def)
  have i: "innerHash h w = (add_state h (fst ?x5), snd ?x5)"
    unfolding innerHash_def Let_def by (simp only: split_beta prod.collapse fst_conv snd_conv)
  show "fst (innerHash h w) = sha_compress h (take 16 w)" "length (snd (innerHash h w)) = 80"
    using 5 unfolding i rounds_done_def sha_compress_def by simp_all
qed

section \<open>Blocks\<close>

lemma block_words_length [simp]: "length (block_words bs) = 16"
  by (simp add: block_words_def)

lemma full_blocks_eq:
  "length w = 80 \<Longrightarrow> full_blocks (h, w) src = ((h1, w1), rest) \<Longrightarrow>
   length w1 = 80 \<and> length rest = length src mod 64 \<and>
   (\<forall>tail. sha_blocks h (src @ tail) = sha_blocks h1 (rest @ tail))"
proof (induction "(h, w)" src arbitrary: h w rule: full_blocks.induct)
  case (1 result w src)
  show ?case
  proof (cases "length src \<ge> 64")
    case False
    with 1 show ?thesis by (auto simp: full_blocks.simps [of result w])
  next
    case True
    let ?w = "block_words (take 64 src) @ drop 16 w"
    obtain r2 w2 where i: "innerHash result ?w = (r2, w2)" by (cases "innerHash result ?w")
    have lw: "length ?w = 80" using 1(2) by simp
    note ih = innerHash_eq [OF lw, of result]
    have b: "r2 = sha_compress result (block_words (take 64 src))" "length w2 = 80"
      using ih i by auto
    have "full_blocks (r2, w2) (drop 64 src) = ((h1, w1), rest)"
      using 1(3) True i by (simp add: full_blocks.simps [of result w])
    from 1(1) [OF True i b(2) this]
    have r: "length w1 = 80" "length rest = length (drop 64 src) mod 64"
      "\<And>tail. sha_blocks r2 (drop 64 src @ tail) = sha_blocks h1 (rest @ tail)" by auto
    have "sha_blocks result (src @ tail) = sha_blocks r2 (drop 64 src @ tail)" for tail
      using True b(1) by (subst sha_blocks.simps) simp
    moreover have "length (drop 64 src) mod 64 = length src mod 64"
      using True by (simp add: le_mod_geq)
    ultimately show ?thesis using r by simp
  qed
qed

section \<open>Padding\<close>

definition padded :: "bytes \<Rightarrow> nat \<Rightarrow> byte" where
  "padded bs i = (if i < length bs then bs ! i else 0)"

definition filled :: "bytes \<Rightarrow> word32 list \<Rightarrow> word32 list" where
  "filled bs w = block_words (bs @ replicate (64 - length bs) 0) @ drop 16 w"

lemma padded_nth: "i < 64 \<Longrightarrow> length bs \<le> 64 \<Longrightarrow> (bs @ replicate (64 - length bs) 0) ! i = padded bs i"
  by (auto simp: padded_def nth_append)

lemma block_words_nth:
  "j < 16 \<Longrightarrow> length bs \<le> 64 \<Longrightarrow> block_words (bs @ replicate (64 - length bs) 0) ! j =
    word4 (padded bs (4 * j)) (padded bs (4 * j + 1)) (padded bs (4 * j + 2)) (padded bs (4 * j + 3))"
  by (simp add: block_words_def padded_nth)

lemma word4_or:
  "word4 0 0 0 0 = 0"
  "word4 a 0 0 0 OR push_bit 16 (ucast b) = word4 a b 0 0"
  "word4 a b 0 0 OR push_bit 8 (ucast c) = word4 a b c 0"
  "word4 a b c 0 OR ucast d = word4 a b c d"
  "push_bit 24 (ucast a) = word4 a 0 0 0"
  by (simp_all add: word4_def ac_simps)

lemma or_byte_filled:
  assumes "length bs < 64"
  shows "or_byte (filled bs w) (length bs, b) = filled (bs @ [b]) w"
proof (rule nth_equalityI)
  show "length (or_byte (filled bs w) (length bs, b)) = length (filled (bs @ [b]) w)"
    by (simp add: or_byte_def filled_def)
  fix i assume "i < length (or_byte (filled bs w) (length bs, b))"
  define q where "q = length bs div 4"
  define r where "r = length bs mod 4"
  have n: "length bs = 4 * q + r" "r < 4" "q < 16" using assms by (auto simp: q_def r_def)
  have other: "padded (bs @ [b]) k = padded bs k" if "k \<noteq> length bs" for k
    using that by (auto simp: padded_def nth_append)
  have new: "padded (bs @ [b]) (length bs) = b" by (simp add: padded_def)
  have zero: "padded bs k = 0" if "length bs \<le> k" for k using that by (simp add: padded_def)
  show "or_byte (filled bs w) (length bs, b) ! i = filled (bs @ [b]) w ! i"
  proof (cases "i < 16")
    case False
    then show ?thesis using n by (simp add: or_byte_def filled_def q_def [symmetric] nth_append)
  next
    case i: True
    let ?v = "block_words (bs @ replicate (64 - length bs) 0)"
    have v: "?v ! i = word4 (padded bs (4 * i)) (padded bs (4 * i + 1)) (padded bs (4 * i + 2)) (padded bs (4 * i + 3))"
      using i assms by (intro block_words_nth) auto
    have v': "filled (bs @ [b]) w ! i = word4 (padded (bs @ [b]) (4 * i)) (padded (bs @ [b]) (4 * i + 1))
        (padded (bs @ [b]) (4 * i + 2)) (padded (bs @ [b]) (4 * i + 3))"
      using i assms block_words_nth [of i "bs @ [b]"] by (simp add: filled_def nth_append)
    show ?thesis
    proof (cases "i = q")
      case False
      then have "4 * i \<noteq> length bs" "4 * i + 1 \<noteq> length bs" "4 * i + 2 \<noteq> length bs" "4 * i + 3 \<noteq> length bs"
        using n by auto
      with v v' other i False show ?thesis
        by (simp add: or_byte_def filled_def q_def [symmetric] nth_append)
    next
      case True
      have o: "or_byte (filled bs w) (length bs, b) ! i = ?v ! i OR push_bit ((3 - r) * 8) (ucast b)"
        using i n True by (simp add: or_byte_def filled_def q_def [symmetric] r_def [symmetric] nth_append)
      consider "r = 0" | "r = 1" | "r = 2" | "r = 3" using n by linarith
      then show ?thesis
      proof cases
        case 1
        then have "padded (bs @ [b]) (4 * i) = b" using n True new by simp
        with 1 n True o v v' show ?thesis by (simp add: other zero word4_or)
      next
        case 2
        then have "padded (bs @ [b]) (4 * i + 1) = b" using n True new by simp
        with 2 n True o v v' show ?thesis by (simp add: other zero word4_or)
      next
        case 3
        then have "padded (bs @ [b]) (4 * i + 2) = b" using n True new by simp
        with 3 n True o v v' show ?thesis by (simp add: other zero word4_or)
      next
        case 4
        then have "padded (bs @ [b]) (4 * i + 3) = b" using n True new by simp
        with 4 n True o v v' show ?thesis by (simp add: other zero word4_or)
      qed
    qed
  qed
qed

lemma clear_filled: "clearWBuffert w = filled [] w"
proof -
  have "block_words (replicate 64 0) = map (\<lambda>i. 0) [0..<16]"
    unfolding block_words_def by (rule map_cong) (auto simp: word4_or)
  then show ?thesis by (simp add: clearWBuffert_def filled_def map_replicate_const)
qed

lemma filled_drop [simp]: "length bs \<le> 64 \<Longrightarrow> clearWBuffert (filled bs w) = filled [] w"
  by (simp add: clear_filled filled_def)

lemma fold_or_bytes:
  "length bs \<le> 64 \<Longrightarrow> foldl or_byte (filled [] w) (zip [0..<length bs] bs) = filled bs w"
proof (induction bs rule: rev_induct)
  case (snoc b bs)
  have "zip [0..<length (bs @ [b])] (bs @ [b]) = zip [0..<length bs] bs @ [(length bs, b)]" by simp
  then show ?case using snoc or_byte_filled [of bs w b] by simp
qed simp

lemma byte_of_nat: "(word_of_nat (n div 256 ^ k) :: byte) = word_of_nat (drop_bit (8 * k) n)"
  by (simp add: drop_bit_eq_div power_mult)

lemma word4_of_nat:
  fixes n :: nat
  assumes "n < 2 ^ 32"
  shows "word4 (word_of_nat (n div 256 ^ 3)) (word_of_nat (n div 256 ^ 2)) (word_of_nat (n div 256 ^ 1))
    (word_of_nat (n div 256 ^ 0)) = word_of_nat n"
proof (rule bit_word_eqI)
  fix i :: nat assume "i < LENGTH(32)"
  then consider "i < 8" | "8 \<le> i" "i < 16" | "16 \<le> i" "i < 24" | "24 \<le> i" "i < 32" by force
  then show "bit (word4 (word_of_nat (n div 256 ^ 3)) (word_of_nat (n div 256 ^ 2))
      (word_of_nat (n div 256 ^ 1)) (word_of_nat (n div 256 ^ 0))) i = bit (word_of_nat n :: word32) i"
    unfolding word4_def byte_of_nat
    by cases (auto simp: bit_simps)
qed

lemma length_bytes_words:
  assumes "n < 2 ^ 29"
  shows "word4 (length_bytes n ! 0) (length_bytes n ! 1) (length_bytes n ! 2) (length_bytes n ! 3) = 0"
    "word4 (length_bytes n ! 4) (length_bytes n ! 5) (length_bytes n ! 6) (length_bytes n ! 7) =
      word_of_nat (n * 8)"
proof -
  have b: "length_bytes n ! i = word_of_nat (n * 8 div 256 ^ (7 - i))" if "i < 8" for i
    using that by (simp add: length_bytes_def)
  have z: "n * 8 div 256 ^ (7 - i) = 0" if "i < 4" for i
  proof -
    have "(256 :: nat) ^ 4 \<le> 256 ^ (7 - i)" using that by (intro power_increasing) auto
    then show ?thesis using assms by simp
  qed
  show "word4 (length_bytes n ! 0) (length_bytes n ! 1) (length_bytes n ! 2) (length_bytes n ! 3) = 0"
  proof -
    have "length_bytes n ! i = 0" if "i < 4" for i using b [of i] z [of i] that by simp
    then show ?thesis by (simp add: word4_or)
  qed
  show "word4 (length_bytes n ! 4) (length_bytes n ! 5) (length_bytes n ! 6) (length_bytes n ! 7) =
      word_of_nat (n * 8)"
    using word4_of_nat [of "n * 8"] assms b [of 4] b [of 5] b [of 6] b [of 7] by simp
qed

lemma last_block:
  assumes "length bs \<le> 56" "n < 2 ^ 29"
  shows "take 16 ((filled bs w)[15 := word_of_nat (n * 8)]) =
    block_words (bs @ replicate (56 - length bs) 0 @ length_bytes n)"
proof (rule nth_equalityI)
  show "length (take 16 ((filled bs w)[15 := word_of_nat (n * 8)])) =
      length (block_words (bs @ replicate (56 - length bs) 0 @ length_bytes n))"
    by (simp add: filled_def)
  fix i assume "i < length (take 16 ((filled bs w)[15 := word_of_nat (n * 8)]))"
  then have i: "i < 16" by simp
  let ?p = "bs @ replicate (56 - length bs) 0 @ length_bytes n"
  have low: "?p ! k = padded bs k" if "k < 56" for k
    using that assms by (auto simp: padded_def nth_append)
  have high: "?p ! (56 + k) = length_bytes n ! k" for k
    using nth_append_length_plus [of "bs @ replicate (56 - length bs) 0" "length_bytes n" k] assms by simp
  have z: "padded bs k = 0" if "56 \<le> k" for k using that assms by (simp add: padded_def)
  have f: "filled bs w ! i = word4 (padded bs (4 * i)) (padded bs (4 * i + 1)) (padded bs (4 * i + 2)) (padded bs (4 * i + 3))"
    using block_words_nth [of i bs] i assms by (simp add: filled_def nth_append)
  have l: "length (filled bs w) \<ge> 16" by (simp add: filled_def)
  consider "i < 14" | "i = 14" | "i = 15" using i by linarith
  then show "take 16 ((filled bs w)[15 := word_of_nat (n * 8)]) ! i = block_words ?p ! i"
  proof cases
    case 1
    with i f low show ?thesis by (simp add: block_words_def)
  next
    case 2
    have "block_words ?p ! 14 = 0"
      using high [of 0] high [of 1] high [of 2] high [of 3] length_bytes_words(1) [OF assms(2)]
      by (simp add: block_words_def)
    with 2 f z show ?thesis by (simp add: word4_or)
  next
    case 3
    have "block_words ?p ! 15 = word_of_nat (n * 8)"
      using high [of 4] high [of 5] high [of 6] high [of 7] length_bytes_words(2) [OF assms(2)]
      by (simp add: block_words_def)
    with 3 l show ?thesis by simp
  qed
qed

lemma sha_blocks_one: "length bs = 64 \<Longrightarrow> sha_blocks h (bs @ t) = sha_blocks (sha_compress h (block_words bs)) t"
  by (subst sha_blocks.simps) simp

lemma sha_blocks_Nil [simp]: "sha_blocks h [] = h"
  by (subst sha_blocks.simps) simp

text \<open>The padded message and the routine after its full blocks, for a rest that leaves room for the
  length in the same block and for one that does not.\<close>

lemma calc_parts:
  assumes "length w0 = 80" and fb: "full_blocks (sha_init, w0) src = ((r1, w1), rest)"
  shows "length w1 = 80" "length rest < 64"
    "or_byte (foldl or_byte (clearWBuffert w1) (zip [0..<length rest] rest)) (length rest, 0x80) =
      filled (rest @ [0x80]) w1"
    "sha_blocks sha_init (sha_pad src) =
      sha_blocks r1 ((rest @ [0x80]) @ replicate ((119 - length rest) mod 64) 0 @ length_bytes (length src))"
proof -
  note f = full_blocks_eq [OF assms]
  then show w1: "length w1 = 80" and rest: "length rest < 64" by auto
  have bl: "sha_blocks sha_init (src @ t) = sha_blocks r1 (rest @ t)" "length rest = length src mod 64" for t
    using f by auto
  show "or_byte (foldl or_byte (clearWBuffert w1) (zip [0..<length rest] rest)) (length rest, 0x80) =
      filled (rest @ [0x80]) w1"
    using rest fold_or_bytes [of rest w1] or_byte_filled [of rest w1 "0x80"] by (simp add: clear_filled)
  show "sha_blocks sha_init (sha_pad src) =
      sha_blocks r1 ((rest @ [0x80]) @ replicate ((119 - length rest) mod 64) 0 @ length_bytes (length src))"
    using bl by (simp add: sha_pad_def)
qed

lemma calc_same_block:
  assumes "length src < 2 ^ 29" "length w0 = 80"
    and fb: "full_blocks (sha_init, w0) src = ((r1, w1), rest)" and room: "length rest < 56"
  shows "calc w0 src = SHA1 src"
proof -
  let ?n = "length src" and ?bs = "rest @ [0x80]"
  note parts = calc_parts [OF assms(2) fb]
  let ?w5 = "(filled ?bs w1)[15 := word_of_nat (?n * 8)]"
  have "fst (innerHash r1 ?w5) = sha_compress r1 (take 16 ?w5)"
    by (rule innerHash_eq) (simp add: filled_def parts(1))
  also have "take 16 ?w5 = block_words (?bs @ replicate (56 - length ?bs) 0 @ length_bytes ?n)"
    using room assms(1) by (intro last_block) auto
  finally have c: "calc w0 src = hash_bytes (sha_compress r1
      (block_words (?bs @ replicate (56 - length ?bs) 0 @ length_bytes ?n)))"
    using room unfolding calc_def fb Let_def prod.case parts(3) by simp
  have "119 - length rest = (55 - length rest) + 64" using room by simp
  then have "(119 - length rest) mod 64 = 56 - length ?bs"
    using room by (simp del: add_diff_assoc2)
  moreover have "length (length_bytes ?n) = 8" by (simp add: length_bytes_def)
  ultimately show ?thesis
    using parts(4) room sha_blocks_one [of "?bs @ replicate (56 - length ?bs) 0 @ length_bytes ?n" r1 "[]"]
    by (simp add: c SHA1_def)
qed

lemma calc_next_block:
  assumes "length src < 2 ^ 29" "length w0 = 80"
    and fb: "full_blocks (sha_init, w0) src = ((r1, w1), rest)" and full: "\<not> length rest < 56"
  shows "calc w0 src = SHA1 src"
proof -
  let ?n = "length src" and ?bs = "rest @ [0x80]"
  note parts = calc_parts [OF assms(2) fb]
  obtain r4 w4 where i: "innerHash r1 (filled ?bs w1) = (r4, w4)"
    by (cases "innerHash r1 (filled ?bs w1)")
  have len: "length (filled ?bs w1) = 80" using parts(1) by (simp add: filled_def)
  have r4: "r4 = sha_compress r1 (block_words (?bs @ replicate (64 - length ?bs) 0))" "length w4 = 80"
    using innerHash_eq [OF len, of r1] i by (simp_all add: filled_def)
  let ?w5 = "(filled [] w4)[15 := word_of_nat (?n * 8)]"
  have "fst (innerHash r4 ?w5) = sha_compress r4 (take 16 ?w5)"
    by (rule innerHash_eq) (use r4(2) in \<open>simp add: filled_def\<close>)
  also have "take 16 ?w5 = block_words (replicate 56 0 @ length_bytes ?n)"
    using last_block [of "[]" ?n w4] assms(1) by simp
  finally have c: "calc w0 src = hash_bytes (sha_compress r4 (block_words (replicate 56 0 @ length_bytes ?n)))"
    using full unfolding calc_def fb Let_def prod.case parts(3) i if_True by (simp add: clear_filled i)
  have "replicate ((119 - length rest) mod 64) (0 :: byte) = replicate (64 - length ?bs) 0 @ replicate 56 0"
    using full parts(2) by (simp add: replicate_add [symmetric])
  moreover have "length (length_bytes ?n) = 8" by (simp add: length_bytes_def)
  ultimately show ?thesis
    using parts(4) full parts(2) r4
      sha_blocks_one [of "?bs @ replicate (64 - length ?bs) 0" r1 "replicate 56 0 @ length_bytes ?n"]
      sha_blocks_one [of "replicate 56 0 @ length_bytes ?n" r4 "[]"]
    by (simp add: c SHA1_def)
qed

lemma calc_SHA1:
  assumes "length src < 2 ^ 29" "length w0 = 80"
  shows "calc w0 src = SHA1 src"
proof -
  obtain r1 w1 rest where "full_blocks (sha_init, w0) src = ((r1, w1), rest)"
    by (metis prod.collapse)
  with calc_same_block [OF assms] calc_next_block [OF assms] show ?thesis by blast
qed

lemma hash_bytes_length: "length (calc w0 src) = 20"
  by (simp add: calc_def hash_bytes_def Let_def split_beta)

section \<open>Properties\<close>

text \<open>C16: The optimised routine computes SHA-1: for every message shorter than 512 MiB and whatever
  the buffer held before, its result is the one of the padded message, the recursive schedule and
  the 80 rounds of the standard.\<close>

theorem sha1_standard:
  assumes "length src < 2 ^ 29" "length w0 = 80"
  shows "calc w0 src = SHA1 src"
  by (rule calc_SHA1 [OF assms])

theorem sha1_standard_witness:
  "calc (replicate 80 7) [0x61, 0x62, 0x63] = SHA1 [0x61, 0x62, 0x63]"
  by (rule sha1_standard) simp_all

end
