(* ===== verification/WebemHandler.thy ===== *)
theory WebemHandler
  imports PageDispatch WebAuth Sha1
begin

text \<open>
  \<^verbatim>\<open>cWebemRequestHandler\<close> of \<^verbatim>\<open>web/webserver/cWebem.cpp\<close>: the way of one request through the
  server, from the proxies it came through to the session it leaves.

  \<open>inputs\<close> is what one request takes from outside: the time (taken as one reading per request), the
  two random identifiers, the value of variables that are not initialised and the buffer of the hash.
\<close>

record inputs =
  in_now :: int
  in_session_uuid :: bytes
  in_token_uuid :: bytes
  in_junk :: int
  in_buffer :: "word32 list"
  in_info :: modify_info

section \<open>Where a request comes from\<close>

text \<open>The loop over the proxies; \<^const>\<open>None\<close> when several proxies are named and none is trusted.\<close>

fun proxy_loop :: "request \<Rightarrow> string list \<Rightarrow> string \<Rightarrow> string option" where
  "proxy_loop req [] host = Some host"
| "proxy_loop req (p # ps) host =
     (if host = p then
        (case get_req_header req ''X-Forwarded-For'' of
           None \<Rightarrow> proxy_loop req ps host
         | Some h \<Rightarrow>
             if CHR '','' \<in> set h then
               (case get_req_header req ''X-Real-IP'' of
                  None \<Rightarrow> None | Some r \<Rightarrow> proxy_loop req ps r)
             else proxy_loop req ps h)
      else proxy_loop req ps host)"

definition new_web_session :: "int \<Rightarrow> string \<Rightarrow> WebEmSession" where
  "new_web_session junk host =
     \<lparr>se_id = [], remote_host = host, auth_token = [], se_username = [], reply_status = st_ok,
      timeout = junk, expires = junk, rights = junk, rememberme = False, isnew = False,
      forcelogin = False\<rparr>"

section \<open>Upgrades to web sockets\<close>

definition GUID :: string where "GUID = ''258EAFA5-E914-47DA-95CA-C5AB0DC85B11''"

definition compute_accept_header :: "word32 list \<Rightarrow> string \<Rightarrow> string" where
  "compute_accept_header buffer key = base64_encode (calc buffer (string_bytes (key @ GUID)))"

definition upgrade_reply :: "string \<Rightarrow> reply" where
  "upgrade_reply accept =
     add_header ''Sec-Websocket-Protocol'' ''domoticz'' True
       (add_header ''Sec-Websocket-Accept'' accept True
         (add_header ''Upgrade'' ''websocket'' True
           (add_header ''Connection'' ''Upgrade'' True (stock_reply st_switching_protocols))))"

definition asks_upgrade :: "request \<Rightarrow> bool" where
  "asks_upgrade req \<longleftrightarrow> rq_method req = ''GET'' \<and>
     http_version_major req * 10 + http_version_minor req \<ge> 11 \<and>
     (case get_req_header req ''Connection'' of None \<Rightarrow> False | Some h \<Rightarrow> contains h ''Upgrade'') \<and>
     (case get_req_header req ''Upgrade'' of None \<Rightarrow> False | Some h \<Rightarrow> iequals h ''websocket'')"

text \<open>The reply when the result is true, \<^const>\<open>None\<close> when it is false.\<close>

definition is_upgrade_request :: "word32 list \<Rightarrow> request \<Rightarrow> reply option" where
  "is_upgrade_request buffer req =
     (if \<not> asks_upgrade req then None
      else if rq_uri req \<noteq> ''/PUSH'' then Some (stock_reply st_not_found)
      else if get_req_header req ''Host'' = None \<or> get_req_header req ''Origin'' = None
        then Some (stock_reply st_forbidden)
      else case get_req_header req ''Sec-Websocket-Version'' of
        None \<Rightarrow> Some (stock_reply st_internal_server_error)
      | Some v \<Rightarrow>
          if atoi v < 13 then Some (stock_reply st_internal_server_error)
          else case get_req_header req ''Sec-Websocket-Protocol'' of
            None \<Rightarrow> None
          | Some protocol \<Rightarrow>
              if \<not> contains protocol ''domoticz'' then Some (stock_reply st_internal_server_error)
              else case get_req_header req ''Sec-Websocket-Key'' of
                None \<Rightarrow> Some (stock_reply st_internal_server_error)
              | Some key \<Rightarrow>
                  let accept = compute_accept_header buffer key
                  in if accept = [] then Some (stock_reply st_internal_server_error)
                     else Some (upgrade_reply accept))"

section \<open>Compression\<close>

definition CompressWebOutput :: "'d site \<Rightarrow> request \<Rightarrow> reply \<Rightarrow> reply" where
  "CompressWebOutput site req rep =
     (if m_gzipmode site \<noteq> WWW_USE_GZIP then rep
      else case url_decode (rq_uri req) of
        (False, _) \<Rightarrow> rep
      | (True, path) \<Rightarrow>
          if contains path ''.png'' \<or> contains path ''.jpg'' \<or> \<not> accepts_gzip req then rep
          else
            let z = site_gzip site (rp_content rep)
            in if 0 < length z \<and> length z < length (rp_content rep) then
                 add_header ''Content-Encoding'' ''gzip'' True
                   (add_header ''Content-Length'' (nat_to_string (length z)) True
                     (rep\<lparr>rp_bIsGZIP := True, rp_content := z\<rparr>))
               else rep)"

section \<open>Logging out\<close>

definition logout_id :: "string \<Rightarrow> string option" where
  "logout_id cookie =
     (case str_find ''DMZSID='' cookie 0 of
        None \<Rightarrow> None
      | Some f \<Rightarrow>
          map_option (\<lambda>u. substr cookie (f + 7) (u - f - 7)) (str_find ''_'' cookie f))"

definition logout :: "request \<Rightarrow> 'd webem \<Rightarrow> reply \<times> 'd webem" where
  "logout req w =
     (let w' = (case Option.bind (get_req_header req ''Cookie'') logout_id of
                  None \<Rightarrow> w | Some sid \<Rightarrow> removeAuthToken sid (RemoveSession sid w))
      in (send_authorization_request w', w'))"

section \<open>Files\<close>

text \<open>What is done to the reply of the file handler.\<close>

definition finish_text :: "'d site \<Rightarrow> int \<Rightarrow> request \<Rightarrow> string \<Rightarrow> reply \<Rightarrow> modify_info \<Rightarrow> reply option"
where
  "finish_text site now req ctype rep m =
     (if rp_bIsGZIP rep then
        Some (add_header ''Content-Type'' (ctype @ '';charset=UTF-8'') True rep)
      else
        let (replaced, content) = Include site (rp_content rep)
        in if \<not> replaced \<and> mtime_support m \<and> \<not> is_modified m then None
           else
             let r1 = add_header ''Content-Length'' (nat_to_string (length content)) True
                        (rep\<lparr>rp_content := content\<rparr>);
                 r2 = (if \<not> mtime_support m
                       then add_header ''Last-Modified'' (make_web_time now) True r1 else r1)
             in Some (add_header ''Content-Type'' (ctype @ '';charset=UTF-8'') True
                        (CompressWebOutput site req r2)))"

definition text_types :: "string list" where
  "text_types = [''text/html'', ''text/plain'', ''text/css'', ''text/javascript'', ''application/javascript'']"

text \<open>\<^const>\<open>None\<close> means that the reply becomes the stock reply 304, which ends the request.\<close>

definition finish_file :: "'d site \<Rightarrow> int \<Rightarrow> request \<Rightarrow> reply \<Rightarrow> modify_info \<Rightarrow> reply option" where
  "finish_file site now req rep m =
     (let ctype = (case reply_header rep ''Content-Type'' of None \<Rightarrow> [] | Some t \<Rightarrow> t)
      in if ctype \<in> set text_types then finish_text site now req ctype rep m
         else if mtime_support m \<and> \<not> is_modified m then None
         else if contains ctype ''image/'' then
           Some (add_header ''Expires'' (make_web_time (now + 3600 * 24 * 365)) True rep)
         else Some (add_header ''Content-Type'' (ctype @ '';charset=UTF-8'') True rep))"

text \<open>The images of a theme come before those of the site.\<close>

definition theme_image :: "'d site \<Rightarrow> request \<Rightarrow> string \<Rightarrow> request" where
  "theme_image site req path =
     (let p = m_actTheme site @ path
      in if starts_with ''/images/'' path \<and> env_file (site_env site) (doc_root site @ p) \<noteq> None
         then req\<lparr>rq_uri := m_webRoot site @ p\<rparr> else req)"

definition serve_file ::
  "'d site \<Rightarrow> inputs \<Rightarrow> request \<Rightarrow> request \<Rightarrow> reply \<Rightarrow> (reply + reply) option" where
  "serve_file site inp req req1 rep =
     (case ExtractRequestPath (m_webRoot site) (m_actTheme site) (rq_uri req1) of
        None \<Rightarrow> None
      | Some path \<Rightarrow>
          (case static_handle_request (site_env site) (doc_root site) (m_webRoot site)
                  (m_actTheme site) (m_gzipmode site = WWW_FORCE_NO_GZIP_SUPPORT)
                  (theme_image site req1 path) rep (in_info inp) of
             None \<Rightarrow> None
           | Some (rep1, m) \<Rightarrow>
               Some (case finish_file site (in_now inp) req rep1 m of
                 None \<Rightarrow> Inl (stock_reply st_not_modified) | Some rep2 \<Rightarrow> Inr rep2)))"

section \<open>The session afterwards\<close>

definition put_session :: "string \<Rightarrow> WebEmSession \<Rightarrow> 'd webem \<Rightarrow> 'd webem" where
  "put_session k s w = w\<lparr>m_sessions := AList.update k s (m_sessions w)\<rparr>"

text \<open>A script that sends no cookies is recognised by its address.\<close>

definition script_session :: "int \<Rightarrow> request \<Rightarrow> WebEmSession \<Rightarrow> 'd webem \<Rightarrow> WebEmSession \<times> 'd webem"
where
  "script_session now req s w =
     (if isnew s \<and> rights s = 2 \<and> contains (rq_uri req) ''json.htm'' \<and>
         \<not> contains (rq_uri req) ''logincheck'' then
        (let (s1, w1) = (case GetSession w (remote_host s) of
               None \<Rightarrow> (s, w)
             | Some m \<Rightarrow>
                 if expires m < now then (s, RemoveSession (remote_host s) w)
                 else (s\<lparr>isnew := False\<rparr>,
                   if expires m - SHORT_SESSION_TIMEOUT div 2 < now
                   then put_session (remote_host s)
                          (m\<lparr>expires := now + SHORT_SESSION_TIMEOUT, timeout := now + SHORT_SESSION_TIMEOUT\<rparr>) w
                   else w))
         in if isnew s1 then
              (let s2 = s1\<lparr>se_id := remote_host s1, rights := - 1, expires := timeout s1\<rparr>
               in (s2\<lparr>rights := 2\<rparr>, AddSession s2 w1))
            else (s1, w1))
      else (s, w))"

definition start_session ::
  "(string \<Rightarrow> string) \<Rightarrow> inputs \<Rightarrow> WebEmSession \<Rightarrow> reply \<Rightarrow> 'd webem \<Rightarrow> reply \<times> 'd webem" where
  "start_session md5 inp s rep w =
     (let s1 = s\<lparr>se_id := generateSessionID md5 (in_session_uuid inp),
                 expires := timeout s + (if rememberme s then LONG_SESSION_TIMEOUT else 0)\<rparr>;
          (token, w1) = generateAuthToken md5 (in_token_uuid inp) s1 w;
          s2 = s1\<lparr>auth_token := token, isnew := False\<rparr>
      in (send_cookie s2 rep, AddSession s2 w1))"

definition renew_with ::
  "(string \<Rightarrow> string) \<Rightarrow> inputs \<Rightarrow> int \<Rightarrow> string \<Rightarrow> WebEmSession \<Rightarrow> reply \<Rightarrow> 'd webem \<Rightarrow> reply \<times> 'd webem"
where
  "renew_with md5 inp t k m rep w =
     (let m1 = m\<lparr>expires := t\<rparr>;
          (token, w1) = generateAuthToken md5 (in_token_uuid inp) m1 w;
          m2 = m1\<lparr>auth_token := token\<rparr>
      in (send_cookie m2 rep, put_session k m2 w1))"

definition renew_session ::
  "(string \<Rightarrow> string) \<Rightarrow> inputs \<Rightarrow> string \<Rightarrow> reply \<Rightarrow> 'd webem \<Rightarrow> reply \<times> 'd webem" where
  "renew_session md5 inp k rep w =
     (let now = in_now inp
      in case GetSession w k of
           None \<Rightarrow> (rep, w)
         | Some m \<Rightarrow>
             if expires m - SHORT_SESSION_TIMEOUT div 2 < now then
               renew_with md5 inp (now + SHORT_SESSION_TIMEOUT) k m rep w
             else if expires m > SHORT_SESSION_TIMEOUT + now \<and>
                     expires m - LONG_SESSION_TIMEOUT div 2 < now then
               renew_with md5 inp (now + LONG_SESSION_TIMEOUT) k m rep w
             else (rep, w))"

definition finish_session ::
  "(string \<Rightarrow> string) \<Rightarrow> inputs \<Rightarrow> request \<Rightarrow> WebEmSession \<Rightarrow> reply \<Rightarrow> 'd webem \<Rightarrow> reply \<times> 'd webem" where
  "finish_session md5 inp req s0 rep w0 =
     (let (s, w) = script_session (in_now inp) req
            (s0\<lparr>timeout := in_now inp + SHORT_SESSION_TIMEOUT\<rparr>) w0
      in if isnew s then start_session md5 inp s rep w
         else if forcelogin s then
           (let w1 = removeAuthToken (se_id s) (RemoveSession (se_id s) w)
            in (if m_authmethod w1 = AUTH_BASIC then send_authorization_request w1 else rep, w1))
         else if se_id s \<noteq> [] then renew_session md5 inp (se_id s) rep w
         else (rep, w))"

section \<open>The handler\<close>

definition cors_reply :: "reply \<Rightarrow> reply" where
  "cors_reply rep =
     add_header ''Access-Control-Allow-Headers'' ''Authorization, Content-Type'' True
       (add_header ''Access-Control-Allow-Methods'' ''GET, POST'' True
         (add_header ''Access-Control-Allow-Origin'' ''*'' True
           (add_header ''Access-Control-Max-Age'' ''3600'' True
             (add_header ''Content-Type'' ''text/plain'' True
               (add_header ''Content-Length'' ''0'' True rep)))))"

text \<open>The reply with the URI an action left, which is data when it is no path.\<close>

definition action_reply :: "int \<Rightarrow> string \<Rightarrow> reply \<Rightarrow> reply" where
  "action_reply now uri rep =
     add_header ''Content-Type'' ''application/json;charset=UTF-8'' True
       (add_header ''Last-Modified'' (make_web_time now) True
         (add_header ''Content-Length'' (nat_to_string (length uri)) True
           (rep\<lparr>rp_status := st_ok, rp_content := uri\<rparr>)))"

text \<open>After the action: a page or a file, then the session.\<close>

definition handle_page ::
  "'d site \<Rightarrow> (string \<Rightarrow> string) \<Rightarrow> inputs \<Rightarrow> request \<Rightarrow> WebEmSession \<Rightarrow> request \<Rightarrow> reply \<Rightarrow> 'd webem
     \<Rightarrow> (reply \<times> 'd webem) option" where
  "handle_page site md5 inp req s req1 rep w =
     (case CheckForPageOverride site s req1 rep w of
        None \<Rightarrow> None
      | Some (True, s2, req2, rep2, w2) \<Rightarrow>
          if rp_status rep2 = st_download_file then Some (rep2, w2)
          else if reply_status s2 \<noteq> st_ok then Some (stock_reply (reply_status s2), w2)
          else Some (finish_session md5 inp req s2
                 (if \<not> rp_bIsGZIP rep2 then CompressWebOutput site req rep2 else rep2) w2)
      | Some (False, s2, req2, rep2, w2) \<Rightarrow>
          if reply_status s2 \<noteq> st_ok then Some (stock_reply (reply_status s2), w2)
          else if rp_status rep2 \<noteq> st_ok then Some (rep2, w2)
          else (case serve_file site inp req req2 rep2 of
                  None \<Rightarrow> None
                | Some (Inl r) \<Rightarrow> Some (r, w2)
                | Some (Inr r) \<Rightarrow> Some (finish_session md5 inp req s2 r w2)))"

definition handle_action ::
  "'d site \<Rightarrow> (string \<Rightarrow> string) \<Rightarrow> inputs \<Rightarrow> request \<Rightarrow> WebEmSession \<Rightarrow> reply \<Rightarrow> 'd webem
     \<Rightarrow> (reply \<times> 'd webem) option" where
  "handle_action site md5 inp req s rep w =
     (if rights s \<noteq> 2 then Some (stock_reply st_forbidden, w)
      else case CheckForAction site s req w of
        None \<Rightarrow> None
      | Some (s1, req1, w1) \<Rightarrow>
          if rq_uri req1 \<noteq> [] \<and> rq_method req1 = ''POST'' \<and> hd (rq_uri req1) \<noteq> CHR ''/''
          then Some (action_reply (in_now inp) (rq_uri req1) rep, w1)
          else handle_page site md5 inp req s1 req1 rep w1)"

definition webem_handle_request ::
  "'d site \<Rightarrow> (string \<Rightarrow> string) \<Rightarrow> inputs \<Rightarrow> request \<Rightarrow> reply \<Rightarrow> 'd webem \<Rightarrow> (reply \<times> 'd webem) option"
where
  "webem_handle_request site md5 inp req rep00 w =
     (case proxy_loop req (myRemoteProxyIPs w) (host_address req) of
        None \<Rightarrow> Some (stock_reply st_forbidden, w)
      | Some host \<Rightarrow>
          let s = new_web_session (in_junk inp) host; rep0 = rep00\<lparr>rp_status := st_ok, rp_bIsGZIP := False\<rparr>
          in case IsPageOverride site req rep0 of
               None \<Rightarrow> None
             | Some (isPage, rep) \<Rightarrow>
                 if rq_method req = ''OPTIONS'' then Some (cors_reply rep, w)
                 else if isPage \<and> contains (rq_uri req) ''dologout'' then Some (logout req w)
                 else case is_upgrade_request (in_buffer inp) req of
                   Some r \<Rightarrow> Some (r, w)
                 | None \<Rightarrow>
                     let (ok, s1, rep1, w1) =
                       (if isPage \<or> IsAction req
                        then CheckAuthentication md5 (in_junk inp) (in_now inp) req s rep w
                        else (True, s, rep, w))
                     in if \<not> ok then Some (rep1, w1)
                        else if IsAction req then handle_action site md5 inp req s1 rep1 w1
                        else handle_page site md5 inp req s1 req rep1 w1)"

end
