(* ===== verification/SessionRights.thy ===== *)
theory SessionRights
  imports WebemHandler
begin

text \<open>
  What is true of all sessions in memory, whatever requests come: every session is kept once and
  under its own id, and its rights are those of its user.  The invariant is carried through
  authentication, the pages and the end of a request.
\<close>

section \<open>The invariant\<close>

text \<open>A session without rights, one of an administrator who gave no name, or one of a user.\<close>

definition rights_justified :: "web_user list \<Rightarrow> WebEmSession \<Rightarrow> bool" where
  "rights_justified us s \<longleftrightarrow> rights s = - 1 \<or> (se_username s = [] \<and> rights s = 2) \<or>
     (\<exists>u. find_user us (se_username s) = Some u \<and> rights s = userrights u)"

definition sessions_justified :: "web_user list \<Rightarrow> 'd webem \<Rightarrow> bool" where
  "sessions_justified us w \<longleftrightarrow> m_userpasswords w = us \<and> sessions_keyed w \<and>
     (\<forall>k s. GetSession w k = Some s \<longrightarrow> rights_justified us s)"

lemma justified_fields [simp]:
  "rights_justified us (s\<lparr>se_id := i\<rparr>) = rights_justified us s"
  "rights_justified us (s\<lparr>auth_token := t\<rparr>) = rights_justified us s"
  "rights_justified us (s\<lparr>expires := e\<rparr>) = rights_justified us s"
  "rights_justified us (s\<lparr>timeout := e\<rparr>) = rights_justified us s"
  "rights_justified us (s\<lparr>isnew := b\<rparr>) = rights_justified us s"
  "rights_justified us (s\<lparr>rights := - 1\<rparr>)"
  "rights_justified us (s\<lparr>se_id := i, rights := - 1, expires := e\<rparr>)"
  by (simp_all add: rights_justified_def)

lemma justified_state [simp]:
  "sessions_justified us (w\<lparr>web_db := db\<rparr>) = sessions_justified us w"
  "sessions_justified us (w\<lparr>m_failcounter := n\<rparr>) = sessions_justified us w"
  by (simp_all add: sessions_justified_def sessions_keyed_def GetSession_def)

lemma justified_users: "sessions_justified us w \<Longrightarrow> m_userpasswords w = us"
  by (simp add: sessions_justified_def)

lemma justified_Get:
  "sessions_justified us w \<Longrightarrow> GetSession w k = Some s \<Longrightarrow> rights_justified us s \<and> se_id s = k"
  by (auto simp: sessions_justified_def dest: sessions_keyed_Get)

lemma justified_Add [intro]:
  "sessions_justified us w \<Longrightarrow> rights_justified us s \<Longrightarrow> sessions_justified us (AddSession s w)"
  unfolding sessions_justified_def by (auto simp: AddSession_def [THEN arg_cong [of _ _ m_userpasswords]])

lemma justified_Remove [intro]: "sessions_justified us w \<Longrightarrow> sessions_justified us (RemoveSession k w)"
  unfolding sessions_justified_def
  by (auto simp: RemoveSession_def [THEN arg_cong [of _ _ m_userpasswords]] split: if_splits)

lemma justified_put:
  "sessions_justified us w \<Longrightarrow> rights_justified us s \<Longrightarrow> se_id s = k \<Longrightarrow>
   sessions_justified us (put_session k s w)"
  using justified_Add [of us w s] by (simp add: put_session_def AddSession_def)

lemma justified_Clean [intro]: "sessions_justified us w \<Longrightarrow> sessions_justified us (CleanSessions now w)"
proof -
  have "sessions_justified us w \<Longrightarrow> sessions_justified us (foldl (\<lambda>v ssid. RemoveSession ssid v) w ids)" for ids
    by (induction ids arbitrary: w) auto
  then show "sessions_justified us w \<Longrightarrow> ?thesis"
    by (simp add: CleanSessions_def Let_def split: option.split)
qed

text \<open>An added user comes last, so no name changes its owner.\<close>

lemma find_user_append: "find_user us n = Some u \<Longrightarrow> find_user (us @ vs) n = Some u"
  by (induction us) (auto simp: find_user_def split: if_splits)

lemma justified_AddUser:
  assumes "sessions_justified us w"
  shows "sessions_justified (m_userpasswords (AddUserPassword n p r w)) (AddUserPassword n p r w)"
proof -
  have "rights_justified us s \<Longrightarrow> rights_justified (us @ vs) s" for s vs
    by (auto simp: rights_justified_def dest: find_user_append)
  with assms show ?thesis
    by (auto simp: sessions_justified_def AddUserPassword_def sessions_keyed_def GetSession_def)
qed

lemma justified_ClearUsers: "sessions_justified [] (ClearUserPasswords w)"
  by (simp add: sessions_justified_def ClearUserPasswords_def sessions_keyed_def GetSession_def)

section \<open>Authentication\<close>

lemma justified_removeAuthToken [simp]:
  "sessions_justified us (removeAuthToken sid w) = sessions_justified us w"
  by (simp add: removeAuthToken_def split: option.split)

lemma justified_generate [simp]:
  "sessions_justified us (snd (generateAuthToken md5 uuid s w)) = sessions_justified us w"
  by (auto simp: generateAuthToken_def Let_def split: option.splits)

lemma checkAuthToken_justified:
  assumes "checkAuthToken md5 now s w = (ok, s', w')" "rights_justified us s" "sessions_justified us w"
  shows "sessions_justified us w' \<and> (ok \<or> rights s = 2 \<longrightarrow> rights_justified us s')"
  using assms unfolding checkAuthToken_def
  by (auto simp: restore_admin_def restore_user_def Let_def rights_justified_def
      dest: justified_users split: option.splits if_splits intro!: justified_Add)

lemma authorize_justified:
  assumes "authorize md5 req s w = (ok, s', w')" "rights_justified us s" "sessions_justified us w"
  shows "sessions_justified us w' \<and> rights_justified us s'"
proof -
  have "rights_justified us (grant u s)" if "password_shown md5 (m_userpasswords w) req u" for u
    using that justified_users [OF assms(3)]
    by (auto simp: rights_justified_def grant_def password_shown_def)
  with authorize_cases [OF assms(1)] assms(2,3) show ?thesis by auto
qed

text \<open>What authentication keeps: the sessions in memory, and the session of a request it lets in.\<close>

abbreviation auth_keeps :: "web_user list \<Rightarrow> 'd auth_result \<Rightarrow> bool" where
  "auth_keeps us r \<equiv> case r of (ok, s', _, w') \<Rightarrow>
     sessions_justified us w' \<and> (ok \<longrightarrow> rights_justified us s')"

lemma whitelist_justified:
  "rights_justified us s \<Longrightarrow> sessions_justified us w \<Longrightarrow> auth_keeps us (whitelist_or_refuse req s rep w)"
  by (simp add: whitelist_or_refuse_def refuse_def)

lemma without_cookie_justified:
  assumes "rights_justified us s" "sessions_justified us w"
  shows "auth_keeps us (without_cookie md5 req s rep w)"
proof -
  obtain ok1 s1 w1 where 1: "(if contains (rq_uri req) ''json.htm'' then authorize md5 req s w
      else (False, s, w)) = (ok1, s1, w1)"
    by (cases "if contains (rq_uri req) ''json.htm'' then authorize md5 req s w else (False, s, w)")
  obtain ok2 s2 w2 where 2: "authorize md5 req s1 w1 = (ok2, s2, w2)" by (cases "authorize md5 req s1 w1")
  have j1: "sessions_justified us w1 \<and> rights_justified us s1"
    using 1 assms authorize_justified [of md5 req s w ok1 s1 w1 us] by (auto split: if_splits)
  then have j2: "sessions_justified us w2 \<and> rights_justified us s2"
    using authorize_justified [OF 2] by blast
  show ?thesis
    unfolding without_cookie_def 1 2 Let_def prod.case
    using assms j1 j2 whitelist_justified [of us s1 w1 req rep] by (simp add: refuse_def)
qed

lemma admin_cookie_justified:
  assumes "rights_justified us s" "rights s = 2" "sessions_justified us w"
  shows "auth_keeps us (admin_cookie md5 now sid token expired s rep w)"
proof -
  obtain ok t v where c: "checkAuthToken md5 now (s\<lparr>se_id := sid, auth_token := token\<rparr>) w = (ok, t, v)"
    by (metis prod.collapse)
  have "sessions_justified us v \<and> rights_justified us t"
    using checkAuthToken_justified [OF c _ assms(3)] assms(1,2) by simp
  then show ?thesis
    using assms by (auto simp: admin_cookie_def Let_def c dest: justified_Get split: option.splits)
qed

lemma token_cookie_justified:
  assumes "rights_justified us s" "sessions_justified us w"
  shows "auth_keeps us (token_cookie md5 now sid token expired s rep w)"
proof -
  let ?s1 = "case GetSession w sid of None \<Rightarrow> s\<lparr>se_id := sid\<rparr> | Some o1 \<Rightarrow> o1"
  obtain ok t v where c: "checkAuthToken md5 now (?s1\<lparr>auth_token := token\<rparr>) w = (ok, t, v)"
    by (metis prod.collapse)
  have "rights_justified us (?s1\<lparr>auth_token := token\<rparr>)"
    using assms by (auto dest: justified_Get split: option.split)
  from checkAuthToken_justified [OF c this assms(2)] assms(2) show ?thesis
    unfolding token_cookie_def Let_def c prod.case
    by (auto simp: refuse_def)
qed

lemma CheckAuthentication_justified:
  assumes "se_username s = []" "sessions_justified us w"
  shows "auth_keeps us (CheckAuthentication md5 junk now req s rep w)"
proof -
  define r where "r = (if m_userpasswords w = [] \<or>
    AreWeInLocalNetwork (m_localnetworks w) (remote_host s) then 2 else - 1 :: int)"
  have j: "rights_justified us (s\<lparr>se_id := [], rights := r\<rparr>)"
    using assms(1) by (simp add: r_def rights_justified_def)
  note parts = without_cookie_justified [OF j assms(2)] token_cookie_justified [OF j assms(2)]
    whitelist_justified [OF j assms(2)] admin_cookie_justified [OF j _ assms(2)]
  show ?thesis
    unfolding CheckAuthentication_def Let_def r_def [symmetric]
    using parts by (auto split: option.split prod.split)
qed

section \<open>The end of a request\<close>

text \<open>A session that a handled request may leave: one let in, or the empty one of a request that
  was not asked for credentials.\<close>

definition may_finish :: "web_user list \<Rightarrow> WebEmSession \<Rightarrow> bool" where
  "may_finish us s \<longleftrightarrow> rights_justified us s \<or> (se_id s = [] \<and> \<not> isnew s \<and> \<not> forcelogin s)"

lemma script_justified:
  assumes "rights_justified us s" "sessions_justified us w"
  shows "case script_session now req s w of (s', w') \<Rightarrow> rights_justified us s' \<and> sessions_justified us w'"
proof -
  have a: "sessions_justified us (AddSession (t\<lparr>se_id := i, rights := - 1, expires := e\<rparr>) v)"
    if "sessions_justified us v" for t i e v
    using that by (intro justified_Add) simp_all
  have p: "sessions_justified us (put_session k (m\<lparr>expires := e, timeout := e'\<rparr>) w)"
    if "GetSession w k = Some m" for k m e e'
    using justified_Get [OF assms(2) that] assms(2) by (intro justified_put) simp_all
  have r: "rights s = 2 \<Longrightarrow> rights_justified us (s\<lparr>se_id := i, expires := e, rights := 2\<rparr>)" for i e
    using assms(1) by (simp add: rights_justified_def)
  show ?thesis
    using assms a p r by (auto simp: script_session_def Let_def split: option.splits if_splits)
qed

lemma renew_justified:
  assumes "sessions_justified us w"
  shows "sessions_justified us (snd (renew_session md5 inp k rep w))"
proof -
  have "sessions_justified us (snd (renew_with md5 inp e k m rep w))" if "GetSession w k = Some m" for e m
    using justified_Get [OF assms that] assms
    by (auto simp: renew_with_def Let_def split_beta intro!: justified_put)
  with assms show ?thesis by (auto simp: renew_session_def Let_def split: option.splits)
qed

lemma start_justified:
  assumes "rights_justified us s" "sessions_justified us w"
  shows "sessions_justified us (snd (start_session md5 inp s rep w))"
  using assms by (auto simp: start_session_def Let_def split_beta)

lemma finish_justified:
  assumes "may_finish us s" "sessions_justified us w"
  shows "sessions_justified us (snd (finish_session md5 inp req s rep w))"
proof (cases "rights_justified us s")
  case True
  obtain s1 w1 where e: "script_session (in_now inp) req (s\<lparr>timeout := in_now inp + SHORT_SESSION_TIMEOUT\<rparr>) w = (s1, w1)"
    by (metis prod.collapse)
  have k: "rights_justified us s1 \<and> sessions_justified us w1"
    using script_justified [of us "s\<lparr>timeout := in_now inp + SHORT_SESSION_TIMEOUT\<rparr>" w "in_now inp" req] True assms(2) e
    by simp
  with renew_justified [of us w1] start_justified [of us s1 w1] e show ?thesis
    by (auto simp: finish_session_def Let_def)
next
  case False
  with assms show ?thesis
    by (simp add: may_finish_def finish_session_def script_session_def Let_def)
qed

lemma logout_justified: "sessions_justified us w \<Longrightarrow> sessions_justified us (snd (logout req w))"
  by (auto simp: logout_def Let_def split: option.split)

section \<open>A page and its contract\<close>

text \<open>
  The server is asked to run one page; what it may rely on is that the page leaves the sessions, the
  users and the session of the request alone.  The server whose only page keeps that contract keeps
  the invariant.
\<close>

definition one_page :: "'d site \<Rightarrow> string \<Rightarrow> 'd page \<Rightarrow> 'd site" where
  "one_page site p page = site\<lparr>myPages := [(p, page)], myPages_w := [], myActions := []\<rparr>"

locale page_contract =
  fixes page :: "WebEmSession \<Rightarrow> request \<Rightarrow> reply \<Rightarrow> 'd webem \<Rightarrow> (WebEmSession \<times> reply \<times> 'd webem) option"
  assumes page_keeps: "page s req rep w = Some (s', rep', w') \<Longrightarrow>
    s' = s \<and> m_sessions w' = m_sessions w \<and> m_userpasswords w' = m_userpasswords w"
begin

lemma find_one_page: "find_page [(p, page)] path = Some f \<Longrightarrow> f = page"
proof (induction "[(p, page)]" path rule: find_page.induct)
  case (1 path)
  from "1.prems" show ?case
    by (subst (asm) find_page.simps) (auto split: option.splits if_splits intro: "1.hyps")
qed

lemma page_justified:
  assumes "page s req rep w = Some (s', rep', w')" "sessions_justified us w"
  shows "s' = s \<and> sessions_justified us w'"
  using page_keeps [OF assms(1)] assms(2)
  by (simp add: sessions_justified_def sessions_keyed_def GetSession_def)

lemma override_justified:
  assumes "CheckForPageOverride (one_page site p page) s req rep w = Some (b, s', req', rep', w')"
    "sessions_justified us w"
  shows "s' = s \<and> sessions_justified us w'"
  using assms
  by (auto simp: CheckForPageOverride_def one_page_def Let_def
      split: prod.splits bool.splits option.splits part_result.splits
      dest!: find_one_page dest: page_justified)

lemma handle_page_justified:
  assumes "handle_page (one_page site p page) md5 inp req s req1 rep w = Some (rep', w')"
    "may_finish us s" "sessions_justified us w"
  shows "sessions_justified us w'"
proof -
  obtain b s2 req2 rep2 w2 where c: "CheckForPageOverride (one_page site p page) s req1 rep w = Some (b, s2, req2, rep2, w2)"
    using assms(1) by (auto simp: handle_page_def split: option.splits)
  from override_justified [OF c assms(3)] have k: "s2 = s" "sessions_justified us w2" by auto
  have f: "sessions_justified us v" if "finish_session md5 inp req s r w2 = (r', v)" for r r' v
    using finish_justified [OF assms(2) k(2), of md5 inp req r] that by simp
  show ?thesis
    using assms(1) c k f
    by (auto simp: handle_page_def split: bool.splits if_splits option.splits sum.splits)
qed

lemma handle_action_justified:
  assumes "handle_action (one_page site p page) md5 inp req s rep w = Some (rep', w')"
    "may_finish us s" "sessions_justified us w"
  shows "sessions_justified us w'"
proof -
  have "s1 = s \<and> w1 = w" if "CheckForAction (one_page site p page) s req w = Some (s1, req1, w1)" for s1 req1 w1
    using that by (auto simp: CheckForAction_def one_page_def Let_def split: if_splits option.splits)
  with assms handle_page_justified [where us = us] show ?thesis
    by (auto simp: handle_action_def split: if_splits option.splits)
qed

lemma request_justified:
  assumes "webem_handle_request (one_page site p page) md5 inp req rep w = Some (rep', w')"
    "sessions_justified us w"
  shows "sessions_justified us w'"
proof (cases "proxy_loop req (myRemoteProxyIPs w) (host_address req)")
  case None
  with assms show ?thesis by (simp add: webem_handle_request_def)
next
  case (Some host)
  let ?s = "new_web_session (in_junk inp) host"
  have q: "may_finish us ?s" by (simp add: may_finish_def new_web_session_def)
  have a: "auth_keeps us (CheckAuthentication md5 (in_junk inp) (in_now inp) req ?s r w)" for r
    by (rule CheckAuthentication_justified [OF _ assms(2)]) (simp add: new_web_session_def)
  have "may_finish us s1 \<and> sessions_justified us w1"
    if "CheckAuthentication md5 (in_junk inp) (in_now inp) req ?s r w = (True, s1, rep1, w1)" for r s1 rep1 w1
    using a [of r] that by (simp add: may_finish_def)
  moreover have "sessions_justified us w1"
    if "CheckAuthentication md5 (in_junk inp) (in_now inp) req ?s r w = (ok, s1, rep1, w1)" for ok r s1 rep1 w1
    using a [of r] that by simp
  moreover have "sessions_justified us v" if "logout req w = (r, v)" for r v
    using logout_justified [OF assms(2), of req] that by simp
  ultimately show ?thesis
    using assms Some q handle_page_justified [where us = us] handle_action_justified [where us = us]
    unfolding webem_handle_request_def Let_def
    by (auto split: option.splits prod.splits if_splits)
qed

end

end
