(* ===== verification/WebServer.thy ===== *)
theory WebServer
  imports SessionRights Rest
begin

text \<open>
  \<^verbatim>\<open>CWebServer\<close> (\<^verbatim>\<open>web/WebServer.cpp\<close>): the embedded server with the page it registers, the REST
  interface below \<^verbatim>\<open>/API\<close>, and what this composition lets through.
\<close>

section \<open>The page\<close>

text \<open>
  \<^verbatim>\<open>HandleREST\<close> as a page: the database is the one behind the sessions.  The exception of a URI that
  is too short is caught by the caller and leaves the reply as it is.
\<close>

definition rest_page where
  "rest_page reader jwrite rows_write query exec s req rep w =
     (case HandleREST reader jwrite rows_write query exec req rep (web_db w) of
        Inl e \<Rightarrow> Some (s, rep, w)
      | Inr None \<Rightarrow> None
      | Inr (Some (rep', db)) \<Rightarrow> Some (s, rep', w\<lparr>web_db := db\<rparr>))"

text \<open>\<^verbatim>\<open>StartServer\<close> gives a new \<^verbatim>\<open>cWebem\<close> the realm and the proxies of the preferences, and itself as the
  session store, and registers this one page, and no action.\<close>

definition server_site where
  "server_site site reader jwrite rows_write query exec =
     RegisterPageCode ''/API'' (rest_page reader jwrite rows_write query exec)
       (site\<lparr>myPages := [], myPages_w := [], myActions := []\<rparr>)"

definition started :: "string list \<Rightarrow> 'd session_store \<Rightarrow> 'd webem \<Rightarrow> 'd webem" where
  "started proxies st w =
     foldl (\<lambda>w ip. AddRemoteProxyIPs ip w) (SetSessionStore (Some st) (SetDigistRealm ''Domoticz.com'' w)) proxies"

lemma started_fields [simp]:
  "m_userpasswords (started proxies st w) = m_userpasswords w"
  "m_sessions (started proxies st w) = m_sessions w"
proof -
  have "m_userpasswords (foldl (\<lambda>w ip. AddRemoteProxyIPs ip w) v proxies) = m_userpasswords v \<and>
      m_sessions (foldl (\<lambda>w ip. AddRemoteProxyIPs ip w) v proxies) = m_sessions v" for v :: "'a webem"
    by (induction proxies arbitrary: v) (simp_all add: AddRemoteProxyIPs_def)
  then show "m_userpasswords (started proxies st w) = m_userpasswords w"
    "m_sessions (started proxies st w) = m_sessions w"
    by (simp_all add: started_def SetSessionStore_def SetDigistRealm_def)
qed

lemma server_site_eq:
  "server_site site reader jwrite rows_write query exec =
     one_page site ''/API'' (rest_page reader jwrite rows_write query exec)"
  by (simp add: server_site_def one_page_def RegisterPageCode_def)

interpretation api: page_contract "rest_page reader jwrite rows_write query exec"
  for reader :: "string \<Rightarrow> json_members option" and jwrite rows_write query exec
  by unfold_locales (auto simp: rest_page_def split: sum.splits option.splits)

section \<open>The life of the server\<close>

text \<open>What happens to a server: it is started, a request that is handled, a round of the session cleaner,
  and the changes its owner can make to users, networks and the way of logging in.\<close>

datatype 'd server_event =
  Request inputs request reply
  | Clean int
  | Add_User string string int
  | Clear_Users
  | Set_Method auth_method
  | Set_Networks "IPNetwork list"
  | Start "string list" "'d session_store"

fun handle_event :: "'d site \<Rightarrow> (string \<Rightarrow> string) \<Rightarrow> 'd server_event \<Rightarrow> 'd webem \<Rightarrow> 'd webem option" where
  "handle_event site md5 (Request inp req rep) w = map_option snd (webem_handle_request site md5 inp req rep w)"
| "handle_event site md5 (Clean now) w = Some (CleanSessions now w)"
| "handle_event site md5 (Add_User n p r) w = Some (AddUserPassword n p r w)"
| "handle_event site md5 Clear_Users w = Some (ClearUserPasswords w)"
| "handle_event site md5 (Set_Method a) w = Some (SetAuthenticationMethod a w)"
| "handle_event site md5 (Set_Networks ns) w = Some (w\<lparr>m_localnetworks := ns\<rparr>)"
| "handle_event site md5 (Start proxies st) w = Some (started proxies st w)"

text \<open>A new server has no users and no sessions.\<close>

inductive reachable :: "'d site \<Rightarrow> (string \<Rightarrow> string) \<Rightarrow> 'd webem \<Rightarrow> bool" for site md5 where
  start: "m_userpasswords w = [] \<Longrightarrow> m_sessions w = [] \<Longrightarrow> reachable site md5 w"
| step: "reachable site md5 w \<Longrightarrow> handle_event site md5 e w = Some w' \<Longrightarrow> reachable site md5 w'"

lemma event_justified:
  assumes "handle_event (server_site site reader jwrite rows_write query exec) md5 e w = Some w'"
    and j: "sessions_justified (m_userpasswords w) w"
  shows "sessions_justified (m_userpasswords w') w'"
proof (cases e)
  case (Request inp req rep)
  with assms(1) obtain r where "webem_handle_request (one_page site ''/API''
      (rest_page reader jwrite rows_write query exec)) md5 inp req rep w = Some (r, w')"
    by (auto simp: server_site_eq)
  from api.request_justified [OF this j] show ?thesis using justified_users by metis
next
  case (Clean now)
  with assms have "sessions_justified (m_userpasswords w) w'" by auto
  then show ?thesis using justified_users by metis
next
  case (Add_User n p r)
  with assms justified_AddUser [OF j] show ?thesis by auto
next
  case Clear_Users
  have "m_userpasswords (ClearUserPasswords w) = []" by (simp add: ClearUserPasswords_def)
  with Clear_Users assms justified_ClearUsers [of w] show ?thesis by auto
next
  case (Start proxies st)
  with assms show ?thesis by (auto simp: sessions_justified_def sessions_keyed_def GetSession_def)
qed (use assms in \<open>auto simp: SetAuthenticationMethod_def sessions_justified_def sessions_keyed_def GetSession_def\<close>)

lemma reachable_justified:
  assumes "reachable (server_site site reader jwrite rows_write query exec) md5 w"
  shows "sessions_justified (m_userpasswords w) w"
  using assms
proof (induction rule: reachable.induct)
  case (start w)
  then show ?case by (simp add: sessions_justified_def sessions_keyed_def GetSession_def)
qed (blast intro: event_justified)

section \<open>Paths below the page\<close>

lemma find_last_append: "c \<notin> set t \<Longrightarrow> find_last c (s @ c # t) = Some (length s)"
  by (simp add: find_last_def takeWhile_append)

lemma find_page_below:
  assumes "f = CHR ''/''"
  shows "find_page [(p, page)] (p @ f # t) = Some page"
proof (induction "length t" arbitrary: t rule: less_induct)
  case less
  show ?case
  proof (cases "f \<in> set t")
    case False
    have "find_page [(p, page)] p = Some page" by (subst find_page.simps) simp
    with find_last_append [OF False, of p] assms show ?thesis
      by (subst find_page.simps) (simp add: less)
  next
    case True
    then obtain a b where t: "t = a @ f # b" "f \<notin> set b" by (auto dest: split_list_last)
    from find_last_append [OF t(2), of "p @ f # a"]
    have l: "find_last f (p @ f # t) = Some (length (p @ f # a))" by (simp add: t(1))
    have "find_page [(p, page)] (p @ f # a) = Some page" using t by (intro less) simp
    with l assms show ?thesis by (subst find_page.simps) (simp add: t(1))
  qed
qed

lemma url_decode_plain: "CHR ''%'' \<notin> set u \<Longrightarrow> CHR ''+'' \<notin> set u \<Longrightarrow> url_decode u = (True, u)"
  by (induction u) auto

lemma api_path:
  assumes "p \<noteq> []" "last p \<noteq> CHR ''/''" "CHR ''?'' \<notin> set p" "q = [] \<or> starts_with ''?'' q"
  shows "ExtractRequestPath [] theme (''/API/'' @ p @ q) = Some (''/API/'' @ p)"
proof -
  have "takeWhile (\<lambda>c. c \<noteq> CHR ''?'') (''/API/'' @ p @ q) = ''/API/'' @ p"
    using assms(3,4) by (cases q) (auto simp: takeWhile_append)
  with assms(1,2) show ?thesis by (simp add: ExtractRequestPath_def)
qed

lemma page_headers_status [simp]: "rp_status (page_headers mime rep) = rp_status rep"
  by (simp add: page_headers_def Let_def)

lemma page_headers_gzip [simp]: "rp_bIsGZIP (page_headers mime rep) = rp_bIsGZIP rep"
  by (simp add: page_headers_def Let_def)

lemma page_headers_content [simp]: "rp_content (page_headers mime rep) = rp_content rep"
  by (simp add: page_headers_def Let_def)

lemma CompressWebOutput_status [simp]: "rp_status (CompressWebOutput site req rep) = rp_status rep"
  by (auto simp: CompressWebOutput_def Let_def split: prod.split bool.split)

lemma CompressWebOutput_off: "m_gzipmode site \<noteq> WWW_USE_GZIP \<Longrightarrow> CompressWebOutput site req rep = rep"
  by (simp add: CompressWebOutput_def)

lemma finish_unknown:
  "finish_session md5 inp req (new_web_session junk host) rep w = (rep, w)"
  by (simp add: finish_session_def script_session_def new_web_session_def Let_def)

text \<open>No reply of the REST interface announces a file to be sent.\<close>

lemma field_errors: "getFieldsAndValues reader req d = Inl st \<Longrightarrow> st \<noteq> st_download_file"
  by (auto simp: getFieldsAndValues_def Let_def split: option.splits prod.splits if_splits)

lemma count_reply_status [simp]: "rp_status (count_reply jwrite st n) = st"
  by (simp add: count_reply_def)

lemma HandleREST_status:
  assumes "HandleREST reader jwrite rows_write query exec req rep db = Inr (Some (r, db'))"
    and "rp_status rep \<noteq> st_download_file"
  shows "rp_status r \<noteq> st_download_file"
  using assms
  by (auto simp: HandleREST_def ProcessRequest_def POST_def PUT_def PATCH_def DELETE_def GET_def session_GET_def
      Let_def dest: field_errors split: sum.splits option.splits prod.splits bool.splits if_splits list.splits)

section \<open>Upgrades and logging out\<close>

lemma compute_accept_SHA1:
  assumes "length buffer = 80" "length key < 2 ^ 28"
  shows "compute_accept_header buffer key = base64_encode (SHA1 (string_bytes (key @ GUID)))"
    and "compute_accept_header buffer key \<noteq> []"
proof -
  have "length (string_bytes (key @ GUID)) < 2 ^ 29"
    using assms(2) by (simp add: string_bytes_def GUID_def)
  with assms(1) show "compute_accept_header buffer key = base64_encode (SHA1 (string_bytes (key @ GUID)))"
    by (simp add: compute_accept_header_def calc_SHA1)
  show "compute_accept_header buffer key \<noteq> []"
    using hash_bytes_length [of buffer "string_bytes (key @ GUID)"]
    unfolding compute_accept_header_def by (intro base64_nonempty) auto
qed

lemma push_path: "\<exists>path. ExtractRequestPath root theme ''/PUSH'' = Some path"
proof -
  have "\<not> starts_with (root @ ''/@login'') ''/PUSH''"
  proof
    assume "starts_with (root @ ''/@login'') ''/PUSH''"
    then obtain t where "''/PUSH'' = (root @ ''/@login'') @ t" by (auto simp: starts_with_iff)
    from arg_cong [OF this, of length] show False by simp
  qed
  then show ?thesis by (simp add: ExtractRequestPath_def Let_def)
qed

lemma logout_id_own:
  assumes "list_all is_alnum (se_id s)"
  shows "logout_id (session_cookie s @ rest) = Some (se_id s)"
proof -
  have "\<not> is_alnum (CHR ''_'')" by code_simp
  then have "CHR ''_'' \<notin> set (''DMZSID='' @ se_id s)" using assms by (auto simp: list_all_iff)
  from str_find_char [OF this, of "[]" "auth_token s @ ''.'' @ int_to_string (expires s) @ rest"]
  have u: "str_find ''_'' (session_cookie s @ rest) 0 = Some (7 + length (se_id s))"
    by (simp add: session_cookie_def)
  have d: "str_find ''DMZSID='' (session_cookie s @ rest) 0 = Some 0"
    by (simp add: session_cookie_def str_find_def)
  have "substr (session_cookie s @ rest) 7 (length (se_id s)) = se_id s"
    by (simp add: session_cookie_def substr_def)
  then show ?thesis using d u by (simp add: logout_id_def)
qed

section \<open>Example data\<close>

definition quiet_site :: "nat site" where
  "quiet_site = \<lparr>myPages = [], myPages_w = [], myActions = [], site_includes = (\<lambda>_. None), m_webRoot = [],
     m_actTheme = ''/styles/default'', m_gzipmode = WWW_FORCE_NO_GZIP_SUPPORT, doc_root = ''/www'',
     site_env = \<lparr>env_file = (\<lambda>_. None), env_mtime = (\<lambda>_. 0), env_strptime = (\<lambda>_ _. None),
       env_http_date = (\<lambda>_. []), env_gunzip = id\<rparr>, site_gzip = id\<rparr>"

definition quiet_inputs :: inputs where
  "quiet_inputs = \<lparr>in_now = 100, in_session_uuid = [1], in_token_uuid = [2], in_junk = 0,
     in_buffer = replicate 80 0,
     in_info = \<lparr>delay_status = False, mtime_support = False, is_modified = False, last_written = 0\<rparr>\<rparr>"

definition new_server :: "nat \<Rightarrow> nat webem" where
  "new_server db = \<lparr>m_userpasswords = [], m_localnetworks = [], myRemoteProxyIPs = [],
     m_authmethod = AUTH_LOGIN, m_DigistRealm = ''Domoticz.com'', myWhitelistURLs = [], m_sessions = [],
     mySessionStore = None, web_db = db, m_failcounter = 0\<rparr>"

definition example_server :: "nat \<Rightarrow> nat webem" where
  "example_server db = AddUserPassword ''u'' (replicate 32 (CHR ''0'')) 1 (new_server db)"

section \<open>Properties\<close>

text \<open>C15: Whatever happens to the server, each session in memory is kept under its own id and its rights
  are those of its user: from a new server on, after any sequence of requests, cleaning rounds and
  changes of users, networks and login method, a session has no rights, or it is one of a nameless
  administrator, or it has exactly the rights of the user it names.\<close>

theorem session_rights_follow_users:
  assumes "reachable (server_site site reader jwrite rows_write query exec) md5 w"
    and "GetSession w k = Some s"
  shows "se_id s = k \<and> (rights s = - 1 \<or> (se_username s = [] \<and> rights s = 2) \<or>
    (\<exists>u. find_user (m_userpasswords w) (se_username s) = Some u \<and> rights s = userrights u))"
  using justified_Get [OF reachable_justified [OF assms(1)] assms(2)]
  by (auto simp: rights_justified_def)

theorem session_rights_follow_users_witness:
  "\<exists>w s. reachable (server_site quiet_site (\<lambda>_. None) int_to_string (\<lambda>n t rows. [])
      (\<lambda>db s. ([], db)) (\<lambda>db s vs. (True, db))) (GenerateMD5Hash example_digest) w \<and>
    GetSession w (replicate 32 (CHR ''0'')) = Some s \<and> se_id s = replicate 32 (CHR ''0'')"
proof -
  let ?site = "server_site quiet_site (\<lambda>_. None) int_to_string (\<lambda>n t rows. [])
      (\<lambda>db s. ([], db)) (\<lambda>db s vs. (True, db))"
  let ?md5 = "GenerateMD5Hash example_digest"
  let ?req = "new_request\<lparr>rq_method := ''GET'', rq_uri := ''/API''\<rparr>"
  have "map_option (\<lambda>(r, w). map fst (m_sessions w))
      (webem_handle_request ?site ?md5 quiet_inputs ?req (stock_reply st_ok) (new_server 0)) =
      Some [replicate 32 (CHR ''0'')]"
    by code_simp
  then obtain r w where w: "webem_handle_request ?site ?md5 quiet_inputs ?req (stock_reply st_ok) (new_server 0) = Some (r, w)"
      "map fst (m_sessions w) = [replicate 32 (CHR ''0'')]" by auto
  have "reachable ?site ?md5 (new_server 0)" by (rule reachable.start) (simp_all add: new_server_def)
  then have r: "reachable ?site ?md5 w"
    by (rule reachable.step [where e = "Request quiet_inputs ?req (stock_reply st_ok)"]) (simp add: w(1))
  obtain s where s: "GetSession w (replicate 32 (CHR ''0'')) = Some s"
    using w(2) by (auto simp: GetSession_def)
  from session_rights_follow_users [OF r s] r s show ?thesis by blast
qed

text \<open>C13: The REST interface is open: the server asks for credentials only for the path \<^verbatim>\<open>/API\<close> itself,
  but the page also answers everything below it.  A request for a table is carried out and answered
  whoever sends it, with users defined, from any network, without cookie or password; no session is
  created for it.\<close>

theorem rest_below_api_open:
  assumes uri: "rq_uri req = ''/API/'' @ p @ q"
    and p: "p \<noteq> []" "last p \<noteq> CHR ''/''" "CHR ''?'' \<notin> set p" and q: "q = [] \<or> starts_with ''?'' q"
    and plain: "CHR ''%'' \<notin> set (p @ q)" "CHR ''+'' \<notin> set (p @ q)"
    and root: "m_webRoot site = []" and proxy: "proxy_loop req (myRemoteProxyIPs w) (host_address req) = Some host"
    and kind: "rq_method req \<noteq> ''OPTIONS''" "\<not> IsAction req" "\<not> asks_upgrade req"
    and params: "page_params req = Parameters ps"
    and run: "HandleREST reader jwrite rows_write query exec (req\<lparr>rq_parameters := ps\<rparr>)
      (rep0\<lparr>rp_status := st_ok, rp_bIsGZIP := False\<rparr>) (web_db w) = Inr (Some (r, db))"
  shows "\<exists>rep'. webem_handle_request (server_site site reader jwrite rows_write query exec) md5 inp req rep0 w =
      Some (rep', w\<lparr>web_db := db\<rparr>) \<and> rp_status rep' = rp_status r \<and>
      (m_gzipmode site \<noteq> WWW_USE_GZIP \<longrightarrow> rp_content rep' = rp_content r)"
proof -
  let ?site = "server_site site reader jwrite rows_write query exec"
  let ?rep = "rep0\<lparr>rp_status := st_ok, rp_bIsGZIP := False\<rparr>" and ?req = "req\<lparr>rq_parameters := ps\<rparr>"
  let ?s = "new_web_session (in_junk inp) host"
  have site: "m_webRoot ?site = []" "myPages ?site = [(''/API'', rest_page reader jwrite rows_write query exec)]"
    "myPages_w ?site = []" "m_gzipmode ?site = m_gzipmode site"
    using root by (simp_all add: server_site_eq one_page_def)
  have dec: "url_decode (rq_uri req) = (True, rq_uri req)"
    using plain by (intro url_decode_plain) (auto simp: uri)
  define path where "path = ''/API/'' @ p"
  have pt: "ExtractRequestPath [] (m_actTheme ?site) (rq_uri req) = Some path"
    unfolding uri path_def by (rule api_path [OF p q])
  have "takeWhile (\<lambda>c. c \<noteq> CHR ''?'') path \<noteq> ''/API''" by (simp add: path_def)
  then have page: "IsPageOverride ?site req ?rep = Some (False, ?rep)"
    by (simp add: IsPageOverride_def dec pt site Let_def)
  have f: "find_page (myPages ?site) path = Some (rest_page reader jwrite rows_write query exec)"
    using find_page_below [of "CHR ''/''" "''/API''" _ p] by (simp add: site path_def)
  have swap: "?rep = rep0\<lparr>rp_bIsGZIP := False, rp_status := st_ok\<rparr>" by simp
  define mime where "mime = extension_to_type (if contains (rq_uri req) ''json.htm'' then ''json''
    else path_extension path)"
  have o: "CheckForPageOverride ?site ?s req ?rep w = Some (True, ?s, ?req, page_headers mime r, w\<lparr>web_db := db\<rparr>)"
    using run [unfolded swap] by (simp add: CheckForPageOverride_def dec pt params f mime_def Let_def rest_page_def site(1))
  have st: "rp_status r \<noteq> st_download_file" by (rule HandleREST_status [OF run]) simp
  have r: "reply_status ?s = st_ok" by (simp add: new_web_session_def)
  have h: "webem_handle_request ?site md5 inp req rep0 w =
      Some (if \<not> rp_bIsGZIP r then CompressWebOutput ?site req (page_headers mime r) else page_headers mime r,
        w\<lparr>web_db := db\<rparr>)"
    using kind by (simp add: webem_handle_request_def proxy page is_upgrade_request_def handle_page_def o st r
        finish_unknown)
  then show ?thesis by (simp add: CompressWebOutput_off site)
qed

theorem rest_below_api_open_witness:
  "\<exists>rep'. webem_handle_request (server_site quiet_site (\<lambda>_. None) int_to_string (\<lambda>n t rows. [])
       (\<lambda>db s. ([[''1'', [], [], []]], db + 1)) (\<lambda>db s vs. (True, db))) (GenerateMD5Hash example_digest) quiet_inputs
     (new_request\<lparr>rq_method := ''DELETE'', rq_uri := ''/API/Users/3''\<rparr>) (stock_reply st_ok)
     (example_server 0) =
   Some (rep', example_server 2) \<and> rp_status rep' = st_no_content"
proof -
  let ?req = "new_request\<lparr>rq_method := ''DELETE'', rq_uri := ''/API/'' @ ''Users/3'' @ []\<rparr>"
  let ?q = "\<lambda>db s. ([[''1'', [], [], []]], db + (1::nat))"
  have c: "rest_Create (?req\<lparr>rq_parameters := []\<rparr>) = Inr (Some (False, (new_data_access ''Admin'' ''User'' ''DELETE'')\<lparr>m_TableKey := 3\<rparr>))"
    by code_simp
  have v: "m_Verb (new_data_access u t v) = v" "content_length (new_request\<lparr>rq_method := v, rq_uri := u, rq_parameters := l\<rparr>) = 0" for u t v l
    by (simp_all add: new_data_access_def new_request_def)
  have run: "HandleREST (\<lambda>_. None) int_to_string (\<lambda>n t rows. []) ?q (\<lambda>db s vs. (True, db)) (?req\<lparr>rq_parameters := []\<rparr>)
      (r\<lparr>rp_status := st_ok, rp_bIsGZIP := False\<rparr>) (web_db (example_server 0)) =
      Inr (Some (count_reply int_to_string st_no_content (atoi ''1''), 2))" for r
    unfolding HandleREST_def c
    by (simp add: UserHasAccess_def Let_def ProcessRequest_def DELETE_def v example_server_def
        query_format_def expand_format_plain delete_sql_def int_to_string_def nat_to_string.simps
        digit_char_chars new_data_access_def new_server_def AddUserPassword_def)
  have k: "\<not> IsAction ?req" "\<not> asks_upgrade ?req" "page_params ?req = Parameters []"
    by code_simp+
  have x: "(example_server 0)\<lparr>web_db := 2\<rparr> = example_server 2"
    by (simp add: example_server_def new_server_def AddUserPassword_def)
  have "\<exists>rep'. webem_handle_request (server_site quiet_site (\<lambda>_. None) int_to_string (\<lambda>n t rows. [])
       ?q (\<lambda>db s vs. (True, db))) (GenerateMD5Hash example_digest) quiet_inputs
     ?req (stock_reply st_ok) (example_server 0) =
   Some (rep', (example_server 0)\<lparr>web_db := 2\<rparr>) \<and>
     rp_status rep' = rp_status (count_reply int_to_string st_no_content (atoi ''1'')) \<and>
     (m_gzipmode quiet_site \<noteq> WWW_USE_GZIP \<longrightarrow>
       rp_content rep' = rp_content (count_reply int_to_string st_no_content (atoi ''1'')))"
    by (rule rest_below_api_open [OF _ _ _ _ _ _ _ _ _ _ k run, where p = "''Users/3''" and q = "[]" and host = "[]"])
      (simp_all add: quiet_site_def example_server_def new_server_def AddUserPassword_def new_request_def)
  then show ?thesis by (auto simp: x)
qed

text \<open>The push connection is open as well: an upgrade to a web socket is granted to every client
  that asks for it correctly, whatever users are defined, and the reply carries the proof of the
  standard: the base64 text of the SHA-1 hash of the key and the fixed identifier.\<close>

theorem upgrade_granted:
  assumes "rq_method req = ''GET''" "rq_uri req = ''/PUSH''"
    and "http_version_major req * 10 + http_version_minor req \<ge> 11"
    and "get_req_header req ''Connection'' = Some c" "contains c ''Upgrade''"
    and "get_req_header req ''Upgrade'' = Some u" "iequals u ''websocket''"
    and "get_req_header req ''Host'' \<noteq> None" "get_req_header req ''Origin'' \<noteq> None"
    and "get_req_header req ''Sec-Websocket-Version'' = Some v" "atoi v \<ge> 13"
    and "get_req_header req ''Sec-Websocket-Protocol'' = Some pr" "contains pr ''domoticz''"
    and "get_req_header req ''Sec-Websocket-Key'' = Some key" "length key < 2 ^ 28"
    and "proxy_loop req (myRemoteProxyIPs w) (host_address req) = Some host" "length (in_buffer inp) = 80"
  shows "webem_handle_request site md5 inp req rep w =
    Some (upgrade_reply (base64_encode (SHA1 (string_bytes (key @ GUID)))), w)"
proof -
  let ?rep = "rep\<lparr>rp_status := st_ok, rp_bIsGZIP := False\<rparr>"
  have "url_decode ''/PUSH'' = (True, ''/PUSH'')" by (intro url_decode_plain) simp_all
  then obtain b r where page: "IsPageOverride site req ?rep = Some (b, r)"
    using assms(2) push_path [of "m_webRoot site" "m_actTheme site"]
    by (auto simp: IsPageOverride_def Let_def)
  have d: "\<not> contains ''/PUSH'' ''dologout''" by code_simp
  have up: "asks_upgrade req" using assms(1,3-7) by (simp add: asks_upgrade_def)
  note a = compute_accept_SHA1 [OF assms(17,15)]
  have "is_upgrade_request (in_buffer inp) req =
      Some (upgrade_reply (base64_encode (SHA1 (string_bytes (key @ GUID)))))"
    using assms(2,8-14) up a by (auto simp: is_upgrade_request_def Let_def)
  then show ?thesis
    using assms(1,2,16) page d by (simp add: webem_handle_request_def Let_def)
qed

text \<open>Logging out ends the session: it leaves the memory of the server, its token leaves the store,
  so that the cookie shows no token any more, and the reply removes the cookie.\<close>

theorem logout_ends_session:
  assumes "IsPageOverride site req (rep\<lparr>rp_status := st_ok, rp_bIsGZIP := False\<rparr>) = Some (True, rep')"
    and "contains (rq_uri req) ''dologout''" "rq_method req \<noteq> ''OPTIONS''"
    and cookie: "get_req_header req ''Cookie'' = Some (session_cookie s)"
    and chars: "list_all is_alnum (se_id s)" "list_all (\<lambda>c. is_base64 c \<or> c = CHR ''='') (auth_token s)"
    and "proxy_loop req (myRemoteProxyIPs w) (host_address req) = Some host"
    and st: "mySessionStore w = Some st" "\<And>id db. ss_id (store_GetSession st (store_RemoveSession st id db) id) = []"
  shows "\<exists>w'. webem_handle_request site md5 inp req rep w = Some (send_authorization_request w', w') \<and>
    GetSession w' (se_id s) = None \<and> \<not> token_shown md5 w' req"
proof -
  let ?w' = "removeAuthToken (se_id s) (RemoveSession (se_id s) w)"
  have l: "logout req w = (send_authorization_request ?w', ?w')"
    using logout_id_own [OF chars(1), of "[]"] cookie by (simp add: logout_def Let_def)
  have m: "mySessionStore (RemoveSession k w) = Some st" for k using st(1) by (simp add: RemoveSession_def)
  have g: "GetSession (v\<lparr>web_db := db\<rparr>) k = GetSession v k" for v :: "'a webem" and db k
    by (simp add: GetSession_def)
  have "parse_session_cookie (session_cookie s) = Some (se_id s, auth_token s, int_to_string (expires s))"
    using parse_session_cookie_own [OF chars, of "[]"] by simp
  then have "\<not> token_shown md5 ?w' req"
    using cookie st(2) by (auto simp: token_shown_def removeAuthToken_def m)
  moreover have "GetSession ?w' (se_id s) = None" by (simp add: removeAuthToken_def m g)
  ultimately show ?thesis using assms(1-3,7) l by (simp add: webem_handle_request_def Let_def)
qed

definition push_request :: request where
  "push_request = new_request\<lparr>rq_method := ''GET'', rq_uri := ''/PUSH'', http_version_major := 1,
     http_version_minor := 1, rq_headers :=
       [\<lparr>h_name = ''Host'', h_value = ''server.example.com''\<rparr>,
        \<lparr>h_name = ''Upgrade'', h_value = ''websocket''\<rparr>,
        \<lparr>h_name = ''Connection'', h_value = ''keep-alive, Upgrade''\<rparr>,
        \<lparr>h_name = ''Sec-WebSocket-Key'', h_value = ''dGhlIHNhbXBsZSBub25jZQ==''\<rparr>,
        \<lparr>h_name = ''Origin'', h_value = ''http://example.com''\<rparr>,
        \<lparr>h_name = ''Sec-WebSocket-Protocol'', h_value = ''domoticz''\<rparr>,
        \<lparr>h_name = ''Sec-WebSocket-Version'', h_value = ''13''\<rparr>]\<rparr>"

theorem upgrade_granted_witness:
  "webem_handle_request quiet_site (GenerateMD5Hash example_digest) quiet_inputs push_request (stock_reply st_ok)
     (example_server 0) =
   Some (upgrade_reply (base64_encode (SHA1 (string_bytes (''dGhlIHNhbXBsZSBub25jZQ=='' @ GUID)))), example_server 0)"
proof -
  have h: "get_req_header push_request ''Connection'' = Some ''keep-alive, Upgrade''"
    "contains ''keep-alive, Upgrade'' ''Upgrade''"
    "get_req_header push_request ''Upgrade'' = Some ''websocket''" "iequals ''websocket'' ''websocket''"
    "get_req_header push_request ''Host'' \<noteq> None" "get_req_header push_request ''Origin'' \<noteq> None"
    "get_req_header push_request ''Sec-Websocket-Version'' = Some ''13''" "atoi ''13'' \<ge> 13"
    "get_req_header push_request ''Sec-Websocket-Protocol'' = Some ''domoticz''" "contains ''domoticz'' ''domoticz''"
    "get_req_header push_request ''Sec-Websocket-Key'' = Some ''dGhlIHNhbXBsZSBub25jZQ==''"
    by code_simp+
  show ?thesis
    by (rule upgrade_granted [OF _ _ _ h, where host = "host_address push_request"])
      (simp_all add: push_request_def quiet_inputs_def example_server_def new_server_def AddUserPassword_def)
qed

theorem logout_ends_session_witness:
  "\<exists>w'. webem_handle_request (one_page undefined ''/API'' (\<lambda>s req rep w. None)\<lparr>m_webRoot := [], m_actTheme := []\<rparr>)
      (GenerateMD5Hash example_digest) quiet_inputs
      (new_request\<lparr>rq_uri := ''/API?dologout'', rq_headers := [\<lparr>h_name = ''Cookie'', h_value = ''DMZSID=1_t.700''\<rparr>]\<rparr>)
      (stock_reply st_ok)
      (AddSession (no_session\<lparr>se_id := ''1''\<rparr>) (example_webem table_store (\<lambda>sid. no_stored))) =
      Some (send_authorization_request w', w') \<and>
    GetSession w' ''1'' = None"
proof -
  let ?site = "one_page undefined ''/API'' (\<lambda>s req rep w. None)\<lparr>m_webRoot := [], m_actTheme := []\<rparr>"
  let ?s = "no_session\<lparr>se_id := ''1'', auth_token := ''t'', expires := 700\<rparr>"
  let ?req = "new_request\<lparr>rq_uri := ''/API?dologout'', rq_headers := [\<lparr>h_name = ''Cookie'', h_value = ''DMZSID=1_t.700''\<rparr>]\<rparr>"
  have page: "IsPageOverride ?site ?req r = Some (True, r)" for r
  proof -
    have "url_decode ''/API?dologout'' = (True, ''/API?dologout'')" by code_simp
    moreover have "ExtractRequestPath [] [] ''/API?dologout'' = Some ''/API''" by code_simp
    ultimately show ?thesis by (simp add: IsPageOverride_def one_page_def)
  qed
  have i: "int_to_string 700 = ''700''" by code_simp
  have c: "contains (rq_uri ?req) ''dologout''" "list_all is_alnum (se_id ?s)"
    "list_all (\<lambda>c. is_base64 c \<or> c = CHR ''='') (auth_token ?s)"
    "get_req_header ?req ''Cookie'' = Some ''DMZSID=1_t.700''"
    by code_simp+
  have k: "get_req_header ?req ''Cookie'' = Some (session_cookie ?s)"
    using c(4) by (simp add: session_cookie_def i)
  let ?w = "AddSession (no_session\<lparr>se_id := ''1''\<rparr>) (example_webem table_store (\<lambda>sid. no_stored))"
  have "\<exists>w'. webem_handle_request ?site (GenerateMD5Hash example_digest) quiet_inputs ?req (stock_reply st_ok) ?w =
      Some (send_authorization_request w', w') \<and> GetSession w' (se_id ?s) = None \<and>
      \<not> token_shown (GenerateMD5Hash example_digest) w' ?req"
    by (rule logout_ends_session [OF page c(1) _ k c(2,3), where st = table_store and host = "[]"])
      (simp_all add: AddSession_def example_webem_def table_store_def new_request_def)
  then show ?thesis by auto
qed

end
