(* ===== verification/PluginValue.thy ===== *)
theory PluginValue
  imports Prelude "HOL-Library.AList"
begin

text \<open>
  Python objects as the plugin protocols of \<^verbatim>\<open>hardware/plugins/PluginProtocols.cpp\<close> take them
  apart, and the conversions between them and JSON.  The text of a Python string is its UTF-8 form;
  a dictionary is the list of its entries in the order of insertion.  \<open>PFloat\<close> carries the text that
  \<^verbatim>\<open>std::to_string\<close> gives.
\<close>

datatype py =
  PStr string | PBytes string | PByteArray string | PInt int | PBool bool | PFloat string
  | PList "py list" | PTuple "py list" | PDict "(string \<times> py) list" | PNone

type_synonym dict = "(string \<times> py) list"

section \<open>Access\<close>

text \<open>\<^verbatim>\<open>std::string(PyUnicode_AsUTF8(o))\<close> ends at the first zero byte.\<close>

definition c_string :: "string \<Rightarrow> string" where
  "c_string s = takeWhile (\<lambda>c. c \<noteq> CHR 0x00) s"

text \<open>\<^verbatim>\<open>PyUnicode_GetLength\<close> counts characters: the bytes that do not continue one.\<close>

definition code_points :: "string \<Rightarrow> nat" where
  "code_points s = length (filter (\<lambda>c. of_char c div 64 \<noteq> (2 :: nat)) s)"

text \<open>\<^verbatim>\<open>PyLong_AsLong\<close> of a number beyond 64 bits is -1.\<close>

definition long_value :: "int \<Rightarrow> int" where
  "long_value i = (if - (2 ^ 63) \<le> i \<and> i < 2 ^ 63 then i else - 1)"

text \<open>\<^verbatim>\<open>PyLong_Check\<close> and \<^verbatim>\<open>PyLong_AsLong\<close>: a boolean is a number.\<close>

fun as_long :: "py \<Rightarrow> int option" where
  "as_long (PInt i) = Some (long_value i)"
| "as_long (PBool b) = Some (if b then 1 else 0)"
| "as_long _ = None"

definition get_str :: "dict \<Rightarrow> string \<Rightarrow> string option" where
  "get_str d k = (case map_of d k of Some (PStr s) \<Rightarrow> Some (c_string s) | _ \<Rightarrow> None)"

definition get_long :: "dict \<Rightarrow> string \<Rightarrow> int option" where
  "get_long d k = Option.bind (map_of d k) as_long"

definition dict_set :: "string \<Rightarrow> py \<Rightarrow> dict \<Rightarrow> dict" where
  "dict_set k v d = AList.update k v d"

definition AddStringToDict :: "string \<Rightarrow> string \<Rightarrow> dict \<Rightarrow> dict" where
  "AddStringToDict k v d = dict_set k (PStr v) d"

definition AddBytesToDict :: "string \<Rightarrow> string \<Rightarrow> dict \<Rightarrow> dict" where
  "AddBytesToDict k v d = dict_set k (PBytes v) d"

definition AddIntToDict :: "string \<Rightarrow> int \<Rightarrow> dict \<Rightarrow> dict" where
  "AddIntToDict k v d = dict_set k (PInt v) d"

section \<open>JSON to Python\<close>

text \<open>
  \<^verbatim>\<open>Json::Value\<close>.  A real number carries its value when that is integral, and its text.  Object
  members come in the order of their names.
\<close>

datatype json =
  JNull | JBoolean bool | JInteger int | JReal "int option" string | JString string
  | JArray "json list" | JObject "(string \<times> json) list"

definition is_uint :: "int \<Rightarrow> bool" where "is_uint i \<longleftrightarrow> 0 \<le> i \<and> i < 2 ^ 32"
definition is_int :: "int \<Rightarrow> bool" where "is_int i \<longleftrightarrow> - (2 ^ 31) \<le> i \<and> i < 2 ^ 31"

definition json_number :: "int \<Rightarrow> string \<Rightarrow> py" where
  "json_number i text = (if is_uint i \<or> is_int i then PInt i else PFloat text)"

text \<open>
  \<^verbatim>\<open>JSONtoPython\<close> for an element of a list and a member of an object; they differ on booleans,
  which in a list become their text.  \<open>float_text\<close> is the text of an integer that only fits a double.
\<close>

fun json_element :: "(int \<Rightarrow> string) \<Rightarrow> bool \<Rightarrow> json \<Rightarrow> py" where
  "json_element float_text member JNull = PStr []"
| "json_element float_text member (JBoolean b) =
     (if member then PBool b else PStr (if b then ''true'' else ''false''))"
| "json_element float_text member (JInteger i) = json_number i (float_text i)"
| "json_element float_text member (JReal v text) =
     (case v of Some i \<Rightarrow> json_number i text | None \<Rightarrow> PFloat text)"
| "json_element float_text member (JString s) = PStr s"
| "json_element float_text member (JArray js) = PList (map (json_element float_text False) js)"
| "json_element float_text member (JObject ms) =
     PDict (foldl (\<lambda>d (k, v). dict_set (c_string k) v d) []
       (map (\<lambda>(k, j). (k, json_element float_text True j)) ms))"

definition JSONtoPython :: "(int \<Rightarrow> string) \<Rightarrow> json \<Rightarrow> py" where
  "JSONtoPython float_text j = json_element float_text True j"

text \<open>\<^verbatim>\<open>JSONtoPython\<close> of a text: an empty dictionary when it is not that of an object.\<close>

definition JSONtoPython_text :: "(int \<Rightarrow> string) \<Rightarrow> (string \<Rightarrow> json option) \<Rightarrow> string \<Rightarrow> py" where
  "JSONtoPython_text float_text reader s =
     (case reader s of Some (JObject ms) \<Rightarrow> JSONtoPython float_text (JObject ms) | _ \<Rightarrow> PDict [])"

section \<open>Python to JSON\<close>

text \<open>
  \<^verbatim>\<open>PythontoJSON\<close>.  Every entry is followed by a comma and the last character is then replaced by
  the closing bracket.
\<close>

definition close_with :: "char \<Rightarrow> string \<Rightarrow> string" where
  "close_with c s = butlast s @ [c]"

definition quoted :: "string \<Rightarrow> string" where
  "quoted s = [CHR 0x22] @ c_string s @ [CHR 0x22]"

fun PythontoJSON :: "py \<Rightarrow> string" where
  "PythontoJSON (PStr s) = quoted s"
| "PythontoJSON (PBool b) = (if b then ''true'' else ''false'')"
| "PythontoJSON (PInt i) = int_to_string (long_value i)"
| "PythontoJSON (PBytes s) = quoted s"
| "PythontoJSON (PByteArray s) = quoted s"
| "PythontoJSON (PFloat t) = t"
| "PythontoJSON (PDict d) =
     close_with (CHR ''}'') (''{ '' @ concat (map (\<lambda>(k, v). quoted k @ '' :'' @ PythontoJSON v @ '','') d))"
| "PythontoJSON (PList xs) =
     close_with (CHR '']'') (''[ '' @ concat (map (\<lambda>v. PythontoJSON v @ '','') xs))"
| "PythontoJSON (PTuple xs) =
     close_with (CHR '']'') (''[ '' @ concat (map (\<lambda>v. PythontoJSON v @ '','') xs))"
| "PythontoJSON PNone = []"

end
