(* ===== verification/Framing.thy ===== *)
theory Framing
  imports Prelude
begin

text \<open>
  Protocols on a stream: data arrives in pieces that need not end where a message ends.  The contract
  of such a protocol is what its loop does with data that starts with whole messages; a reader that
  keeps what the loop leaves then delivers the same messages however the stream was cut.
\<close>

section \<open>Readers\<close>

text \<open>
  A loop takes what was kept and the new data and gives events and what to keep; \<^const>\<open>None\<close> is an
  exception or undefined behaviour.  \<open>reads\<close> is the effect of several pieces.
\<close>

fun reads :: "('a list \<Rightarrow> ('e list \<times> 'a list) option) \<Rightarrow> 'a list \<Rightarrow> 'a list list \<Rightarrow> ('e list \<times> 'a list) option"
where
  "reads loop r [] = Some ([], r)"
| "reads loop r (c # cs) =
     (case loop (r @ c) of
        None \<Rightarrow> None
      | Some (es, r') \<Rightarrow> map_option (\<lambda>(es', r''). (es @ es', r'')) (reads loop r' cs))"

text \<open>The start of a frame, but not all of it.\<close>

definition part_of :: "('a list \<Rightarrow> bool) \<Rightarrow> 'a list \<Rightarrow> bool" where
  "part_of frame r \<longleftrightarrow> r = [] \<or> (\<exists>m t. frame m \<and> m = r @ t \<and> t \<noteq> [])"

lemma part_of_Nil [simp]: "part_of frame []"
  by (simp add: part_of_def)

text \<open>A piece of a stream of frames is some frames and a part of the next.\<close>

lemma split_frames:
  assumes "list_all frame ms" "part_of frame r" "u @ t = concat ms @ r"
  shows "\<exists>ms1 ms2 r1. ms = ms1 @ ms2 \<and> u = concat ms1 @ r1 \<and> part_of frame r1 \<and> r1 @ t = concat ms2 @ r \<and>
    (t = [] \<longrightarrow> ms2 = [] \<and> r1 = r)"
  using assms
proof (induction ms arbitrary: u)
  case Nil
  have "part_of frame u"
  proof (cases "u = []")
    case False
    with Nil.prems obtain m s where "frame m" "m = (u @ t) @ s" "s \<noteq> []"
      by (auto simp: part_of_def)
    then have "frame m \<and> m = u @ (t @ s) \<and> t @ s \<noteq> []" by simp
    then show ?thesis unfolding part_of_def by blast
  qed simp
  with Nil show ?case by (intro exI [of _ "[]"] exI [of _ u]) auto
next
  case (Cons m ms)
  from Cons.prems(3) have e: "u @ t = m @ (concat ms @ r)" by simp
  show ?case
  proof (cases "length m \<le> length u")
    case True
    define v where "v = drop (length m) u"
    from e True have "take (length m) u = m" by (metis append_eq_conv_conj take_append diff_is_0_eq take0 append_Nil2)
    then have v: "u = m @ v" unfolding v_def by (metis append_take_drop_id)
    with e have v2: "v @ t = concat ms @ r" by simp
    with Cons.IH [OF _ _ v2] Cons.prems obtain ms1 ms2 r1 where
      "ms = ms1 @ ms2" "v = concat ms1 @ r1" "part_of frame r1" "r1 @ t = concat ms2 @ r"
      "t = [] \<longrightarrow> ms2 = [] \<and> r1 = r" by auto
    with v show ?thesis by (intro exI [of _ "m # ms1"] exI [of _ ms2] exI [of _ r1]) auto
  next
    case False
    with e obtain v where "m = u @ v" "v \<noteq> []" "t = v @ concat ms @ r"
      by (auto simp: append_eq_append_conv2)
    with Cons.prems(1) have "part_of frame u" by (auto simp: part_of_def)
    with e \<open>v \<noteq> []\<close> \<open>t = v @ concat ms @ r\<close> show ?thesis by (intro exI [of _ "[]"] exI [of _ "m # ms"] exI [of _ u]) auto
  qed
qed

section \<open>The contract\<close>

locale framing =
  fixes frame :: "'a list \<Rightarrow> bool" and event :: "'a list \<Rightarrow> 'e"
    and loop :: "'a list \<Rightarrow> ('e list \<times> 'a list) option"
  assumes loop_frames: "list_all frame ms \<Longrightarrow> part_of frame r \<Longrightarrow> concat ms @ r \<noteq> [] \<Longrightarrow>
    loop (concat ms @ r) = Some (map event ms, r)"
begin

lemma reads_frames:
  assumes "list_all frame ms" "part_of frame r'" "r @ concat cs = concat ms @ r'" "[] \<notin> set cs" "part_of frame r"
    and "cs = [] \<longrightarrow> ms = []"
  shows "reads loop r cs = Some (map event ms, r')"
  using assms
proof (induction cs arbitrary: r ms)
  case Nil
  then show ?case by simp
next
  case (Cons c cs)
  from Cons.prems(3) have "(r @ c) @ concat cs = concat ms @ r'" by simp
  from split_frames [OF Cons.prems(1,2) this] obtain ms1 ms2 r1 where
    s: "ms = ms1 @ ms2" "r @ c = concat ms1 @ r1" "part_of frame r1" "r1 @ concat cs = concat ms2 @ r'"
      "concat cs = [] \<longrightarrow> ms2 = [] \<and> r1 = r'"
    by blast
  have "concat ms1 @ r1 \<noteq> []" using Cons.prems(4) s(2) by (metis append_is_Nil_conv list.set_intros(1))
  then have l: "loop (r @ c) = Some (map event ms1, r1)"
    using loop_frames [of ms1 r1] s Cons.prems(1) by simp
  have "reads loop r1 cs = Some (map event ms2, r')"
    using Cons.IH [of ms2 r1] s Cons.prems by auto
  with l s show ?case by simp
qed

end

end
