(* ===== verification/PluginText.thy ===== *)
theory PluginText
  imports PluginValue Framing
begin

text \<open>
  The text protocols of \<^verbatim>\<open>hardware/plugins/PluginProtocols.cpp\<close>: raw data, lines and JSON
  objects.  Each keeps the data of an incomplete message in \<^verbatim>\<open>m_sRetainedData\<close>.
\<close>

section \<open>Messages to the plugin\<close>

datatype message = Buffer string | Object py

text \<open>\<^verbatim>\<open>onMessageCallback::ProcessLocked\<close>: the second argument of the plugin's \<^verbatim>\<open>onMessage\<close>.\<close>

fun message_argument :: "message \<Rightarrow> py" where
  "message_argument (Buffer s) = (if s \<noteq> [] then PBytes s else PStr [])"
| "message_argument (Object p) = p"

section \<open>Choice of a protocol\<close>

datatype protocol =
  RawProtocol | LineProtocol | XMLProtocol | JSONProtocol | HTTPProtocol bool | ICMPProtocol
  | MQTTProtocol bool | WSProtocol bool

definition Create_protocol :: "string \<Rightarrow> protocol" where
  "Create_protocol p =
     (if p = ''Line'' then LineProtocol
      else if p = ''XML'' then XMLProtocol
      else if p = ''JSON'' then JSONProtocol
      else if p = ''HTTP'' \<or> p = ''HTTPS'' then HTTPProtocol (p = ''HTTPS'')
      else if p = ''ICMP'' then ICMPProtocol
      else if p = ''MQTT'' \<or> p = ''MQTTS'' then MQTTProtocol (p = ''MQTTS'')
      else if p = ''WS'' \<or> p = ''WSS'' then WSProtocol (p = ''WSS'')
      else RawProtocol)"

fun Secure :: "protocol \<Rightarrow> bool" where
  "Secure (HTTPProtocol s) = s"
| "Secure (MQTTProtocol s) = s"
| "Secure (WSProtocol s) = s"
| "Secure _ = False"

section \<open>Raw data\<close>

definition raw_inbound :: "string \<Rightarrow> message list" where
  "raw_inbound buf = [Buffer buf]"

text \<open>\<open>None\<close> stands for an object that the code ignores with a log line.\<close>

fun raw_outbound :: "py \<Rightarrow> string option" where
  "raw_outbound (PBytes s) = Some s"
| "raw_outbound (PByteArray s) = Some s"
| "raw_outbound (PStr s) = Some (c_string s)"
| "raw_outbound _ = None"

definition Flush :: "string \<Rightarrow> message list \<times> string" where
  "Flush retained = (if retained \<noteq> [] then ([Buffer retained], []) else ([], retained))"

section \<open>Lines\<close>

abbreviation CR :: char where "CR \<equiv> CHR 0x0D"
abbreviation LF :: char where "LF \<equiv> CHR 0x0A"

definition skip_LF :: "string \<Rightarrow> string" where
  "skip_LF s = (case s of [] \<Rightarrow> [] | c # t \<Rightarrow> if c = LF then t else s)"

lemma skip_LF_length: "length (skip_LF s) \<le> length s"
  by (cases s) (auto simp: skip_LF_def)

function line_loop :: "string \<Rightarrow> string list \<times> string" where
  "line_loop s =
     (case split_at_char CR s of
        None \<Rightarrow> ([], s)
      | Some (l, rest) \<Rightarrow> let (ls, r) = line_loop (skip_LF rest) in (l # ls, r))"
  by pat_completeness auto
termination
proof (relation "measure length")
  fix s l rest and p :: "string \<times> string"
  assume "split_at_char CR s = Some p" "(l, rest) = p"
  then have "length rest < length s" by (auto dest: split_at_char_length)
  then show "(skip_LF rest, s) \<in> measure length"
    using skip_LF_length [of rest] by simp
qed simp

declare line_loop.simps [simp del]

definition line_inbound :: "string \<Rightarrow> string \<Rightarrow> message list \<times> string" where
  "line_inbound retained buf = (let (ls, r) = line_loop (retained @ buf) in (map Buffer ls, r))"

section \<open>JSON objects\<close>

text \<open>
  \<open>None\<close>: the exception of \<^verbatim>\<open>substr\<close> on no data at all.
\<close>

definition brace_count :: "char \<Rightarrow> string \<Rightarrow> nat" where
  "brace_count c s = count_list s c"

function json_loop :: "string \<Rightarrow> (string list \<times> string) option" where
  "json_loop s =
     (case str_find ''}{'' s 0 of
        Some i \<Rightarrow> map_option (\<lambda>(ms, r). (take (i + 1) s # ms, r)) (json_loop (drop (i + 1) s))
      | None \<Rightarrow>
          if s = [] then None
          else if last s = CHR ''}'' \<and> brace_count (CHR ''{'') s = brace_count (CHR ''}'') s
          then Some ([s], [])
          else Some ([], s))"
  by pat_completeness auto
termination
  by (relation "measure length") (auto dest!: str_find_bounds)

declare json_loop.simps [simp del]

definition json_message :: "(int \<Rightarrow> string) \<Rightarrow> (string \<Rightarrow> json option) \<Rightarrow> string \<Rightarrow> message" where
  "json_message float_text reader s =
     (case reader s of
        Some (JObject ms) \<Rightarrow> Object (JSONtoPython float_text (JObject ms))
      | _ \<Rightarrow> Buffer s)"

definition json_inbound :: "(int \<Rightarrow> string) \<Rightarrow> (string \<Rightarrow> json option) \<Rightarrow> string \<Rightarrow> string \<Rightarrow>
    (message list \<times> string) option" where
  "json_inbound float_text reader retained buf =
     map_option (\<lambda>(ms, r). (map (json_message float_text reader) ms, r)) (json_loop (retained @ buf))"

section \<open>Runs\<close>

text \<open>The messages of several reads, each processed in the state the last one left.\<close>

fun deliveries :: "('s \<Rightarrow> string \<Rightarrow> ('e list \<times> 's) option) \<Rightarrow> 's \<Rightarrow> string list \<Rightarrow>
    ('e list \<times> 's) option" where
  "deliveries f st [] = Some ([], st)"
| "deliveries f st (c # cs) =
     (case f st c of
        None \<Rightarrow> None
      | Some (ms, st') \<Rightarrow> map_option (\<lambda>(ms', st''). (ms @ ms', st'')) (deliveries f st' cs))"

lemma deliveries_append:
  "deliveries f st (cs @ ds) =
     (case deliveries f st cs of
        None \<Rightarrow> None
      | Some (ms, st') \<Rightarrow> map_option (\<lambda>(ms', st''). (ms @ ms', st'')) (deliveries f st' ds))"
proof (induction cs arbitrary: st)
  case Nil
  then show ?case by (cases "deliveries f st ds") auto
next
  case (Cons c cs)
  show ?case
  proof (cases "f st c")
    case (Some p)
    obtain ms st' where "p = (ms, st')" by (cases p)
    with Some Cons show ?thesis
      by (cases "deliveries f st' cs") (auto simp: option.map_comp comp_def case_prod_unfold)
  qed simp
qed

lemma deliveries_reads:
  assumes "\<And>r c. f r c = map_option (\<lambda>(ms, r). (map g ms, r)) (loop (r @ c))"
  shows "deliveries f r cs = map_option (\<lambda>(ms, r). (map g ms, r)) (reads loop r cs)"
proof (induction cs arbitrary: r)
  case (Cons c cs)
  show ?case
  proof (cases "loop (r @ c)")
    case (Some p)
    obtain ms r' where "p = (ms, r')" by (cases p)
    with Some show ?thesis by (cases "reads loop r' cs") (auto simp: Cons assms [of r])
  qed (simp add: assms)
qed simp

section \<open>Lines in pieces\<close>

definition line_text :: "string \<Rightarrow> bool" where
  "line_text l \<longleftrightarrow> CR \<notin> set l \<and> (l \<noteq> [] \<longrightarrow> hd l \<noteq> LF)"

definition line_frame :: "string \<Rightarrow> bool" where
  "line_frame m \<longleftrightarrow> m \<noteq> [] \<and> last m = CR \<and> line_text (butlast m)"

lemma line_frame_iff: "line_frame m \<longleftrightarrow> (\<exists>l. m = l @ [CR] \<and> line_text l)"
  unfolding line_frame_def by (metis append_butlast_last_id butlast_snoc last_snoc snoc_eq_iff_butlast)

lemma part_of_line: "part_of line_frame r \<Longrightarrow> line_text r"
proof -
  assume "part_of line_frame r"
  moreover have "line_text r" if "line_text l" "l @ [CR] = r @ t" "t \<noteq> []" for l t
  proof -
    from that(2,3) obtain t' where "l = r @ t'" by (metis append_butlast_last_id append_assoc butlast_snoc butlast_append)
    with that(1) show ?thesis by (auto simp: line_text_def hd_append)
  qed
  ultimately show ?thesis by (auto simp: part_of_def line_frame_iff) (simp add: line_text_def)
qed

lemma skip_LF_id: "s = [] \<or> hd s \<noteq> LF \<Longrightarrow> skip_LF s = s"
  by (cases s) (auto simp: skip_LF_def)

lemma line_loop_rest: "CR \<notin> set r \<Longrightarrow> line_loop r = ([], r)"
  by (subst line_loop.simps) (simp add: split_at_char_None)

lemma line_loop_line:
  "CR \<notin> set l \<Longrightarrow> line_loop (l @ CR # s) = (let (ls, r) = line_loop (skip_LF s) in (l # ls, r))"
  by (subst line_loop.simps) (simp add: split_at_char_append)

lemma line_loop_frames:
  assumes "list_all line_frame ms" "part_of line_frame r"
  shows "line_loop (concat ms @ r) = (map butlast ms, r)"
  using assms
proof (induction ms)
  case Nil
  then show ?case by (simp add: line_loop_rest part_of_line [unfolded line_text_def])
next
  case (Cons m ms)
  from Cons.prems obtain l where l: "m = l @ [CR]" "line_text l" by (auto simp: line_frame_iff)
  have "skip_LF (concat ms @ r) = concat ms @ r"
  proof (rule skip_LF_id, cases ms)
    case Nil
    then show "concat ms @ r = [] \<or> hd (concat ms @ r) \<noteq> LF"
      using part_of_line [OF Cons.prems(2)] by (auto simp: line_text_def)
  next
    case (Cons m' ms')
    with \<open>list_all line_frame (m # ms)\<close> obtain l' where "m' = l' @ [CR]" "line_text l'"
      by (auto simp: line_frame_iff)
    with Cons show "concat ms @ r = [] \<or> hd (concat ms @ r) \<noteq> LF"
      by (cases l') (auto simp: line_text_def)
  qed
  with Cons l show ?case by (simp add: line_loop_line line_text_def)
qed

interpretation line_stream: framing line_frame butlast "\<lambda>s. Some (line_loop s)"
  by unfold_locales (simp add: line_loop_frames)

definition line_reader :: "string \<Rightarrow> string \<Rightarrow> (message list \<times> string) option" where
  "line_reader r c = Some (line_inbound r c)"

text \<open>a stream of lines, each ended by a carriage return, gives the plugin exactly those
  lines in order and keeps the unfinished one, wherever the reads cut the stream.\<close>

theorem lines_survive_cutting:
  assumes "list_all line_text ls" "line_text r" "[] \<notin> set cs"
    and "concat cs = concat (map (\<lambda>l. l @ [CR]) ls) @ r"
  shows "deliveries line_reader [] cs = Some (map Buffer ls, r)"
proof -
  have "part_of line_frame r"
    unfolding part_of_def line_frame_iff using assms(2) by (intro disjI2 exI [of _ "r @ [CR]"] exI [of _ "[CR]"]) simp
  then have "reads (\<lambda>s. Some (line_loop s)) [] cs = Some (map butlast (map (\<lambda>l. l @ [CR]) ls), r)"
    using assms by (intro line_stream.reads_frames) (auto simp: list_all_iff line_frame_iff)
  then show ?thesis
    by (subst deliveries_reads [where loop = "\<lambda>s. Some (line_loop s)" and g = Buffer])
      (auto simp: line_reader_def line_inbound_def comp_def split: prod.splits)
qed

theorem lines_survive_cutting_witness:
  "deliveries line_reader [] [''a'', ''b'' @ [CR], ''c'' @ [CR, CR] @ ''d''] =
     Some (map Buffer [''ab'', ''c'', []], ''d'')"
  by (rule lines_survive_cutting) (simp_all add: line_text_def)

section \<open>Objects in pieces\<close>

text \<open>Braces balance at the end of a block and at no earlier closing brace.\<close>

definition json_block :: "string \<Rightarrow> bool" where
  "json_block b \<longleftrightarrow> b \<noteq> [] \<and> hd b = CHR ''{'' \<and> last b = CHR ''}'' \<and> \<not> contains b ''}{'' \<and>
     brace_count (CHR ''{'') b = brace_count (CHR ''}'') b \<and>
     list_all (\<lambda>n. last (take n b) = CHR ''}'' \<longrightarrow>
        brace_count (CHR ''{'') (take n b) \<noteq> brace_count (CHR ''}'') (take n b)) [1..<length b]"

lemma find_at_seam:
  "find_at i ''}{'' m = None \<Longrightarrow> m \<noteq> [] \<Longrightarrow> last m = CHR ''}'' \<Longrightarrow>
   find_at i ''}{'' (m @ CHR ''{'' # t) = Some (i + length m - 1)"
proof (induction m arbitrary: i)
  case (Cons c m)
  show ?case
  proof (cases m)
    case (Cons d m')
    with Cons.prems have "find_at (Suc i) ''}{'' m = None" "\<not> starts_with ''}{'' (c # m)"
      by (auto split: if_splits)
    with Cons.IH [of "Suc i"] Cons.prems \<open>m = d # m'\<close> show ?thesis by simp
  qed (use Cons.prems in simp)
qed simp

lemma json_block_seam:
  "json_block m \<Longrightarrow> str_find ''}{'' (m @ CHR ''{'' # t) 0 = Some (length m - 1)"
  using find_at_seam [of 0 m t] by (auto simp: json_block_def contains_def str_find_def)

lemma json_loop_whole: "json_block m \<Longrightarrow> json_loop m = Some ([m], [])"
  by (subst json_loop.simps) (auto simp: json_block_def contains_def)

lemma json_loop_next:
  "json_block m \<Longrightarrow> json_loop (m @ CHR ''{'' # t) =
     map_option (\<lambda>(ms, r). (m # ms, r)) (json_loop (CHR ''{'' # t))"
  by (subst json_loop.simps) (simp add: json_block_seam, auto simp: json_block_def Suc_leI)

lemma part_of_json:
  assumes "part_of json_block r" "r \<noteq> []"
  shows "hd r = CHR ''{'' \<and> json_loop r = Some ([], r)"
proof -
  from assms obtain t where m: "json_block (r @ t)" "t \<noteq> []" by (auto simp: part_of_def)
  have "\<not> contains r ''}{''"
    using m(1) by (fastforce simp: json_block_def contains_iff)
  moreover have "last r = CHR ''}'' \<longrightarrow> brace_count (CHR ''{'') r \<noteq> brace_count (CHR ''}'') r"
  proof -
    have "length r \<in> set [1..<length (r @ t)]" using assms(2) m(2) by (auto simp: Suc_leI)
    with m(1) have "last (take (length r) (r @ t)) = CHR ''}'' \<longrightarrow>
        brace_count (CHR ''{'') (take (length r) (r @ t)) \<noteq> brace_count (CHR ''}'') (take (length r) (r @ t))"
      unfolding json_block_def list_all_iff by blast
    then show ?thesis by simp
  qed
  ultimately show ?thesis using m(1) assms(2)
    by (subst json_loop.simps) (auto simp: contains_def json_block_def hd_append)
qed

lemma json_loop_frames:
  assumes "list_all json_block ms" "part_of json_block r" "concat ms @ r \<noteq> []"
  shows "json_loop (concat ms @ r) = Some (map id ms, r)"
  using assms
proof (induction ms)
  case Nil
  then show ?case by (simp add: part_of_json)
next
  case (Cons m ms)
  show ?case
  proof (cases "concat ms @ r = []")
    case True
    with Cons.prems show ?thesis
      by (cases ms) (auto simp: json_loop_whole json_block_def)
  next
    case False
    then have "hd (concat ms @ r) = CHR ''{''"
      using Cons.prems part_of_json [of r, THEN conjunct1] by (cases ms) (simp, simp add: json_block_def hd_append)
    with False obtain t where t: "concat ms @ r = CHR ''{'' # t" by (metis list.collapse)
    with Cons False show ?thesis by (simp add: json_loop_next)
  qed
qed

interpretation json_stream: framing json_block id json_loop
  by unfold_locales (rule json_loop_frames)

text \<open>a stream of JSON objects gives the plugin exactly those objects in order and keeps
  the unfinished one, wherever the reads cut the stream.  An object is a block of balanced braces without
  \<^verbatim>\<open>}{\<close> inside.\<close>

theorem json_survives_cutting:
  assumes "list_all json_block bs" "part_of json_block r" "[] \<notin> set cs"
    and "concat cs = concat bs @ r"
  shows "deliveries (json_inbound float_text reader) [] cs = Some (map (json_message float_text reader) bs, r)"
proof -
  have "cs = [] \<longrightarrow> bs = []"
    using assms(1,4) by (cases bs) (auto simp: json_block_def)
  then have "reads json_loop [] cs = Some (map id bs, r)"
    using assms by (intro json_stream.reads_frames) auto
  then show ?thesis
    by (subst deliveries_reads [where loop = json_loop and g = "json_message float_text reader"])
      (auto simp: json_inbound_def)
qed

theorem json_survives_cutting_witness:
  "deliveries (json_inbound (\<lambda>i. []) (\<lambda>s. None)) [] [''{1{2'', ''}}{'', ''3}{''] =
     Some (map (json_message (\<lambda>i. []) (\<lambda>s. None)) [''{1{2}}'', ''{3}''], ''{'')"
proof (rule json_survives_cutting)
  show "list_all json_block [''{1{2}}'', ''{3}'']" by code_simp
  have "json_block ''{}''" by code_simp
  then show "part_of json_block ''{''" unfolding part_of_def by (intro disjI2 exI [of _ "''{}''"] exI [of _ "''}''"]) simp
qed simp_all

end
