(* ===== verification/PluginXml.thy ===== *)
theory PluginXml
  imports PluginText
begin

text \<open>
  The XML protocol of \<^verbatim>\<open>hardware/plugins/PluginProtocols.cpp\<close>: documents are cut out of the data by
  their top tag, which \<^verbatim>\<open>m_Tag\<close> holds between reads.
\<close>

section \<open>XML documents\<close>

definition find_char :: "(char \<Rightarrow> bool) \<Rightarrow> string \<Rightarrow> nat option" where
  "find_char p s = (let n = length (takeWhile (\<lambda>c. \<not> p c) s) in if n < length s then Some n else None)"

text \<open>Step over the declaration; \<^verbatim>\<open>find\<close> gives -1 when \<^verbatim>\<open>?>\<close> is missing.\<close>

definition skip_declaration :: "string \<Rightarrow> string" where
  "skip_declaration s =
     (if contains s ''<?xml'' then
        (case str_find ''?>'' s 0 of Some i \<Rightarrow> drop (i + 2) s | None \<Rightarrow> drop 1 s)
      else s)"

text \<open>The top tag, and the data from it on; \<open>None\<close> when no tag starts in the data.\<close>

definition top_tag :: "string \<Rightarrow> (string \<times> string) option" where
  "top_tag s =
     (case find_char (\<lambda>c. c = CHR ''<'') s of
        None \<Rightarrow> None
      | Some i \<Rightarrow>
          let d = drop i s in
          Some (case find_char (\<lambda>c. c = CHR '' '' \<or> c = CHR ''>'') d of
                  None \<Rightarrow> []
                | Some e \<Rightarrow> substr d 1 (e - 1), d))"

definition end_tag :: "string \<Rightarrow> string" where
  "end_tag tag = ''</'' @ tag @ ''>''"

text \<open>
  One turn of the loop on the tag and the data: the document delivered, if the loop goes on, and the
  new tag and data.
\<close>

definition xml_turn :: "string \<Rightarrow> string \<Rightarrow> string option \<times> string \<times> string" where
  "xml_turn tag s =
     (let s1 = (if tag = [] then skip_declaration s else s) in
      case (if tag = [] then top_tag s1 else Some (tag, s1)) of
        None \<Rightarrow> (None, tag, s1)
      | Some (t, d) \<Rightarrow>
          (case str_find (end_tag t) d 0 of
             None \<Rightarrow> (None, t, d)
           | Some p \<Rightarrow>
               let e = p + length t + 3 in
               (Some (take e d), [], if e = length d then [] else drop (e + 1) d)))"

lemma xml_turn_shorter:
  assumes "xml_turn tag s = (Some m, t, r)"
  shows "length r < length s"
proof -
  have sk: "length (skip_declaration s) \<le> length s"
    by (auto simp: skip_declaration_def split: option.splits)
  have tt: "top_tag s' = Some (t', d) \<Longrightarrow> length d \<le> length s'" for s' t' d
    by (auto simp: top_tag_def Let_def split: option.splits)
  from assms obtain t' d where d: "(if tag = [] then top_tag (skip_declaration s) else Some (tag, s)) = Some (t', d)"
    and r: "\<exists>p. str_find (end_tag t') d 0 = Some p \<and> (r = [] \<or> r = drop (Suc (p + length t' + 3)) d)"
    by (auto simp: xml_turn_def Let_def split: option.splits if_splits)
  from d sk tt have "length d \<le> length s" by (force split: if_splits)
  moreover from r have "length d > 0" by (auto dest: str_find_bounds simp: end_tag_def)
  moreover from r this have "length r < length d" by (auto simp: diff_less)
  ultimately show ?thesis by simp
qed

function xml_loop :: "string \<Rightarrow> string \<Rightarrow> string list \<times> string \<times> string" where
  "xml_loop tag s =
     (case xml_turn tag s of
        (None, t, d) \<Rightarrow> ([], t, d)
      | (Some m, t, d) \<Rightarrow> let (ms, t', d') = xml_loop t d in (m # ms, t', d'))"
  by pat_completeness auto
termination
  by (relation "measure (length \<circ> snd)") (auto dest!: xml_turn_shorter [OF sym])

declare xml_loop.simps [simp del]

text \<open>\<open>m_Tag\<close> and the retained data are the state.\<close>

definition xml_inbound :: "string \<times> string \<Rightarrow> string \<Rightarrow> message list \<times> string \<times> string" where
  "xml_inbound st buf = (let (ms, t, d) = xml_loop (fst st) (snd st @ buf) in (map Buffer ms, t, d))"

section \<open>XML documents in pieces\<close>

definition xml_reader :: "string \<times> string \<Rightarrow> string \<Rightarrow> (message list \<times> string \<times> string) option" where
  "xml_reader st c = Some (xml_inbound st c)"

text \<open>A document with the given top tag: its end tag occurs once, at its end.\<close>

definition xml_document :: "string \<Rightarrow> string \<Rightarrow> bool" where
  "xml_document tag d \<longleftrightarrow>
     tag \<noteq> [] \<and> CHR '' '' \<notin> set tag \<and> CHR ''>'' \<notin> set tag \<and>
     (starts_with (CHR ''<'' # tag @ '' '') d \<or> starts_with (CHR ''<'' # tag @ ''>'') d) \<and>
     \<not> contains d ''<?xml'' \<and>
     contains d (end_tag tag) \<and> \<not> contains (butlast d) (end_tag tag)"

lemma contains_prefix: "\<not> contains (p @ t) x \<Longrightarrow> \<not> contains p x"
  unfolding contains_iff by (metis append_assoc)

lemma str_find_at_end:
  assumes "contains d x" "\<not> contains (butlast d) x"
  shows "str_find x d 0 = Some (length d - length x)" "length x \<le> length d"
proof -
  from assms(1) obtain j where j: "str_find x d 0 = Some j" by (auto simp: contains_def)
  from str_find_occurs [OF j] obtain w where w: "drop j d = x @ w" by (auto simp: starts_with_iff)
  then have d: "d = take j d @ x @ w" by (metis append_take_drop_id)
  have "w = []"
  proof (rule ccontr)
    assume "w \<noteq> []"
    with d have "butlast d = take j d @ x @ butlast w" by (metis butlast_append append_is_Nil_conv)
    with assms(2) show False unfolding contains_iff by blast
  qed
  with w have l: "length d - j = length x" by (metis append_Nil2 length_drop)
  with str_find_bounds [OF j] have "j = length d - length x" by linarith
  with j show "str_find x d 0 = Some (length d - length x)" by simp
  from str_find_bounds [OF j] show "length x \<le> length d" by simp
qed

lemma find_char_none: "(\<And>c. c \<in> set a \<Longrightarrow> \<not> q c) \<Longrightarrow> find_char q a = None"
  by (simp add: find_char_def Let_def takeWhile_eq_all_conv [THEN iffD2])

lemma find_char_prefix: "(\<And>c. c \<in> set a \<Longrightarrow> \<not> q c) \<Longrightarrow> q c \<Longrightarrow> find_char q (a @ c # b) = Some (length a)"
  by (simp add: find_char_def Let_def)

lemma top_tag_whole:
  assumes "CHR '' '' \<notin> set tag" "CHR ''>'' \<notin> set tag" "c = CHR '' '' \<or> c = CHR ''>''"
  shows "top_tag (CHR ''<'' # tag @ c # t) = Some (tag, CHR ''<'' # tag @ c # t)"
proof -
  have "find_char (\<lambda>c. c = CHR '' '' \<or> c = CHR ''>'') ((CHR ''<'' # tag) @ c # t) = Some (length (CHR ''<'' # tag))"
    using assms by (intro find_char_prefix) auto
  moreover have "find_char (\<lambda>c. c = CHR ''<'') ([] @ CHR ''<'' # tag @ c # t) = Some 0"
    by (subst find_char_prefix) auto
  ultimately show ?thesis by (simp add: top_tag_def substr_def)
qed

lemma top_tag_part:
  assumes "CHR '' '' \<notin> set p" "CHR ''>'' \<notin> set p"
  shows "top_tag (CHR ''<'' # p) = Some ([], CHR ''<'' # p)"
proof -
  have "find_char (\<lambda>c. c = CHR '' '' \<or> c = CHR ''>'') (CHR ''<'' # p) = None"
    using assms by (intro find_char_none) auto
  moreover have "find_char (\<lambda>c. c = CHR ''<'') ([] @ CHR ''<'' # p) = Some 0"
    by (subst find_char_prefix) auto
  ultimately show ?thesis by (simp add: top_tag_def)
qed

lemma xml_document_start:
  assumes "xml_document tag d"
  obtains c t where "d = CHR ''<'' # tag @ c # t" "c = CHR '' '' \<or> c = CHR ''>''"
  using assms by (auto simp: xml_document_def starts_with_iff)

lemma xml_turn_document:
  assumes "xml_document tag d" "t = [] \<or> t = tag"
  shows "xml_turn t d = (Some d, [], [])"
proof -
  obtain c s where d: "d = CHR ''<'' # tag @ c # s" "c = CHR '' '' \<or> c = CHR ''>''"
    using xml_document_start [OF assms(1)] .
  have f: "str_find (end_tag tag) d 0 = Some (length d - length (end_tag tag))" "length (end_tag tag) \<le> length d"
    using str_find_at_end [of d "end_tag tag"] assms(1) by (auto simp: xml_document_def)
  have "skip_declaration d = d" "tag \<noteq> []"
    using assms(1) by (auto simp: xml_document_def skip_declaration_def)
  moreover have "top_tag d = Some (tag, d)"
    using assms(1) d top_tag_whole by (simp add: xml_document_def)
  moreover have "length d - length (end_tag tag) + length tag + 3 = length d"
    using f(2) by (simp add: end_tag_def)
  ultimately show ?thesis using assms(2) f(1) by (auto simp: xml_turn_def)
qed

lemma xml_turn_part:
  assumes "xml_document tag (p @ r)" "r \<noteq> []" "t = [] \<or> t = tag"
  shows "\<exists>t'. xml_turn t p = (None, t', p) \<and> (t' = [] \<or> t' = tag)"
proof -
  from assms(1) have n: "tag \<noteq> []" "CHR '' '' \<notin> set tag" "CHR ''>'' \<notin> set tag" "\<not> contains (p @ r) ''<?xml''"
    and nb: "\<not> contains (butlast (p @ r)) (end_tag tag)" by (auto simp: xml_document_def)
  have f: "str_find (end_tag tag) p 0 = None"
  proof -
    have "butlast (p @ r) = p @ butlast r" using assms(2) by (simp add: butlast_append)
    with nb show ?thesis using contains_prefix by (metis contains_def)
  qed
  have sk: "skip_declaration p = p"
    using contains_prefix [OF n(4)] by (simp add: skip_declaration_def)
  show ?thesis
  proof (cases "t = tag \<or> p = []")
    case True
    with n(1) f sk assms(3) show ?thesis
      by (auto simp: xml_turn_def top_tag_def find_char_def)
  next
    case False
    with assms(3) have t: "t = []" and "p \<noteq> []" by auto
    obtain c s where d: "p @ r = CHR ''<'' # tag @ c # s" "c = CHR '' '' \<or> c = CHR ''>''"
      using xml_document_start [OF assms(1)] .
    then obtain p' where p': "p = CHR ''<'' # p'" "p' @ r = tag @ c # s"
      using \<open>p \<noteq> []\<close> by (cases p) auto
    show ?thesis
    proof (cases "length p' \<le> length tag")
      case True
      with p'(2) have "set p' \<subseteq> set tag" by (metis append_eq_append_conv_if set_take_subset)
      with n(2,3) have pc: "CHR '' '' \<notin> set p'" "CHR ''>'' \<notin> set p'" by auto
      then have "\<not> contains p (end_tag [])"
        unfolding contains_iff end_tag_def p'(1) by (auto simp: Cons_eq_append_conv)
      then have "str_find (end_tag []) p 0 = None" by (simp add: contains_def)
      with top_tag_part [OF pc] p'(1) sk t show ?thesis by (simp add: xml_turn_def)
    next
      case False
      with p'(2) obtain us where us: "p' = tag @ us" "us \<noteq> []" "us @ r = c # s"
        by (auto simp: append_eq_append_conv2)
      then obtain s' where "p' = tag @ c # s'" by (cases us) auto
      with top_tag_whole [OF n(2,3) d(2)] p'(1) sk t f show ?thesis by (simp add: xml_turn_def)
    qed
  qed
qed

lemma xml_reads_document:
  assumes "xml_document tag (p @ concat cs)" "[] \<notin> set cs" "cs \<noteq> []" "t = [] \<or> t = tag"
  shows "deliveries xml_reader (t, p) cs = Some ([Buffer (p @ concat cs)], [], [])"
  using assms
proof (induction cs arbitrary: t p)
  case (Cons c cs)
  show ?case
  proof (cases "cs = []")
    case True
    have "xml_loop [] [] = ([], [], [])"
      by (subst xml_loop.simps) (simp add: xml_turn_def skip_declaration_def contains_def str_find_def top_tag_def find_char_def)
    with True Cons.prems xml_turn_document [of tag "p @ c" t] show ?thesis
      by (simp add: xml_reader_def xml_inbound_def xml_loop.simps [of t])
  next
    case False
    with Cons.prems(2) have "concat cs \<noteq> []" by (cases cs) auto
    with xml_turn_part [of tag "p @ c" "concat cs" t] Cons.prems obtain t' where
      t': "xml_turn t (p @ c) = (None, t', p @ c)" "t' = [] \<or> t' = tag" by auto
    with Cons.IH [of "p @ c" t'] Cons.prems False show ?thesis
      by (simp add: xml_reader_def xml_inbound_def xml_loop.simps [of t])
  qed
qed simp

text \<open>XML documents that end at the end of a read are delivered whole and in order, wherever
  the reads cut them in between.\<close>

theorem xml_survives_cutting:
  assumes "list_all2 (\<lambda>(tag, d) cs. xml_document tag d \<and> concat cs = d \<and> [] \<notin> set cs) ds css"
  shows "deliveries xml_reader ([], []) (concat css) = Some (map (\<lambda>(tag, d). Buffer d) ds, [], [])"
  using assms
proof (induction ds css rule: list_all2_induct)
  case (Cons x ds cs css)
  obtain tag d where x: "x = (tag, d)" by (cases x)
  with Cons have d: "xml_document tag d" "concat cs = d" "[] \<notin> set cs" by auto
  then have "d \<noteq> []" by (auto simp: xml_document_def)
  with d(2) have "cs \<noteq> []" by auto
  with xml_reads_document [of tag "[]" cs "[]"] d Cons x show ?case
    by (simp add: deliveries_append)
qed simp

theorem xml_survives_cutting_witness:
  "deliveries xml_reader ([], []) (concat [[''<a'', ''>x'', ''</a>''], [''<b c/></b>'']]) =
     Some (map (\<lambda>(tag, d). Buffer d) [(''a'', ''<a>x</a>''), (''b'', ''<b c/></b>'')], [], [])"
proof (rule xml_survives_cutting)
  have "xml_document ''a'' ''<a>x</a>''" "xml_document ''b'' ''<b c/></b>''" by code_simp+
  then show "list_all2 (\<lambda>(tag, d) cs. xml_document tag d \<and> concat cs = d \<and> [] \<notin> set cs)
    [(''a'', ''<a>x</a>''), (''b'', ''<b c/></b>'')] [[''<a'', ''>x'', ''</a>''], [''<b c/></b>'']]" by simp
qed

text \<open>
  The character after an end tag is dropped, whatever it is.  When a document follows at once, it
  loses its \<^verbatim>\<open><\<close>, its end tag is taken for the next top tag, and nothing is delivered any more.
\<close>

lemma xml_waits:
  "tag \<noteq> [] \<Longrightarrow> \<not> contains (r @ concat cs) (end_tag tag) \<Longrightarrow>
   deliveries xml_reader (tag, r) cs = Some ([], tag, r @ concat cs)"
proof (induction cs arbitrary: r)
  case (Cons c cs)
  then have n: "\<not> contains ((r @ c) @ concat cs) (end_tag tag)" by simp
  then have "\<not> contains (r @ c) (end_tag tag)" by (rule contains_prefix)
  then have "xml_inbound (tag, r) c = ([], tag, r @ c)"
    using Cons.prems(1) by (simp add: xml_inbound_def xml_loop.simps xml_turn_def contains_def)
  with Cons.IH [OF Cons.prems(1) n] show ?case by (simp add: xml_reader_def)
qed simp

lemma xml_adjacent: "xml_inbound ([], []) ''<a></a><b></b>'' = ([Buffer ''<a></a>''], ''/b'', ''</b>'')"
  by code_simp

text \<open>two documents with nothing between them block the connection: the second is never
  delivered, and neither is anything after it.\<close>

theorem xml_adjacent_documents_block:
  assumes "\<not> contains (''</b>'' @ concat cs) ''<//b>''"
  shows "deliveries xml_reader ([], []) (''<a></a><b></b>'' # cs) =
    Some ([Buffer ''<a></a>''], ''/b'', ''</b>'' @ concat cs)"
  using assms xml_waits [of "''/b''" "''</b>''" cs]
  by (simp add: xml_reader_def xml_adjacent end_tag_def)

theorem xml_adjacent_documents_block_witness:
  "deliveries xml_reader ([], []) [''<a></a><b></b>'', ''<c>1</c>''] =
     Some ([Buffer ''<a></a>''], ''/b'', ''</b>'' @ concat [''<c>1</c>''])"
  by (rule xml_adjacent_documents_block) code_simp

end
