(* ===== verification/PluginIcmp.thy ===== *)
theory PluginIcmp
  imports PluginText
begin

unbundle bit_operations_syntax

text \<open>
  The ICMP protocol: \<^verbatim>\<open>hardware/plugins/icmp_header.hpp\<close>, \<^verbatim>\<open>hardware/plugins/ipv4_header.hpp\<close> and
  \<^verbatim>\<open>CPluginProtocolICMP\<close>, which takes a datagram apart.  The headers are read in place: a byte past
  the end of the data is \<^const>\<open>None\<close>.
\<close>

section \<open>Headers\<close>

definition at :: "bytes \<Rightarrow> nat \<Rightarrow> nat option" where
  "at v i = (if i < length v then Some (unat (v ! i)) else None)"

definition decode :: "bytes \<Rightarrow> nat \<Rightarrow> nat \<Rightarrow> nat option" where
  "decode v a b = Option.bind (at v a) (\<lambda>x. map_option (\<lambda>y. 256 * x + y) (at v b))"

definition encode :: "nat \<Rightarrow> nat \<Rightarrow> nat \<Rightarrow> bytes \<Rightarrow> bytes" where
  "encode a b n v = v[a := word_of_nat (n div 256), b := word_of_nat (n mod 256)]"

subsection \<open>IPv4\<close>

definition ip_version :: "bytes \<Rightarrow> nat option" where
  "ip_version v = map_option (\<lambda>n. n div 16) (at v 0)"

definition ip_header_length :: "bytes \<Rightarrow> nat option" where
  "ip_header_length v = map_option (\<lambda>n. n mod 16 * 4) (at v 0)"

definition type_of_service :: "bytes \<Rightarrow> nat option" where "type_of_service v = at v 1"
definition total_length :: "bytes \<Rightarrow> nat option" where "total_length v = decode v 2 3"
definition identification :: "bytes \<Rightarrow> nat option" where "identification v = decode v 4 5"
definition time_to_live :: "bytes \<Rightarrow> nat option" where "time_to_live v = at v 8"
definition ip_protocol :: "bytes \<Rightarrow> nat option" where "ip_protocol v = at v 9"
definition header_checksum :: "bytes \<Rightarrow> nat option" where "header_checksum v = decode v 10 11"

definition dotted_address :: "nat list \<Rightarrow> string" where
  "dotted_address ns = (case map nat_to_string ns of [] \<Rightarrow> [] | s # ss \<Rightarrow> s @ concat (map (\<lambda>t. CHR ''.'' # t) ss))"

definition address :: "bytes \<Rightarrow> nat \<Rightarrow> string option" where
  "address v i = (if i + 4 \<le> length v then Some (dotted_address (map unat (take 4 (drop i v)))) else None)"

definition source_address :: "bytes \<Rightarrow> string option" where "source_address v = address v 12"
definition destination_address :: "bytes \<Rightarrow> string option" where "destination_address v = address v 16"

subsection \<open>ICMP\<close>

definition echo_reply :: nat where "echo_reply = 0"
definition destination_unreachable :: nat where "destination_unreachable = 3"
definition time_exceeded :: nat where "time_exceeded = 11"

definition icmp_type :: "bytes \<Rightarrow> nat option" where "icmp_type v = at v 0"
definition icmp_code :: "bytes \<Rightarrow> nat option" where "icmp_code v = at v 1"
definition icmp_checksum :: "bytes \<Rightarrow> nat option" where "icmp_checksum v = decode v 2 3"
definition icmp_identifier :: "bytes \<Rightarrow> nat option" where "icmp_identifier v = decode v 4 5"
definition sequence_number :: "bytes \<Rightarrow> nat option" where "sequence_number v = decode v 6 7"

text \<open>\<^verbatim>\<open>compute_checksum\<close> in 32 bits; the header is that of the request, its checksum field is not used.\<close>

fun body_sum :: "32 word \<Rightarrow> bytes \<Rightarrow> 32 word" where
  "body_sum s [] = s"
| "body_sum s [x] = s + word_of_nat (256 * unat x)"
| "body_sum s (x # y # r) = body_sum (s + word_of_nat (256 * unat x) + word_of_nat (unat y)) r"

definition fold_sum :: "32 word \<Rightarrow> 32 word" where
  "fold_sum s = (let t = drop_bit 16 s + (s AND 0xFFFF) in t + drop_bit 16 t)"

definition compute_checksum :: "bytes \<Rightarrow> bytes \<Rightarrow> bytes option" where
  "compute_checksum h body =
     (case (icmp_type h, icmp_code h, icmp_identifier h, sequence_number h) of
        (Some t, Some c, Some i, Some s) \<Rightarrow>
          Some (encode 2 3 (unat (NOT (fold_sum (body_sum (word_of_nat (256 * t + c + i + s)) body)) AND 0xFFFF)) h)
      | _ \<Rightarrow> None)"

section \<open>Inbound\<close>

text \<open>
  \<^verbatim>\<open>Py_BuildValue("h", n)\<close> takes a signed short, and the text of a type.
\<close>

definition short_value :: "nat \<Rightarrow> int" where
  "short_value n = (int n + 2 ^ 15) mod 2 ^ 16 - 2 ^ 15"

definition icmp_description :: "nat \<Rightarrow> string" where
  "icmp_description t =
     (if t = echo_reply then ''echo_reply''
      else if t = destination_unreachable then ''destination_unreachable''
      else if t = time_exceeded then ''time_exceeded''
      else ''unknown'')"

definition ip_dict :: "bytes \<Rightarrow> dict option" where
  "ip_dict v =
     (case (source_address v, destination_address v, ip_version v, ip_protocol v) of
        (Some src, Some dst, Some ver, Some prot) \<Rightarrow>
          (case (type_of_service v, ip_header_length v, total_length v, identification v) of
             (Some tos, Some hl, Some len, Some ident) \<Rightarrow>
               (case (header_checksum v, time_to_live v) of
                  (Some ck, Some ttl) \<Rightarrow>
                    Some [(''Source'', PStr src), (''Destination'', PStr dst), (''Version'', PInt (int ver)),
                      (''Protocol'', PInt (int prot)), (''TypeOfService'', PInt (int tos)),
                      (''HeaderLength'', PInt (short_value hl)), (''TotalLength'', PInt (short_value len)),
                      (''Identification'', PInt (short_value ident)), (''HeaderChecksum'', PInt (short_value ck)),
                      (''TimeToLive'', PInt (int ttl))]
                | _ \<Rightarrow> None)
           | _ \<Rightarrow> None)
      | _ \<Rightarrow> None)"

definition icmp_dict :: "bytes \<Rightarrow> dict option" where
  "icmp_dict w =
     (case (icmp_type w, icmp_code w, icmp_checksum w, icmp_identifier w, sequence_number w) of
        (Some t, Some c, Some k, Some i, Some s) \<Rightarrow>
          Some [(''Type'', PInt (int t)), (''Code'', PInt (int c)), (''Checksum'', PInt (short_value k)),
            (''Identifier'', PInt (short_value i)), (''SequenceNumber'', PInt (short_value s))]
      | _ \<Rightarrow> None)"

text \<open>
  The ICMP header is taken 20 bytes into the data, whatever the length of the IP header says.  An
  error message carries the header of the datagram it is about.  \<open>elapsed\<close> is -1 when not known.
\<close>

definition data_offset :: "bytes \<Rightarrow> nat option" where
  "data_offset v =
     (let w = drop 20 v in
      case (ip_header_length v, icmp_type w) of
        (Some hl, Some t) \<Rightarrow>
          if t = destination_unreachable then map_option (\<lambda>hl'. hl + 8 + hl' + 8) (ip_header_length (drop 8 w))
          else Some (hl + 8)
      | _ \<Rightarrow> None)"

text \<open>
  \<^verbatim>\<open>sData.substr(iDataOffset, iTotalData - iDataOffset)\<close> throws past the end of the data, and takes all
  the rest when the second argument is negative.
\<close>

datatype icmp_result = Undefined | Thrown | Delivered dict

definition icmp_data :: "bytes \<Rightarrow> nat \<Rightarrow> nat \<Rightarrow> bytes option" where
  "icmp_data v offset len =
     (if offset > length v then None
      else Some (if len < offset then drop offset v else take (len - offset) (drop offset v)))"

definition icmp_inbound :: "bytes \<Rightarrow> int \<Rightarrow> icmp_result" where
  "icmp_inbound v elapsed =
     (if v = [] then
        Delivered [(''Status'', PInt (int time_exceeded)), (''Description'', PStr ''time_exceeded''), (''Data'', PBytes [])]
      else
        (case (ip_dict v, icmp_dict (drop 20 v), icmp_type (drop 20 v), data_offset v, total_length v) of
           (Some ip, Some ic, Some t, Some offset, Some len) \<Rightarrow>
             (case icmp_data v offset len of
                None \<Rightarrow> Thrown
              | Some d \<Rightarrow>
                  Delivered ([(''IPv4'', PDict ip), (''ICMP'', PDict ic)] @
                    (if t = echo_reply \<and> 0 \<le> elapsed then [(''ElapsedMs'', PInt elapsed)] else []) @
                    [(''Status'', PInt (int t)), (''Description'', PStr (icmp_description t)),
                     (''Data'', PBytes (map (\<lambda>b. char_of (unat b)) d))]))
         | _ \<Rightarrow> Undefined))"

section \<open>The checksum\<close>

text \<open>The sum of a message in words of 16 bits, the last one padded.\<close>

fun sum16 :: "bytes \<Rightarrow> nat" where
  "sum16 [] = 0"
| "sum16 [x] = 256 * unat x"
| "sum16 (x # y # r) = 256 * unat x + unat y + sum16 r"

lemma byte_bound: "unat (x :: byte) < 256"
  using unsigned_less [of x, where ?'a = nat] by simp

lemma sum16_bound: "sum16 v \<le> 65535 * ((length v + 1) div 2)"
proof (induction v rule: sum16.induct)
  case (2 x)
  have "unat x < 256" by (rule byte_bound)
  then show ?case by simp
next
  case (3 x y r)
  have "unat x < 256" "unat y < 256" by (rule byte_bound)+
  moreover have "(length (x # y # r) + 1) div 2 = Suc ((length r + 1) div 2)" by simp
  ultimately show ?case using 3 by simp
qed simp

lemma unat_sum: "n + m < 2 ^ 32 \<Longrightarrow> unat (word_of_nat n + word_of_nat m :: 32 word) = n + m"
  by (simp add: unat_of_nat flip: of_nat_add)

lemma body_sum_word: "body_sum (word_of_nat n) v = word_of_nat (n + sum16 v)"
proof (induction v arbitrary: n rule: sum16.induct)
  case (3 x y r)
  have "word_of_nat n + word_of_nat (256 * unat x) + word_of_nat (unat y) = (word_of_nat (n + 256 * unat x + unat y) :: 32 word)"
    by (simp only: of_nat_add)
  with 3 [of "n + 256 * unat x + unat y"] show ?case by (simp only: body_sum.simps sum16.simps add.assoc)
qed simp_all

lemma unat_fold_sum:
  assumes "s < 2 ^ 32"
  shows "unat (fold_sum (word_of_nat s)) = (let t = s div 65536 + s mod 65536 in t + t div 65536)"
proof -
  let ?w = "word_of_nat s :: 32 word"
  have u: "unat ?w = s" using assms by (simp add: unat_of_nat)
  have d: "unat (drop_bit 16 x) = unat x div 65536" for x :: "32 word"
    by (simp add: drop_bit_eq_div unat_div_distrib)
  have a: "unat (drop_bit 16 ?w) = s div 65536" by (simp add: d u)
  have b: "unat (?w AND 0xFFFF) = s mod 65536"
  proof -
    have "?w AND 0xFFFF = take_bit 16 ?w" by (simp add: take_bit_eq_mask mask_eq_exp_minus_1)
    moreover have "unat (take_bit 16 ?w) = take_bit 16 (unat ?w)" by (rule unsigned_take_bit_eq)
    ultimately show ?thesis by (simp add: u take_bit_eq_mod)
  qed
  have "s div 65536 < 65536" using assms by (simp add: less_mult_imp_div_less)
  then have t: "s div 65536 + s mod 65536 < 131072" by (simp add: add_less_le_mono less_imp_le)
  then have c: "unat (drop_bit 16 ?w + (?w AND 0xFFFF)) = s div 65536 + s mod 65536"
    using a b by (subst unat_plus_if') simp
  have "unat (drop_bit 16 (drop_bit 16 ?w + (?w AND 0xFFFF))) = (s div 65536 + s mod 65536) div 65536"
    using c by (simp add: d)
  moreover have "(s div 65536 + s mod 65536) div 65536 < 2" using t by (simp add: less_mult_imp_div_less)
  ultimately show ?thesis using c t unfolding fold_sum_def Let_def by (subst unat_plus_if') simp
qed


text \<open>Folding keeps the sum modulo 65535.\<close>

lemma fold_mod:
  fixes s :: nat
  assumes "s < 2 ^ 32"
  defines "t \<equiv> s div 65536 + s mod 65536"
  defines "f \<equiv> (t + t div 65536) mod 65536"
  shows "f mod 65535 = s mod 65535"
proof -
  have "s div 65536 < 65536" using assms(1) by (simp add: less_mult_imp_div_less)
  moreover have "s mod 65536 < 65536" by simp
  ultimately have t: "t \<le> 131070" unfolding t_def by linarith
  have "s = 65536 * (s div 65536) + s mod 65536" by simp
  then have "s = t + s div 65536 * 65535" unfolding t_def by linarith
  then have st: "s mod 65535 = t mod 65535" by (metis mod_mult_self1)
  show ?thesis
  proof (cases "t < 65536")
    case True
    with st show ?thesis by (simp add: f_def)
  next
    case False
    with t have "t div 65536 = 1" by (intro div_nat_eqI) simp_all
    with False t have "f = t - 65535" unfolding f_def by (simp add: mod_if)
    with False have "t = f + 1 * 65535" by simp
    with st show ?thesis by (metis mod_mult_self1)
  qed
qed

lemma encode_bytes:
  assumes "length h = 8" "c < 65536"
  shows "sum16 (encode 2 3 c h @ body) = c + sum16 (encode 2 3 0 h @ body)"
    "icmp_type (encode 2 3 c h) = icmp_type h" "length (encode 2 3 c h) = 8"
proof -
  obtain a b x y d e f g where h: "h = [a, b, x, y, d, e, f, g]"
    using assms(1) by (auto simp: eval_nat_numeral length_Suc_conv)
  have "c div 256 < 256" using assms(2) by (simp add: less_mult_imp_div_less)
  then have "unat (word_of_nat (c div 256) :: byte) = c div 256" by (simp add: unat_of_nat)
  then show "sum16 (encode 2 3 c h @ body) = c + sum16 (encode 2 3 0 h @ body)"
    by (simp add: h encode_def unat_of_nat)
  show "icmp_type (encode 2 3 c h) = icmp_type h" "length (encode 2 3 c h) = 8"
    by (simp_all add: h encode_def icmp_type_def at_def)
qed

lemma complement_low:
  fixes u :: nat
  assumes "u < 4294967296"
  shows "(4294967295 - u) mod 65536 = 65535 - u mod 65536"
proof -
  have q: "u div 65536 < 65536" using assms by (simp add: less_mult_imp_div_less)
  have "u = 65536 * (u div 65536) + u mod 65536" "u mod 65536 < 65536" by simp_all
  with q have "4294967295 - u = 65535 - u mod 65536 + 65536 * (65535 - u div 65536)" by linarith
  then have "(4294967295 - u) mod 65536 = (65535 - u mod 65536) mod 65536" by (metis mod_mult_self2)
  then show ?thesis by simp
qed

text \<open>the checksum written into a header makes the sum of all words of the message a multiple of
  65535, which is what a receiver of an ICMP message verifies.\<close>

theorem checksum_valid:
  assumes "length h = 8" "length body < 65536"
  shows "\<exists>h'. compute_checksum h body = Some h' \<and> length h' = 8 \<and> sum16 (h' @ body) mod 65535 = 0"
proof -
  obtain a b x y d e f g where h: "h = [a, b, x, y, d, e, f, g]"
    using assms(1) by (auto simp: eval_nat_numeral length_Suc_conv)
  define n where "n = 256 * unat a + unat b + (256 * unat d + unat e) + (256 * unat f + unat g)"
  define s where "s = n + sum16 body"
  have "n \<le> 3 * 65535"
    using byte_bound [of a] byte_bound [of b] byte_bound [of d] byte_bound [of e] byte_bound [of f] byte_bound [of g]
    unfolding n_def by linarith
  moreover have "sum16 body \<le> 65535 * 32768"
  proof -
    have "(length body + 1) div 2 \<le> 32768" using assms(2) by simp
    then have "65535 * ((length body + 1) div 2) \<le> 65535 * 32768" by (rule mult_le_mono2)
    with sum16_bound [of body] show ?thesis by (rule order_trans)
  qed
  ultimately have s: "s < 2 ^ 32" unfolding s_def by simp
  define r where "r = unat (fold_sum (word_of_nat s)) mod 65536"
  have r: "r mod 65535 = s mod 65535" "r \<le> 65535"
    using fold_mod [OF s] unat_fold_sum [OF s] by (simp_all add: r_def Let_def less_Suc_eq_le [symmetric])
  have low: "unat (NOT w AND 0xFFFF) = 65535 - unat w mod 65536" for w :: "32 word"
  proof -
    have "NOT w AND 0xFFFF = take_bit 16 (NOT w)" by (simp add: take_bit_eq_mask mask_eq_exp_minus_1)
    moreover have "unat (take_bit 16 (NOT w)) = take_bit 16 (unat (NOT w))" by (rule unsigned_take_bit_eq)
    moreover have "unat (NOT w) = 4294967295 - unat w"
    proof -
      have "NOT w = - 1 - w" by (simp add: not_eq_complement)
      moreover have "unat (- 1 - w) = unat (- 1 :: 32 word) - unat w" by (rule unat_sub) (rule word_order.extremum)
      moreover have "unat (- 1 :: 32 word) = 4294967295" by (simp add: unsigned_minus_1_eq_mask mask_eq_exp_minus_1)
      ultimately show ?thesis by simp
    qed
    moreover have "unat w < 4294967296" using unsigned_less [of w, where ?'a = nat] by simp
    then have "(4294967295 - unat w) mod 65536 = 65535 - unat w mod 65536" by (rule complement_low)
    ultimately show ?thesis by (simp add: take_bit_eq_mod)
  qed
  have "compute_checksum h body = Some (encode 2 3 (65535 - r) h)"
    unfolding compute_checksum_def body_sum_word low
    by (simp add: h icmp_type_def icmp_code_def icmp_identifier_def sequence_number_def at_def decode_def
      r_def s_def n_def add.assoc)
  moreover have "sum16 (encode 2 3 (65535 - r) h @ body) = 65535 - r + s"
    using encode_bytes(1) [OF assms(1), of "65535 - r" body]
    by (simp add: h encode_def s_def n_def)
  moreover have "(65535 - r + s) mod 65535 = 0"
  proof -
    have "(65535 - r + s) mod 65535 = (65535 - r + r) mod 65535" using r(1) by (metis mod_add_right_eq)
    with r(2) show ?thesis by simp
  qed
  ultimately show ?thesis using encode_bytes(3) [OF assms(1)] by auto
qed


theorem checksum_valid_witness:
  "\<exists>h'. compute_checksum [8, 0, 0, 0, 0, 1, 0, 2] [1, 2, 3] = Some h' \<and> length h' = 8 \<and> sum16 (h' @ [1, 2, 3]) mod 65535 = 0"
  by (rule checksum_valid) simp_all

section \<open>Echo replies\<close>

lemma at_less: "i < length v \<Longrightarrow> at v i = Some (unat (v ! i))"
  by (simp add: at_def)

lemma decode_less: "a < length v \<Longrightarrow> b < length v \<Longrightarrow> decode v a b = Some (256 * unat (v ! a) + unat (v ! b))"
  by (simp add: decode_def at_less)

lemma at_exists: "i < length v \<Longrightarrow> \<exists>n. at v i = Some n"
  by (simp add: at_def)

lemma ip_dict_exists:
  assumes "20 \<le> length v" "total_length v = Some n"
  shows "\<exists>d. ip_dict v = Some d \<and> map_of d ''TotalLength'' = Some (PInt (short_value n))"
proof -
  have "0 < length v" using assms(1) by linarith
  then obtain x where "at v 0 = Some x" using at_exists by blast
  with assms show ?thesis
    by (simp add: ip_dict_def source_address_def destination_address_def address_def ip_version_def ip_protocol_def
        type_of_service_def identification_def header_checksum_def time_to_live_def ip_header_length_def at_less decode_less)
qed

lemma icmp_dict_exists:
  assumes "8 \<le> length v" "icmp_type v = Some n"
  shows "\<exists>d. icmp_dict v = Some d \<and> map_of d ''Type'' = Some (PInt (int n))"
  using assms
  by (simp add: icmp_dict_def icmp_code_def icmp_checksum_def icmp_identifier_def sequence_number_def at_less decode_less)

text \<open>an echo reply behind an IP header of 20 bytes gives the plugin the data of the length that
  the IP header states, without what pads the frame, and the time the reply took.\<close>

theorem echo_reply_delivered:
  assumes "length ip = 20" "ip ! 0 = 0x45" "length ic = 8" "ic ! 0 = 0"
    and "256 * unat (ip ! 2) + unat (ip ! 3) = 28 + length d" "0 \<le> elapsed"
  shows "\<exists>ipd icd. icmp_inbound (ip @ ic @ d @ pad) elapsed =
    Delivered [(''IPv4'', PDict ipd), (''ICMP'', PDict icd), (''ElapsedMs'', PInt elapsed), (''Status'', PInt 0),
      (''Description'', PStr ''echo_reply''), (''Data'', PBytes (map (\<lambda>b. char_of (unat b)) d))] \<and>
    map_of ipd ''TotalLength'' = Some (PInt (short_value (28 + length d))) \<and> map_of icd ''Type'' = Some (PInt 0)"
proof -
  let ?v = "ip @ ic @ d @ pad"
  have n: "?v ! i = ip ! i" if "i < 20" for i using that assms(1) by (simp add: nth_append)
  have l: "28 \<le> length ?v" using assms(1,3) by simp
  have w: "drop 20 ?v = ic @ d @ pad" using assms(1) by simp
  have m: "(ic @ d @ pad) ! i = ic ! i" if "i < 8" for i using that assms(3) by (simp add: nth_append)
  have lw: "8 \<le> length (ic @ d @ pad)" using assms(3) by simp
  have hl: "ip_header_length ?v = Some 20"
  proof -
    have "0 < length ?v" using l by linarith
    then have "at ?v 0 = Some (unat (?v ! 0))" by (rule at_less)
    with n [of 0] assms(2) show ?thesis by (simp add: ip_header_length_def)
  qed
  have tl: "total_length ?v = Some (28 + length d)"
    using l n [of 2] n [of 3] assms(5) by (simp add: total_length_def decode_less)
  have ty: "icmp_type (ic @ d @ pad) = Some 0"
  proof -
    have "0 < length (ic @ d @ pad)" using lw by linarith
    then have "at (ic @ d @ pad) 0 = Some (unat ((ic @ d @ pad) ! 0))" by (rule at_less)
    with m [of 0] assms(4) show ?thesis by (simp add: icmp_type_def)
  qed
  obtain ipd where ipd: "ip_dict ?v = Some ipd" "map_of ipd ''TotalLength'' = Some (PInt (short_value (28 + length d)))"
    using ip_dict_exists [of ?v, OF _ tl] l by fastforce
  obtain icd where icd: "icmp_dict (ic @ d @ pad) = Some icd" "map_of icd ''Type'' = Some (PInt 0)"
    using icmp_dict_exists [OF lw ty] by auto
  have off: "data_offset ?v = Some 28"
    using hl ty unfolding data_offset_def w Let_def by (simp add: destination_unreachable_def)
  have "drop 28 ?v = d @ pad"
  proof -
    have "?v = (ip @ ic) @ d @ pad" "length (ip @ ic) = 28" using assms(1,3) by simp_all
    then show ?thesis by (metis append_eq_conv_conj)
  qed
  then have "icmp_data ?v 28 (28 + length d) = Some d"
    using l by (simp add: icmp_data_def)
  moreover have "?v \<noteq> []" using assms(1) by auto
  ultimately have "icmp_inbound ?v elapsed =
    Delivered [(''IPv4'', PDict ipd), (''ICMP'', PDict icd), (''ElapsedMs'', PInt elapsed), (''Status'', PInt 0),
      (''Description'', PStr ''echo_reply''), (''Data'', PBytes (map (\<lambda>b. char_of (unat b)) d))]"
    using ipd icd ty off tl assms(6) unfolding icmp_inbound_def w
    by (simp add: echo_reply_def icmp_description_def)
  with ipd(2) icd(2) show ?thesis by blast
qed

theorem echo_reply_delivered_witness:
  "\<exists>ipd icd. icmp_inbound ([0x45, 0, 0, 29, 0, 0, 0, 0, 64, 1, 0, 0, 127, 0, 0, 1, 127, 0, 0, 1] @ [0, 0, 0, 0, 0, 1, 0, 2] @ [65] @ [0]) 5 =
    Delivered [(''IPv4'', PDict ipd), (''ICMP'', PDict icd), (''ElapsedMs'', PInt 5), (''Status'', PInt 0),
      (''Description'', PStr ''echo_reply''), (''Data'', PBytes (map (\<lambda>b. char_of (unat b)) [65 :: byte]))] \<and>
    map_of ipd ''TotalLength'' = Some (PInt (short_value (28 + length [65 :: byte]))) \<and> map_of icd ''Type'' = Some (PInt 0)"
  by (rule echo_reply_delivered) simp_all

end
