(* ===== verification/PluginMqtt.thy ===== *)
theory PluginMqtt
  imports PluginText "HOL-Library.Signed_Division"
begin

text \<open>
  The MQTT protocol of \<^verbatim>\<open>hardware/plugins/PluginProtocols.cpp\<close>: packets from the broker become
  dictionaries for the plugin, and dictionaries of the plugin become packets.  Data is a string of
  bytes.  Two iterator steps in one expression are taken from left to right.
\<close>

record mqtt =
  m_PacketID :: int
  m_bErrored :: bool
  m_Retained :: string

definition CPluginProtocolMQTT :: mqtt where
  "CPluginProtocolMQTT = \<lparr>m_PacketID = 1, m_bErrored = False, m_Retained = []\<rparr>"

section \<open>Numbers and strings\<close>

definition mqtt_byte :: "nat \<Rightarrow> char" where
  "mqtt_byte n = char_of n"

definition byte_nat :: "char \<Rightarrow> nat" where
  "byte_nat c = of_char c"

lemma byte_nat_mqtt_byte [simp]: "byte_nat (mqtt_byte n) = n mod 256"
  by (simp add: byte_nat_def mqtt_byte_def)

lemma byte_nat_less [simp]: "byte_nat c < 256"
  unfolding byte_nat_def by (metis nat_of_char_less_256)

text \<open>C's division truncates, and \<^verbatim>\<open>push_back\<close> keeps the low byte.\<close>

definition MQTTPushBackNumber :: "int \<Rightarrow> string \<Rightarrow> string" where
  "MQTTPushBackNumber i v = v @ [char_of (i sdiv 256), char_of (i smod 256)]"

definition MQTTPushBackString :: "string \<Rightarrow> string \<Rightarrow> string" where
  "MQTTPushBackString s v = v @ s"

definition MQTTPushBackStringWLen :: "string \<Rightarrow> string \<Rightarrow> string" where
  "MQTTPushBackStringWLen s v = MQTTPushBackNumber (wrap32 (int (length s))) v @ s"

section \<open>Inbound\<close>

subsection \<open>The fixed header\<close>

text \<open>The loop on the length reads past the end of the data when its last byte has the high bit.\<close>

datatype header_length = PastEnd | Malformed | Length nat string

fun remaining_length :: "nat \<Rightarrow> nat \<Rightarrow> string \<Rightarrow> header_length" where
  "remaining_length acc multiplier [] = PastEnd"
| "remaining_length acc multiplier (b # bs) =
     (let acc' = acc + (byte_nat b mod 128) * multiplier; multiplier' = multiplier * 128 in
      if multiplier' > 128 * 128 * 128 then Malformed
      else if byte_nat b \<ge> 128 then remaining_length acc' multiplier' bs
      else Length acc' bs)"

subsection \<open>Packets\<close>

text \<open>
  The cases of the switch take the flags, the length and the data after the fixed header.  The outer
  \<^const>\<open>None\<close> is a read past the end of the data, the inner one sets \<^verbatim>\<open>m_bErrored\<close>.
\<close>

definition two_bytes :: "string \<Rightarrow> (int \<times> string) option" where
  "two_bytes s =
     (case s of a # b # t \<Rightarrow> Some (int (byte_nat a * 256 + byte_nat b), t) | _ \<Rightarrow> None)"

definition verb :: "string \<Rightarrow> dict" where
  "verb v = AddStringToDict ''Verb'' v []"

definition connack_text :: "nat \<Rightarrow> string" where
  "connack_text n =
     (if n = 0 then ''Connection Accepted''
      else if n = 1 then ''Connection Refused, unacceptable protocol version''
      else if n = 2 then ''Connection Refused, identifier rejected''
      else if n = 3 then ''Connection Refused, Server unavailable''
      else if n = 4 then ''Connection Refused, bad user name or password''
      else if n = 5 then ''Connection Refused, not authorized''
      else ''Unknown status returned'')"

definition in_connack :: "nat \<Rightarrow> nat \<Rightarrow> string \<Rightarrow> dict option option" where
  "in_connack flags n s =
     (if flags \<noteq> 0 \<or> n \<noteq> 2 then Some None
      else
        (case s of
           a # b # _ \<Rightarrow>
             Some (Some (AddIntToDict ''Status'' (int (byte_nat b))
               (AddStringToDict ''Description'' (connack_text (byte_nat a)) (verb ''CONNACK''))))
         | _ \<Rightarrow> None))"

definition suback_text :: "nat \<Rightarrow> string" where
  "suback_text n =
     (if n = 0 then ''Success - Maximum QoS 0''
      else if n = 1 then ''Success - Maximum QoS 1''
      else if n = 2 then ''Success - Maximum QoS 2''
      else if n = 128 then ''Failure''
      else ''Unknown status returned'')"

definition suback_entry :: "char \<Rightarrow> py" where
  "suback_entry c =
     PDict (AddStringToDict ''Description'' (suback_text (byte_nat c))
       (AddIntToDict ''Status'' (int (byte_nat c)) []))"

definition in_suback :: "nat \<Rightarrow> nat \<Rightarrow> string \<Rightarrow> dict option option" where
  "in_suback flags n s =
     (case two_bytes s of
        None \<Rightarrow> None
      | Some (pid, t) \<Rightarrow>
          if flags \<noteq> 0 \<or> n < 3 then Some None
          else Some (Some (dict_set ''Topics'' (PList (map suback_entry (take (n - 2) t)))
                 (AddIntToDict ''PacketIdentifier'' pid (verb ''SUBACK'')))))"

text \<open>PUBACK, PUBREC, PUBCOMP and UNSUBACK have the same code.\<close>

definition in_acknowledgement :: "string \<Rightarrow> nat \<Rightarrow> nat \<Rightarrow> string \<Rightarrow> dict option option" where
  "in_acknowledgement v flags n s =
     (if flags \<noteq> 0 \<or> n \<noteq> 2 then Some None
      else map_option (\<lambda>(pid, _). Some (AddIntToDict ''PacketIdentifier'' pid (verb v))) (two_bytes s))"

definition in_publish :: "nat \<Rightarrow> nat \<Rightarrow> string \<Rightarrow> dict option option" where
  "in_publish flags n s =
     (let qos = flags div 2 mod 4;
          d = dict_set ''Retain'' (PBool (flags mod 2 = 1))
                (AddIntToDict ''QoS'' (int qos)
                  (AddIntToDict ''DUP'' (int (flags div 8)) (verb ''PUBLISH''))) in
      case two_bytes s of
        None \<Rightarrow> None
      | Some (topicLen, t) \<Rightarrow>
          if nat topicLen + 2 + (if qos \<noteq> 0 then 2 else 0) > n then Some None
          else
            let d1 = AddStringToDict ''Topic'' (take (nat topicLen) t) d;
                t1 = drop (nat topicLen) (take (n - 2) t) in
            if qos \<noteq> 0 then
              map_option (\<lambda>(pid, payload). Some (AddBytesToDict ''Payload'' payload
                (AddIntToDict ''PacketIdentifier'' pid d1))) (two_bytes t1)
            else Some (Some (AddBytesToDict ''Payload'' t1 d1)))"

definition in_pingresp :: "nat \<Rightarrow> nat \<Rightarrow> dict option option" where
  "in_pingresp flags n = Some (if flags \<noteq> 0 \<or> n \<noteq> 0 then None else Some (verb ''PINGRESP''))"

definition mqtt_packet :: "nat \<Rightarrow> nat \<Rightarrow> string \<Rightarrow> dict option option" where
  "mqtt_packet header n s =
     (let response = header div 16; flags = header mod 16 in
      if response = 2 then in_connack flags n s
      else if response = 9 then in_suback flags n s
      else if response = 4 then in_acknowledgement ''PUBACK'' flags n s
      else if response = 5 then in_acknowledgement ''PUBREC'' flags n s
      else if response = 7 then in_acknowledgement ''PUBCOMP'' flags n s
      else if response = 3 then in_publish flags n s
      else if response = 11 then in_acknowledgement ''UNSUBACK'' flags n s
      else if response = 13 then in_pingresp flags n
      else Some None)"

subsection \<open>The loop\<close>

datatype mqtt_event = Message dict | Disconnected

text \<open>
  The events of a read, with \<^verbatim>\<open>m_bErrored\<close> and what is retained; \<^const>\<open>None\<close> is a read past the end.
  A packet that has not arrived yet and a malformed length leave the loop alike.
\<close>

function mqtt_loop :: "string \<Rightarrow> (mqtt_event list \<times> bool \<times> string) option" where
  "mqtt_loop [] = None"
| "mqtt_loop (h # s) =
     (case remaining_length 0 1 s of
        PastEnd \<Rightarrow> None
      | Malformed \<Rightarrow> Some ([], False, h # s)
      | Length n t \<Rightarrow>
          if n > length t then Some ([], False, h # s)
          else
            (case mqtt_packet (byte_nat h) n t of
               None \<Rightarrow> None
             | Some None \<Rightarrow> Some ([Disconnected], True, drop n t)
             | Some (Some d) \<Rightarrow>
                 if drop n t = [] then Some ([Message d], False, [])
                 else map_option (\<lambda>(es, e, r). (Message d # es, e, r)) (mqtt_loop (drop n t))))"
  by pat_completeness auto

lemma remaining_length_shorter: "remaining_length acc m s = Length n t \<Longrightarrow> length t < length s"
proof (induction acc m s rule: remaining_length.induct)
  case (2 acc m b bs)
  then show ?case by (cases "byte_nat b \<ge> 128") (auto simp: Let_def less_SucI split: if_splits)
qed simp

termination mqtt_loop
  by (relation "measure length") (auto dest!: remaining_length_shorter)

definition mqtt_inbound :: "mqtt \<Rightarrow> string \<Rightarrow> (mqtt_event list \<times> mqtt) option" where
  "mqtt_inbound st buf =
     (if m_bErrored st then Some ([], st)
      else map_option (\<lambda>(es, e, r). (es, st\<lparr>m_bErrored := e, m_Retained := r\<rparr>))
             (mqtt_loop (m_Retained st @ buf)))"

section \<open>Outbound\<close>

fun encode_length :: "nat \<Rightarrow> string" where
  "encode_length n =
     (if n div 128 > 0 then mqtt_byte (n mod 128 + 128) # encode_length (n div 128)
      else [mqtt_byte (n mod 128)])"

declare encode_length.simps [simp del]

definition finish :: "string \<Rightarrow> string \<Rightarrow> string \<Rightarrow> string" where
  "finish ret header payload = ret @ encode_length (length header + length payload) @ header @ payload"

text \<open>The text of a payload; \<^verbatim>\<open>bytes\<close> objects are not looked at.\<close>

definition payload_text :: "dict \<Rightarrow> string \<Rightarrow> string" where
  "payload_text d k =
     (case map_of d k of Some (PByteArray s) \<Rightarrow> s | Some (PStr s) \<Rightarrow> c_string s | _ \<Rightarrow> [])"

definition low_bits :: "nat \<Rightarrow> int \<Rightarrow> nat" where
  "low_bits k i = nat (i mod 2 ^ k)"

text \<open>The number given, or the next one of the connection.\<close>

definition packet_identifier :: "dict \<Rightarrow> mqtt \<Rightarrow> int \<times> mqtt" where
  "packet_identifier d st =
     (case get_long d ''PacketIdentifier'' of
        Some i \<Rightarrow> (i, st)
      | None \<Rightarrow> (m_PacketID st, st\<lparr>m_PacketID := wrap32 (m_PacketID st + 1)\<rparr>))"

definition out_connect :: "string \<Rightarrow> string \<Rightarrow> dict \<Rightarrow> string" where
  "out_connect user pass d =
     (let p0 = MQTTPushBackStringWLen (case get_str d ''ID'' of Some i \<Rightarrow> i | None \<Rightarrow> ''Domoticz'') [];
          clean = (case get_long d ''CleanSession'' of Some i \<Rightarrow> low_bits 1 i | None \<Rightarrow> 1) * 2;
          (p1, will) =
            (case get_str d ''WillTopic'' of
               None \<Rightarrow> (p0, 0)
             | Some topic \<Rightarrow>
                 (MQTTPushBackStringWLen (payload_text d ''WillPayload'') (MQTTPushBackStringWLen topic p0),
                  4 + (case get_long d ''WillQoS'' of Some i \<Rightarrow> low_bits 2 i * 8 | None \<Rightarrow> 0)
                    + (case get_long d ''WillRetain'' of Some i \<Rightarrow> low_bits 1 i * 32 | None \<Rightarrow> 0)));
          p2 = (if user \<noteq> [] then MQTTPushBackStringWLen user p1 else p1);
          p3 = (if pass \<noteq> [] then MQTTPushBackStringWLen pass p2 else p2);
          flags = clean + will + (if user \<noteq> [] then 128 else 0) + (if pass \<noteq> [] then 64 else 0) in
      finish [mqtt_byte 0x10]
        (MQTTPushBackStringWLen ''MQTT'' [] @ [mqtt_byte 4, mqtt_byte flags, mqtt_byte 0, mqtt_byte 60]) p3)"

fun push_topics :: "py list \<Rightarrow> string \<Rightarrow> string option" where
  "push_topics [] v = Some v"
| "push_topics (PDict t # ts) v =
     (case get_str t ''Topic'' of
        Some topic \<Rightarrow>
          push_topics ts (MQTTPushBackStringWLen topic v @
            [case get_long t ''QoS'' of Some q \<Rightarrow> char_of q | None \<Rightarrow> mqtt_byte 0])
      | None \<Rightarrow> push_topics ts v)"
| "push_topics (_ # ts) v = None"

definition out_subscribe :: "mqtt \<Rightarrow> dict \<Rightarrow> string \<times> mqtt" where
  "out_subscribe st d =
     (let (pid, st') = packet_identifier d st in
      (case map_of d ''Topics'' of
         Some (PList ts) \<Rightarrow>
           (case push_topics ts [] of
              None \<Rightarrow> []
            | Some payload \<Rightarrow> finish [mqtt_byte 0x82] (MQTTPushBackNumber (wrap32 pid) []) payload)
       | _ \<Rightarrow> [], st'))"

fun push_names :: "py list \<Rightarrow> string \<Rightarrow> string" where
  "push_names [] v = v"
| "push_names (PStr s # ts) v = push_names ts (MQTTPushBackStringWLen (c_string s) v)"
| "push_names (_ # ts) v = push_names ts v"

definition out_unsubscribe :: "mqtt \<Rightarrow> dict \<Rightarrow> string \<times> mqtt" where
  "out_unsubscribe st d =
     (let (pid, st') = packet_identifier d st in
      (case map_of d ''Topics'' of
         Some (PList ts) \<Rightarrow>
           finish [mqtt_byte 0xA2] (MQTTPushBackNumber (wrap32 pid) []) (push_names ts [])
       | _ \<Rightarrow> [], st'))"

definition publish_byte :: "dict \<Rightarrow> nat" where
  "publish_byte d =
     0x30 + (case get_long d ''Duplicate'' of Some i \<Rightarrow> if i \<noteq> 0 then 8 else 0 | None \<Rightarrow> 0)
          + (case get_long d ''QoS'' of Some i \<Rightarrow> low_bits 2 i * 2 | None \<Rightarrow> 0)
          + (case get_long d ''Retain'' of Some i \<Rightarrow> low_bits 1 i | None \<Rightarrow> 0)"

definition out_publish :: "mqtt \<Rightarrow> dict \<Rightarrow> string \<times> mqtt" where
  "out_publish st d =
     (case get_str d ''Topic'' of
        None \<Rightarrow> ([], st)
      | Some topic \<Rightarrow>
          let h = MQTTPushBackStringWLen topic [];
              qos = (case get_long d ''QoS'' of Some i \<Rightarrow> i | None \<Rightarrow> 0);
              (h', st') =
                (if qos \<noteq> 0 then
                   let (pid, st') = packet_identifier d st in (MQTTPushBackNumber (wrap32 pid) h, st')
                 else (h, st)) in
          (finish [mqtt_byte (publish_byte d)] h' (MQTTPushBackString (payload_text d ''Payload'') []), st'))"

text \<open>\<^verbatim>\<open>MQTT_PUBREL & 0x02\<close> is \<^verbatim>\<open>6<<4 & 2\<close>, which is 0.\<close>

definition out_pubrel :: "dict \<Rightarrow> string" where
  "out_pubrel d =
     (case get_long d ''PacketIdentifier'' of
        Some pid \<Rightarrow> finish [mqtt_byte (and (6 * 16) 2)] (MQTTPushBackNumber (wrap32 pid) []) []
      | None \<Rightarrow> [])"

text \<open>\<open>user\<close> and \<open>pass\<close> are the plugin's parameters.  An object that is no dictionary is \<open>None\<close>.\<close>

definition mqtt_outbound :: "string \<Rightarrow> string \<Rightarrow> mqtt \<Rightarrow> dict option \<Rightarrow> string \<times> mqtt" where
  "mqtt_outbound user pass st object =
     (case object of
        None \<Rightarrow> ([], st)
      | Some d \<Rightarrow>
          (case map_of d ''Verb'' of
             None \<Rightarrow> (finish [] [] [], st)
           | Some (PStr v0) \<Rightarrow>
               let v = c_string v0 in
               if v = ''CONNECT'' then (out_connect user pass d, st)
               else if v = ''PING'' then (finish [mqtt_byte 0xC0] [] [], st)
               else if v = ''SUBSCRIBE'' then out_subscribe st d
               else if v = ''UNSUBSCRIBE'' then out_unsubscribe st d
               else if v = ''PUBLISH'' then out_publish st d
               else if v = ''PUBREL'' then (out_pubrel d, st)
               else if v = ''DISCONNECT'' then (finish [mqtt_byte 0xE0, mqtt_byte 0] [] [], st)
               else ([], st)
           | Some _ \<Rightarrow> ([], st)))"

section \<open>Lengths and numbers\<close>

lemma remaining_length_encode:
  "n < 128 ^ Suc j \<Longrightarrow> m * 128 ^ Suc j \<le> 128 ^ 3 \<Longrightarrow>
   remaining_length acc m (encode_length n @ t) = Length (acc + n * m) t"
proof (induction j arbitrary: n m acc)
  case 0
  then show ?case by (subst encode_length.simps) (simp add: Let_def)
next
  case (Suc j)
  from Suc.prems(2) have mm: "m * 128 * 128 ^ Suc j \<le> 128 ^ 3" by (simp add: mult.assoc)
  moreover have "m * 128 * 1 \<le> m * 128 * 128 ^ Suc j" by (intro mult_le_mono) simp_all
  ultimately have m1: "m * 128 \<le> 128 ^ 3" by linarith
  show ?case
  proof (cases "n div 128 > 0")
    case True
    from Suc.prems(1) have "n div 128 < 128 ^ Suc j" by (simp add: less_mult_imp_div_less)
    with mm have ih: "remaining_length (acc + n mod 128 * m) (m * 128) (encode_length (n div 128) @ t) =
        Length (acc + n mod 128 * m + n div 128 * (m * 128)) t"
      by (intro Suc.IH)
    define q r where "q = n div 128" and "r = n mod 128"
    then have "n = 128 * q + r" by simp
    then have s: "acc + r * m + q * (m * 128) = acc + n * m" by (simp add: algebra_simps)
    note s = s [unfolded q_def r_def]
    from m1 show ?thesis using True ih s by (subst encode_length.simps) (simp add: Let_def)
  next
    case False
    then have "n < 128 ^ Suc 0" by simp
    with m1 show ?thesis by (subst encode_length.simps) (simp add: Let_def)
  qed
qed

lemma remaining_length_too_long:
  "n \<ge> 128 ^ j \<Longrightarrow> m * 128 ^ j = 128 ^ 3 \<Longrightarrow> remaining_length acc m (encode_length n @ t) = Malformed"
proof (induction j arbitrary: n m acc)
  case 0
  then show ?case by (subst encode_length.simps) (auto simp: Let_def)
next
  case (Suc j)
  from Suc.prems(1) have n: "n div 128 \<ge> 128 ^ j" by (simp add: less_eq_div_iff_mult_less_eq mult.commute)
  then have "n div 128 > 0" by (rule less_le_trans [rotated]) simp
  moreover have "remaining_length (acc + n mod 128 * m) (m * 128) (encode_length (n div 128) @ t) = Malformed"
    using n Suc.prems(2) by (intro Suc.IH) (simp_all add: mult.assoc)
  ultimately show ?case by (subst encode_length.simps) (simp add: Let_def)
qed

lemma fixed_header: "n < 2 ^ 21 \<Longrightarrow> remaining_length 0 1 (encode_length n @ t) = Length n t"
  using remaining_length_encode [of n 2 1 0 t] by simp

lemma length_push_number [simp]: "length (MQTTPushBackNumber i v) = length v + 2"
  by (simp add: MQTTPushBackNumber_def)

lemma push_number_append: "MQTTPushBackNumber i v = v @ MQTTPushBackNumber i []"
  by (simp add: MQTTPushBackNumber_def)

lemma byte_nat_char_of: "byte_nat (char_of (i :: int)) = nat (i mod 256)"
proof -
  have "int (byte_nat (char_of i)) = of_char (char_of i)" unfolding byte_nat_def by (rule of_nat_of_char)
  then have "int (byte_nat (char_of i)) = i mod 256" by simp
  then show ?thesis by linarith
qed

lemma two_bytes_number: "0 \<le> i \<Longrightarrow> two_bytes (MQTTPushBackNumber i [] @ t) = Some (i mod 65536, t)"
proof -
  assume "0 \<le> i"
  have "i div 256 mod 256 * 256 + i mod 256 = i mod 65536"
    using zmod_zmult2_eq [of 256 i 256] by simp
  with \<open>0 \<le> i\<close> show ?thesis
    by (cases "i = 0") (simp_all add: two_bytes_def MQTTPushBackNumber_def byte_nat_char_of signed_divide_int_def signed_modulo_int_def)
qed


section \<open>Published messages\<close>

definition published :: "nat \<Rightarrow> nat \<Rightarrow> nat \<Rightarrow> string \<Rightarrow> int option \<Rightarrow> string \<Rightarrow> dict" where
  "published dup qos retain topic pid payload =
     [(''Verb'', PStr ''PUBLISH''), (''DUP'', PInt (int dup)), (''QoS'', PInt (int qos)),
      (''Retain'', PBool (retain = 1)), (''Topic'', PStr topic)] @
     (case pid of Some i \<Rightarrow> [(''PacketIdentifier'', PInt i)] | None \<Rightarrow> []) @ [(''Payload'', PBytes payload)]"

lemma publish_flags:
  fixes x q r :: nat
  assumes "x \<le> 1" "q < 4" "r \<le> 1"
  shows "(48 + 8 * x + 2 * q + r) div 16 = 3" "(48 + 8 * x + 2 * q + r) mod 16 = 8 * x + 2 * q + r"
    "(8 * x + 2 * q + r) div 2 mod 4 = q" "(8 * x + 2 * q + r) mod 2 = r" "(8 * x + 2 * q + r) div 8 = x"
    "48 + 8 * x + 2 * q + r < 256"
proof -
  have "x = 0 \<or> x = 1" "q = 0 \<or> q = 1 \<or> q = 2 \<or> q = 3" "r = 0 \<or> r = 1" using assms by auto
  then show "(48 + 8 * x + 2 * q + r) div 16 = 3" "(48 + 8 * x + 2 * q + r) mod 16 = 8 * x + 2 * q + r"
    "(8 * x + 2 * q + r) div 2 mod 4 = q" "(8 * x + 2 * q + r) mod 2 = r" "(8 * x + 2 * q + r) div 8 = x"
    "48 + 8 * x + 2 * q + r < 256" by (elim disjE; simp)+
qed

lemma length_with_wlen: "length s < 65536 \<Longrightarrow>
    two_bytes (MQTTPushBackStringWLen s [] @ t) = Some (int (length s), s @ t)"
  using two_bytes_number [of "int (length s)" "s @ t"]
  by (simp add: MQTTPushBackStringWLen_def wrap32_small)

lemma in_publish_plain:
  assumes "x \<le> 1" "r \<le> 1" "length topic < 65536"
  shows "in_publish (8 * x + 2 * 0 + r) (length topic + 2 + length payload)
      (MQTTPushBackStringWLen topic [] @ payload @ rest) = Some (Some (published x 0 r topic None payload))"
  using publish_flags [of x 0 r] assms
  by (simp add: in_publish_def length_with_wlen published_def verb_def AddStringToDict_def AddIntToDict_def
      AddBytesToDict_def dict_set_def)

lemma in_publish_identified:
  assumes "x \<le> 1" "r \<le> 1" "length topic < 65536" "0 < q" "q < 4" "0 \<le> pid"
  shows "in_publish (8 * x + 2 * q + r) (length topic + 4 + length payload)
      (MQTTPushBackStringWLen topic [] @ MQTTPushBackNumber pid [] @ payload @ rest) =
    Some (Some (published x q r topic (Some (pid mod 65536)) payload))"
  using publish_flags [of x q r] assms
  by (simp add: in_publish_def length_with_wlen published_def verb_def AddStringToDict_def AddIntToDict_def
      AddBytesToDict_def dict_set_def two_bytes_number)

lemma mqtt_loop_packet:
  assumes "length body < 2 ^ 21" "mqtt_packet (byte_nat h) (length body) (body @ rest) = Some (Some d)"
  shows "mqtt_loop (h # encode_length (length body) @ body @ rest) =
    (if rest = [] then Some ([Message d], False, [])
     else map_option (\<lambda>(es, e, r). (Message d # es, e, r)) (mqtt_loop rest))"
  using assms fixed_header [of "length body" "body @ rest"] by simp

definition duplicate_flag :: "dict \<Rightarrow> nat" where
  "duplicate_flag d = (case get_long d ''Duplicate'' of Some i \<Rightarrow> if i \<noteq> 0 then 1 else 0 | None \<Rightarrow> 0)"

definition retain_flag :: "dict \<Rightarrow> nat" where
  "retain_flag d = (case get_long d ''Retain'' of Some i \<Rightarrow> low_bits 1 i | None \<Rightarrow> 0)"

lemma publish_byte_flags:
  assumes "get_long d ''QoS'' = Some (int q)" "q < 4"
  shows "publish_byte d = 48 + 8 * duplicate_flag d + 2 * q + retain_flag d"
    "duplicate_flag d \<le> 1" "retain_flag d \<le> 1"
proof -
  have "low_bits 2 (int q) = q" using assms(2) by (simp add: low_bits_def)
  with assms(1) show "publish_byte d = 48 + 8 * duplicate_flag d + 2 * q + retain_flag d"
    by (simp add: publish_byte_def duplicate_flag_def retain_flag_def split: option.splits)
  show "duplicate_flag d \<le> 1" by (simp add: duplicate_flag_def split: option.splits)
  have "low_bits 1 i \<le> 1" for i :: int by (simp add: low_bits_def)
  then show "retain_flag d \<le> 1" by (simp add: retain_flag_def split: option.splits)
qed



section \<open>Long packets\<close>

text \<open>The fourth byte of a length is refused, and the data stays: nothing is ever delivered again.\<close>

lemma mqtt_malformed:
  assumes "m_bErrored st = False" "m_Retained st = h # encode_length n @ t" "2 ^ 21 \<le> n"
  shows "mqtt_inbound st c = Some ([], st\<lparr>m_Retained := m_Retained st @ c\<rparr>)"
  using assms remaining_length_too_long [of 3 n 1 0 "t @ c"] by (simp add: mqtt_inbound_def)

text \<open>a packet of 2 MB or more has a length of four bytes, which is refused: no later read of the
  connection gives the plugin a message or ends the connection.\<close>

theorem long_packet_blocks:
  assumes "m_bErrored st = False" "m_Retained st = h # encode_length n @ t" "2 ^ 21 \<le> n"
  shows "deliveries mqtt_inbound st cs = Some ([], st\<lparr>m_Retained := m_Retained st @ concat cs\<rparr>)"
  using assms
proof (induction cs arbitrary: st t)
  case (Cons c cs)
  then show ?case
    using Cons.IH [of "st\<lparr>m_Retained := m_Retained st @ c\<rparr>" "t @ c"] by (simp add: mqtt_malformed)
qed simp

theorem long_packet_blocks_witness:
  "deliveries mqtt_inbound (CPluginProtocolMQTT\<lparr>m_Retained := mqtt_byte 48 # encode_length (2 ^ 21) @ ''a''\<rparr>) [''b'', ''c''] =
     Some ([], CPluginProtocolMQTT\<lparr>m_Retained := (mqtt_byte 48 # encode_length (2 ^ 21) @ ''a'') @ ''bc''\<rparr>)"
  by (subst long_packet_blocks [where n = "2 ^ 21" and h = "mqtt_byte 48" and t = "''a''"])
    (simp_all add: CPluginProtocolMQTT_def)

section \<open>Errors\<close>

lemma mqtt_loop_events:
  "mqtt_loop s = Some (es, e, r) \<Longrightarrow> \<exists>ds. es = map Message ds @ (if e then [Disconnected] else [])"
proof (induction s arbitrary: es e r rule: mqtt_loop.induct)
  case (2 h s)
  from "2.prems" show ?case
  proof (cases "remaining_length 0 1 s")
    case (Length n t)
    show ?thesis
    proof (cases "mqtt_packet (byte_nat h) n t")
      case (Some p)
      show ?thesis
      proof (cases p)
        case (Some d)
        show ?thesis
        proof (cases "n > length t \<or> drop n t = []")
          case False
          with "2.prems" Length \<open>mqtt_packet (byte_nat h) n t = Some p\<close> Some obtain es' where
            "mqtt_loop (drop n t) = Some (es', e, r)" "es = Message d # es'" by auto
          with "2.IH" [OF Length _ \<open>mqtt_packet (byte_nat h) n t = Some p\<close> Some] False obtain ds where
            "es = map Message (d # ds) @ (if e then [Disconnected] else [])" by auto
          then show ?thesis by blast
        next
          case True
          with "2.prems" Length Some \<open>mqtt_packet (byte_nat h) n t = Some p\<close> have
            "es = map Message (if n > length t then [] else [d]) \<and> \<not> e" by (auto split: if_splits)
          then show ?thesis by (metis append_Nil2)
        qed
      qed (use "2.prems" Length Some in \<open>auto split: if_splits\<close>)
    qed (use "2.prems" Length in \<open>auto split: if_splits\<close>)
  qed auto
qed simp

lemma mqtt_errored: "m_bErrored st \<Longrightarrow> deliveries mqtt_inbound st cs = Some ([], st)"
  by (induction cs) (simp_all add: mqtt_inbound_def)

text \<open>whatever a broker sends, the plugin gets messages and then at most one disconnection, exactly
  when the protocol is in its error state.\<close>

theorem one_disconnect:
  assumes "deliveries mqtt_inbound st cs = Some (es, st')" "m_bErrored st = False"
  shows "\<exists>ds. es = map Message ds @ (if m_bErrored st' then [Disconnected] else [])"
  using assms
proof (induction cs arbitrary: st es)
  case (Cons c cs)
  from Cons.prems obtain es1 e r where l: "mqtt_loop (m_Retained st @ c) = Some (es1, e, r)"
    by (cases "mqtt_loop (m_Retained st @ c)") (auto simp: mqtt_inbound_def)
  then have i: "mqtt_inbound st c = Some (es1, st\<lparr>m_bErrored := e, m_Retained := r\<rparr>)"
    using Cons.prems(2) by (simp add: mqtt_inbound_def)
  with Cons.prems(1) obtain es2 where es: "es = es1 @ es2"
    and d: "deliveries mqtt_inbound (st\<lparr>m_bErrored := e, m_Retained := r\<rparr>) cs = Some (es2, st')"
    by auto
  from mqtt_loop_events [OF l] obtain ds where ds: "es1 = map Message ds @ (if e then [Disconnected] else [])" by blast
  show ?case
  proof (cases e)
    case True
    with mqtt_errored d have "es2 = [] \<and> m_bErrored st'" by fastforce
    with True ds es show ?thesis by auto
  next
    case False
    with Cons.IH [OF d] obtain ds' where "es2 = map Message ds' @ (if m_bErrored st' then [Disconnected] else [])" by auto
    with False ds es show ?thesis by (intro exI [of _ "ds @ ds'"]) simp
  qed
qed simp

theorem one_disconnect_witness:
  "\<exists>ds. [Message (verb ''PINGRESP''), Disconnected] = map Message ds @ [Disconnected]"
proof -
  have "deliveries mqtt_inbound CPluginProtocolMQTT [[mqtt_byte 0xD0, mqtt_byte 0], [mqtt_byte 0xF0, mqtt_byte 0]] =
      Some ([Message (verb ''PINGRESP''), Disconnected], \<lparr>m_PacketID = 1, m_bErrored = True, m_Retained = []\<rparr>)"
    by (simp add: mqtt_inbound_def CPluginProtocolMQTT_def mqtt_packet_def in_pingresp_def Let_def)
  from one_disconnect [OF this] show ?thesis by (simp add: CPluginProtocolMQTT_def)
qed

text \<open>The type of the packet sent for a PUBREL is reserved, and a refused connection is described by its flags.\<close>

lemma pubrel_reserved:
  "get_long d ''PacketIdentifier'' = Some pid \<Longrightarrow> byte_nat (hd (out_pubrel d)) = 0"
  by (simp add: out_pubrel_def finish_def)

lemma refused_described_accepted:
  "0 < code \<Longrightarrow> code < 256 \<Longrightarrow>
   in_connack 0 2 [mqtt_byte 0, mqtt_byte code] =
     Some (Some [(''Verb'', PStr ''CONNACK''), (''Description'', PStr ''Connection Accepted''),
       (''Status'', PInt (int code))])"
  by (simp add: in_connack_def verb_def connack_text_def AddStringToDict_def AddIntToDict_def dict_set_def)

end
