(* ===== verification/PluginHttp.thy ===== *)
theory PluginHttp
  imports PluginText Base64 WebPath
begin

text \<open>
  The HTTP protocol of \<^verbatim>\<open>hardware/plugins/PluginProtocols.cpp\<close>: requests and responses of a
  connection become dictionaries for the plugin and back.  All the data since the last message is
  kept and parsed again on every read.

  A run of the code gives \<^const>\<open>None\<close> when it does not return, \<^const>\<open>Inl\<close> when \<^verbatim>\<open>substr\<close> throws and
  \<^const>\<open>Inr\<close> a result otherwise.
\<close>

datatype exception = out_of_range

record http =
  m_Status :: string
  m_ContentLength :: int
  m_Headers :: "dict option"
  m_Chunked :: bool
  m_RemainingChunk :: nat
  m_JSON :: bool
  m_Data :: string

definition CPluginProtocolHTTP :: http where
  "CPluginProtocolHTTP = \<lparr>m_Status = [], m_ContentLength = 0, m_Headers = None, m_Chunked = False,
     m_RemainingChunk = 0, m_JSON = False, m_Data = []\<rparr>"

section \<open>Text\<close>

text \<open>\<^verbatim>\<open>s.substr(0, s.find_first_of(c))\<close> and \<^verbatim>\<open>s.substr(s.find_first_of(c) + 1)\<close>: \<^verbatim>\<open>npos\<close> takes all.\<close>

definition upto :: "char \<Rightarrow> string \<Rightarrow> string" where
  "upto c s = takeWhile (\<lambda>x. x \<noteq> c) s"

definition after :: "char \<Rightarrow> string \<Rightarrow> string" where
  "after c s = (case split_at_char c s of Some (_, t) \<Rightarrow> t | None \<Rightarrow> s)"

text \<open>\<^verbatim>\<open>s.substr(0, s.find_last_of(c))\<close>.\<close>

definition upto_last :: "char \<Rightarrow> string \<Rightarrow> string" where
  "upto_last c s = (if c \<in> set s then rev (tl (dropWhile (\<lambda>x. x \<noteq> c) (rev s))) else s)"

text \<open>\<^verbatim>\<open>toupper\<close> in the C locale.\<close>

definition to_upper :: "char \<Rightarrow> char" where
  "to_upper c = (let n = of_char c :: nat in if 97 \<le> n \<and> n \<le> 122 then char_of (n - 32) else c)"

definition stdupper :: "string \<Rightarrow> string" where
  "stdupper s = map to_upper s"

definition strtol16 :: "string \<Rightarrow> int" where
  "strtol16 s = (case scan_hex s of None \<Rightarrow> 0 | Some v \<Rightarrow> clamp64 v)"

definition hex_lower :: "nat \<Rightarrow> char" where
  "hex_lower d = (if d < 10 then char_of (48 + d) else char_of (87 + d))"

fun to_hex :: "nat \<Rightarrow> string" where
  "to_hex n = (if n < 16 then [hex_lower n] else to_hex (n div 16) @ [hex_lower (n mod 16)])"

declare to_hex.simps [simp del]

section \<open>Headers\<close>

text \<open>
  The name and the text of the first line; \<^const>\<open>None\<close> is the exception when the text would start past
  its end.  Without a colon the name is all the data.
\<close>

definition split_header :: "string \<Rightarrow> (string \<times> string) option" where
  "split_header s =
     (let line = upto CR s;
          name = (if CHR '':'' \<in> set line then upto (CHR '':'') line else s) in
      if length name + 2 \<le> length line then Some (name, drop (length name + 2) line) else None)"

text \<open>A header that comes again turns its value into a list.\<close>

definition add_value :: "string \<Rightarrow> string \<Rightarrow> dict \<Rightarrow> dict" where
  "add_value name text d =
     (case map_of d name of
        None \<Rightarrow> dict_set name (PStr text) d
      | Some (PList vs) \<Rightarrow> dict_set name (PList (vs @ [PStr text])) d
      | Some v \<Rightarrow> dict_set name (PList [v, PStr text]) d)"

definition json_header :: "string \<Rightarrow> string \<Rightarrow> bool" where
  "json_header name text \<longleftrightarrow> stdupper name = ''CONTENT-TYPE'' \<and> contains text ''application/json''"

definition take_header :: "string \<Rightarrow> string \<Rightarrow> http \<Rightarrow> http" where
  "take_header name text st =
     (let u = stdupper name;
          st1 =
            (if u = ''CONTENT-LENGTH'' then st\<lparr>m_ContentLength := atoi text\<rparr>
             else if u = ''TRANSFER-ENCODING'' then
               (if stdupper text = ''CHUNKED'' then st\<lparr>m_Chunked := True\<rparr> else st)
             else if json_header name text then st\<lparr>m_JSON := True\<rparr> else st) in
      st1\<lparr>m_Headers := map_option (add_value (c_string name) (c_string text)) (m_Headers st1)\<rparr>)"

text \<open>
  The loop drops a line with \<open>after LF\<close>, which keeps a line that has no line feed yet: the same line is
  then taken again without end.
\<close>

partial_function (option) header_loop :: "http \<Rightarrow> string \<Rightarrow> (exception + http \<times> string) option" where
  "header_loop st s =
     (if s = [] \<or> hd s = CR then Some (Inr (st, s))
      else
        (case split_header s of
           None \<Rightarrow> Some (Inl out_of_range)
         | Some nt \<Rightarrow> header_loop (take_header (fst nt) (snd nt) st) (after LF s)))"

definition ExtractHeaders :: "http \<Rightarrow> string \<Rightarrow> (exception + http \<times> string) option" where
  "ExtractHeaders st s = header_loop (st\<lparr>m_Headers := Some []\<rparr>) (after LF s)"

section \<open>Inbound\<close>

definition with_headers :: "http \<Rightarrow> dict \<Rightarrow> dict" where
  "with_headers st d = (case m_Headers st of Some hs \<Rightarrow> dict_set ''Headers'' (PDict hs) d | None \<Rightarrow> d)"

definition with_data :: "string \<Rightarrow> dict \<Rightarrow> dict" where
  "with_data payload d = (if payload \<noteq> [] then dict_set ''Data'' (PBytes payload) d else d)"

definition status_dict :: "http \<Rightarrow> dict" where
  "status_dict st = with_headers st (dict_set ''Status'' (PStr (c_string (m_Status st))) [])"

text \<open>What every delivery does to the state.\<close>

definition delivered :: "http \<Rightarrow> http" where
  "delivered st = st\<lparr>m_Headers := None, m_Data := []\<rparr>"

text \<open>\<open>loads\<close> is \<^verbatim>\<open>JSONtoPython\<close> of a text, \<open>closing\<close> that the read has no data.\<close>

definition whole_body :: "(string \<Rightarrow> py) \<Rightarrow> bool \<Rightarrow> http \<Rightarrow> string \<Rightarrow> message list \<times> http" where
  "whole_body loads closing st body =
     (if m_ContentLength st = int (length body) \<or> closing then
        ([Object (PDict
            (if body \<noteq> [] \<and> m_JSON st then dict_set ''Data'' (loads body) (status_dict st)
             else with_data body (status_dict st)))], delivered st)
      else ([], st))"

text \<open>At the start of a chunk its length is read.\<close>

definition chunk_start :: "http \<Rightarrow> string \<Rightarrow> http \<times> string" where
  "chunk_start st s =
     (if m_RemainingChunk st = 0 then
        let s1 = (if hd s = CR then after LF s else s) in
        (st\<lparr>m_RemainingChunk := nat (strtol16 (upto CR s1) mod 2 ^ 64)\<rparr>, after LF s1)
      else (st, s))"

function chunk_loop :: "http \<Rightarrow> string \<Rightarrow> string \<Rightarrow> message list \<times> http" where
  "chunk_loop st payload s =
     (if s = [] \<or> s = [CR, LF] then ([], st)
      else
        (case chunk_start st s of
           (st1, t) \<Rightarrow>
             if m_RemainingChunk st1 = 0 then
               ([Object (PDict (with_data payload (status_dict st1)))], delivered st1)
             else if length t \<le> m_RemainingChunk st1 then ([], st1)
             else chunk_loop (st1\<lparr>m_RemainingChunk := 0\<rparr>)
                    (payload @ take (m_RemainingChunk st1) t) (drop (m_RemainingChunk st1) t)))"
  by pat_completeness auto

lemma after_length: "length (after c s) \<le> length s"
  by (auto simp: after_def dest: split_at_char_length split: option.splits prod.splits intro: less_imp_le)

lemma chunk_start_length: "chunk_start st s = (st1, t) \<Longrightarrow> length t \<le> length s"
  using after_length [of LF s] after_length [of LF "after LF s"]
  by (auto simp: chunk_start_def Let_def split: if_splits)

termination chunk_loop
proof (relation "measure (\<lambda>(st, payload, s). length s)")
  fix st st1 :: http and payload s t
  assume "(st1, t) = chunk_start st s"
    and r: "m_RemainingChunk st1 \<noteq> 0" "\<not> length t \<le> m_RemainingChunk st1"
  then have "length t \<le> length s" by (metis chunk_start_length)
  with r show "((st1\<lparr>m_RemainingChunk := 0\<rparr>, payload @ take (m_RemainingChunk st1) t,
      drop (m_RemainingChunk st1) t), st, payload, s) \<in> measure (\<lambda>(st, payload, s). length s)"
    by simp
qed simp

declare chunk_loop.simps [simp del]

definition response_status :: "string \<Rightarrow> string" where
  "response_status s = upto (CHR '' '') (after (CHR '' '') (upto CR s))"

text \<open>After the headers; without data the end of the headers has not arrived.\<close>

definition response_body :: "(string \<Rightarrow> py) \<Rightarrow> bool \<Rightarrow> http \<Rightarrow> string \<Rightarrow> message list \<times> http" where
  "response_body loads closing st t =
     (if t = [] \<or> m_Status st = [] then ([], st)
      else if \<not> m_Chunked st then whole_body loads closing st (after LF t)
      else chunk_loop st [] (after LF t))"

definition inbound_response :: "(string \<Rightarrow> py) \<Rightarrow> bool \<Rightarrow> http \<Rightarrow> string \<Rightarrow>
    (exception + message list \<times> http) option" where
  "inbound_response loads closing st s =
     map_option (\<lambda>r. bind_res r (\<lambda>(st1, t). Inr (response_body loads closing st1 t)))
       (ExtractHeaders (st\<lparr>m_Status := response_status s\<rparr>) s)"

text \<open>
  The second argument of \<^verbatim>\<open>substr\<close> for the URL is the place of the next space, not a length.
\<close>

definition request_url :: "string \<Rightarrow> string \<Rightarrow> string option" where
  "request_url line verb =
     (if length verb + 1 \<le> length line then
        Some (case str_find '' '' line (length verb + 1) of
                Some i \<Rightarrow> substr line (length verb + 1) i
              | None \<Rightarrow> drop (length verb + 1) line)
      else None)"

definition inbound_request :: "bool \<Rightarrow> http \<Rightarrow> string \<Rightarrow> (exception + message list \<times> http) option" where
  "inbound_request closing st s =
     map_option (\<lambda>r. bind_res r (\<lambda>(st1, t).
         let line = upto_last (CHR '' '') (upto CR s); payload = drop 2 t; v = upto (CHR '' '') line in
         if take 2 t = [CR, LF] \<and>
            (m_ContentLength st1 = - 1 \<or> m_ContentLength st1 = int (length payload) \<or> closing) then
           (case request_url line v of
              None \<Rightarrow> Inl out_of_range
            | Some url \<Rightarrow>
                Inr ([Object (PDict (with_data payload (with_headers st1
                  (dict_set ''URL'' (PStr (c_string url)) (dict_set ''Verb'' (PStr (c_string v)) [])))))],
                  delivered st1))
         else Inr ([], st1)))
       (ExtractHeaders st s)"

definition http_inbound :: "(string \<Rightarrow> py) \<Rightarrow> http \<Rightarrow> string \<Rightarrow> (exception + message list \<times> http) option" where
  "http_inbound loads st buf =
     (let st1 = st\<lparr>m_Data := m_Data st @ buf, m_ContentLength := - 1, m_Chunked := False,
                   m_RemainingChunk := 0\<rparr> in
      if take 4 (m_Data st1) = ''HTTP'' then inbound_response loads (buf = []) st1 (m_Data st1)
      else inbound_request (buf = []) st1 (m_Data st1))"

definition http_Flush :: "(string \<Rightarrow> py) \<Rightarrow> http \<Rightarrow> (exception + message list \<times> http) option" where
  "http_Flush loads st =
     (if m_Data st \<noteq> [] then
        map_option (\<lambda>r. bind_res r (\<lambda>(ms, st'). Inr (ms, st'\<lparr>m_Data := []\<rparr>))) (http_inbound loads st [])
      else Some (Inr ([], st)))"

section \<open>Outbound\<close>

definition CRLF :: string where "CRLF = [CR, LF]"

definition header_text :: "string \<Rightarrow> string \<Rightarrow> string" where
  "header_text k v = k @ '': '' @ v @ CRLF"

fun value_text :: "py \<Rightarrow> string option" where
  "value_text (PStr s) = Some (c_string s)"
| "value_text (PBytes s) = Some (c_string s)"
| "value_text (PByteArray s) = Some (c_string s)"
| "value_text _ = None"

definition header_entry :: "string \<Rightarrow> py \<Rightarrow> string" where
  "header_entry k v =
     (case v of
        PList vs \<Rightarrow> concat (map (\<lambda>x. case value_text x of Some t \<Rightarrow> header_text (c_string k) t | None \<Rightarrow> []) vs)
      | _ \<Rightarrow> (case value_text v of Some t \<Rightarrow> header_text (c_string k) t | None \<Rightarrow> []))"

text \<open>\<^verbatim>\<open>PyDict_GetItemString(brHeaders, k)\<close> finds nothing in an object that is no dictionary.\<close>

definition has_header :: "dict \<Rightarrow> string \<Rightarrow> bool" where
  "has_header d k \<longleftrightarrow> (case map_of d ''Headers'' of Some (PDict hs) \<Rightarrow> map_of hs k \<noteq> None | _ \<Rightarrow> False)"

definition auth_header :: "string \<Rightarrow> string \<Rightarrow> string" where
  "auth_header user pass =
     (if user \<noteq> [] \<or> pass \<noteq> [] then
        ''Authorization:Basic '' @ base64_encode (string_bytes (user @ '':'' @ pass)) @ CRLF
      else [])"

definition request_preamble :: "string \<Rightarrow> string \<Rightarrow> dict \<Rightarrow> string \<Rightarrow> string" where
  "request_preamble user pass d v =
     stdupper (c_string v) @ '' '' @ (case get_str d ''URL'' of Some u \<Rightarrow> u | None \<Rightarrow> ''/'') @ '' HTTP/1.1'' @ CRLF @
     (if has_header d ''Authorization:Basic'' then [] else auth_header user pass) @
     (if has_header d ''User-Agent'' then [] else header_text ''User-Agent'' ''Domoticz/1.0'')"

text \<open>\<open>date\<close> is the time that \<^verbatim>\<open>strftime\<close> writes.\<close>

definition response_preamble :: "string \<Rightarrow> dict \<Rightarrow> string \<Rightarrow> string" where
  "response_preamble date d status =
     ''HTTP/1.1 '' @ c_string status @ CRLF @
     (if has_header d ''Date'' then [] else header_text ''Date'' date) @
     (if has_header d ''Server'' then [] else header_text ''Server'' ''Domoticz/1.0'')"

text \<open>The length of a string is counted in characters.\<close>

definition data_length :: "py \<Rightarrow> nat" where
  "data_length v = (case v of PStr s \<Rightarrow> code_points s | PByteArray s \<Rightarrow> length s | PBytes s \<Rightarrow> length s | _ \<Rightarrow> 0)"

definition data_text :: "py option \<Rightarrow> string" where
  "data_text v =
     (case v of Some (PStr s) \<Rightarrow> c_string s | Some (PByteArray s) \<Rightarrow> s | Some (PBytes s) \<Rightarrow> s | _ \<Rightarrow> [])"

definition supplied_headers :: "dict \<Rightarrow> string" where
  "supplied_headers d =
     (case map_of d ''Headers'' of Some (PDict hs) \<Rightarrow> concat (map (\<lambda>(k, v). header_entry k v) hs) | _ \<Rightarrow> [])"

definition end_of_headers :: "dict \<Rightarrow> string" where
  "end_of_headers d =
     (let chunk = map_of d ''Chunk'' \<noteq> None in
      supplied_headers d @
      (case map_of d ''Data'' of
         Some v \<Rightarrow>
           if \<not> has_header d ''Content-Length'' \<and> \<not> chunk
           then header_text ''Content-Length'' (nat_to_string (data_length v)) else []
       | None \<Rightarrow> []) @
      (if chunk \<and> \<not> has_header d ''Transfer-Encoding'' then header_text ''Transfer-Encoding'' ''chunked'' else []) @
      CRLF)"

definition body_text :: "dict \<Rightarrow> string" where
  "body_text d =
     (let chunk = map_of d ''Chunk'' \<noteq> None; v = map_of d ''Data'' in
      (if chunk then to_hex (case v of Some x \<Rightarrow> data_length x | None \<Rightarrow> 0) @ CRLF else []) @
      data_text v @
      (if chunk then CRLF else []))"

definition http_outbound :: "string \<Rightarrow> string \<Rightarrow> string \<Rightarrow> dict option \<Rightarrow> string" where
  "http_outbound user pass date object =
     (case object of
        None \<Rightarrow> []
      | Some d \<Rightarrow>
          (case map_of d ''Verb'' of
             Some (PStr v) \<Rightarrow> request_preamble user pass d v @ end_of_headers d @ body_text d
           | Some _ \<Rightarrow> []
           | None \<Rightarrow>
               (case map_of d ''Status'' of
                  Some (PStr s) \<Rightarrow> response_preamble date d s @ end_of_headers d @ body_text d
                | Some _ \<Rightarrow> []
                | None \<Rightarrow> if map_of d ''Chunk'' \<noteq> None then body_text d else [])))"

section \<open>Lines of a header\<close>

definition plain :: "string \<Rightarrow> bool" where
  "plain s \<longleftrightarrow> CR \<notin> set s \<and> LF \<notin> set s \<and> CHR 0x00 \<notin> set s"

definition plain_name :: "string \<Rightarrow> bool" where
  "plain_name k \<longleftrightarrow> plain k \<and> k \<noteq> [] \<and> CHR '':'' \<notin> set k"

definition plain_header :: "string \<times> string \<Rightarrow> bool" where
  "plain_header h \<longleftrightarrow> plain_name (fst h) \<and> plain (snd h)"

definition header_lines :: "(string \<times> string) list \<Rightarrow> string" where
  "header_lines hs = concat (map (\<lambda>(k, v). header_text k v) hs)"

lemma header_lines_simps [simp]:
  "header_lines [] = []" "header_lines ((k, v) # hs) = header_text k v @ header_lines hs"
  "header_lines (hs @ hs') = header_lines hs @ header_lines hs'"
  by (simp_all add: header_lines_def)

lemma c_string_plain [simp]: "plain s \<Longrightarrow> c_string s = s"
  by (auto simp: plain_def c_string_def takeWhile_eq_all_conv)

lemma upto_append [simp]: "c \<notin> set a \<Longrightarrow> upto c (a @ c # t) = a"
  by (induction a) (auto simp: upto_def)

lemma upto_none: "c \<notin> set a \<Longrightarrow> upto c a = a"
  by (auto simp: upto_def takeWhile_eq_all_conv)

lemma after_append [simp]: "c \<notin> set a \<Longrightarrow> after c (a @ c # t) = t"
  by (simp add: after_def split_at_char_append)

lemma after_none: "c \<notin> set a \<Longrightarrow> after c a = a"
  by (simp add: after_def split_at_char_None)

lemma split_header_text:
  assumes "plain_name k" "plain v"
  shows "split_header (header_text k v @ t) = Some (k, v)" "after LF (header_text k v @ t) = t"
proof -
  have s: "header_text k v @ t = (k @ '': '' @ v) @ CR # (LF # t)" by (simp add: header_text_def CRLF_def)
  have u: "upto CR (header_text k v @ t) = k @ '': '' @ v"
    unfolding s using assms by (intro upto_append) (auto simp: plain_def plain_name_def)
  moreover have "upto (CHR '':'') (k @ CHR '':'' # CHR '' '' # v) = k"
    using assms by (intro upto_append) (auto simp: plain_name_def)
  ultimately show "split_header (header_text k v @ t) = Some (k, v)" by (simp add: split_header_def)
  have "header_text k v @ t = (k @ '': '' @ v @ [CR]) @ LF # t" by (simp add: header_text_def CRLF_def)
  then show "after LF (header_text k v @ t) = t"
    using assms by (simp only:) (intro after_append, auto simp: plain_def plain_name_def)
qed

lemma header_text_start: "plain_name k \<Longrightarrow> header_text k v \<noteq> [] \<and> hd (header_text k v) \<noteq> CR"
  by (cases k) (auto simp: header_text_def plain_name_def plain_def)

lemma header_loop_line:
  assumes "plain_name k" "plain v"
  shows "header_loop st (header_text k v @ t) = header_loop (take_header k v st) t"
  using split_header_text [OF assms, of t] header_text_start [OF assms(1), of v] by (subst header_loop.simps) simp

lemma header_loop_lines:
  "list_all plain_header hs \<Longrightarrow>
   header_loop st (header_lines hs @ t) = header_loop (fold (\<lambda>(k, v). take_header k v) hs st) t"
proof (induction hs arbitrary: st)
  case (Cons h hs)
  then show ?case by (cases h) (simp add: header_loop_line plain_header_def)
qed simp

lemma header_loop_end: "header_loop st (CR # t) = Some (Inr (st, CR # t))" "header_loop st [] = Some (Inr (st, []))"
  by (simp_all add: header_loop.simps)

text \<open>A line that is not complete is taken again and again.\<close>

lemma header_loop_stuck:
  assumes "s \<noteq> []" "hd s \<noteq> CR" "LF \<notin> set s" "split_header s \<noteq> None"
  shows "header_loop st s = None"
proof -
  have key: "s \<noteq> [] \<and> hd s \<noteq> CR \<and> LF \<notin> set s \<and> split_header s \<noteq> None \<longrightarrow> False"
    if "header_loop st s = Some y" for st s y
  proof (rule header_loop.raw_induct [where P = "\<lambda>st s y. s \<noteq> [] \<and> hd s \<noteq> CR \<and> LF \<notin> set s \<and> split_header s \<noteq> None \<longrightarrow> False",
        OF _ that])
    fix f :: "http \<Rightarrow> string \<Rightarrow> (exception + http \<times> string) option" and st s y
    assume ih: "\<And>st s y. f st s = Some y \<Longrightarrow> s \<noteq> [] \<and> hd s \<noteq> CR \<and> LF \<notin> set s \<and> split_header s \<noteq> None \<longrightarrow> False"
      and b: "(if s = [] \<or> hd s = CR then Some (Inr (st, s))
        else case split_header s of None \<Rightarrow> Some (Inl out_of_range)
           | Some nt \<Rightarrow> f (take_header (fst nt) (snd nt) st) (after LF s)) = Some y"
    show "s \<noteq> [] \<and> hd s \<noteq> CR \<and> LF \<notin> set s \<and> split_header s \<noteq> None \<longrightarrow> False"
    proof
      assume a: "s \<noteq> [] \<and> hd s \<noteq> CR \<and> LF \<notin> set s \<and> split_header s \<noteq> None"
      then obtain nt where "split_header s = Some nt" by auto
      with a b have "f (take_header (fst nt) (snd nt) st) s = Some y" by (simp add: after_none)
      with ih a show False by blast
    qed
  qed
  show ?thesis
  proof (cases "header_loop st s")
    case (Some y)
    with key [OF this] assms show ?thesis by blast
  qed simp
qed

text \<open>when a read ends inside the text of a header line, or between its carriage return and
  its line feed, the protocol never returns.\<close>

theorem incomplete_header_hangs:
  assumes "m_Data st @ buf = first @ LF # header_lines hs @ s" "LF \<notin> set first"
    and "list_all plain_header hs"
    and "plain_name k" "plain v" "s = k @ '': '' @ v \<or> s = k @ '': '' @ v @ [CR]"
  shows "http_inbound loads st buf = None"
proof -
  have "split_header s \<noteq> None"
  proof -
    have "upto CR s = k @ '': '' @ v"
    proof (rule disjE [OF assms(6)])
      assume "s = k @ '': '' @ v @ [CR]"
      then have "s = (k @ '': '' @ v) @ CR # []" by simp
      with assms(4,5) show ?thesis by (simp only:) (intro upto_append, auto simp: plain_def plain_name_def)
    qed (use assms(4,5) in \<open>auto intro!: upto_none simp: plain_def plain_name_def\<close>)
    moreover have "upto (CHR '':'') (k @ CHR '':'' # CHR '' '' # v) = k"
      using assms(4) by (intro upto_append) (auto simp: plain_name_def)
    ultimately show ?thesis by (simp add: split_header_def)
  qed
  moreover have "s \<noteq> []" "hd s \<noteq> CR" "LF \<notin> set s"
    using assms(4-6) by (cases k; auto simp: plain_name_def plain_def)+
  ultimately have "header_loop st' s = None" for st' by (intro header_loop_stuck)
  then have "ExtractHeaders st' (m_Data st @ buf) = None" for st'
    using assms(1-3) by (simp add: ExtractHeaders_def header_loop_lines)
  then show ?thesis by (simp add: http_inbound_def inbound_response_def inbound_request_def Let_def)
qed

theorem incomplete_header_hangs_witness:
  "http_inbound (\<lambda>s. PNone) CPluginProtocolHTTP (''HTTP/1.1 200 OK'' @ CRLF @ ''Content-Type: text/pl'') = None"
  by (rule incomplete_header_hangs [where first = "''HTTP/1.1 200 OK'' @ [CR]" and hs = "[]" and k = "''Content-Type''"
        and v = "''text/pl''" and s = "''Content-Type: text/pl''"])
    (simp_all add: CPluginProtocolHTTP_def CRLF_def plain_name_def plain_def)

section \<open>The state after the headers\<close>

definition special_name :: "string \<Rightarrow> bool" where
  "special_name k \<longleftrightarrow> stdupper k \<in> {''CONTENT-LENGTH'', ''TRANSFER-ENCODING''}"

lemma take_headers_plain:
  "list_all plain_header hs \<Longrightarrow> list_all (\<lambda>(k, v). \<not> special_name k) hs \<Longrightarrow>
   fold (\<lambda>(k, v). take_header k v) hs st =
     st\<lparr>m_JSON := m_JSON st \<or> list_ex (\<lambda>(k, v). json_header k v) hs,
        m_Headers := map_option (fold (\<lambda>(k, v). add_value k v) hs) (m_Headers st)\<rparr>"
proof (induction hs arbitrary: st)
  case Nil
  then show ?case by (cases "m_Headers st") simp_all
next
  case (Cons h hs)
  obtain k v where h: "h = (k, v)" by (cases h)
  with Cons.prems have p: "plain k" "plain v" "\<not> special_name k" by (auto simp: plain_header_def plain_name_def)
  then have "take_header k v st =
      st\<lparr>m_JSON := m_JSON st \<or> json_header k v, m_Headers := map_option (add_value k v) (m_Headers st)\<rparr>"
    by (simp add: take_header_def special_name_def Let_def)
  with Cons h show ?case by (simp add: option.map_comp comp_def disj_assoc)
qed

lemma dict_set_fresh: "k \<notin> fst ` set d \<Longrightarrow> dict_set k v d = d @ [(k, v)]"
  unfolding dict_set_def by (induction d) auto

lemma add_values_fresh:
  "distinct (map fst d @ map fst hs) \<Longrightarrow>
   fold (\<lambda>(k, v). add_value k v) hs d = d @ map (\<lambda>(k, v). (k, PStr v)) hs"
proof (induction hs arbitrary: d)
  case (Cons h hs)
  obtain k v where h: "h = (k, v)" by (cases h)
  with Cons.prems have k: "k \<notin> fst ` set d" by auto
  then have "map_of d k = None" by (simp add: map_of_eq_None_iff)
  with Cons h k show ?case by (simp add: add_value_def dict_set_fresh)
qed simp

text \<open>The headers end at the empty line.\<close>

lemma ExtractHeaders_lines:
  assumes "LF \<notin> set first" "list_all plain_header hs"
  shows "ExtractHeaders st (first @ LF # header_lines hs @ CRLF @ body) =
    Some (Inr (fold (\<lambda>(k, v). take_header k v) hs (st\<lparr>m_Headers := Some []\<rparr>), CRLF @ body))"
  using assms by (simp add: ExtractHeaders_def header_loop_lines CRLF_def header_loop_end)

section \<open>Responses there and back\<close>

text \<open>What a plugin that answers with bytes gives.\<close>

definition answer :: "string \<Rightarrow> (string \<times> string) list \<Rightarrow> py \<Rightarrow> dict" where
  "answer status hs v =
     [(''Status'', PStr status), (''Headers'', PDict (map (\<lambda>(k, v). (k, PStr v)) hs)), (''Data'', v)]"

text \<open>Headers a plugin may give that the protocol does not write itself.\<close>

definition own_headers :: "(string \<times> string) list \<Rightarrow> bool" where
  "own_headers hs \<longleftrightarrow> list_all plain_header hs \<and> list_all (\<lambda>(k, v). \<not> special_name k) hs \<and>
     distinct (map fst hs) \<and> ''Date'' \<notin> set (map fst hs) \<and> ''Server'' \<notin> set (map fst hs)"

definition sent_headers :: "string \<Rightarrow> (string \<times> string) list \<Rightarrow> (string \<times> string) list" where
  "sent_headers date hs = (''Date'', date) # (''Server'', ''Domoticz/1.0'') # hs"

lemma stdupper_names:
  "stdupper ''Date'' = ''DATE''" "stdupper ''Server'' = ''SERVER''"
  "stdupper ''Content-Length'' = ''CONTENT-LENGTH''" "stdupper ''Transfer-Encoding'' = ''TRANSFER-ENCODING''"
  "stdupper ''chunked'' = ''CHUNKED''"
  by code_simp+

lemma own_headers_sent:
  assumes "own_headers hs" "plain date"
  shows "list_all plain_header (sent_headers date hs)" "list_all (\<lambda>(k, v). \<not> special_name k) (sent_headers date hs)"
    "distinct (map fst (sent_headers date hs))"
    "list_ex (\<lambda>(k, v). json_header k v) (sent_headers date hs) = list_ex (\<lambda>(k, v). json_header k v) hs"
  using assms
  by (auto simp: own_headers_def sent_headers_def plain_header_def plain_name_def plain_def special_name_def
      stdupper_names json_header_def)

lemma own_headers_text:
  assumes "own_headers hs"
  shows "concat (map (\<lambda>(k, v). header_entry k v) (map (\<lambda>(k, v). (k, PStr v)) hs)) = header_lines hs"
proof -
  have "list_all plain_header hs \<Longrightarrow> ?thesis"
    by (induction hs) (auto simp: header_entry_def plain_header_def plain_name_def)
  with assms show ?thesis by (simp add: own_headers_def)
qed

lemma own_headers_absent:
  assumes "own_headers hs" "k \<in> {''Date'', ''Server'', ''Content-Length'', ''Transfer-Encoding''}"
  shows "map_of (map (\<lambda>(k, v). (k, PStr v)) hs) k = None"
proof -
  have "k \<notin> set (map fst hs)"
  proof
    assume "k \<in> set (map fst hs)"
    then obtain v where "(k, v) \<in> set hs" by auto
    with assms(1) have "\<not> special_name k" by (auto simp: own_headers_def list_all_iff)
    moreover have "k \<noteq> ''Date''" "k \<noteq> ''Server''"
      using assms(1) \<open>k \<in> set (map fst hs)\<close> unfolding own_headers_def by blast+
    ultimately show False using assms(2) by (auto simp: special_name_def stdupper_names)
  qed
  moreover have "fst ` set (map (\<lambda>(k, v). (k, PStr v)) hs) = fst ` set hs" by (force simp: image_iff)
  ultimately show ?thesis by (simp add: map_of_eq_None_iff)
qed

definition response_line :: "string \<Rightarrow> string" where
  "response_line status = ''HTTP/1.1 '' @ status @ [CR]"

lemma answer_text:
  assumes "own_headers hs" "plain status" "case v of PStr _ \<Rightarrow> True | PBytes _ \<Rightarrow> True | PByteArray _ \<Rightarrow> True | _ \<Rightarrow> False"
  shows "http_outbound user pass date (Some (answer status hs v)) =
    response_line status @ LF # header_lines (sent_headers date hs @ [(''Content-Length'', nat_to_string (data_length v))]) @
    CRLF @ data_text (Some v)"
  using assms own_headers_absent [OF assms(1)]
  by (simp add: http_outbound_def answer_def response_preamble_def end_of_headers_def body_text_def
      has_header_def supplied_headers_def own_headers_text sent_headers_def response_line_def CRLF_def
      del: map_map split: py.splits)

lemma digits_plain: "plain (nat_to_string n)"
  using nat_to_string_digits [of n] by (auto simp: plain_def list_all_iff is_digit_char_def)

lemma content_length_header:
  "n < 2 ^ 31 \<Longrightarrow> m_Headers st = Some d \<Longrightarrow>
   take_header ''Content-Length'' (nat_to_string n) st =
     st\<lparr>m_ContentLength := int n, m_Headers := Some (add_value ''Content-Length'' (nat_to_string n) d)\<rparr>"
  using atoi_int_to_string [of "int n"] digits_plain [of n]
  by (simp add: take_header_def stdupper_names int_to_string_def plain_def)

lemma content_length_plain: "plain_header (''Content-Length'', nat_to_string n)"
  by (simp add: plain_header_def plain_name_def digits_plain) (simp add: plain_def)

definition answered_headers :: "string \<Rightarrow> (string \<times> string) list \<Rightarrow> py \<Rightarrow> dict" where
  "answered_headers date hs v =
     map (\<lambda>(k, v). (k, PStr v)) (sent_headers date hs @ [(''Content-Length'', nat_to_string (data_length v))])"

lemma answer_headers:
  assumes "own_headers hs" "plain status" "plain date" "data_length v < 2 ^ 31" "m_Headers st = Some []"
  shows "fold (\<lambda>(k, v). take_header k v) (sent_headers date hs @ [(''Content-Length'', nat_to_string (data_length v))]) st =
    st\<lparr>m_JSON := m_JSON st \<or> list_ex (\<lambda>(k, v). json_header k v) hs, m_ContentLength := int (data_length v),
       m_Headers := Some (answered_headers date hs v)\<rparr>"
proof -
  let ?hs = "sent_headers date hs"
  note o = own_headers_sent [OF assms(1,3)]
  have "''Content-Length'' \<notin> set (map fst ?hs)"
    using o(2) by (fastforce simp: list_all_iff special_name_def stdupper_names)
  then have "fst ` set (map (\<lambda>(k, v). (k, PStr v)) ?hs) \<inter> {''Content-Length''} = {}" by force
  then have "map_of (map (\<lambda>(k, v). (k, PStr v)) ?hs) ''Content-Length'' = None"
    "''Content-Length'' \<notin> fst ` set (map (\<lambda>(k, v). (k, PStr v)) ?hs)" by (auto simp: map_of_eq_None_iff)
  then have "add_value ''Content-Length'' t (map (\<lambda>(k, v). (k, PStr v)) ?hs) =
      map (\<lambda>(k, v). (k, PStr v)) (?hs @ [(''Content-Length'', t)])" for t
    by (simp add: add_value_def dict_set_fresh)
  moreover have "fold (\<lambda>(k, v). add_value k v) ?hs [] = map (\<lambda>(k, v). (k, PStr v)) ?hs"
    using add_values_fresh [of "[]" ?hs] o(3) by simp
  ultimately show ?thesis
    using o assms(4,5) by (simp add: take_headers_plain content_length_header answered_headers_def)
qed

text \<open>A string is only delivered when it has as many characters as bytes.\<close>



section \<open>The JSON flag\<close>

lemma take_header_JSON: "m_JSON st \<Longrightarrow> m_JSON (take_header name text st)"
  by (simp add: take_header_def Let_def)

lemma header_loop_JSON:
  assumes "header_loop st s = Some y"
  shows "m_JSON st \<longrightarrow> (\<forall>st' t. y = Inr (st', t) \<longrightarrow> m_JSON st')"
proof (rule header_loop.raw_induct [OF _ assms, where P = "\<lambda>st s y. m_JSON st \<longrightarrow> (\<forall>st' t. y = Inr (st', t) \<longrightarrow> m_JSON st')"])
  fix f :: "http \<Rightarrow> string \<Rightarrow> (exception + http \<times> string) option" and st s y
  assume ih: "\<And>st s y. f st s = Some y \<Longrightarrow> m_JSON st \<longrightarrow> (\<forall>st' t. y = Inr (st', t) \<longrightarrow> m_JSON st')"
    and b: "(if s = [] \<or> hd s = CR then Some (Inr (st, s))
      else case split_header s of None \<Rightarrow> Some (Inl out_of_range)
         | Some nt \<Rightarrow> f (take_header (fst nt) (snd nt) st) (after LF s)) = Some y"
  show "m_JSON st \<longrightarrow> (\<forall>st' t. y = Inr (st', t) \<longrightarrow> m_JSON st')"
  proof (cases "s = [] \<or> hd s = CR")
    case False
    show ?thesis
    proof (cases "split_header s")
      case (Some nt)
      with b False have "f (take_header (fst nt) (snd nt) st) (after LF s) = Some y" by simp
      with ih take_header_JSON show ?thesis by blast
    qed (use b False in auto)
  qed (use b in auto)
qed

lemma ExtractHeaders_JSON:
  assumes "ExtractHeaders st s = Some (Inr (st', t))" "m_JSON st"
  shows "m_JSON st'"
proof -
  have "header_loop (st\<lparr>m_Headers := Some []\<rparr>) (after LF s) = Some (Inr (st', t))"
    using assms(1) by (simp only: ExtractHeaders_def)
  from header_loop_JSON [OF this] assms(2) show ?thesis by simp
qed

lemma chunk_loop_JSON: "m_JSON (snd (chunk_loop st payload s)) = m_JSON st"
proof (induction st payload s rule: chunk_loop.induct)
  case (1 st payload s)
  obtain st1 t where c: "chunk_start st s = (st1, t)" by (cases "chunk_start st s")
  then have "m_JSON st1 = m_JSON st" by (auto simp: chunk_start_def Let_def split: if_splits)
  with 1 [OF _ c [symmetric]] c show ?case by (subst chunk_loop.simps) (simp add: delivered_def)
qed

text \<open>once a connection has seen a JSON content type, every later message on it is treated as
  JSON, whatever its own type.\<close>

theorem json_flag_stays:
  assumes "http_inbound loads st buf = Some (Inr (ms, st'))" "m_JSON st"
  shows "m_JSON st'"
proof -
  define st0 where "st0 = st\<lparr>m_Data := m_Data st @ buf, m_ContentLength := - 1, m_Chunked := False, m_RemainingChunk := 0\<rparr>"
  have j: "m_JSON st0" using assms(2) by (simp add: st0_def)
  show ?thesis
  proof (cases "take 4 (m_Data st0) = ''HTTP''")
    case True
    define s1 where "s1 = st0\<lparr>m_Status := response_status (m_Data st0)\<rparr>"
    from True assms(1) obtain st1 t where e: "ExtractHeaders s1 (m_Data st0) = Some (Inr (st1, t))"
      and r: "response_body loads (buf = []) st1 t = (ms, st')"
      by (auto simp: http_inbound_def inbound_response_def Let_def bind_res_eq_Inr st0_def [symmetric] s1_def)
    from ExtractHeaders_JSON [OF e] j have "m_JSON st1" by (simp add: s1_def)
    with r chunk_loop_JSON [of st1 "[]" "after LF t"] show ?thesis
      by (auto simp: response_body_def whole_body_def delivered_def split: if_splits)
  next
    case False
    with assms(1) obtain st1 t where "ExtractHeaders st0 (m_Data st0) = Some (Inr (st1, t))"
      and "st' = st1 \<or> st' = delivered st1"
      by (auto simp: http_inbound_def inbound_request_def Let_def bind_res_eq_Inr st0_def [symmetric] split: if_splits option.splits)
    with ExtractHeaders_JSON j show ?thesis by (auto simp: delivered_def)
  qed
qed

theorem json_flag_stays_witness:
  "\<exists>st'. http_inbound (\<lambda>s. PNone) (CPluginProtocolHTTP\<lparr>m_JSON := True\<rparr>) (''HTTP/1.1 200 OK'' @ CRLF) = Some (Inr ([], st')) \<and>
     m_JSON st'"
proof -
  have "after LF ((''HTTP/1.1 200 OK'' @ [CR]) @ LF # []) = []" by (rule after_append) simp
  then have "ExtractHeaders st (''HTTP/1.1 200 OK'' @ CRLF) = Some (Inr (st\<lparr>m_Headers := Some []\<rparr>, []))" for st
    by (simp add: ExtractHeaders_def CRLF_def header_loop_end)
  then obtain st' where "http_inbound (\<lambda>s. PNone) (CPluginProtocolHTTP\<lparr>m_JSON := True\<rparr>) (''HTTP/1.1 200 OK'' @ CRLF) = Some (Inr ([], st'))"
    by (simp add: http_inbound_def inbound_response_def response_body_def CPluginProtocolHTTP_def CRLF_def)
  with json_flag_stays [OF this] show ?thesis by simp
qed

section \<open>Chunks\<close>

lemma hex_val_lower [simp]: "d < 16 \<Longrightarrow> hex_val (hex_lower d) = Some d"
  by (auto simp: hex_val_def hex_lower_def Let_def)

lemma hex_digits_append:
  "list_all (\<lambda>c. hex_val c \<noteq> None) a \<Longrightarrow> hex_digits n (a @ b) = hex_digits (hex_digits n a) b"
  by (induction a arbitrary: n) auto

lemma to_hex_digits: "list_all (\<lambda>c. hex_val c \<noteq> None) (to_hex n) \<and> to_hex n \<noteq> []"
proof (induction n rule: to_hex.induct)
  case (1 n)
  then show ?case by (subst (1 2) to_hex.simps) auto
qed

lemma hex_digits_to_hex: "hex_digits 0 (to_hex n) = n"
proof (induction n rule: to_hex.induct)
  case (1 n)
  show ?case
  proof (cases "n < 16")
    case False
    with 1 to_hex_digits [of "n div 16"] show ?thesis
      by (subst to_hex.simps) (simp add: hex_digits_append)
  qed (subst to_hex.simps, simp)
qed

lemma not_hex: "hex_val (CHR ''x'') = None" "hex_val (CHR ''X'') = None" "hex_val (CHR ''-'') = None"
  "hex_val (CHR ''+'') = None" "hex_val CR = None" "hex_val LF = None"
  by code_simp+

lemma hex_not_space: "hex_val c \<noteq> None \<Longrightarrow> \<not> is_c_space c"
  by (auto simp: hex_val_def is_c_space_def Let_def split: if_splits)

lemma scan_hex_digits:
  assumes "list_all (\<lambda>c. hex_val c \<noteq> None) s" "s \<noteq> []"
  shows "scan_hex s = Some (int (hex_digits 0 s))"
proof -
  obtain c t where s: "s = c # t" using assms(2) by (cases s) auto
  with assms(1) have c: "hex_val c \<noteq> None" "c \<noteq> CHR ''-''" "c \<noteq> CHR ''+''" "\<not> is_c_space c"
    using not_hex hex_not_space by auto
  show ?thesis
  proof (cases t)
    case Nil
    with c s show ?thesis by (auto simp: scan_hex_def)
  next
    case (Cons d t')
    with assms(1) s not_hex have "d \<noteq> CHR ''x''" "d \<noteq> CHR ''X''" by auto
    with c s Cons show ?thesis by (auto simp: scan_hex_def)
  qed
qed

lemma strtol16_to_hex: "n < 2 ^ 63 \<Longrightarrow> strtol16 (to_hex n) = int n"
  using scan_hex_digits [of "to_hex n"] to_hex_digits [of n]
  by (simp add: strtol16_def hex_digits_to_hex clamp64_def)

definition piece :: "string \<Rightarrow> string" where
  "piece p = to_hex (length p) @ CRLF @ p"

lemma to_hex_plain: "CR \<notin> set (to_hex n)" "LF \<notin> set (to_hex n)" "hd (to_hex n) \<noteq> CR" "to_hex n \<noteq> []"
proof -
  show "CR \<notin> set (to_hex n)" "LF \<notin> set (to_hex n)" "to_hex n \<noteq> []"
    using to_hex_digits [of n] not_hex by (auto simp: list_all_iff)
  then show "hd (to_hex n) \<noteq> CR" by (cases "to_hex n") auto
qed

lemma chunk_size:
  assumes "length p < 2 ^ 63"
  shows "nat (strtol16 (upto CR (piece p @ t)) mod 2 ^ 64) = length p" "after LF (piece p @ t) = p @ t"
    "hd (piece p @ t) \<noteq> CR" "piece p @ t \<noteq> []"
proof -
  have "upto CR (piece p @ t) = to_hex (length p)"
    using to_hex_plain(1) upto_append [of CR "to_hex (length p)"] by (simp add: piece_def CRLF_def)
  with assms show "nat (strtol16 (upto CR (piece p @ t)) mod 2 ^ 64) = length p" by (simp add: strtol16_to_hex)
  show "after LF (piece p @ t) = p @ t"
    using to_hex_plain(2) after_append [of LF "to_hex (length p) @ [CR]"] by (simp add: piece_def CRLF_def)
  show "hd (piece p @ t) \<noteq> CR" "piece p @ t \<noteq> []"
    using to_hex_plain(3,4) [of "length p"] by (auto simp: piece_def hd_append)
qed

lemma chunk_loop_piece:
  assumes "m_RemainingChunk st = 0" "length p < 2 ^ 63" "p \<noteq> []" "t \<noteq> []"
  shows "chunk_loop st acc (piece p @ t) = chunk_loop st (acc @ p) t"
    "chunk_loop st acc (CRLF @ piece p @ t) = chunk_loop st (acc @ p) t"
proof -
  note c = chunk_size [OF assms(2), of t]
  have st: "st\<lparr>m_RemainingChunk := length p, m_RemainingChunk := 0\<rparr> = st" "st\<lparr>m_RemainingChunk := 0\<rparr> = st"
    using assms(1) by simp_all
  have ne: "piece p @ t \<noteq> [CR, LF]" using c(3) by (metis list.sel(1))
  show "chunk_loop st acc (piece p @ t) = chunk_loop st (acc @ p) t"
    using c ne assms by (subst chunk_loop.simps) (simp add: chunk_start_def Let_def st)
  have "after LF (CRLF @ piece p @ t) = piece p @ t"
    using after_append [of LF "[CR]" "piece p @ t"] by (simp add: CRLF_def)
  with c assms show "chunk_loop st acc (CRLF @ piece p @ t) = chunk_loop st (acc @ p) t"
    by (subst chunk_loop.simps) (simp add: chunk_start_def Let_def CRLF_def st)
qed

lemma chunk_loop_pieces:
  assumes "m_RemainingChunk st = 0" "list_all (\<lambda>p. length p < 2 ^ 63 \<and> p \<noteq> []) ps"
  shows "chunk_loop st acc (CRLF @ concat (map (\<lambda>p. piece p @ CRLF) ps) @ t) = chunk_loop st (acc @ concat ps) (CRLF @ t)"
  using assms(2)
proof (induction ps arbitrary: acc)
  case (Cons p ps)
  have "chunk_loop st acc (CRLF @ piece p @ CRLF @ concat (map (\<lambda>p. piece p @ CRLF) ps) @ t) =
      chunk_loop st (acc @ p) (CRLF @ concat (map (\<lambda>p. piece p @ CRLF) ps) @ t)"
    using Cons.prems assms(1) by (intro chunk_loop_piece(2)) (simp_all add: CRLF_def)
  with Cons show ?case by simp
qed simp

lemma chunk_loop_last:
  assumes "m_RemainingChunk st = 0"
  shows "chunk_loop st acc (CRLF @ piece [] @ t) = ([Object (PDict (with_data acc (status_dict st)))], delivered st)"
proof -
  note c = chunk_size [of "[]" t]
  have "after LF (CRLF @ piece [] @ t) = piece [] @ t"
    using after_append [of LF "[CR]" "piece [] @ t"] by (simp add: CRLF_def)
  moreover have st: "st\<lparr>m_RemainingChunk := 0\<rparr> = st" using assms by simp
  ultimately show ?thesis using c assms
    by (subst chunk_loop.simps) (simp add: chunk_start_def Let_def CRLF_def st)
qed

section \<open>Chunked responses there and back\<close>

fun http_reads :: "(string \<Rightarrow> py) \<Rightarrow> http \<Rightarrow> string list \<Rightarrow> (exception + message list \<times> http) option" where
  "http_reads loads st [] = Some (Inr ([], st))"
| "http_reads loads st (c # cs) =
     (case http_inbound loads st c of
        None \<Rightarrow> None
      | Some (Inl e) \<Rightarrow> Some (Inl e)
      | Some (Inr (ms, st')) \<Rightarrow>
          map_option (\<lambda>r. bind_res r (\<lambda>(ms', st''). Inr (ms @ ms', st''))) (http_reads loads st' cs))"

definition chunk_first :: "string \<Rightarrow> (string \<times> string) list \<Rightarrow> string \<Rightarrow> dict" where
  "chunk_first status hs p =
     [(''Status'', PStr status), (''Headers'', PDict (map (\<lambda>(k, v). (k, PStr v)) hs)),
      (''Chunk'', PBool True), (''Data'', PBytes p)]"

definition chunk_next :: "string \<Rightarrow> dict" where
  "chunk_next p = [(''Chunk'', PBool True), (''Data'', PBytes p)]"

definition chunk_end :: dict where
  "chunk_end = [(''Chunk'', PBool True)]"

definition chunked_head :: "string \<Rightarrow> string \<Rightarrow> (string \<times> string) list \<Rightarrow> string" where
  "chunked_head date status hs =
     response_line status @ LF # header_lines (sent_headers date hs @ [(''Transfer-Encoding'', ''chunked'')])"

lemma chunk_texts:
  assumes "own_headers hs" "plain status"
  shows "http_outbound user pass date (Some (chunk_first status hs p)) = chunked_head date status hs @ CRLF @ piece p @ CRLF"
    "http_outbound user pass date (Some (chunk_next p)) = piece p @ CRLF"
    "http_outbound user pass date (Some chunk_end) = piece [] @ CRLF"
  using assms own_headers_absent [OF assms(1)]
  by (simp_all add: http_outbound_def chunk_first_def chunk_next_def chunk_end_def response_preamble_def end_of_headers_def
      body_text_def has_header_def supplied_headers_def own_headers_text sent_headers_def response_line_def CRLF_def
      piece_def data_length_def data_text_def chunked_head_def del: map_map)

definition chunked_headers :: "string \<Rightarrow> (string \<times> string) list \<Rightarrow> dict" where
  "chunked_headers date hs = map (\<lambda>(k, v). (k, PStr v)) (sent_headers date hs @ [(''Transfer-Encoding'', ''chunked'')])"

lemma chunked_state:
  assumes "own_headers hs" "plain date" "m_Headers st = Some []"
  shows "fold (\<lambda>(k, v). take_header k v) (sent_headers date hs @ [(''Transfer-Encoding'', ''chunked'')]) st =
    st\<lparr>m_JSON := m_JSON st \<or> list_ex (\<lambda>(k, v). json_header k v) hs, m_Chunked := True,
       m_Headers := Some (chunked_headers date hs)\<rparr>"
proof -
  let ?hs = "sent_headers date hs"
  note o = own_headers_sent [OF assms(1,2)]
  have "''Transfer-Encoding'' \<notin> set (map fst ?hs)"
    using o(2) by (fastforce simp: list_all_iff special_name_def stdupper_names)
  then have "fst ` set (map (\<lambda>(k, v). (k, PStr v)) ?hs) \<inter> {''Transfer-Encoding''} = {}" by force
  then have "map_of (map (\<lambda>(k, v). (k, PStr v)) ?hs) ''Transfer-Encoding'' = None"
    "''Transfer-Encoding'' \<notin> fst ` set (map (\<lambda>(k, v). (k, PStr v)) ?hs)" by (auto simp: map_of_eq_None_iff)
  then have "add_value ''Transfer-Encoding'' t (map (\<lambda>(k, v). (k, PStr v)) ?hs) =
      map (\<lambda>(k, v). (k, PStr v)) (?hs @ [(''Transfer-Encoding'', t)])" for t
    by (simp add: add_value_def dict_set_fresh)
  moreover have "fold (\<lambda>(k, v). add_value k v) ?hs [] = map (\<lambda>(k, v). (k, PStr v)) ?hs"
    using add_values_fresh [of "[]" ?hs] o(3) by simp
  moreover have "plain ''Transfer-Encoding''" "plain ''chunked''" by (simp_all add: plain_def)
  ultimately show ?thesis
    using o assms(3) by (simp add: take_headers_plain take_header_def stdupper_names chunked_headers_def)
qed

lemma chunked_inbound:
  assumes "own_headers hs" "plain status" "plain date" "upto (CHR '' '') status \<noteq> []"
    and "list_all (\<lambda>p. length p < 2 ^ 63 \<and> p \<noteq> []) (p # ps)"
    and "m_Data st @ buf = chunked_head date status hs @ CRLF @ concat (map (\<lambda>p. piece p @ CRLF) (p # ps)) @ t"
  shows "t = [] \<Longrightarrow> \<exists>st'. http_inbound loads st buf = Some (Inr ([], st')) \<and> m_Data st' = m_Data st @ buf"
    "t = piece [] @ CRLF \<Longrightarrow> \<exists>st'. http_inbound loads st buf = Some (Inr ([Object (PDict
        [(''Status'', PStr (upto (CHR '' '') status)), (''Headers'', PDict (chunked_headers date hs)),
         (''Data'', PBytes (concat (p # ps)))])], st')) \<and> m_Data st' = []"
proof -
  let ?body = "concat (map (\<lambda>p. piece p @ CRLF) (p # ps)) @ t"
  let ?hs = "sent_headers date hs @ [(''Transfer-Encoding'', ''chunked'')]"
  define out where "out = m_Data st @ buf"
  have out: "out = response_line status @ LF # header_lines ?hs @ CRLF @ ?body"
    unfolding out_def assms(6) chunked_head_def by simp
  have lf: "LF \<notin> set (response_line status)" using assms(2) by (auto simp: response_line_def plain_def)
  have hs: "list_all plain_header ?hs"
    using own_headers_sent(1) [OF assms(1,3)] by (simp add: plain_header_def plain_name_def plain_def)
  have "upto CR (''HTTP/1.1 '' @ status @ CR # u) = ''HTTP/1.1 '' @ status" for u
    using assms(2) upto_append [of CR "''HTTP/1.1 '' @ status" u] by (auto simp: plain_def)
  moreover have "after (CHR '' '') (''HTTP/1.1'' @ CHR '' '' # status) = status"
    by (intro after_append) simp
  ultimately have rs: "response_status out = upto (CHR '' '') status"
    by (simp add: response_status_def out response_line_def)
  have pl: "plain (upto (CHR '' '') status)"
    using assms(2) by (auto simp: plain_def upto_def dest: set_takeWhileD)
  define st1 where "st1 = st\<lparr>m_Status := upto (CHR '' '') status, m_Data := out, m_ContentLength := - 1,
    m_Chunked := True, m_RemainingChunk := 0, m_JSON := m_JSON st \<or> list_ex (\<lambda>(k, v). json_header k v) hs,
    m_Headers := Some (chunked_headers date hs)\<rparr>"
  have "ExtractHeaders (st\<lparr>m_Data := out, m_ContentLength := - 1, m_Chunked := False, m_RemainingChunk := 0,
      m_Status := upto (CHR '' '') status\<rparr>) out = Some (Inr (st1, CRLF @ ?body))"
    unfolding st1_def by (subst (2) out, subst ExtractHeaders_lines [OF lf hs], subst chunked_state [OF assms(1,3)]) simp_all
  moreover have "take 4 out = ''HTTP''" by (simp add: out response_line_def)
  ultimately have i: "http_inbound loads st buf = Some (Inr (response_body loads (buf = []) st1 (CRLF @ ?body)))"
    using rs by (simp add: http_inbound_def inbound_response_def out_def [symmetric] Let_def)
  have "response_body loads (buf = []) st1 (CRLF @ ?body) = chunk_loop st1 [] ?body"
    using assms(4) after_append [of LF "[CR]" ?body] by (simp add: response_body_def st1_def CRLF_def)
  also have "\<dots> = chunk_loop st1 p (CRLF @ concat (map (\<lambda>p. piece p @ CRLF) ps) @ t)"
    using assms(5) chunk_loop_piece(1) [of st1 p "CRLF @ concat (map (\<lambda>p. piece p @ CRLF) ps) @ t" "[]"]
    by (simp add: st1_def CRLF_def)
  also have "\<dots> = chunk_loop st1 (concat (p # ps)) (CRLF @ t)"
    using assms(5) chunk_loop_pieces [of st1 ps p t] by (simp add: st1_def)
  finally have r: "response_body loads (buf = []) st1 (CRLF @ ?body) = chunk_loop st1 (concat (p # ps)) (CRLF @ t)" .
  show "\<exists>st'. http_inbound loads st buf = Some (Inr ([], st')) \<and> m_Data st' = m_Data st @ buf" if "t = []"
  proof -
    have "chunk_loop st1 acc CRLF = ([], st1)" for acc by (subst chunk_loop.simps) (simp add: CRLF_def)
    with i r that show ?thesis by (simp add: st1_def out_def)
  qed
  show "\<exists>st'. http_inbound loads st buf = Some (Inr ([Object (PDict
        [(''Status'', PStr (upto (CHR '' '') status)), (''Headers'', PDict (chunked_headers date hs)),
         (''Data'', PBytes (concat (p # ps)))])], st')) \<and> m_Data st' = []" if "t = piece [] @ CRLF"
  proof -
    have "chunk_loop st1 (concat (p # ps)) (CRLF @ piece [] @ CRLF) =
        ([Object (PDict (with_data (concat (p # ps)) (status_dict st1)))], delivered st1)"
      by (rule chunk_loop_last) (simp add: st1_def)
    moreover have "concat (p # ps) \<noteq> []" using assms(5) by simp
    ultimately show ?thesis using i r that pl
      by (simp add: with_data_def status_dict_def with_headers_def dict_set_def st1_def delivered_def)
  qed
qed

text \<open>C18: a response that a plugin sends in chunks gives one message with the chunks joined, when
  the last, empty chunk has arrived, each send being a read.\<close>

theorem chunked_roundtrip:
  assumes "own_headers hs" "plain status" "plain date" "upto (CHR '' '') status \<noteq> []"
    and "list_all (\<lambda>p. length p < 2 ^ 63 \<and> p \<noteq> []) (p # ps)" "m_Data st = []"
  shows "\<exists>st'. http_reads loads st (map (\<lambda>d. http_outbound user pass date (Some d))
      (chunk_first status hs p # map chunk_next ps @ [chunk_end])) =
    Some (Inr ([Object (PDict [(''Status'', PStr (upto (CHR '' '') status)),
      (''Headers'', PDict (chunked_headers date hs)), (''Data'', PBytes (concat (p # ps)))])], st'))"
proof -
  note c = chunk_texts [OF assms(1,2), of user pass date]
  note ib = chunked_inbound [OF assms(1-4)]
  have rest: "\<exists>st'. http_reads loads st (map (\<lambda>p. piece p @ CRLF) qs @ [piece [] @ CRLF]) =
    Some (Inr ([Object (PDict [(''Status'', PStr (upto (CHR '' '') status)),
      (''Headers'', PDict (chunked_headers date hs)), (''Data'', PBytes (concat (p # ps @ qs)))])], st'))"
    if "m_Data st = chunked_head date status hs @ CRLF @ concat (map (\<lambda>p. piece p @ CRLF) (p # ps))"
      "list_all (\<lambda>p. length p < 2 ^ 63 \<and> p \<noteq> []) (p # ps @ qs)" for st ps qs
    using that
  proof (induction qs arbitrary: st ps)
    case Nil
    with ib(2) [of p ps st "piece [] @ CRLF" "piece [] @ CRLF" loads] show ?case by force
  next
    case (Cons q qs)
    with ib(1) [of p "ps @ [q]" st "piece q @ CRLF" "[]" loads] obtain st' where
      "http_inbound loads st (piece q @ CRLF) = Some (Inr ([], st'))"
      "m_Data st' = chunked_head date status hs @ CRLF @ concat (map (\<lambda>p. piece p @ CRLF) (p # ps @ [q]))" by force
    with Cons.IH [of st' "ps @ [q]"] Cons.prems(2) show ?case by force
  qed
  from ib(1) [of p "[]" st "chunked_head date status hs @ CRLF @ piece p @ CRLF" "[]" loads] assms(5,6) obtain st' where
    "http_inbound loads st (chunked_head date status hs @ CRLF @ piece p @ CRLF) = Some (Inr ([], st'))"
    "m_Data st' = chunked_head date status hs @ CRLF @ concat (map (\<lambda>p. piece p @ CRLF) [p])" by auto
  with rest [of st' "[]" ps] assms(5) show ?thesis by (auto simp: c comp_def)
qed

theorem chunked_roundtrip_witness:
  "\<exists>st'. http_reads (\<lambda>s. PNone) CPluginProtocolHTTP (map (\<lambda>d. http_outbound [] [] ''now'' (Some d))
      [chunk_first ''200 OK'' [] ''ab'', chunk_next ''c'', chunk_end]) =
    Some (Inr ([Object (PDict [(''Status'', PStr ''200''), (''Headers'', PDict (chunked_headers ''now'' [])),
      (''Data'', PBytes ''abc'')])], st'))"
proof -
  have "own_headers []" "upto (CHR '' '') ''200 OK'' = ''200''" by code_simp+
  then show ?thesis
    using chunked_roundtrip [of "[]" "''200 OK''" "''now''" "''ab''" "[''c'']" CPluginProtocolHTTP "(\<lambda>s. PNone)" "[]" "[]"]
    by (simp add: plain_def CPluginProtocolHTTP_def)
qed

end
