(* ===== verification/PluginWs.thy ===== *)
theory PluginWs
  imports PluginHttp
begin

unbundle bit_operations_syntax

text \<open>
  The web socket protocol of \<^verbatim>\<open>hardware/plugins/PluginProtocols.cpp\<close>.  It extends the HTTP protocol,
  which formats the request that opens the connection.  \<^const>\<open>None\<close> is a read outside the data.
\<close>

definition byte_string :: "bytes \<Rightarrow> string" where
  "byte_string bs = map (\<lambda>b. char_of (unat b)) bs"

lemma byte_string_bytes [simp]: "byte_string (string_bytes s) = s"
proof -
  have "char_of (unat (word_of_nat (of_char c) :: byte)) = c" for c
    by (simp add: unat_of_nat)
  then show ?thesis by (simp add: byte_string_def string_bytes_def comp_def)
qed

lemma length_string_bytes [simp]: "length (string_bytes s) = length s"
  by (simp add: string_bytes_def)

section \<open>Masks\<close>

definition apply_mask :: "bytes \<Rightarrow> bytes \<Rightarrow> bytes" where
  "apply_mask key p = map (\<lambda>i. p ! i XOR key ! (i mod 4)) [0..<length p]"

lemma length_apply_mask [simp]: "length (apply_mask key p) = length p"
  by (simp add: apply_mask_def)

lemma apply_mask_twice: "apply_mask key (apply_mask key p) = p"
  by (rule nth_equalityI) (simp_all add: apply_mask_def xor.assoc)

section \<open>Inbound\<close>

text \<open>The fixed part of a frame: the length of the payload and where the frame goes on.\<close>

datatype frame_start = Short | Unsupported | Start nat nat

definition frame_length :: "bytes \<Rightarrow> frame_start option" where
  "frame_length v =
     (if length v < 2 then None
      else
        let n = unat (v ! 1 AND 0x7F) in
        if n = 126 then
          (if length v < 3 then Some Short
           else if length v < 4 then None
           else Some (Start (unat (v ! 2) * 256 + unat (v ! 3)) 4))
        else if n = 127 then Some Unsupported
        else Some (Start n 2))"

text \<open>The masking key is taken from its first byte; when that is zero the payload stays masked.\<close>

definition operation :: "string \<Rightarrow> dict \<Rightarrow> dict" where
  "operation op d = AddStringToDict ''Operation'' op d"

definition close_payload :: "bytes \<Rightarrow> py option" where
  "close_payload p = (if length p = 2 then Some (PInt (int (unat (p ! 0) * 256 + unat (p ! 1)))) else None)"

text \<open>
  The dictionary of a frame.  \<open>utf8\<close> tells if Python takes a text; otherwise the payload is handed
  over as bytes.  Pings and pongs start a new dictionary.
\<close>

definition ws_dict :: "(string \<Rightarrow> bool) \<Rightarrow> bool \<Rightarrow> nat \<Rightarrow> nat \<Rightarrow> bytes \<Rightarrow> dict" where
  "ws_dict utf8 finished opcode key p =
     (let d0 = dict_set ''Finish'' (PBool finished) [];
          d1 = (if key \<noteq> 0 then AddIntToDict ''Mask'' (int key) d0 else d0);
          text = c_string (byte_string p);
          (d2, pl) =
            (if opcode = 1 then (d1, if utf8 text then Some (PStr text) else None)
             else if opcode = 8 then (operation ''Close'' d1, close_payload p)
             else if opcode = 9 then (operation ''Ping'' [], None)
             else if opcode = 10 then (operation ''Pong'' [], None)
             else (d1, None));
          pl' = (if pl = None \<and> p \<noteq> [] then Some (PBytes (byte_string p)) else pl) in
      case pl' of None \<Rightarrow> d2 | Some x \<Rightarrow> dict_set ''Payload'' x d2)"

text \<open>
  \<^verbatim>\<open>ProcessWholeMessage\<close>: the message, if there is one, and the data left.
\<close>

definition ProcessWholeMessage :: "(string \<Rightarrow> bool) \<Rightarrow> bytes \<Rightarrow> (dict option \<times> bytes) option" where
  "ProcessWholeMessage utf8 v =
     (if v = [] then Some (None, v)
      else
        (case frame_length v of
           None \<Rightarrow> None
         | Some Short \<Rightarrow> Some (None, v)
         | Some Unsupported \<Rightarrow> Some (None, [])
         | Some (Start n offset) \<Rightarrow>
             let masked = (v ! 1 AND 0x80 \<noteq> 0) in
             if masked \<and> length v < offset then Some (None, v)
             else if masked \<and> length v = offset then None
             else
               let key = (if masked then unat (v ! offset) else 0);
                   start = (if masked then offset + 4 else offset) in
               if length v < start + n then Some (None, v)
               else
                 let raw = take n (drop start v);
                     p = (if key \<noteq> 0 then apply_mask (take 4 (drop offset v)) raw else raw) in
                 Some (Some (ws_dict utf8 (v ! 0 AND 0x80 \<noteq> 0) (unat (v ! 0 AND 0x0F)) key p),
                   drop (start + n) v)))"

text \<open>
  The read is tried alone first, then after what is retained.  When it holds a message at its start,
  the rest of it is dropped.
\<close>

definition ws_inbound :: "(string \<Rightarrow> bool) \<Rightarrow> bytes \<Rightarrow> bytes \<Rightarrow> (message list \<times> bytes) option" where
  "ws_inbound utf8 retained buf =
     (case ProcessWholeMessage utf8 buf of
        None \<Rightarrow> None
      | Some (Some d, _) \<Rightarrow> Some ([Object (PDict d)], retained)
      | Some (None, _) \<Rightarrow>
          (case ProcessWholeMessage utf8 (retained @ buf) of
             None \<Rightarrow> None
           | Some (Some d, r) \<Rightarrow> Some ([Object (PDict d)], r)
           | Some (None, r) \<Rightarrow> Some ([], r)))"

section \<open>Outbound\<close>

subsection \<open>The opening request\<close>

text \<open>An object without these entries gets them.\<close>

definition set_default :: "string \<Rightarrow> py \<Rightarrow> dict \<Rightarrow> dict" where
  "set_default k v d = (if map_of d k = None then dict_set k v d else d)"

definition upgrade_headers :: "py \<Rightarrow> py" where
  "upgrade_headers h =
     (case h of
        PDict hs \<Rightarrow>
          PDict (set_default ''User-Agent'' (PStr ''Domoticz/1.0'')
            (set_default ''Upgrade'' (PStr ''websocket'')
              (set_default ''Connection'' (PStr ''keep-alive, Upgrade'') hs)))
      | _ \<Rightarrow> h)"

definition upgrade_request :: "dict \<Rightarrow> dict" where
  "upgrade_request d =
     (let d1 = set_default ''Headers'' (PDict []) (set_default ''Verb'' (PStr ''GET'') d) in
      case map_of d1 ''Headers'' of Some h \<Rightarrow> dict_set ''Headers'' (upgrade_headers h) d1 | None \<Rightarrow> d1)"

subsection \<open>Frames\<close>

text \<open>\<^verbatim>\<open>push_back(l >> 24)\<close> and so on: the four low bytes of a number.\<close>

definition four_bytes :: "int \<Rightarrow> bytes" where
  "four_bytes l = [word_of_int (l div 2 ^ 24), word_of_int (l div 2 ^ 16), word_of_int (l div 2 ^ 8), word_of_int l]"

definition operation_code :: "string \<Rightarrow> nat" where
  "operation_code op = (if op = ''Ping'' then 9 else if op = ''Pong'' then 10 else if op = ''Close'' then 8 else 0)"

text \<open>The length of a payload, the code of its type and its bytes.\<close>

definition payload_parts :: "py option \<Rightarrow> nat \<times> nat \<times> string" where
  "payload_parts v =
     (case v of
        Some (PStr s) \<Rightarrow> (code_points s, 1, c_string s @ [CHR 0x00])
      | Some (PBytes s) \<Rightarrow> (length s, 2, s)
      | Some (PByteArray s) \<Rightarrow> (length s, 2, s)
      | _ \<Rightarrow> (0, 0, []))"

text \<open>The inner \<^const>\<open>None\<close> is a mask that is neither a number nor a string.\<close>

definition mask_key :: "dict \<Rightarrow> int option option" where
  "mask_key d =
     (case map_of d ''Mask'' of
        None \<Rightarrow> Some None
      | Some (PStr s) \<Rightarrow> Some (Some (atoi (c_string s)))
      | Some v \<Rightarrow> (case as_long v of Some i \<Rightarrow> Some (Some i) | None \<Rightarrow> None))"

text \<open>Without a mask the payload is combined with what a null pointer points to.\<close>

definition out_frame :: "nat \<Rightarrow> int option \<Rightarrow> nat \<Rightarrow> string \<Rightarrow> bytes option" where
  "out_frame opcode key n data =
     (let bit = (if key = None then 0 else 0x80 :: nat);
          head = word_of_nat (0x80 + opcode) #
            (if n < 126 then [word_of_nat (bit + n)] else word_of_nat (bit + 126) # four_bytes (int n)) in
      case key of
        None \<Rightarrow> if n > 0 then None else Some head
      | Some k \<Rightarrow>
          if n > length data then None
          else Some (head @ four_bytes k @ apply_mask (four_bytes k) (string_bytes (take n data))))"

definition ws_outbound :: "string \<Rightarrow> string \<Rightarrow> string \<Rightarrow> dict option \<Rightarrow> bytes option" where
  "ws_outbound user pass date object =
     (case object of
        None \<Rightarrow> Some []
      | Some d \<Rightarrow>
          if map_of d ''URL'' \<noteq> None then
            Some (string_bytes (http_outbound user pass date (Some (upgrade_request d))))
          else
            (let (n, code, data) = payload_parts (map_of d ''Payload'') in
             case map_of d ''Operation'' of
               None \<Rightarrow> (case mask_key d of None \<Rightarrow> Some [] | Some key \<Rightarrow> out_frame code key n data)
             | Some (PStr op) \<Rightarrow>
                 (case mask_key d of
                    None \<Rightarrow> Some []
                  | Some key \<Rightarrow>
                      let o' = operation_code (c_string op) in
                      out_frame (if o' = 0 then code else o') key n data)
             | Some _ \<Rightarrow> Some []))"

section \<open>Frames there and back\<close>

lemma opcode_byte: "c < 16 \<Longrightarrow> unat ((word_of_nat (0x80 + c) :: byte) AND 0x0F) = c"
  "c < 16 \<Longrightarrow> (word_of_nat (0x80 + c) :: byte) AND 0x80 \<noteq> 0"
proof -
  have "\<forall>c \<in> set [0..<16]. unat ((word_of_nat (0x80 + c) :: byte) AND 0x0F) = c \<and> (word_of_nat (0x80 + c) :: byte) AND 0x80 \<noteq> 0"
    by code_simp
  then show "c < 16 \<Longrightarrow> unat ((word_of_nat (0x80 + c) :: byte) AND 0x0F) = c"
    "c < 16 \<Longrightarrow> (word_of_nat (0x80 + c) :: byte) AND 0x80 \<noteq> 0" by auto
qed

lemma length_byte: "n < 128 \<Longrightarrow> unat ((word_of_nat (0x80 + n) :: byte) AND 0x7F) = n"
  "n < 128 \<Longrightarrow> (word_of_nat (0x80 + n) :: byte) AND 0x80 \<noteq> 0"
proof -
  have "\<forall>c \<in> set [0..<128]. unat ((word_of_nat (0x80 + c) :: byte) AND 0x7F) = c \<and> (word_of_nat (0x80 + c) :: byte) AND 0x80 \<noteq> 0"
    by code_simp
  then show "n < 128 \<Longrightarrow> unat ((word_of_nat (0x80 + n) :: byte) AND 0x7F) = n"
    "n < 128 \<Longrightarrow> (word_of_nat (0x80 + n) :: byte) AND 0x80 \<noteq> 0" by auto
qed

lemma length_four_bytes [simp]: "length (four_bytes k) = 4"
  by (simp add: four_bytes_def)

lemma unat_low_byte: "unat (word_of_int i :: byte) = nat (i mod 256)"
  by (simp add: unat_eq_nat_uint uint_word_of_int)

lemma key_byte: "unat (four_bytes k ! 0) = nat (k div 2 ^ 24 mod 256)"
  by (simp add: four_bytes_def unat_low_byte)

text \<open>A short masked frame that is complete.\<close>

lemma short_frame:
  assumes "c < 16" "length p < 126" "k div 2 ^ 24 mod 256 \<noteq> 0"
  shows "ProcessWholeMessage utf8 (word_of_nat (0x80 + c) # word_of_nat (0x80 + length p) # four_bytes k @
      apply_mask (four_bytes k) p @ rest) =
    Some (Some (ws_dict utf8 True c (nat (k div 2 ^ 24 mod 256)) p), rest)"
proof -
  let ?v = "word_of_nat (0x80 + c) # word_of_nat (0x80 + length p) # four_bytes k @ apply_mask (four_bytes k) p @ rest :: bytes"
  have v0: "unat (?v ! 0 AND 0x0F) = c" "?v ! 0 AND 0x80 \<noteq> 0"
    using opcode_byte [OF assms(1)] by (simp_all only: nth_Cons_0 simp_thms)
  have "?v ! 1 = word_of_nat (0x80 + length p)" by simp
  then have v1: "unat (?v ! 1 AND 0x7F) = length p" "?v ! 1 AND 0x80 \<noteq> 0"
    using length_byte [of "length p"] assms(2) by (simp_all only: simp_thms)
  have l: "length ?v = 6 + length p + length rest" by simp
  have f: "frame_length ?v = Some (Start (length p) 2)"
    unfolding frame_length_def v1 l using assms(2) by simp
  have "?v ! 2 = four_bytes k ! 0" by (simp add: nth_append)
  then have k: "unat (?v ! 2) = nat (k div 2 ^ 24 mod 256)" by (simp only: key_byte)
  moreover have "0 \<le> k div 2 ^ 24 mod 256" by simp
  with assms(3) have "nat (k div 2 ^ 24 mod 256) \<noteq> 0" by linarith
  moreover have "take 4 (drop 2 ?v) = four_bytes k" by simp
  moreover have "take (length p) (drop (2 + 4) ?v) = apply_mask (four_bytes k) p" by simp
  moreover have d: "drop (6 + length p) (a # b # four_bytes k @ apply_mask (four_bytes k) p @ rest) = rest" for a b
  proof -
    have "a # b # four_bytes k @ apply_mask (four_bytes k) p @ rest = ([a, b] @ four_bytes k @ apply_mask (four_bytes k) p) @ rest"
      by simp
    moreover have "length ([a, b] @ four_bytes k @ apply_mask (four_bytes k) p) = 6 + length p" by simp
    ultimately show ?thesis by (metis append_eq_conv_conj)
  qed
  ultimately show ?thesis
    unfolding ProcessWholeMessage_def f Let_def option.case frame_start.case
    using v0 v1 l by (simp only: apply_mask_twice if_True if_False list.distinct simp_thms) (simp add: d)
qed

text \<open>a masked frame with less than 126 bytes whose key does not start with zero is read back
  to its payload, and whatever follows it in the same read is dropped.\<close>

theorem ws_roundtrip:
  assumes "map_of d ''URL'' = None" "map_of d ''Operation'' = None"
    and "map_of d ''Payload'' = Some (PBytes p)" "p \<noteq> []" "length p < 126"
    and "map_of d ''Mask'' = Some (PInt k)" "- (2 ^ 63) \<le> k" "k < 2 ^ 63" "k div 2 ^ 24 mod 256 \<noteq> 0"
  shows "\<exists>out. ws_outbound user pass date (Some d) = Some out \<and>
    ws_inbound utf8 retained (out @ rest) =
      Some ([Object (PDict [(''Finish'', PBool True), (''Mask'', PInt (k div 2 ^ 24 mod 256)), (''Payload'', PBytes p)])], retained)"
proof -
  let ?out = "word_of_nat (0x80 + 2) # word_of_nat (0x80 + length p) # four_bytes k @ apply_mask (four_bytes k) (string_bytes p)"
  have "ws_outbound user pass date (Some d) = Some ?out"
    using assms by (simp add: ws_outbound_def payload_parts_def mask_key_def long_value_def out_frame_def)
  moreover have "ProcessWholeMessage utf8 (?out @ rest) =
      Some (Some (ws_dict utf8 True 2 (nat (k div 2 ^ 24 mod 256)) (string_bytes p)), rest)"
    using short_frame [of 2 "string_bytes p" k utf8 rest] assms(5,9) by simp
  moreover have "ws_dict utf8 True 2 (nat (k div 2 ^ 24 mod 256)) (string_bytes p) =
      [(''Finish'', PBool True), (''Mask'', PInt (k div 2 ^ 24 mod 256)), (''Payload'', PBytes p)]"
  proof -
    have "0 \<le> k div 2 ^ 24 mod 256" by simp
    moreover from this assms(9) have "nat (k div 2 ^ 24 mod 256) \<noteq> 0" by linarith
    moreover have "string_bytes p \<noteq> []" using assms(4) by (simp add: string_bytes_def)
    ultimately show ?thesis
      by (simp only: ws_dict_def Let_def) (simp add: dict_set_def AddIntToDict_def)
  qed
  ultimately show ?thesis by (simp add: ws_inbound_def)
qed

theorem ws_roundtrip_witness:
  "\<exists>out. ws_outbound [] [] [] (Some [(''Payload'', PBytes ''hi''), (''Mask'', PInt 305419896)]) = Some out \<and>
    ws_inbound (\<lambda>s. True) [1] (out @ [0x81, 0]) =
      Some ([Object (PDict [(''Finish'', PBool True), (''Mask'', PInt 18), (''Payload'', PBytes ''hi'')])], [1])"
  using ws_roundtrip [of "[(''Payload'', PBytes ''hi''), (''Mask'', PInt 305419896)]" "''hi''" 305419896 "[]" "[]" "[]"
      "\<lambda>s. True" "[1]" "[0x81, 0]"]
  by simp

text \<open>A length of 126 or more is written in four bytes and read from two of them.\<close>

text \<open>a frame with 126 bytes or more is sent with a length that the same protocol reads as
  zero: the plugin gets a message without its payload.\<close>

theorem ws_long_payload_lost:
  assumes "map_of d ''URL'' = None" "map_of d ''Operation'' = None"
    and "map_of d ''Payload'' = Some (PBytes p)" "126 \<le> length p" "length p < 2 ^ 16"
    and "map_of d ''Mask'' = Some (PInt k)" "- (2 ^ 63) \<le> k" "k < 2 ^ 63"
  shows "\<exists>out. ws_outbound user pass date (Some d) = Some out \<and>
    ws_inbound utf8 retained out =
      Some ([Object (PDict ((''Finish'', PBool True) #
        (if length p < 256 then [] else [(''Mask'', PInt (int (length p div 256)))])))], retained)"
proof -
  define t where "t = four_bytes k @ apply_mask (four_bytes k) (string_bytes p)"
  let ?n = "int (length p)"
  let ?v = "word_of_nat (0x80 + 2) # word_of_nat (0x80 + 126) # four_bytes ?n @ t :: bytes"
  have o: "ws_outbound user pass date (Some d) = Some ?v"
    using assms by (simp add: ws_outbound_def payload_parts_def mask_key_def long_value_def out_frame_def t_def)
  have z: "?n div 2 ^ 24 = 0" "?n div 2 ^ 16 = 0" using assms(5) by simp_all
  have fb: "four_bytes ?n = [0, 0, word_of_int (?n div 2 ^ 8), word_of_int ?n]"
    unfolding four_bytes_def z by simp
  have b: "unat (word_of_int (?n div 2 ^ 8) :: byte) = length p div 256"
  proof -
    have "?n div 2 ^ 8 = int (length p div 256)" by (simp add: zdiv_int)
    moreover have "length p div 256 < 256" using assms(5) by (simp add: less_mult_imp_div_less)
    ultimately show ?thesis by (simp add: unat_of_nat)
  qed
  have w: "(word_of_nat (0x80 + 126) :: byte) = 0xFE" "(word_of_nat (0x80 + 2) :: byte) = 0x82" by simp_all
  have m: "unat ((0xFE :: byte) AND 0x7F) = 126" "(0xFE :: byte) AND 0x80 \<noteq> 0" "unat ((0x82 :: byte) AND 0x0F) = 2"
    "(0x82 :: byte) AND 0x80 \<noteq> 0" by code_simp+
  have tl: "4 \<le> length t" by (simp add: t_def)
  have f: "frame_length ?v = Some (Start 0 4)"
    unfolding fb w by (simp add: frame_length_def m)
  have "length p div 256 = 0 \<longleftrightarrow> length p < 256" by (simp add: div_eq_0_iff)
  then have "ProcessWholeMessage utf8 ?v = Some (Some ((''Finish'', PBool True) #
      (if length p < 256 then [] else [(''Mask'', PInt (int (length p div 256)))])), drop 8 ?v)"
    unfolding ProcessWholeMessage_def f
    unfolding fb w using b tl
    by (cases "length p < 256") (simp_all add: m ws_dict_def dict_set_def AddIntToDict_def apply_mask_def Let_def zdiv_int)
  with o show ?thesis by (simp add: ws_inbound_def)
qed

theorem ws_long_payload_lost_witness:
  "\<exists>out. ws_outbound [] [] [] (Some [(''Payload'', PBytes (replicate 200 (CHR ''a''))), (''Mask'', PInt 1)]) = Some out \<and>
    ws_inbound (\<lambda>s. True) [] out = Some ([Object (PDict [(''Finish'', PBool True)])], [])"
  using ws_long_payload_lost [of "[(''Payload'', PBytes (replicate 200 (CHR ''a''))), (''Mask'', PInt 1)]"
      "replicate 200 (CHR ''a'')" 1 "[]" "[]" "[]" "\<lambda>s. True" "[]"]
  by simp

lemma ws_unmasked_undefined:
  assumes "map_of d ''URL'' = None" "map_of d ''Operation'' = None" "map_of d ''Mask'' = None"
    and "map_of d ''Payload'' = Some (PBytes p)" "p \<noteq> []"
  shows "ws_outbound user pass date (Some d) = None"
  using assms by (simp add: ws_outbound_def payload_parts_def mask_key_def out_frame_def)

end
