(* ===== verification/Helpers.thy ===== *)
theory Helpers
  imports Prelude
begin

unbundle bit_operations_syntax

text \<open>
  \<^verbatim>\<open>main/Helper.cpp\<close>: splitting, replacing and checking of strings, identifiers, differences of times.
  A loop that an empty pattern keeps from ending is \<^const>\<open>None\<close>.
\<close>

section \<open>Splitting\<close>

partial_function (option) split_loop :: "string \<Rightarrow> string \<Rightarrow> string list \<Rightarrow> string list option" where
  "split_loop delim str results =
     (case str_find delim str 0 of
        Some cutAt \<Rightarrow> split_loop delim (drop (cutAt + length delim) str) (results @ [take cutAt str])
      | None \<Rightarrow> Some (if str \<noteq> [] then results @ [str] else results))"

definition StringSplit :: "string \<Rightarrow> string \<Rightarrow> string list option" where
  "StringSplit str delim = split_loop delim str []"

section \<open>Replacing\<close>

partial_function (option) replace_loop :: "nat \<Rightarrow> string \<Rightarrow> string \<Rightarrow> string \<Rightarrow> string option" where
  "replace_loop pos what w s =
     (case str_find what s pos of
        None \<Rightarrow> Some s
      | Some p \<Rightarrow> replace_loop (p + length w) what w (take p s @ w @ drop (p + length what) s))"

definition stdreplace :: "string \<Rightarrow> string \<Rightarrow> string \<Rightarrow> string option" where
  "stdreplace s what w = replace_loop 0 what w s"

definition replace_in :: "string option \<Rightarrow> string \<Rightarrow> string \<Rightarrow> string option" where
  "replace_in s what w = Option.bind s (\<lambda>s. stdreplace s what w)"

definition MakeHtml :: "string \<Rightarrow> string option" where
  "MakeHtml txt =
     replace_in (replace_in (replace_in (replace_in (replace_in (replace_in (Some txt)
       ''&'' ''&amp;'') [CHR 0x22] ''&quot;'') [CHR 0x27] ''&apos;'') ''<'' ''&lt;'') ''>'' ''&gt;'')
       [CHR 0x0D, CHR 0x0A] ''<br/>''"

definition SafeHtml :: "string \<Rightarrow> string option" where
  "SafeHtml txt =
     replace_in (replace_in (replace_in (replace_in (Some txt)
       [CHR 0x22] ''&quot;'') [CHR 0x27] ''&apos;'') ''<'' ''&lt;'') ''>'' ''&gt;''"

section \<open>Characters\<close>

definition to_lower :: "char \<Rightarrow> char" where
  "to_lower c = (let n = of_char c :: nat in if 65 \<le> n \<and> n \<le> 90 then char_of (n + 32) else c)"

definition stdlower :: "string \<Rightarrow> string" where
  "stdlower s = map to_lower s"

definition stdstring_ltrim :: "string \<Rightarrow> string" where
  "stdstring_ltrim s = dropWhile (\<lambda>c. c = CHR '' '') s"

definition stdstring_rtrim :: "string \<Rightarrow> string" where
  "stdstring_rtrim s = rev (dropWhile (\<lambda>c. c = CHR '' '') (rev s))"

definition stdstring_trim :: "string \<Rightarrow> string" where
  "stdstring_trim s = stdstring_ltrim (stdstring_rtrim s)"

definition isInt :: "string \<Rightarrow> bool" where
  "isInt s \<longleftrightarrow> list_all is_digit_char s"

definition is_number :: "string \<Rightarrow> bool" where
  "is_number s \<longleftrightarrow> s \<noteq> [] \<and>
     list_all (\<lambda>c. is_digit_char c \<or> c = CHR ''.'' \<or> c = CHR ''-'' \<or> c = CHR '' '' \<or> c = CHR 0x00) s"

definition padLeft :: "string \<Rightarrow> nat \<Rightarrow> char \<Rightarrow> string" where
  "padLeft str num paddingChar =
     (if num > length str then replicate (num - length str) paddingChar @ str else str)"

definition FixFolderEnding :: "string \<Rightarrow> string option" where
  "FixFolderEnding folder =
     (if folder = [] then None else Some (if last folder \<noteq> CHR ''/'' then folder @ ''/'' else folder))"

definition upper_hex :: "nat \<Rightarrow> char" where
  "upper_hex d = ''0123456789ABCDEF'' ! d"

fun hex_list :: "nat \<Rightarrow> bytes \<Rightarrow> string" where
  "hex_list index [] = []"
| "hex_list index (b # bs) =
     (if index \<noteq> 0 then '' '' else []) @ ''0x'' @ [upper_hex (unat b div 16), upper_hex (unat b mod 16)] @
     hex_list (Suc index) bs"

definition ToHexString :: "bytes option \<Rightarrow> string" where
  "ToHexString source = (case source of None \<Rightarrow> [] | Some bs \<Rightarrow> hex_list 0 bs)"

section \<open>Arguments of scripts\<close>

definition szInsecureArgumentOptions :: "string list" where
  "szInsecureArgumentOptions =
     [''import'', ''socket'', ''process'', ''os'', ''|'', '';'', ''&'', ''$'', ''<'', ''>'', [CHR 0x60], [CHR 0x0A], [CHR 0x0D]]"

definition IsArgumentSecure :: "string \<Rightarrow> bool" where
  "IsArgumentSecure arg = list_all (\<lambda>w. \<not> contains (stdlower arg) w) szInsecureArgumentOptions"

section \<open>Identifiers\<close>

text \<open>\<open>rand k\<close> is the \<open>k\<close>-th value of \<^verbatim>\<open>std::rand()\<close>; the loop carries how many were taken.\<close>

definition hexCHARS :: string where "hexCHARS = ''0123456789abcdef''"

definition uuid_template :: string where
  "uuid_template = (replicate 36 (CHR '' ''))[8 := CHR ''-'', 13 := CHR ''-'', 14 := CHR ''4'', 18 := CHR ''-'', 23 := CHR ''-'']"

definition uuid_step :: "(nat \<Rightarrow> nat) \<Rightarrow> nat \<Rightarrow> string \<times> nat \<Rightarrow> string \<times> nat" where
  "uuid_step rand ii = (\<lambda>(uuid, k).
     if uuid ! ii = CHR '' '' then
       (uuid[ii := hexCHARS ! (if ii = 19 then 8 + rand k mod 4 else rand k mod 16)], k + 1)
     else (uuid, k))"

definition GenerateUUID :: "(nat \<Rightarrow> nat) \<Rightarrow> nat \<Rightarrow> string \<times> nat" where
  "GenerateUUID rand k = fold (uuid_step rand) [0..<36] (uuid_template, k)"

section \<open>Differences of times\<close>

text \<open>
  \<^verbatim>\<open>timeval_subtract\<close> on seconds and microseconds: the result, what becomes of \<open>y\<close>, and if the first
  time is before the second.
\<close>

definition carry_down :: "int \<times> int \<Rightarrow> int \<times> int \<Rightarrow> int \<times> int" where
  "carry_down x y =
     (if snd x < snd y then
        let nsec = (snd y - snd x) div 1000000 + 1 in (fst y + nsec, snd y - 1000000 * nsec)
      else y)"

definition carry_up :: "int \<times> int \<Rightarrow> int \<times> int \<Rightarrow> int \<times> int" where
  "carry_up x y =
     (if snd x - snd y > 1000000 then
        let nsec = (snd x - snd y) div 1000000 in (fst y - nsec, snd y + 1000000 * nsec)
      else y)"

definition timeval_subtract :: "int \<times> int \<Rightarrow> int \<times> int \<Rightarrow> (int \<times> int) \<times> (int \<times> int) \<times> bool" where
  "timeval_subtract x y =
     (let y' = carry_up x (carry_down x y) in
      ((fst x - fst y', snd x - snd y'), y', fst x < fst y'))"

section \<open>Occurrences\<close>

lemma find_at_first: "find_at i pat (u @ pat @ v) = Some j \<Longrightarrow> j \<le> i + length u"
proof (induction u arbitrary: i)
  case Nil
  have "starts_with pat (pat @ v)" by simp
  with Nil show ?case by (cases "pat @ v") (auto split: if_splits)
next
  case (Cons c u)
  then show ?case by (cases "starts_with pat (c # u @ pat @ v)") (auto dest!: Cons.IH)
qed

lemma str_find_split:
  assumes "str_find pat s 0 = Some i"
  shows "s = take i s @ pat @ drop (i + length pat) s" "pat \<noteq> [] \<Longrightarrow> \<not> contains (take i s) pat"
proof -
  from str_find_occurs [OF assms] obtain w where w: "drop i s = pat @ w" by (auto simp: starts_with_iff)
  then have "w = drop (i + length pat) s" by (metis add.commute append_eq_conv_conj drop_drop)
  with w show "s = take i s @ pat @ drop (i + length pat) s" by (metis append_take_drop_id)
  show "\<not> contains (take i s) pat" if "pat \<noteq> []"
  proof
    assume "contains (take i s) pat"
    then obtain u v where u: "take i s = u @ pat @ v" by (auto simp: contains_iff)
    then have "s = u @ pat @ (v @ drop i s)" by (metis append.assoc append_take_drop_id)
    with assms have "i \<le> length u" using find_at_first [of 0 pat u "v @ drop i s" i] by (simp add: str_find_def)
    moreover from u have "length u + length pat + length v \<le> i" by (metis add.assoc length_append length_take min.cobounded2)
    ultimately show False using that by (cases pat) auto
  qed
qed

section \<open>Splitting\<close>

fun join :: "string \<Rightarrow> string list \<Rightarrow> string" where
  "join d [] = []"
| "join d [x] = x"
| "join d (x # xs) = x @ d @ join d xs"

lemma join_Cons: "xs \<noteq> [] \<Longrightarrow> join d (x # xs) = x @ d @ join d xs"
  by (cases xs) auto

text \<open>The parts of a text and what is lost at its end.\<close>

lemma split_loop_parts:
  assumes "d \<noteq> []"
  shows "\<exists>ps. split_loop d s rs = Some (rs @ ps) \<and> list_all (\<lambda>p. \<not> contains p d) ps \<and>
    (join d ps = s \<or> ps \<noteq> [] \<and> join d ps @ d = s) \<and> (s \<noteq> [] \<longrightarrow> ps \<noteq> [])"
proof (induction "length s" arbitrary: s rs rule: less_induct)
  case less
  show ?case
  proof (cases "str_find d s 0")
    case None
    then show ?thesis
      by (subst split_loop.simps) (auto simp: contains_def intro!: exI [of _ "if s = [] then [] else [s]"])
  next
    case (Some i)
    define t where "t = drop (i + length d) s"
    note s = str_find_split [OF Some, folded t_def]
    have "length t < length s" using str_find_bounds [OF Some] assms by (cases d) (auto simp: t_def)
    from less [OF this] obtain ps where ps: "split_loop d t (rs @ [take i s]) = Some ((rs @ [take i s]) @ ps)"
      "list_all (\<lambda>p. \<not> contains p d) ps" "join d ps = t \<or> ps \<noteq> [] \<and> join d ps @ d = t" "t \<noteq> [] \<longrightarrow> ps \<noteq> []" by blast
    have l: "split_loop d s rs = Some (rs @ take i s # ps)"
      using ps(1) Some by (subst split_loop.simps) (simp add: t_def)
    show ?thesis
    proof (cases "ps = []")
      case True
      with ps(4) have "t = []" by blast
      then have "join d [take i s] @ d = s" using s(1) by simp
      with True l s(2) assms show ?thesis by (intro exI [of _ "[take i s]"]) simp
    next
      case False
      then have j: "join d (take i s # ps) = take i s @ d @ join d ps" by (rule join_Cons)
      from ps(3) have "join d (take i s # ps) = s \<or> join d (take i s # ps) @ d = s"
        unfolding j using s(1) by (metis append.assoc)
      with False l s(2) ps(2) assms show ?thesis by (intro exI [of _ "take i s # ps"]) auto
    qed
  qed
qed

text \<open>splitting a text loses nothing but a delimiter at its end, and no part holds the
  delimiter.\<close>

theorem split_parts:
  assumes "d \<noteq> []"
  shows "\<exists>ps. StringSplit s d = Some ps \<and> list_all (\<lambda>p. \<not> contains p d) ps \<and> (join d ps = s \<or> join d ps @ d = s)"
  using split_loop_parts [OF assms, of s "[]"] by (auto simp: StringSplit_def)

theorem split_parts_witness:
  "\<exists>ps. StringSplit ''a, b,'' '', '' = Some ps \<and> list_all (\<lambda>p. \<not> contains p '', '') ps \<and>
     (join '', '' ps = ''a, b,'' \<or> join '', '' ps @ '', '' = ''a, b,'')"
  by (rule split_parts) simp

lemma split_empty_delimiter: "StringSplit s [] = None"
proof -
  have "\<not> split_loop [] s rs = Some y" for s rs y
  proof
    assume "split_loop [] s rs = Some y"
    have "[] = ([] :: string) \<longrightarrow> False"
    proof (rule split_loop.raw_induct [OF _ \<open>split_loop [] s rs = Some y\<close>, where P = "\<lambda>d s rs y. d = [] \<longrightarrow> False"])
      fix f :: "string \<Rightarrow> string \<Rightarrow> string list \<Rightarrow> string list option" and d s rs y
      assume "\<And>d s rs y. f d s rs = Some y \<Longrightarrow> d = [] \<longrightarrow> False"
        and "(case str_find d s 0 of
               None \<Rightarrow> Some (if s \<noteq> [] then rs @ [s] else rs)
             | Some i \<Rightarrow> f d (drop (i + length d) s) (rs @ [take i s])) = Some y"
      moreover have "str_find [] s 0 = Some 0" by (cases s) (simp_all add: str_find_def)
      ultimately show "d = [] \<longrightarrow> False" by fastforce
    qed
    then show False by simp
  qed
  then show ?thesis by (cases "StringSplit s []") (auto simp: StringSplit_def)
qed

section \<open>Replacing\<close>

text \<open>What replacing means.\<close>

function replace_all :: "string \<Rightarrow> string \<Rightarrow> string \<Rightarrow> string" where
  "replace_all what w [] = []"
| "replace_all what w (c # cs) =
     (if what \<noteq> [] \<and> starts_with what (c # cs) then w @ replace_all what w (drop (length what) (c # cs))
      else c # replace_all what w cs)"
  by pat_completeness auto
termination
  by (relation "measure (\<lambda>(what, w, s). length s)") (auto simp: diff_less_Suc)

lemma replace_all_find:
  "what \<noteq> [] \<Longrightarrow> (case find_at i what s of
     None \<Rightarrow> replace_all what w s = s
   | Some p \<Rightarrow> replace_all what w s = take (p - i) s @ w @ replace_all what w (drop (p - i + length what) s))"
proof (induction i what s rule: find_at.induct)
  case (2 i pat c cs)
  show ?case
  proof (cases "starts_with pat (c # cs)")
    case False
    with 2 show ?thesis
      by (cases "find_at (Suc i) pat cs")
        (auto dest: find_at_bounds simp: Suc_diff_le Suc_le_eq take_Cons' drop_Cons')
  qed (use 2 in simp)
qed simp

lemma replace_loop_all:
  "what \<noteq> [] \<Longrightarrow> replace_loop (length a) what w (a @ s) = Some (a @ replace_all what w s)"
proof (induction "length s" arbitrary: a s rule: less_induct)
  case less
  have f: "str_find what (a @ s) (length a) = find_at (length a) what s" by (simp add: str_find_def)
  show ?case
  proof (cases "find_at (length a) what s")
    case None
    with f replace_all_find [OF less.prems, where i = "length a" and s = s and w = w] show ?thesis
      by (subst replace_loop.simps) simp
  next
    case (Some p)
    define k where "k = p - length a"
    have b: "length a \<le> p" "p + length what \<le> length a + length s" using find_at_bounds [OF Some] by auto
    then have p: "p = length a + k" by (simp add: k_def)
    have "length (drop (k + length what) s) < length s" using less.prems b by (cases what) (auto simp: k_def)
    from less.hyps [OF this less.prems, of "a @ take k s @ w"]
    have "replace_loop (p + length w) what w (take p (a @ s) @ w @ drop (p + length what) (a @ s)) =
        Some (a @ take k s @ w @ replace_all what w (drop (k + length what) s))"
      using b by (simp add: p add.assoc)
    moreover from Some replace_all_find [OF less.prems, where i = "length a" and s = s and w = w]
    have "replace_all what w s = take k s @ w @ replace_all what w (drop (k + length what) s)" by (simp add: k_def)
    ultimately show ?thesis using f Some by (subst replace_loop.simps) simp
  qed
qed

lemma stdreplace_all: "what \<noteq> [] \<Longrightarrow> stdreplace s what w = Some (replace_all what w s)"
  using replace_loop_all [of what "[]" w s] by (simp add: stdreplace_def)

lemma replace_all_char: "replace_all [x] w s = concat (map (\<lambda>c. if c = x then w else [c]) s)"
  by (induction s) (auto simp: starts_with_iff)

lemma replace_all_absent: "hd what \<notin> set s \<Longrightarrow> what \<noteq> [] \<Longrightarrow> replace_all what w s = s"
  by (induction s) (cases what; auto)+

section \<open>Text in pages\<close>

definition escape :: "char \<Rightarrow> string" where
  "escape c =
     (if c = CHR ''&'' then ''&amp;'' else if c = CHR 0x22 then ''&quot;'' else if c = CHR 0x27 then ''&apos;''
      else if c = CHR ''<'' then ''&lt;'' else if c = CHR ''>'' then ''&gt;'' else [c])"

lemma concat_map_concat: "concat (map g (concat (map f s))) = concat (map (\<lambda>x. concat (map g (f x))) s)"
  by (induction s) simp_all

lemma MakeHtml_escape: "MakeHtml t = Some (replace_all [CHR 0x0D, CHR 0x0A] ''<br/>'' (concat (map escape t)))"
proof -
  have "concat (map (\<lambda>c. if c = CHR ''>'' then ''&gt;'' else [c])
      (concat (map (\<lambda>c. if c = CHR ''<'' then ''&lt;'' else [c])
        (concat (map (\<lambda>c. if c = CHR 0x27 then ''&apos;'' else [c])
          (concat (map (\<lambda>c. if c = CHR 0x22 then ''&quot;'' else [c])
            (if c = CHR ''&'' then ''&amp;'' else [c])))))))) = escape c" for c
    by (simp add: escape_def)
  then show ?thesis
    by (simp add: MakeHtml_def replace_in_def stdreplace_all replace_all_char concat_map_concat)
qed

text \<open>Reading the entities back.\<close>

fun unescape :: "string \<Rightarrow> string" where
  "unescape [] = []"
| "unescape (c # cs) =
     (if starts_with ''&amp;'' (c # cs) then CHR ''&'' # unescape (drop 4 cs)
      else if starts_with ''&quot;'' (c # cs) then CHR 0x22 # unescape (drop 5 cs)
      else if starts_with ''&apos;'' (c # cs) then CHR 0x27 # unescape (drop 5 cs)
      else if starts_with ''&lt;'' (c # cs) then CHR ''<'' # unescape (drop 3 cs)
      else if starts_with ''&gt;'' (c # cs) then CHR ''>'' # unescape (drop 3 cs)
      else c # unescape cs)"

lemma unescape_escape: "unescape (escape c @ s) = c # unescape s"
  by (simp add: escape_def)

text \<open>text without line breaks made into HTML has no character that opens a tag or an
  attribute, and a browser shows the text itself.\<close>

theorem html_text_safe:
  assumes "CHR 0x0D \<notin> set t"
  shows "\<exists>h. MakeHtml t = Some h \<and> set h \<inter> {CHR ''<'', CHR ''>'', CHR 0x22, CHR 0x27} = {} \<and> unescape h = t"
proof (intro exI conjI)
  let ?h = "concat (map escape t)"
  have "CHR 0x0D \<notin> set ?h" using assms by (auto simp: escape_def split: if_splits)
  then show "MakeHtml t = Some ?h" by (simp add: MakeHtml_escape replace_all_absent)
  show "set ?h \<inter> {CHR ''<'', CHR ''>'', CHR 0x22, CHR 0x27} = {}" by (auto simp: escape_def split: if_splits)
  show "unescape ?h = t" by (induction t) (simp_all add: unescape_escape)
qed

theorem html_text_safe_witness:
  "\<exists>h. MakeHtml ''a<b>&c'' = Some h \<and> set h \<inter> {CHR ''<'', CHR ''>'', CHR 0x22, CHR 0x27} = {} \<and> unescape h = ''a<b>&c''"
  by (rule html_text_safe) simp

section \<open>Identifiers\<close>

definition uuid_place :: "nat \<Rightarrow> char \<Rightarrow> bool" where
  "uuid_place i c \<longleftrightarrow>
     (if i = 8 \<or> i = 13 \<or> i = 18 \<or> i = 23 then c = CHR ''-''
      else if i = 14 then c = CHR ''4''
      else if i = 19 then c \<in> set ''89ab''
      else c \<in> set hexCHARS)"

definition is_uuid :: "string \<Rightarrow> bool" where
  "is_uuid u \<longleftrightarrow> length u = 36 \<and> (\<forall>i \<in> set [0..<36]. uuid_place i (u ! i))"

lemma uuid_template_place:
  "i < 36 \<Longrightarrow> uuid_template ! i \<noteq> CHR '' '' \<Longrightarrow> uuid_place i (uuid_template ! i)"
  "i < 36 \<Longrightarrow> i \<in> {8, 13, 14, 18, 23} \<longleftrightarrow> uuid_template ! i \<noteq> CHR '' ''"
  "length uuid_template = 36"
proof -
  have "\<forall>i \<in> set [0..<36]. (uuid_template ! i \<noteq> CHR '' '' \<longrightarrow> uuid_place i (uuid_template ! i)) \<and>
      (i \<in> {8, 13, 14, 18, 23} \<longleftrightarrow> uuid_template ! i \<noteq> CHR '' '')" by code_simp
  then show "i < 36 \<Longrightarrow> uuid_template ! i \<noteq> CHR '' '' \<Longrightarrow> uuid_place i (uuid_template ! i)"
    "i < 36 \<Longrightarrow> i \<in> {8, 13, 14, 18, 23} \<longleftrightarrow> uuid_template ! i \<noteq> CHR '' ''" by auto
  show "length uuid_template = 36" by (simp add: uuid_template_def)
qed

lemma uuid_random_place:
  assumes "i \<notin> {8, 13, 14, 18, 23}"
  shows "uuid_place i (hexCHARS ! (if i = 19 then 8 + r mod 4 else r mod 16))"
proof (cases "i = 19")
  case True
  have "\<forall>n \<in> set [0..<4]. hexCHARS ! (8 + n) \<in> set ''89ab''" by code_simp
  moreover have "r mod 4 \<in> set [0..<4]" by simp
  ultimately have "hexCHARS ! (8 + r mod 4) \<in> set ''89ab''" by blast
  with True show ?thesis by (simp add: uuid_place_def)
next
  case False
  have "length hexCHARS = 16" by (simp add: hexCHARS_def)
  then have "hexCHARS ! (r mod 16) \<in> set hexCHARS" by (intro nth_mem) simp
  with False assms show ?thesis by (simp add: uuid_place_def)
qed

lemma uuid_loop:
  "n \<le> 36 \<Longrightarrow> fold (uuid_step rand) [0..<n] (uuid_template, k) = (u, k') \<Longrightarrow>
   length u = 36 \<and> (\<forall>i < n. uuid_place i (u ! i)) \<and> (\<forall>i. n \<le> i \<and> i < 36 \<longrightarrow> u ! i = uuid_template ! i)"
proof (induction n arbitrary: u k')
  case 0
  then show ?case by (simp add: uuid_template_place)
next
  case (Suc n)
  obtain v j where v: "fold (uuid_step rand) [0..<n] (uuid_template, k) = (v, j)" by fastforce
  with Suc have ih: "length v = 36" "\<forall>i < n. uuid_place i (v ! i)" "\<forall>i. n \<le> i \<and> i < 36 \<longrightarrow> v ! i = uuid_template ! i" by auto
  from Suc.prems v have u: "uuid_step rand n (v, j) = (u, k')" by simp
  have vn: "v ! n = uuid_template ! n" using ih(3) Suc.prems(1) by simp
  show ?case
  proof (cases "v ! n = CHR '' ''")
    case True
    then have "n \<notin> {8, 13, 14, 18, 23}" using uuid_template_place(2) [of n] Suc.prems(1) vn by simp
    from uuid_random_place [OF this] u True ih Suc.prems(1) show ?thesis
      by (auto simp: uuid_step_def nth_list_update less_Suc_eq)
  next
    case False
    with u ih uuid_template_place(1) [of n] Suc.prems(1) vn show ?thesis
      by (auto simp: uuid_step_def less_Suc_eq)
  qed
qed

text \<open>C20: whatever the random numbers are, the identifier has the form of a random UUID: 36
  characters, the version and variant digits, and hexadecimal digits elsewhere.\<close>

theorem uuid_well_formed: "is_uuid (fst (GenerateUUID rand k))"
  using uuid_loop [of 36 rand k] by (cases "GenerateUUID rand k") (auto simp: GenerateUUID_def is_uuid_def)

section \<open>Times\<close>

definition micros :: "int \<times> int \<Rightarrow> int" where
  "micros t = fst t * 1000000 + snd t"

lemma timeval_exact:
  assumes "0 \<le> snd x" "snd x < 1000000" "0 \<le> snd y" "snd y < 1000000" "timeval_subtract x y = (r, y', neg)"
  shows "micros r = micros x - micros y \<and> 0 \<le> snd r \<and> snd r < 1000000 \<and> micros y' = micros y \<and>
    (neg \<longleftrightarrow> micros x < micros y)"
proof (cases "snd x < snd y")
  case True
  then have "(snd y - snd x) div 1000000 = 0" using assms by (intro div_pos_pos_trivial) auto
  with True assms show ?thesis
    by (auto simp: timeval_subtract_def carry_down_def carry_up_def micros_def Let_def)
next
  case False
  with assms show ?thesis
    by (auto simp: timeval_subtract_def carry_down_def carry_up_def micros_def Let_def)
qed

end
