(* ===== verification/ConcurrentQueue.thy ===== *)
theory ConcurrentQueue
  imports Fifo
begin

text \<open>
  \<^verbatim>\<open>main/concurrent_queue.h\<close>.  Every method holds the lock for all it does, so a run of several
  threads is a sequence of whole methods.  A method that waits is \<^const>\<open>None\<close> while it does.
\<close>

section \<open>The queue\<close>

definition queue_push :: "'a list \<Rightarrow> 'a \<Rightarrow> 'a list" where
  "queue_push q x = q @ [x]"

definition try_pop :: "'a list \<Rightarrow> 'a option \<times> 'a list" where
  "try_pop q = (case q of [] \<Rightarrow> (None, q) | x # xs \<Rightarrow> (Some x, xs))"

definition wait_and_pop :: "'a list \<Rightarrow> ('a \<times> 'a list) option" where
  "wait_and_pop q = (case q of [] \<Rightarrow> None | x # xs \<Rightarrow> Some (x, xs))"

text \<open>\<open>q\<close> is what the queue holds when the wait ends, by a notification or by time.\<close>

definition timed_wait_and_pop :: "'a list \<Rightarrow> 'a option \<times> 'a list" where
  "timed_wait_and_pop q = (if q = [] then (None, q) else (Some (hd q), tl q))"

fun queue_clear :: "'a list \<Rightarrow> 'a list" where
  "queue_clear [] = []"
| "queue_clear (x # xs) = queue_clear xs"

definition queue_size :: "'a list \<Rightarrow> nat" where "queue_size q = length q"
definition queue_empty :: "'a list \<Rightarrow> bool" where "queue_empty q \<longleftrightarrow> q = []"

section \<open>The contract\<close>

interpretation queue: fifo_queue "\<lambda>q. q" queue_push try_pop
  by unfold_locales (auto simp: queue_push_def try_pop_def)

interpretation timed_queue: fifo_queue "\<lambda>q. q" queue_push timed_wait_and_pop
  by unfold_locales (auto simp: queue_push_def timed_wait_and_pop_def)

lemma queue_clear_empty: "queue_empty (queue_clear q) \<and> queue_size (queue_clear q) = 0"
  by (induction q) (auto simp: queue_empty_def queue_size_def)

lemma wait_and_pop_try: "wait_and_pop q = (case try_pop q of (Some x, q') \<Rightarrow> Some (x, q') | _ \<Rightarrow> None)"
  by (cases q) (auto simp: wait_and_pop_def try_pop_def)

text \<open>Nothing is lost, doubled or reordered, whichever threads push and pop.\<close>

lemma queue_order:
  "q @ [x. Push x \<leftarrow> ops] = snd (queue.run q ops) @ fst (queue.run q ops)"
  by (rule queue.run_contents)

section \<open>The trigger\<close>

definition popped :: "bool \<Rightarrow> bool" where "popped element_popped = True"

definition wait :: "bool \<Rightarrow> bool option" where
  "wait element_popped = (if element_popped then Some element_popped else None)"

definition timed_wait :: "bool \<Rightarrow> bool" where "timed_wait element_popped = element_popped"

end
