(* ===== verification/PageRows.thy ===== *)
theory PageRows
  imports SharedWebSocket
begin

text \<open>
  Rows as the list pages of the browser application (\<^verbatim>\<open>web/www/main-es2015...js\<close>) hold them: objects
  that the list, the selection and a dialog share.  A row is known by its place in the sequence of
  all row objects that have been created; \<^verbatim>\<open>==\<close> on objects compares places.
\<close>

section \<open>Merging by reference\<close>

text \<open>The loop of \<^verbatim>\<open>subscribe\<close>: \<open>u\<close> is the object of the message, \<open>r\<close> its identifier.\<close>

fun ref_loop ::
  "shared_ws \<Rightarrow> item list \<Rightarrow> jsv \<Rightarrow> nat \<Rightarrow> nat list \<Rightarrow> bool \<times> nat list \<times> string \<Rightarrow> bool \<times> nat list \<times> string" where
  "ref_loop ws h r u [] st = st"
| "ref_loop ws h r u (t # ts) (n, i, s) =
     (let o' = getID ws (h ! t) in
      if js_eq o' (js_neg r) then ref_loop ws h r u ts (True, i, getName ws (h ! t) @ '' deleted.'')
      else if js_eq o' r then ref_loop ws h r u ts (True, i @ [u], getName ws (h ! u) @ '' updated.'')
      else ref_loop ws h r u ts (n, i @ [t], s))"

definition ref_merge :: "shared_ws \<Rightarrow> item list \<Rightarrow> nat list \<Rightarrow> nat \<Rightarrow> nat list \<times> string" where
  "ref_merge ws h refs u =
     (let (n, i, s) = ref_loop ws h (getID ws (h ! u)) u refs (False, [], ''Unknown update to '' @ targetName ws)
      in if n then (i, s) else (i @ [u], getName ws (h ! u) @ '' added.''))"

text \<open>The values a list of references shows.\<close>

definition values_of :: "item list \<Rightarrow> nat list \<Rightarrow> item list" where
  "values_of h refs = map ((!) h) refs"

lemma values_of_simps [simp]:
  "values_of h [] = []" "values_of h (r # rs) = h ! r # values_of h rs"
  "values_of h (xs @ ys) = values_of h xs @ values_of h ys" "length (values_of h rs) = length rs"
  by (simp_all add: values_of_def)

lemma values_of_snoc: "values_of h xs @ [h ! x] = values_of h (xs @ [x])"
  by simp

lemma ref_loop_values:
  "merge_loop ws r (h ! u) (values_of h ts) (n, values_of h i, s) =
   (case ref_loop ws h r u ts (n, i, s) of (n', i', s') \<Rightarrow> (n', values_of h i', s'))"
proof (induction ts arbitrary: n i s)
  case (Cons t ts)
  note IH = Cons.IH [of True i "getName ws (h ! t) @ '' deleted.''"]
    Cons.IH [of True "i @ [u]" "getName ws (h ! u) @ '' updated.''"] Cons.IH [of n "i @ [t]" s]
  show ?case
    by (simp add: Let_def values_of_snoc IH del: values_of_simps(3))
qed simp

text \<open>Merging references is merging rows.\<close>

lemma ref_merge_values:
  "merge_row ws (values_of h refs) (h ! u) = map_prod (values_of h) id (ref_merge ws h refs u)"
  using ref_loop_values [of ws "getID ws (h ! u)" h u refs False "[]"]
  by (auto simp: merge_row_def ref_merge_def split_beta prod_eq_iff)

lemma ref_loop_refs:
  "set (fst (snd (ref_loop ws h r u ts (n, i, s)))) \<subseteq> insert u (set ts \<union> set i)"
proof (induction ts arbitrary: n i s)
  case (Cons t ts)
  note IH = Cons.IH [of True i "getName ws (h ! t) @ '' deleted.''"]
    Cons.IH [of True "i @ [u]" "getName ws (h ! u) @ '' updated.''"] Cons.IH [of n "i @ [t]" s]
  show ?case using IH by (auto simp: Let_def)
qed auto

lemma ref_merge_refs: "set (fst (ref_merge ws h refs u)) \<subseteq> insert u (set refs)"
  using ref_loop_refs [of ws h "getID ws (h ! u)" u refs False "[]" "''Unknown update to '' @ targetName ws"]
  by (simp add: ref_merge_def split_beta)

lemma ref_merge_text: "snd (ref_merge ws h refs u) = snd (merge_row ws (values_of h refs) (h ! u))"
  by (simp add: ref_merge_values)

text \<open>Objects that are created later do not change what older references show.\<close>

lemma values_of_extend [simp]:
  "list_all (\<lambda>r. r < length h) refs \<Longrightarrow> values_of (h @ h') refs = values_of h refs"
  by (induction refs) (auto simp: nth_append)

lemma values_of_new [simp]: "values_of (h @ rows) [length h..<length h + length rows] = rows"
  by (intro nth_equalityI) (simp_all add: values_of_def nth_append)

end
