(* ===== verification/ListPage.thy ===== *)
theory ListPage
  imports PageRows
begin

text \<open>
  The list pages of the browser application (\<^verbatim>\<open>web/www/main-es2015...js\<close>): each loads a table with
  a request, listens to its changes on a web socket of its own, and offers to start again when the
  socket fails.  The pages are one text with different tables; \<open>page_config\<close> holds what differs.

  The parts of the page that work on their own, the socket of \<^verbatim>\<open>WebSocketSubject\<close> (minified name
  \<^verbatim>\<open>aL\<close>), the requests and the message bar, are events: a run of the browser is a sequence of them.
\<close>

section \<open>Configurations\<close>

record page_config =
  pc_ws :: shared_ws
  pc_checks_active :: bool
  pc_makes_source :: bool
  pc_empty_source :: bool
  pc_default_column :: string
  pc_columns :: "string list"
  pc_one :: string
  pc_many :: string
  pc_none :: string
  pc_title :: string

text \<open>
  \<open>pc_checks_active\<close>: the page has the flag \<^verbatim>\<open>isActive\<close>; \<open>pc_makes_source\<close>: a pushed row makes a data
  source when there is none; \<open>pc_empty_source\<close>: so does an empty reply.
\<close>

definition table_page :: "shared_ws \<Rightarrow> string \<Rightarrow> string list \<Rightarrow> page_config" where
  "table_page ws name cols = \<lparr>pc_ws = ws, pc_checks_active = True, pc_makes_source = False,
     pc_empty_source = False, pc_default_column = ''UnitID'', pc_columns = cols, pc_one = name,
     pc_many = name @ ''s'', pc_none = name @ ''s'', pc_title = name\<rparr>"

definition log_page :: "shared_ws \<Rightarrow> string \<Rightarrow> string list \<Rightarrow> page_config" where
  "log_page ws name cols = \<lparr>pc_ws = ws, pc_checks_active = False, pc_makes_source = False,
     pc_empty_source = False, pc_default_column = ''Timestamp'', pc_columns = cols,
     pc_one = name @ '' entries'', pc_many = name @ '' entries'', pc_none = name @ '' entries'', pc_title = name\<rparr>"

definition layout_page :: "shared_ws \<Rightarrow> string \<Rightarrow> string list \<Rightarrow> page_config" where
  "layout_page ws name cols =
     (table_page ws name cols)\<lparr>pc_makes_source := True, pc_default_column := name @ ''ID''\<rparr>"

definition Roles_page :: page_config where
  "Roles_page = table_page Roles_ws ''Role'' [''RoleID'', ''Name'', ''RemoteAccess'', ''InternalTTL'', ''RemoteTTL'']"

definition Users_page :: page_config where
  "Users_page = table_page Users_ws ''User''
     [''UserID'', ''UserName'', ''Name'', ''RoleID'', ''Active'', ''ForceChange'', ''FailedAttempts'', ''Timestamp'']"

definition TableAccess_page :: page_config where
  "TableAccess_page =
     (table_page TableAccess_ws ''Table Access''
        [''TableAccessID'', ''Name'', ''RoleID'', ''CanGET'', ''CanPOST'', ''CanPUT'', ''CanPATCH'', ''CanDELETE'',
         ''DontGETFields'', ''PUTFields'', ''PATCHFields''])
     \<lparr>pc_empty_source := True, pc_many := ''Table Accesses'', pc_none := ''Table Accesses''\<rparr>"

definition Interfaces_page :: page_config where
  "Interfaces_page = table_page Interfaces_ws ''Interface''
     [''InterfaceID'', ''Name'', ''Debug'', ''Notifiable'', ''Active'']"

definition Devices_page :: "jsv \<Rightarrow> page_config" where
  "Devices_page i = table_page (Devices_ws i) ''Device''
     [''DeviceID'', ''Name'', ''InternalID'', ''Address'', ''Debug'', ''Enabled'', ''Active'', ''Timestamp'']"

definition Values_page :: "jsv \<Rightarrow> page_config" where
  "Values_page i = table_page (Values_ws i) ''Value''
     [''ValueID'', ''Name'', ''InternalID'', ''UnitID'', ''Value'', ''RetentionDays'', ''RetentionInterval'',
      ''Debug'', ''Timestamp'']"

definition Units_page :: page_config where
  "Units_page = table_page Units_ws ''Unit''
     [''UnitID'', ''Name'', ''Minimum'', ''Maximum'', ''IconList'', ''TextLabels'']"

definition Preferences_page :: page_config where
  "Preferences_page =
     (table_page Preferences_ws ''Preference'' [''PreferenceID'', ''Name'', ''Value''])\<lparr>pc_checks_active := False\<rparr>"

definition InterfaceLogs_page :: "jsv \<Rightarrow> page_config" where
  "InterfaceLogs_page i = (log_page (InterfaceLogs_ws i) ''Interface Log'' [''Timestamp'', ''Message''])
     \<lparr>pc_one := ''Interface Log entry'', pc_none := ''Interface Logs''\<rparr>"

definition DeviceLogs_page :: "jsv \<Rightarrow> page_config" where
  "DeviceLogs_page i = (log_page (DeviceLogs_ws i) ''Device Log'' [''Timestamp'', ''Message''])
     \<lparr>pc_one := ''Device Log entry'', pc_none := ''Device Logs''\<rparr>"

definition ValueLogs_page :: "jsv \<Rightarrow> page_config" where
  "ValueLogs_page i = log_page (ValueLogs_ws i) ''Value Log'' [''Timestamp'', ''Message'']"

definition ValueHistorys_page :: "jsv \<Rightarrow> page_config" where
  "ValueHistorys_page i = log_page (ValueHistorys_ws i) ''Value History'' [''ValueID'', ''Value'', ''Timestamp'']"

definition Layouts_page :: page_config where
  "Layouts_page = layout_page Layouts_ws ''Layout'' [''LayoutID'', ''Name'', ''MinimumWidth'', ''Active'']"

definition Tabs_page :: page_config where
  "Tabs_page = layout_page Tabs_ws ''Tab'' [''TabID'', ''LayoutID'', ''Name'', ''DisplayOrder'', ''Icon'']"

definition Tiles_page :: page_config where
  "Tiles_page = layout_page Tiles_ws ''Tile''
     [''TileID'', ''TabID'', ''Name'', ''DisplayOrder'', ''RowSpan'', ''ColumnSpan'']"

section \<open>The page\<close>

text \<open>
  \<open>ds_ready\<close>: the source has the page's sort, paginator and filter predicate.  A filter is
  \<^const>\<open>None\<close> when it is the empty string.
\<close>

record data_source =
  ds_data :: "nat list"
  ds_filter :: "(string \<times> string) list option"
  ds_ready :: bool

text \<open>
  A connection: its ready state, whether the subject still refers to the socket, and whether the
  subscription is open.
\<close>

datatype ready_state = Connecting | Opened | Closing | Closed

record conn =
  cn_state :: ready_state
  cn_attached :: bool
  cn_observed :: bool

record list_page =
  objects :: "item list"
  dataSource :: "data_source option"
  selectedRow :: "nat option"
  selectedRowNumber :: jsv
  isActive :: bool
  webSocketSubscriber :: "nat option"
  conns :: "conn list"
  loads :: nat
  snack :: "(string \<times> bool) option"

definition new_page :: list_page where
  "new_page = \<lparr>objects = [], dataSource = None, selectedRow = None, selectedRowNumber = JNum 0,
     isActive = False, webSocketSubscriber = None, conns = [], loads = 0, snack = None\<rparr>"

text \<open>The message bar shows one text; the flag is its action \<^verbatim>\<open>Retry\<close>.\<close>

definition open_snack :: "string \<Rightarrow> bool \<Rightarrow> list_page \<Rightarrow> list_page" where
  "open_snack s retry p = p\<lparr>snack := Some (s, retry)\<rparr>"

definition getItems :: "list_page \<Rightarrow> nat list" where
  "getItems p = (case dataSource p of None \<Rightarrow> [] | Some ds \<Rightarrow> ds_data ds)"

definition getItemCount :: "list_page \<Rightarrow> nat" where
  "getItemCount p = (case dataSource p of None \<Rightarrow> 0 | Some ds \<Rightarrow> length (ds_data ds))"

text \<open>The rows the page holds.\<close>

definition shown :: "list_page \<Rightarrow> item list" where
  "shown p = values_of (objects p) (getItems p)"

section \<open>Subscriptions\<close>

definition subscribe :: "list_page \<Rightarrow> list_page" where
  "subscribe p = p\<lparr>conns := conns p @ [\<lparr>cn_state = Connecting, cn_attached = True, cn_observed = True\<rparr>],
     webSocketSubscriber := Some (length (conns p))\<rparr>"

definition loadData :: "list_page \<Rightarrow> list_page" where
  "loadData p = p\<lparr>loads := loads p + 1\<rparr>"

definition ngAfterViewInit :: "page_config \<Rightarrow> list_page \<Rightarrow> list_page" where
  "ngAfterViewInit c p =
     (let q = subscribe (loadData p) in if pc_checks_active c then q\<lparr>isActive := True\<rparr> else q)"

text \<open>
  The end of a subscription closes the socket when it is open; the subject then forgets it, so that
  a socket which opens later is closed at once.
\<close>

definition conn_end :: "conn \<Rightarrow> conn" where
  "conn_end k =
     (if cn_observed k
      then k\<lparr>cn_observed := False, cn_attached := False,
             cn_state := if cn_attached k \<and> cn_state k = Opened then Closing else cn_state k\<rparr>
      else k)"

definition end_subscription :: "nat \<Rightarrow> list_page \<Rightarrow> list_page" where
  "end_subscription i p = p\<lparr>conns := (conns p)[i := conn_end (conns p ! i)]\<rparr>"

definition end_current :: "list_page \<Rightarrow> list_page" where
  "end_current p = (case webSocketSubscriber p of None \<Rightarrow> p | Some i \<Rightarrow> end_subscription i p)"

definition unsubscribe :: "page_config \<Rightarrow> list_page \<Rightarrow> list_page" where
  "unsubscribe c p =
     (if webSocketSubscriber p = None then p
      else let q = end_current p in
        if pc_checks_active c \<longrightarrow> isActive q
        then open_snack (pc_title c @ '' List socket has disconnected.'') True q else q)"

definition ngOnDestroy :: "page_config \<Rightarrow> list_page \<Rightarrow> list_page" where
  "ngOnDestroy c p = end_current (if pc_checks_active c then p\<lparr>isActive := False\<rparr> else p)"

section \<open>Events\<close>

subsection \<open>The socket\<close>

definition on_open :: "nat \<Rightarrow> list_page \<Rightarrow> list_page" where
  "on_open i p = p\<lparr>conns := (conns p)[i := (conns p ! i)\<lparr>cn_state :=
     if cn_attached (conns p ! i) then Opened else Closing\<rparr>]\<rparr>"

text \<open>A row arrived: what the observer of \<^verbatim>\<open>subscribe\<close> does; \<^const>\<open>None\<close> when it raises.\<close>

definition take_row :: "page_config \<Rightarrow> item \<Rightarrow> list_page \<Rightarrow> list_page option" where
  "take_row c u p =
     (let h = objects p @ [u]; (refs, s) = ref_merge (pc_ws c) h (getItems p) (length (objects p));
          told = (\<lambda>q. if s \<noteq> [] then open_snack s False q else q)
      in case dataSource p of
           Some ds \<Rightarrow> Some (told (p\<lparr>objects := h, dataSource := Some (ds\<lparr>ds_data := refs\<rparr>)\<rparr>))
         | None \<Rightarrow>
             if pc_makes_source c
             then Some (told (p\<lparr>objects := h,
               dataSource := Some \<lparr>ds_data = refs, ds_filter = None, ds_ready = False\<rparr>\<rparr>))
             else None)"

text \<open>An observer that raises loses its subscription.\<close>

definition observe :: "page_config \<Rightarrow> nat \<Rightarrow> push_msg \<Rightarrow> list_page \<Rightarrow> list_page" where
  "observe c i e p =
     (case map_of e (targetName (pc_ws c)) of
        None \<Rightarrow> p
      | Some [] \<Rightarrow> end_subscription i p
      | Some (u # _) \<Rightarrow>
          if isRelevant (pc_ws c) (shown p) u
          then (case take_row c u p of None \<Rightarrow> end_subscription i p | Some q \<Rightarrow> q)
          else p)"

definition on_push :: "page_config \<Rightarrow> nat \<Rightarrow> push_msg \<Rightarrow> list_page \<Rightarrow> list_page" where
  "on_push c i e p = (if cn_observed (conns p ! i) then observe c i e p else p)"

text \<open>The error callback of the page, then the end of the subscription.\<close>

datatype fault = Raised string | Fired string

definition fault_text :: "fault \<Rightarrow> string" where
  "fault_text f = (case f of
      Raised m \<Rightarrow> ''Domoticz error '' @ [CHR 0x27] @ m @ [CHR 0x27] @ ''.''
    | Fired t \<Rightarrow>
        if t \<noteq> ''close'' then ''Domoticz error '' @ [CHR 0x27] @ t @ [CHR 0x27] @ ''.''
        else ''Domoticz terminated the connection.'')"

definition signal :: "nat \<Rightarrow> fault \<Rightarrow> list_page \<Rightarrow> list_page" where
  "signal i f p =
     (if cn_observed (conns p ! i) then end_subscription i (open_snack (fault_text f) True p) else p)"

definition detach :: "nat \<Rightarrow> list_page \<Rightarrow> list_page" where
  "detach i p = p\<lparr>conns := (conns p)[i := (conns p ! i)\<lparr>cn_attached := False\<rparr>]\<rparr>"

definition on_error :: "nat \<Rightarrow> list_page \<Rightarrow> list_page" where
  "on_error i p = signal i (Fired ''error'') (detach i p)"

text \<open>\<^verbatim>\<open>onclose\<close>: the close observer is the page's \<^verbatim>\<open>unsubscribe\<close>, whichever connection closed.\<close>

definition on_close :: "page_config \<Rightarrow> nat \<Rightarrow> bool \<Rightarrow> list_page \<Rightarrow> list_page" where
  "on_close c i clean p =
     (let q = unsubscribe c (detach i (p\<lparr>conns := (conns p)[i := (conns p ! i)\<lparr>cn_state := Closed\<rparr>]\<rparr>))
      in if clean then (if cn_observed (conns q ! i) then end_subscription i q else q)
         else signal i (Fired ''close'') q)"

subsection \<open>Replies\<close>

definition loaded_text :: "page_config \<Rightarrow> string \<Rightarrow> nat \<Rightarrow> string" where
  "loaded_text c count n = count @ '' '' @ (if n > 1 then pc_many c else pc_one c) @ '' loaded. ''"

text \<open>\<open>rows\<close> is \<^const>\<open>None\<close> when the reply has no content; \<open>count\<close> is its \<^verbatim>\<open>Count\<close>.\<close>

definition on_loaded :: "page_config \<Rightarrow> (string \<times> item list) option \<Rightarrow> list_page \<Rightarrow> list_page" where
  "on_loaded c reply p =
     (let q = p\<lparr>loads := loads p - 1\<rparr> in
      case reply of
        Some (count, rows) \<Rightarrow>
          open_snack (loaded_text c count (length rows)) False
            (q\<lparr>objects := objects p @ rows,
               dataSource := Some \<lparr>ds_data = [length (objects p)..<length (objects p) + length rows],
                 ds_filter = None, ds_ready = True\<rparr>\<rparr>)
      | None \<Rightarrow>
          (let q' = open_snack (''No '' @ pc_none c @ '' returned. '') False q
           in if pc_empty_source c
              then q'\<lparr>dataSource := Some \<lparr>ds_data = [], ds_filter = None, ds_ready = False\<rparr>\<rparr> else q'))"

definition on_load_failed :: "string \<Rightarrow> list_page \<Rightarrow> list_page" where
  "on_load_failed statusText p = open_snack statusText False (p\<lparr>loads := loads p - 1\<rparr>)"

subsection \<open>The user\<close>

definition on_retry :: "page_config \<Rightarrow> list_page \<Rightarrow> list_page" where
  "on_retry c p = ngAfterViewInit c (p\<lparr>snack := None\<rparr>)"

definition on_click :: "page_config \<Rightarrow> nat \<Rightarrow> list_page \<Rightarrow> list_page" where
  "on_click c r p = p\<lparr>selectedRow := (if selectedRow p = Some r then None else Some r),
     selectedRowNumber := getID (pc_ws c) (objects p ! r)\<rparr>"

definition on_dblclick :: "page_config \<Rightarrow> nat \<Rightarrow> list_page \<Rightarrow> list_page" where
  "on_dblclick c r p = p\<lparr>selectedRow := Some r, selectedRowNumber := getID (pc_ws c) (objects p ! r)\<rparr>"

section \<open>Runs\<close>

datatype page_event =
  Open nat | Push nat push_msg | Garbled nat string | Fault nat | Close nat bool
| Reply "(string \<times> item list) option" | NoReply string
| Retry | SnackGone | Click nat | DoubleClick nat | Leave

text \<open>What can happen when: the browser's events follow the state of the socket.\<close>

fun enabled :: "list_page \<Rightarrow> page_event \<Rightarrow> bool" where
  "enabled p (Open i) = (i < length (conns p) \<and> cn_state (conns p ! i) = Connecting)"
| "enabled p (Push i e) = (i < length (conns p) \<and> cn_state (conns p ! i) = Opened)"
| "enabled p (Garbled i m) = (i < length (conns p) \<and> cn_state (conns p ! i) = Opened)"
| "enabled p (Fault i) = (i < length (conns p) \<and> cn_state (conns p ! i) \<noteq> Closed)"
| "enabled p (Close i b) = (i < length (conns p) \<and> cn_state (conns p ! i) \<noteq> Closed)"
| "enabled p (Reply r) = (0 < loads p)"
| "enabled p (NoReply s) = (0 < loads p)"
| "enabled p Retry = (\<exists>s. snack p = Some (s, True))"
| "enabled p SnackGone = (\<exists>s. snack p = Some (s, False))"
| "enabled p (Click r) = (r \<in> set (getItems p))"
| "enabled p (DoubleClick r) = (r \<in> set (getItems p))"
| "enabled p Leave = True"

fun page_step :: "page_config \<Rightarrow> list_page \<Rightarrow> page_event \<Rightarrow> list_page" where
  "page_step c p (Open i) = on_open i p"
| "page_step c p (Push i e) = on_push c i e p"
| "page_step c p (Garbled i m) = signal i (Raised m) p"
| "page_step c p (Fault i) = on_error i p"
| "page_step c p (Close i b) = on_close c i b p"
| "page_step c p (Reply r) = on_loaded c r p"
| "page_step c p (NoReply s) = on_load_failed s p"
| "page_step c p Retry = on_retry c p"
| "page_step c p SnackGone = p\<lparr>snack := None\<rparr>"
| "page_step c p (Click r) = on_click c r p"
| "page_step c p (DoubleClick r) = on_dblclick c r p"
| "page_step c p Leave = ngOnDestroy c p"

inductive page_run :: "page_config \<Rightarrow> list_page \<Rightarrow> page_event list \<Rightarrow> list_page \<Rightarrow> bool" for c where
  run_nil: "page_run c p [] p"
| run_cons: "enabled p ev \<Longrightarrow> page_run c (page_step c p ev) evs q \<Longrightarrow> page_run c p (ev # evs) q"

inductive_simps page_run_simps [simp]: "page_run c p [] q" "page_run c p (ev # evs) q"

end
