(* ===== verification/PageRuns.thy ===== *)
theory PageRuns
  imports ListPage
begin

text \<open>
  Runs of a list page: the invariant of its subscriptions, what happens when the user leaves it or
  the socket fails, and what pushed rows do to the list.
\<close>

section \<open>The invariant\<close>

definition watching :: "list_page \<Rightarrow> nat \<Rightarrow> bool" where
  "watching p i \<longleftrightarrow> i < length (conns p) \<and> cn_observed (conns p ! i)"

definition asks :: "list_page \<Rightarrow> bool" where
  "asks p \<longleftrightarrow> (\<exists>s. snack p = Some (s, True))"

definition refs_ok :: "list_page \<Rightarrow> bool" where
  "refs_ok p \<longleftrightarrow> list_all (\<lambda>r. r < length (objects p)) (getItems p) \<and>
     (\<forall>r. selectedRow p = Some r \<longrightarrow> r < length (objects p))"

definition page_ok :: "list_page \<Rightarrow> bool" where
  "page_ok p \<longleftrightarrow>
     (\<forall>i. watching p i \<longrightarrow> webSocketSubscriber p = Some i \<and> \<not> asks p \<and>
        cn_attached (conns p ! i) \<and> cn_state (conns p ! i) \<in> {Connecting, Opened}) \<and>
     (\<forall>i. webSocketSubscriber p = Some i \<longrightarrow> i < length (conns p)) \<and> refs_ok p"

named_theorems page_defs \<open>the operations of a page\<close>

lemmas page_basic = open_snack_def subscribe_def loadData_def ngAfterViewInit_def end_subscription_def
  end_current_def unsubscribe_def ngOnDestroy_def on_open_def signal_def detach_def on_error_def
  on_close_def on_load_failed_def on_retry_def on_click_def on_dblclick_def Let_def

declare page_basic [page_defs]

lemma conn_end_simps [simp]:
  "\<not> cn_observed (conn_end k)"
  "cn_observed k \<Longrightarrow> cn_attached (conn_end k) = False"
  "\<not> cn_observed k \<Longrightarrow> conn_end k = k"
  "cn_state (conn_end k) = Connecting \<longleftrightarrow> cn_state k = Connecting"
  "cn_state (conn_end k) = Closed \<longleftrightarrow> cn_state k = Closed"
  by (auto simp: conn_end_def)

lemma watching_end [simp]: "watching (end_subscription i p) j \<longleftrightarrow> watching p j \<and> j \<noteq> i"
  by (cases "i = j") (auto simp: watching_def end_subscription_def)

lemma end_subscription_simps [simp]:
  "objects (end_subscription i p) = objects p" "dataSource (end_subscription i p) = dataSource p"
  "selectedRow (end_subscription i p) = selectedRow p" "isActive (end_subscription i p) = isActive p"
  "webSocketSubscriber (end_subscription i p) = webSocketSubscriber p" "loads (end_subscription i p) = loads p"
  "snack (end_subscription i p) = snack p" "length (conns (end_subscription i p)) = length (conns p)"
  by (simp_all add: end_subscription_def)

lemma getItems_cong: "dataSource p = dataSource q \<Longrightarrow> getItems p = getItems q"
  by (simp add: getItems_def)

lemma refs_ok_cong:
  "objects p = objects q \<Longrightarrow> dataSource p = dataSource q \<Longrightarrow> selectedRow p = selectedRow q \<Longrightarrow>
   refs_ok p = refs_ok q"
  by (simp add: refs_ok_def getItems_def)

lemma page_okI:
  assumes "\<And>i. watching p i \<Longrightarrow> webSocketSubscriber p = Some i"
    and "\<And>i. watching p i \<Longrightarrow> \<not> asks p"
    and "\<And>i. watching p i \<Longrightarrow> cn_attached (conns p ! i) \<and> cn_state (conns p ! i) \<in> {Connecting, Opened}"
    and "\<And>i. webSocketSubscriber p = Some i \<Longrightarrow> i < length (conns p)" and "refs_ok p"
  shows "page_ok p"
  using assms by (auto simp: page_ok_def)

lemma page_okD:
  assumes "page_ok p"
  shows "watching p i \<Longrightarrow> webSocketSubscriber p = Some i" "watching p i \<Longrightarrow> \<not> asks p"
    "watching p i \<Longrightarrow> cn_attached (conns p ! i)"
    "watching p i \<Longrightarrow> cn_state (conns p ! i) = Connecting \<or> cn_state (conns p ! i) = Opened"
    "webSocketSubscriber p = Some i \<Longrightarrow> i < length (conns p)" "refs_ok p"
  using assms by (auto simp: page_ok_def)

text \<open>A state in which nothing is watched.\<close>

lemma page_ok_idle:
  assumes "\<And>i. \<not> watching p i" "\<And>i. webSocketSubscriber p = Some i \<Longrightarrow> i < length (conns p)" "refs_ok p"
  shows "page_ok p"
  using assms by (auto simp: page_ok_def)

lemma end_subscription_ok:
  assumes "page_ok p" shows "page_ok (end_subscription i p)"
proof (rule page_okI)
  fix j assume "watching (end_subscription i p) j"
  then have j: "watching p j" "j \<noteq> i" by auto
  then show "webSocketSubscriber (end_subscription i p) = Some j" "\<not> asks (end_subscription i p)"
    "cn_attached (conns (end_subscription i p) ! j) \<and> cn_state (conns (end_subscription i p) ! j) \<in> {Connecting, Opened}"
    using page_okD [OF assms] by (auto simp: asks_def end_subscription_def)
next
  fix j assume "webSocketSubscriber (end_subscription i p) = Some j"
  then show "j < length (conns (end_subscription i p))" using page_okD [OF assms] by simp
next
  show "refs_ok (end_subscription i p)"
    using page_okD(6) [OF assms] refs_ok_cong [of "end_subscription i p" p] by simp
qed

text \<open>After the current subscription has ended, there is none.\<close>

lemma idle_after_end:
  assumes "page_ok p" shows "\<not> watching (end_current p) j"
proof
  assume w: "watching (end_current p) j"
  then have "watching p j" by (auto simp: end_current_def split: option.splits)
  with page_okD(1) [OF assms] have "webSocketSubscriber p = Some j" by blast
  with w show False by (simp add: end_current_def)
qed


section \<open>Every step keeps it\<close>

lemma end_current_ok: "page_ok p \<Longrightarrow> page_ok (end_current p)"
  using end_subscription_ok by (auto simp: end_current_def split: option.splits)

text \<open>Changes that leave the connections as they are.\<close>

lemma page_ok_frame:
  assumes "page_ok p" "conns q = conns p" "webSocketSubscriber q = webSocketSubscriber p" "refs_ok q"
    and "asks q \<Longrightarrow> asks p \<or> (\<forall>i. \<not> watching p i)"
  shows "page_ok q"
proof (rule page_okI)
  fix i assume w: "watching q i"
  then have "watching p i" using assms(2) by (simp add: watching_def)
  with page_okD [OF assms(1)] assms
  show "webSocketSubscriber q = Some i" "\<not> asks q"
    "cn_attached (conns q ! i) \<and> cn_state (conns q ! i) \<in> {Connecting, Opened}"
    by auto
qed (use assms page_okD [OF assms(1)] in auto)

lemma asks_simps [simp]:
  "asks (open_snack s b p) = b" "\<not> asks (p\<lparr>snack := None\<rparr>)"
  "asks (end_subscription i p) = asks p" "asks (p\<lparr>loads := n\<rparr>) = asks p"
  by (auto simp: asks_def open_snack_def)

lemma unsubscribe_cases:
  "unsubscribe c p = end_current p \<or> (\<exists>s. unsubscribe c p = open_snack s True (end_current p))"
  by (auto simp: unsubscribe_def end_current_def Let_def)

lemma refs_ok_open_snack [simp]: "refs_ok (open_snack s b p) = refs_ok p"
  by (rule refs_ok_cong) (simp_all add: open_snack_def)

lemma open_snack_simps [simp]:
  "conns (open_snack s b p) = conns p" "webSocketSubscriber (open_snack s b p) = webSocketSubscriber p"
  "objects (open_snack s b p) = objects p" "dataSource (open_snack s b p) = dataSource p"
  "isActive (open_snack s b p) = isActive p" "selectedRow (open_snack s b p) = selectedRow p"
  "loads (open_snack s b p) = loads p" "snack (open_snack s b p) = Some (s, b)"
  by (simp_all add: open_snack_def)

lemma watching_open_snack [simp]: "watching (open_snack s b p) i = watching p i"
  by (simp add: watching_def)

lemma unsubscribe_ok: "page_ok p \<Longrightarrow> page_ok (unsubscribe c p)"
  using unsubscribe_cases [of c p] end_current_ok [of p] idle_after_end [of p]
    page_ok_frame [of "end_current p" "unsubscribe c p"] page_okD(6) [of "end_current p"] by auto

lemma idle_after_unsubscribe: "page_ok p \<Longrightarrow> \<not> watching (unsubscribe c p) j"
  using unsubscribe_cases [of c p] idle_after_end [of p j] by auto

text \<open>A change of the state of one connection that keeps it open or ends it.\<close>

definition set_conn :: "nat \<Rightarrow> conn \<Rightarrow> list_page \<Rightarrow> list_page" where
  "set_conn i k p = p\<lparr>conns := (conns p)[i := k]\<rparr>"

lemma set_conn_simps [simp]:
  "objects (set_conn i k p) = objects p" "dataSource (set_conn i k p) = dataSource p"
  "selectedRow (set_conn i k p) = selectedRow p" "isActive (set_conn i k p) = isActive p"
  "webSocketSubscriber (set_conn i k p) = webSocketSubscriber p" "loads (set_conn i k p) = loads p"
  "snack (set_conn i k p) = snack p" "length (conns (set_conn i k p)) = length (conns p)"
  "asks (set_conn i k p) = asks p" "refs_ok (set_conn i k p) = refs_ok p"
  "conns (set_conn i k p) = (conns p)[i := k]"
  by (simp_all add: set_conn_def asks_def refs_ok_def getItems_def)

lemma watching_set_conn:
  "watching (set_conn i k p) j \<longleftrightarrow> (if j = i then i < length (conns p) \<and> cn_observed k else watching p j)"
  by (auto simp: watching_def)

lemma set_conn_ok:
  assumes "page_ok p" "cn_observed k \<Longrightarrow> watching p i \<and> cn_attached k \<and> cn_state k \<in> {Connecting, Opened}"
  shows "page_ok (set_conn i k p)"
proof (rule page_okI)
  fix j assume w: "watching (set_conn i k p) j"
  then have j: "watching p j" using assms(2) by (auto simp: watching_set_conn split: if_splits)
  have s: "j = i \<Longrightarrow> cn_attached k \<and> cn_state k \<in> {Connecting, Opened} \<and> i < length (conns p)"
    using w assms(2) by (auto simp: watching_set_conn)
  from page_okD [OF assms(1)] j s
  show "webSocketSubscriber (set_conn i k p) = Some j" "\<not> asks (set_conn i k p)"
    "cn_attached (conns (set_conn i k p) ! j) \<and> cn_state (conns (set_conn i k p) ! j) \<in> {Connecting, Opened}"
    by (cases "j = i"; auto)+
qed (use assms page_okD [OF assms(1)] in auto)

lemmas conn_steps = set_conn_def [symmetric]

lemma on_open_ok: "page_ok p \<Longrightarrow> enabled p (Open i) \<Longrightarrow> page_ok (on_open i p)"
  unfolding on_open_def conn_steps
  by (intro set_conn_ok) (auto simp: watching_def dest: page_okD)

text \<open>The socket fails: the subscription, if it is still open, ends before the user is asked.\<close>

lemma signal_ok:
  assumes "\<And>j. watching p j \<Longrightarrow> j \<noteq> i \<Longrightarrow> False" "refs_ok p"
    "\<And>j. webSocketSubscriber p = Some j \<Longrightarrow> j < length (conns p)" "i < length (conns p)"
  shows "page_ok (signal i f p)" "\<not> watching (signal i f p) j"
proof -
  show w: "\<not> watching (signal i f p) j" for j
  proof (cases "cn_observed (conns p ! i)")
    case True
    then have "signal i f p = end_subscription i (open_snack (fault_text f) True p)" by (simp add: signal_def)
    with assms(1) [of j] show ?thesis by auto
  next
    case False
    with assms(1) [of j] show ?thesis by (auto simp: signal_def watching_def)
  qed
  have "refs_ok (end_subscription i (open_snack s True p))" for s
    using refs_ok_cong [of "end_subscription i (open_snack s True p)" p] assms(2) by simp
  with assms show "page_ok (signal i f p)"
    by (intro page_ok_idle w) (auto simp: signal_def split: if_splits)
qed

lemma only_current:
  assumes "page_ok p" "watching p i" "watching p j" shows "i = j"
  using page_okD(1) [OF assms(1) assms(2)] page_okD(1) [OF assms(1) assms(3)] by simp

lemma signal_observed_ok:
  assumes "page_ok p" "i < length (conns p)" shows "page_ok (signal i f p)"
proof (cases "cn_observed (conns p ! i)")
  case True
  with assms have "watching p i" by (simp add: watching_def)
  with assms show ?thesis
    by (intro signal_ok) (auto dest: only_current page_okD)
qed (simp add: signal_def assms)

lemma detach_simps [simp]:
  "asks (detach i p) = asks p" "refs_ok (detach i p) = refs_ok p"
  "webSocketSubscriber (detach i p) = webSocketSubscriber p" "length (conns (detach i p)) = length (conns p)"
  by (simp_all add: detach_def conn_steps)

lemma watching_detach [simp]: "watching (detach i p) j = watching p j"
  by (cases "i = j") (auto simp: detach_def watching_def)

lemma on_error_ok:
  assumes "page_ok p" "i < length (conns p)" shows "page_ok (on_error i p)"
proof (cases "watching p i")
  case True
  then show ?thesis unfolding on_error_def
    using only_current [OF assms(1)] page_okD [OF assms(1)] assms(2) by (intro signal_ok) auto
next
  case False
  then have "page_ok (detach i p)"
    using assms unfolding detach_def conn_steps by (intro set_conn_ok) (auto simp: watching_def)
  then show ?thesis unfolding on_error_def using assms(2) by (intro signal_observed_ok) simp_all
qed

lemma end_subscription_id [simp]: "\<not> cn_observed (conns p ! i) \<Longrightarrow> end_subscription i p = p"
  by (simp add: end_subscription_def)

lemma idle_end [simp]:
  assumes "i < length (conns p)" "\<not> watching p i"
  shows "signal i f p = p" "end_subscription i p = p"
  using assms by (simp_all add: signal_def watching_def)

text \<open>A closed socket is the page's cue to give up its subscription; nothing more happens.\<close>

lemma on_close_unsubscribes:
  assumes "page_ok p" "i < length (conns p)"
  shows "on_close c i b p = unsubscribe c (detach i (set_conn i ((conns p ! i)\<lparr>cn_state := Closed\<rparr>) p))"
    and "page_ok (on_close c i b p)" and "\<not> watching (on_close c i b p) j"
proof -
  let ?d = "detach i (set_conn i ((conns p ! i)\<lparr>cn_state := Closed\<rparr>) p)"
  let ?q = "unsubscribe c ?d"
  have w: "watching ?d j = watching p j" for j
    using assms(2) by (cases "j = i") (simp_all add: watching_set_conn, simp add: watching_def)
  have idle: "\<not> watching ?q j" for j
  proof
    assume j: "watching ?q j"
    then have "watching (end_current ?d) j" using unsubscribe_cases [of c ?d] by auto
    then have "watching ?d j" "webSocketSubscriber ?d \<noteq> Some j"
      by (auto simp: end_current_def split: option.splits)
    with page_okD(1) [OF assms(1), of j] w show False by simp
  qed
  have "refs_ok ?d \<and> length (conns ?d) = length (conns p) \<and> webSocketSubscriber ?d = webSocketSubscriber p"
    using page_okD(6) [OF assms(1)] by simp
  then have q: "refs_ok ?q" "length (conns ?q) = length (conns p)" "webSocketSubscriber ?q = webSocketSubscriber p"
    using unsubscribe_cases [of c ?d] refs_ok_cong [of "end_current ?d" ?d]
    by (auto simp: end_current_def split: option.splits)
  show c: "on_close c i b p = ?q"
    using idle q(2) assms(2) by (auto simp: on_close_def set_conn_def Let_def watching_def signal_def)
  show "page_ok (on_close c i b p)"
    unfolding c using q page_okD(5) [OF assms(1)] idle by (intro page_ok_idle) auto
  show "\<not> watching (on_close c i b p) j" unfolding c by (rule idle)
qed

text \<open>A new subscription, when there is none.\<close>

lemma ngAfterViewInit_simps [simp]:
  "objects (ngAfterViewInit c p) = objects p" "dataSource (ngAfterViewInit c p) = dataSource p"
  "selectedRow (ngAfterViewInit c p) = selectedRow p" "snack (ngAfterViewInit c p) = snack p"
  "webSocketSubscriber (ngAfterViewInit c p) = Some (length (conns p))"
  "conns (ngAfterViewInit c p) = conns p @ [\<lparr>cn_state = Connecting, cn_attached = True, cn_observed = True\<rparr>]"
  "loads (ngAfterViewInit c p) = Suc (loads p)"
  by (simp_all add: ngAfterViewInit_def subscribe_def loadData_def Let_def)

lemma watching_init:
  "watching (ngAfterViewInit c p) i \<longleftrightarrow> watching p i \<or> i = length (conns p)"
  by (auto simp: watching_def nth_append less_Suc_eq)

lemma init_ok:
  assumes "\<And>i. \<not> watching p i" "\<not> asks p" "refs_ok p"
  shows "page_ok (ngAfterViewInit c p)"
proof (rule page_okI)
  show "refs_ok (ngAfterViewInit c p)" using assms(3) refs_ok_cong [of "ngAfterViewInit c p" p] by simp
qed (use assms in \<open>auto simp: watching_init asks_def\<close>)

text \<open>Rows that arrive are new objects.\<close>

lemma take_row_ok:
  assumes "take_row c u p = Some q" "refs_ok p"
  shows "refs_ok q \<and> conns q = conns p \<and> webSocketSubscriber q = webSocketSubscriber p \<and> (asks q \<longrightarrow> asks p) \<and>
    objects q = objects p @ [u] \<and> selectedRow q = selectedRow p"
proof -
  let ?h = "objects p @ [u]"
  obtain refs s where m: "ref_merge (pc_ws c) ?h (getItems p) (length (objects p)) = (refs, s)"
    by (cases "ref_merge (pc_ws c) ?h (getItems p) (length (objects p))")
  then have "set refs \<subseteq> insert (length (objects p)) (set (getItems p))"
    using ref_merge_refs [of "pc_ws c" ?h "getItems p" "length (objects p)"] by simp
  then have "list_all (\<lambda>r. r < length ?h) refs"
    using assms(2) by (fastforce simp: refs_ok_def list_all_iff)
  with m assms show ?thesis
    by (auto simp: take_row_def Let_def open_snack_def refs_ok_def getItems_def asks_def less_Suc_eq
        split: option.splits if_splits)
qed

lemma on_push_ok:
  assumes "page_ok p" shows "page_ok (on_push c i e p)"
proof -
  have "page_ok q" if "take_row c u p = Some q" for u q
    using take_row_ok [OF that page_okD(6) [OF assms]] by (intro page_ok_frame [OF assms]) auto
  then show ?thesis
    using end_subscription_ok [OF assms] assms
    by (auto simp: on_push_def observe_def split: option.splits list.splits)
qed

lemma on_loaded_frame:
  "conns (on_loaded c r p) = conns p" "webSocketSubscriber (on_loaded c r p) = webSocketSubscriber p"
  "\<not> asks (on_loaded c r p)" "isActive (on_loaded c r p) = isActive p" "loads (on_loaded c r p) = loads p - 1" "selectedRow (on_loaded c r p) = selectedRow p"
  "refs_ok p \<Longrightarrow> refs_ok (on_loaded c r p)" "\<exists>rows. objects (on_loaded c r p) = objects p @ rows"
  by (auto simp: on_loaded_def Let_def open_snack_def asks_def refs_ok_def getItems_def list_all_iff
      split: option.splits)

lemma page_step_ok:
  assumes "page_ok p" "enabled p ev" shows "page_ok (page_step c p ev)"
proof (cases ev)
  case (Open i) with assms show ?thesis by (simp add: on_open_ok)
next
  case (Push i e) with assms show ?thesis by (simp add: on_push_ok)
next
  case (Garbled i m) with assms show ?thesis by (simp add: signal_observed_ok)
next
  case (Fault i) with assms show ?thesis by (simp add: on_error_ok)
next
  case (Close i b) with assms show ?thesis by (simp add: on_close_unsubscribes(2))
next
  case (Reply r) with assms on_loaded_frame [where c = c and r = r and p = p] show ?thesis
    by (intro page_ok_frame [OF assms(1)]) (auto dest: page_okD)
next
  case (NoReply s) with assms show ?thesis
    using page_okD(6) [OF assms(1)] refs_ok_cong [of "page_step c p ev" p]
    by (intro page_ok_frame [OF assms(1)]) (auto simp: on_load_failed_def open_snack_def asks_def)
next
  case Retry
  with assms have "asks p" by (auto simp: asks_def)
  with page_okD(2) [OF assms(1)] have "\<not> watching p i" for i by blast
  then have "page_ok (ngAfterViewInit c (p\<lparr>snack := None\<rparr>))"
    using page_okD(6) [OF assms(1)] refs_ok_cong [of "p\<lparr>snack := None\<rparr>" p]
    by (intro init_ok) (auto simp: watching_def)
  with Retry show ?thesis by (simp add: on_retry_def)
next
  case SnackGone with assms show ?thesis
    using page_okD(6) [OF assms(1)] refs_ok_cong [of "p\<lparr>snack := None\<rparr>" p]
    by (intro page_ok_frame [OF assms(1)]) auto
next
  case (Click r) with assms page_okD(6) [OF assms(1)] show ?thesis
    by (intro page_ok_frame [OF assms(1)]) (auto simp: on_click_def refs_ok_def getItems_def asks_def list_all_iff)
next
  case (DoubleClick r) with assms page_okD(6) [OF assms(1)] show ?thesis
    by (intro page_ok_frame [OF assms(1)]) (auto simp: on_dblclick_def refs_ok_def getItems_def asks_def list_all_iff)
next
  case Leave
  have "page_ok (if pc_checks_active c then p\<lparr>isActive := False\<rparr> else p)"
    using assms(1) page_okD(6) [OF assms(1)] refs_ok_cong [of "p\<lparr>isActive := False\<rparr>" p]
    by (auto intro!: page_ok_frame [OF assms(1)] simp: asks_def)
  with Leave show ?thesis by (simp add: ngOnDestroy_def end_current_ok)
qed

lemma page_run_ok: "page_run c p evs q \<Longrightarrow> page_ok p \<Longrightarrow> page_ok q"
  by (induction rule: page_run.induct) (auto intro: page_step_ok)

definition opened :: "page_config \<Rightarrow> list_page" where
  "opened c = ngAfterViewInit c new_page"

lemma opened_ok: "page_ok (opened c)"
  unfolding opened_def by (intro init_ok) (auto simp: watching_def new_page_def asks_def refs_ok_def getItems_def)


section \<open>Leaving the page\<close>

text \<open>C32: In every state a page can reach, at most one of its web sockets has an open
  subscription, the one the page remembers; it is connecting or connected, and as long as it is
  open the user is not asked to start again.\<close>

theorem one_live_subscription:
  assumes "page_run c (opened c) evs p" and "watching p i"
  shows "webSocketSubscriber p = Some i \<and> (\<forall>j. watching p j \<longleftrightarrow> j = i) \<and> \<not> asks p \<and>
    cn_state (conns p ! i) \<in> {Connecting, Opened}"
proof -
  note ok = page_run_ok [OF assms(1) opened_ok]
  have "watching p j \<longleftrightarrow> j = i" for j using only_current [OF ok assms(2)] assms(2) by metis
  then show ?thesis using page_okD [OF ok] assms(2) by blast
qed

theorem one_live_subscription_witness:
  "\<exists>p. page_run Roles_page (opened Roles_page) [Close 0 False, Retry] p \<and> webSocketSubscriber p = Some 1 \<and> \<not> watching p 0"
proof -
  let ?p = "page_step Roles_page (page_step Roles_page (opened Roles_page) (Close 0 False)) Retry"
  have r: "page_run Roles_page (opened Roles_page) [Close 0 False, Retry] ?p" "watching ?p 1"
    by (simp_all add: opened_def new_page_def watching_def on_close_def unsubscribe_def end_current_def
        end_subscription_def conn_end_def detach_def signal_def open_snack_def on_retry_def ngAfterViewInit_def
        subscribe_def loadData_def Roles_page_def table_page_def Let_def fault_text_def)
  from one_live_subscription [OF r] r(1) show ?thesis by (intro exI [of _ ?p]) auto
qed

text \<open>After it is left, a page with the flag \<^verbatim>\<open>isActive\<close> is quiet.\<close>

definition quiet :: "page_config \<Rightarrow> list_page \<Rightarrow> bool" where
  "quiet c p \<longleftrightarrow> page_ok p \<and> (\<forall>i. \<not> watching p i) \<and> \<not> asks p \<and> \<not> isActive p"

lemma take_row_idle: "\<not> cn_observed (conns p ! i) \<Longrightarrow> on_push c i e p = p"
  by (simp add: on_push_def)

lemma detach_cn_observed [simp]: "cn_observed (conns (detach i p) ! j) = cn_observed (conns p ! j)"
  by (cases "i = j"; cases "j < length (conns p)") (auto simp: detach_def not_less list_update_beyond)

lemma end_current_simps [simp]:
  "isActive (end_current p) = isActive p" "asks (end_current p) = asks p"
  "objects (end_current p) = objects p" "dataSource (end_current p) = dataSource p"
  "loads (end_current p) = loads p"
  by (simp_all add: end_current_def split: option.splits)

lemma detach_active [simp]: "isActive (detach i p) = isActive p"
  by (simp add: detach_def)

lemma watching_updates [simp]:
  "watching (p\<lparr>loads := n\<rparr>) i = watching p i" "watching (p\<lparr>snack := s\<rparr>) i = watching p i"
  "watching (p\<lparr>isActive := b\<rparr>) i = watching p i" "watching (p\<lparr>selectedRow := r\<rparr>) i = watching p i"
  "watching (p\<lparr>selectedRowNumber := v\<rparr>) i = watching p i"
  by (simp_all add: watching_def)

lemma asks_updates [simp]:
  "asks (p\<lparr>isActive := b\<rparr>) = asks p" "asks (p\<lparr>selectedRow := r\<rparr>) = asks p"
  "asks (p\<lparr>selectedRowNumber := v\<rparr>) = asks p"
  by (simp_all add: asks_def)

lemma watching_frame: "conns q = conns p \<Longrightarrow> watching q i = watching p i"
  by (simp add: watching_def)

lemma quiet_step:
  assumes "pc_checks_active c" "quiet c p" "enabled p ev"
  shows "ev \<noteq> Retry \<and> quiet c (page_step c p ev)"
proof -
  have idle: "i < length (conns p) \<Longrightarrow> \<not> cn_observed (conns p ! i)" for i
    using assms(2) by (simp add: quiet_def watching_def)
  have ok: "page_ok (page_step c p ev)" using page_step_ok [OF _ assms(3)] assms(2) by (simp add: quiet_def)
  have "ev \<noteq> Retry" using assms(2,3) by (auto simp: quiet_def asks_def)
  moreover have "(\<forall>i. \<not> watching (page_step c p ev) i) \<and> \<not> asks (page_step c p ev) \<and> \<not> isActive (page_step c p ev)"
  proof (cases ev)
    case (Open i)
    with assms idle show ?thesis by (auto simp: on_open_def conn_steps watching_set_conn quiet_def)
  next
    case (Close i b)
    with assms(3) have i: "i < length (conns p)" by simp
    let ?d = "detach i (set_conn i ((conns p ! i)\<lparr>cn_state := Closed\<rparr>) p)"
    have "\<not> isActive (end_current ?d)" using assms(2) by (simp add: quiet_def)
    then have "unsubscribe c ?d = end_current ?d"
      using assms(1) by (simp add: unsubscribe_def Let_def end_current_def)
    with on_close_unsubscribes(1) [of p i c b] assms(2) i have e: "on_close c i b p = end_current ?d"
      by (simp add: quiet_def)
    have "\<not> watching (on_close c i b p) j" for j
      using on_close_unsubscribes(3) [of p i c b] assms(2) i by (simp add: quiet_def)
    with assms(2) show ?thesis by (simp add: Close e quiet_def)
  next
    case (Reply r)
    with assms(2) on_loaded_frame [where c = c and r = r and p = p] show ?thesis
      by (simp add: quiet_def watching_frame [of "on_loaded c r p" p])
  next
    case (Push i e)
    with assms(2,3) idle [of i] show ?thesis by (simp add: on_push_def quiet_def)
  next
    case (Garbled i m)
    with assms(2,3) idle [of i] show ?thesis by (simp add: signal_def quiet_def)
  next
    case (Fault i)
    with assms(2,3) idle [of i] show ?thesis by (simp add: on_error_def signal_def quiet_def detach_def conn_steps watching_set_conn)
  next
    case (NoReply s)
    with assms(2) show ?thesis by (simp add: on_load_failed_def quiet_def)
  next
    case Retry
    with \<open>ev \<noteq> Retry\<close> show ?thesis by simp
  next
    case SnackGone
    with assms(2) show ?thesis by (simp add: quiet_def)
  next
    case (Click r)
    with assms(2) show ?thesis by (simp add: on_click_def quiet_def)
  next
    case (DoubleClick r)
    with assms(2) show ?thesis by (simp add: on_dblclick_def quiet_def)
  next
    case Leave
    with assms(1,2) show ?thesis by (auto simp: ngOnDestroy_def quiet_def end_current_def split: option.splits)
  qed
  ultimately show ?thesis using ok by (simp add: quiet_def)
qed

lemma quiet_run: "page_run c p evs q \<Longrightarrow> pc_checks_active c \<Longrightarrow> quiet c p \<Longrightarrow> Retry \<notin> set evs \<and> quiet c q"
  by (induction rule: page_run.induct) (auto dest: quiet_step)


text \<open>A table page that is left while it does not ask the user anything stays quiet,
  whatever its sockets and requests do later: it never asks to start again, and none of its
  subscriptions is open.\<close>

theorem left_page_quiet:
  assumes "page_run c (opened c) evs p" and "pc_checks_active c" and "\<not> asks p"
    and "page_run c (page_step c p Leave) evs' q"
  shows "Retry \<notin> set evs' \<and> \<not> asks q \<and> (\<forall>i. \<not> watching q i)"
proof -
  have ok: "page_ok p" by (rule page_run_ok [OF assms(1) opened_ok])
  let ?p = "p\<lparr>isActive := False\<rparr>"
  have "page_ok ?p"
    using ok page_okD(6) [OF ok] refs_ok_cong [of ?p p] by (auto intro!: page_ok_frame [OF ok])
  with assms(2,3) end_current_ok [of ?p] idle_after_end [of ?p] have "quiet c (page_step c p Leave)"
    by (simp add: quiet_def ngOnDestroy_def)
  from quiet_run [OF assms(4,2) this] show ?thesis by (simp add: quiet_def)
qed

theorem left_page_quiet_witness:
  "\<not> asks (page_step Roles_page (page_step Roles_page (page_step Roles_page (opened Roles_page) (Open 0)) Leave) (Close 0 True))"
proof -
  let ?p = "page_step Roles_page (opened Roles_page) (Open 0)"
  have r: "page_run Roles_page (opened Roles_page) [Open 0] ?p" "\<not> asks ?p" "pc_checks_active Roles_page"
    "page_run Roles_page (page_step Roles_page ?p Leave) [Close 0 True]
      (page_step Roles_page (page_step Roles_page ?p Leave) (Close 0 True))"
    by (simp_all add: opened_def new_page_def on_open_def asks_def Roles_page_def table_page_def ngAfterViewInit_def
        subscribe_def loadData_def ngOnDestroy_def end_current_def end_subscription_def conn_end_def)
  from left_page_quiet [OF r(1,3,2,4)] show ?thesis by blast
qed

text \<open>The other pages ask the user to start again because they were left.\<close>

lemma left_log_page_asks:
  assumes "page_ok p" "\<not> pc_checks_active c" "watching p i" "cn_state (conns p ! i) = Opened"
  shows "\<exists>q. page_run c p [Leave, Close i b] q \<and> asks q \<and>
    page_run c q [Retry] (on_retry c q) \<and> watching (on_retry c q) (length (conns q))"
proof -
  note page_okD(1,5) [OF assms(1)]
  with assms(3) have s: "webSocketSubscriber p = Some i" "i < length (conns p)" "cn_attached (conns p ! i)"
    using page_okD(3) [OF assms(1,3)] by auto
  let ?p = "ngOnDestroy c p"
  have p: "?p = end_subscription i p" using assms(2) s by (simp add: ngOnDestroy_def end_current_def)
  have en: "enabled ?p (Close i b)"
    using assms(3,4) s by (simp add: p end_subscription_def conn_end_def watching_def)
  have ok: "page_ok ?p" using end_subscription_ok [OF assms(1)] p by simp
  have a: "asks (page_step c ?p (Close i b))"
    using on_close_unsubscribes(1) [OF ok, of i c b] assms(2) s
    by (simp add: p unsubscribe_def end_current_def)
  then have "enabled (page_step c ?p (Close i b)) Retry" by (simp add: asks_def)
  with en a show ?thesis by (auto simp: on_retry_def watching_init)
qed

section \<open>Losing the socket\<close>

text \<open>Nothing will change the list any more, and the user is not asked to do something about it.\<close>

definition deaf :: "list_page \<Rightarrow> bool" where
  "deaf p \<longleftrightarrow> page_ok p \<and> (\<forall>i. \<not> watching p i) \<and> \<not> asks p \<and> loads p = 0 \<and>
     (\<forall>i < length (conns p). cn_state (conns p ! i) = Closed)"

lemma shown_cong: "objects p = objects q \<Longrightarrow> dataSource p = dataSource q \<Longrightarrow> shown p = shown q"
  by (simp add: shown_def getItems_def)

lemma deaf_step:
  assumes "deaf p" "enabled p ev"
  shows "deaf (page_step c p ev) \<and> shown (page_step c p ev) = shown p"
proof -
  have ok: "page_ok (page_step c p ev)" using page_step_ok [OF _ assms(2)] assms(1) by (simp add: deaf_def)
  consider "ev = SnackGone" | r where "ev = Click r" | r where "ev = DoubleClick r" | "ev = Leave"
    using assms by (cases ev) (auto simp: deaf_def asks_def)
  then show ?thesis
  proof cases
    case 4
    have "webSocketSubscriber p = Some i \<Longrightarrow> end_subscription i p = p" for i
      using assms(1) page_okD(5) [of p i] by (auto simp: deaf_def watching_def)
    moreover have "webSocketSubscriber p = Some i \<Longrightarrow> end_subscription i (p\<lparr>isActive := False\<rparr>) = p\<lparr>isActive := False\<rparr>" for i
      using assms(1) page_okD(5) [of p i] by (auto simp: deaf_def watching_def)
    ultimately show ?thesis using assms ok 4
      by (auto simp: deaf_def ngOnDestroy_def end_current_def shown_def getItems_def split: option.splits if_splits)
  qed (use assms ok in \<open>simp_all add: deaf_def on_click_def on_dblclick_def shown_def getItems_def\<close>)
qed

lemma deaf_run: "page_run c p evs q \<Longrightarrow> deaf p \<Longrightarrow> shown q = shown p \<and> deaf q \<and> Retry \<notin> set evs"
proof (induction rule: page_run.induct)
  case (run_cons p ev evs q)
  moreover have "ev \<noteq> Retry" using run_cons.prems run_cons.hyps(1) by (auto simp: deaf_def asks_def)
  ultimately show ?case using deaf_step [OF run_cons.prems run_cons.hyps(1), of c] by simp
qed simp

text \<open>When the socket is lost before the list arrives, the reply takes the place of the
  question whether to start again.  From then on nothing changes the rows the page shows, and the
  user has no way to start again from it.\<close>

theorem reply_hides_retry:
  assumes "page_run c (page_step c (page_step c (opened c) (Close 0 clean)) (Reply r)) evs q"
  shows "page_run c (opened c) [Close 0 clean, Reply r] (page_step c (page_step c (opened c) (Close 0 clean)) (Reply r)) \<and>
    shown q = (case r of None \<Rightarrow> [] | Some (n, rows) \<Rightarrow> rows) \<and> Retry \<notin> set evs"
proof -
  let ?p1 = "page_step c (opened c) (Close 0 clean)"
  let ?p = "page_step c ?p1 (Reply r)"
  have o: "conns (opened c) = [\<lparr>cn_state = Connecting, cn_attached = True, cn_observed = True\<rparr>]" "loads (opened c) = 1"
    "objects (opened c) = []" "dataSource (opened c) = None"
    by (simp_all add: opened_def new_page_def)
  then have en: "enabled (opened c) (Close 0 clean)" by simp
  note cl = on_close_unsubscribes [OF opened_ok, where i = 0 and c = c and b = clean]
  have c1: "length (conns ?p1) = 1" "cn_state (conns ?p1 ! 0) = Closed" "loads ?p1 = 1" "objects ?p1 = []"
    "dataSource ?p1 = None"
    using o by (simp_all add: on_close_def unsubscribe_def end_current_def end_subscription_def detach_def signal_def
        conn_end_def open_snack_def opened_def Let_def)
  from c1 have en2: "enabled ?p1 (Reply r)" by simp
  have ok: "page_ok ?p" using page_step_ok [OF page_step_ok [OF opened_ok en] en2] .
  have fr: "conns ?p = conns ?p1" "\<not> asks ?p" "loads ?p = 0"
    using on_loaded_frame [where c = c and r = r and p = ?p1] c1(3) by simp_all
  have "\<not> watching ?p i" for i using cl(3) o watching_frame [OF fr(1)] by simp
  with ok fr c1 have d: "deaf ?p" by (simp add: deaf_def)
  have s: "shown ?p = (case r of None \<Rightarrow> [] | Some (n, rows) \<Rightarrow> rows)"
    using c1 values_of_new [of "[]"] by (auto simp: on_loaded_def shown_def getItems_def open_snack_def Let_def split: option.splits)
  with en en2 s deaf_run [OF assms d] show ?thesis by simp
qed

theorem reply_hides_retry_witness:
  "\<exists>q. page_run Units_page (opened Units_page)
     [Close 0 False, Reply (Some (''1'', [[(''UnitID'', CInt 1)]])), SnackGone] q \<and> shown q = [[(''UnitID'', CInt 1)]]"
proof -
  let ?p = "page_step Units_page (page_step Units_page (opened Units_page) (Close 0 False))
    (Reply (Some (''1'', [[(''UnitID'', CInt 1)]])))"
  have "page_run Units_page ?p [SnackGone] (page_step Units_page ?p SnackGone)"
    by (simp add: on_loaded_def open_snack_def Let_def)
  from reply_hides_retry [OF this] this show ?thesis by (auto simp del: page_step.simps enabled.simps)
qed

section \<open>Pushed rows\<close>

lemma on_push_shown:
  assumes "watching p i" "page_ok p" "dataSource p \<noteq> None" "\<And>u. map_of e (targetName (pc_ws c)) \<noteq> Some []"
  shows "shown (on_push c i e p) =
      (case on_message (pc_ws c) (shown p) e of Inr (Merged rows s) \<Rightarrow> rows | _ \<Rightarrow> shown p)"
    and "conns (on_push c i e p) = conns p" and "dataSource (on_push c i e p) \<noteq> None"
proof -
  let ?ws = "pc_ws c"
  have o: "on_push c i e p = observe c i e p" using assms(1) by (simp add: on_push_def watching_def)
  have "shown (on_push c i e p) = (case on_message ?ws (shown p) e of Inr (Merged rows s) \<Rightarrow> rows | _ \<Rightarrow> shown p) \<and>
    conns (on_push c i e p) = conns p \<and> dataSource (on_push c i e p) \<noteq> None"
  proof (cases "map_of e (targetName ?ws)")
    case None
    then show ?thesis using assms(3) by (simp add: o observe_def on_message_def)
  next
    case (Some us)
    then obtain u us' where us: "us = u # us'" using assms(4) by (cases us) auto
    show ?thesis
    proof (cases "isRelevant ?ws (shown p) u")
      case False
      then show ?thesis using assms(3) Some us by (simp add: o observe_def on_message_def)
    next
      case True
      obtain ds where ds: "dataSource p = Some ds" using assms(3) by auto
      let ?h = "objects p @ [u]"
      obtain refs s where m: "ref_merge ?ws ?h (getItems p) (length (objects p)) = (refs, s)"
        by (cases "ref_merge ?ws ?h (getItems p) (length (objects p))")
      have "values_of ?h (getItems p) = shown p"
        using page_okD(6) [OF assms(2)] by (simp add: shown_def refs_ok_def)
      then have "merge_row ?ws (shown p) u = (values_of ?h refs, s)"
        using ref_merge_values [of ?ws ?h "getItems p" "length (objects p)"] m by simp
      then show ?thesis
        using True Some us ds m
        by (auto simp: o observe_def on_message_def take_row_def Let_def shown_def getItems_def)
    qed
  qed
  then show "shown (on_push c i e p) =
      (case on_message ?ws (shown p) e of Inr (Merged rows s) \<Rightarrow> rows | _ \<Rightarrow> shown p)"
    "conns (on_push c i e p) = conns p" "dataSource (on_push c i e p) \<noteq> None" by blast+
qed

lemma on_push_change:
  assumes "watching p i" "page_ok p" "dataSource p \<noteq> None"
  shows "shown (on_push c i (change_msg (pc_ws c) x) p) = page_change (pc_ws c) (shown p) x"
    and "conns (on_push c i (change_msg (pc_ws c) x) p) = conns p"
    and "dataSource (on_push c i (change_msg (pc_ws c) x) p) \<noteq> None"
proof -
  have "map_of (change_msg (pc_ws c) x) (targetName (pc_ws c)) \<noteq> Some []"
    by (simp add: change_msg_def split: change.splits)
  from on_push_shown [OF assms this]
  show "shown (on_push c i (change_msg (pc_ws c) x) p) = page_change (pc_ws c) (shown p) x"
    "conns (on_push c i (change_msg (pc_ws c) x) p) = conns p"
    "dataSource (on_push c i (change_msg (pc_ws c) x) p) \<noteq> None"
    by (simp_all add: page_change_def)
qed

lemma push_run:
  assumes "watching p i" "page_ok p" "dataSource p \<noteq> None" "cn_state (conns p ! i) = Opened"
  shows "\<exists>q. page_run c p (map (\<lambda>x. Push i (change_msg (pc_ws c) x)) cs) q \<and> watching q i \<and>
    shown q = foldl (page_change (pc_ws c)) (shown p) cs"
  using assms
proof (induction cs arbitrary: p)
  case Nil
  then show ?case by auto
next
  case (Cons x cs)
  let ?q = "on_push c i (change_msg (pc_ws c) x) p"
  note q = on_push_change [OF Cons.prems(1-3), of c x]
  have w: "watching ?q i" using Cons.prems(1) watching_frame [OF q(2)] by simp
  from Cons.IH [OF w on_push_ok [OF Cons.prems(2)] q(3)] Cons.prems(4) q
  obtain q' where "page_run c ?q (map (\<lambda>x. Push i (change_msg (pc_ws c) x)) cs) q'" "watching q' i"
    "shown q' = foldl (page_change (pc_ws c)) (shown p) (x # cs)" by auto
  with Cons.prems(1,4) show ?case by (auto simp: watching_def)
qed

text \<open>C31: A page that has its list and a connected web socket follows the table: after
  the messages for any sequence of legal changes, the rows it shows are those that the changes make
  of the rows it showed before, and it is still listening.\<close>

theorem pushes_followed:
  assumes "page_run c (opened c) evs p" and "watching p i" and "cn_state (conns p ! i) = Opened"
    and "dataSource p \<noteq> None" and "shows_all (pc_ws c)" and "keyed (pc_ws c) (shown p)"
    and "legal (row_for (pc_ws c)) (page_view (pc_ws c) (shown p)) cs"
  shows "\<exists>q. page_run c p (map (\<lambda>x. Push i (change_msg (pc_ws c) x)) cs) q \<and> watching q i \<and>
    page_view (pc_ws c) (shown q) = foldl spec_change (page_view (pc_ws c) (shown p)) cs"
  using push_run [OF assms(2) page_run_ok [OF assms(1) opened_ok] assms(4,3), of c cs]
    row_store.run_look [OF page_row_store [OF assms(5)] assms(6,7)] by auto

theorem pushes_followed_witness:
  "\<exists>p q. page_run Roles_page (opened Roles_page) [Open 0, Reply (Some (''1'', [[(''RoleID'', CInt 1)]]))] p \<and>
     page_run Roles_page p [Push 0 [(''Roles'', [[(''RoleID'', CInt 2)]])], Push 0 [(''Roles'', [[(''RoleID'', CInt (-1))]])]] q \<and>
     page_view Roles_ws (shown q) = [2 \<mapsto> [(''RoleID'', CInt 2)]]"
proof -
  let ?p = "page_step Roles_page (page_step Roles_page (opened Roles_page) (Open 0)) (Reply (Some (''1'', [[(''RoleID'', CInt 1)]])))"
  let ?cs = "[Put 2 [(''RoleID'', CInt 2)], Del 1]"
  have ws: "pc_ws Roles_page = plain_ws ''Roles'' ''RoleID''" "Roles_ws = plain_ws ''Roles'' ''RoleID''"
    by (simp_all add: Roles_page_def table_page_def Roles_ws_def)
  have r: "page_run Roles_page (opened Roles_page) [Open 0, Reply (Some (''1'', [[(''RoleID'', CInt 1)]]))] ?p"
    and st: "watching ?p 0" "cn_state (conns ?p ! 0) = Opened" "dataSource ?p \<noteq> None" "shown ?p = [[(''RoleID'', CInt 1)]]"
    by (simp_all add: opened_def new_page_def on_open_def on_loaded_def open_snack_def watching_def shown_def
        getItems_def Let_def)
  have k: "keyed (pc_ws Roles_page) (shown ?p)"
    and l: "legal (row_for (pc_ws Roles_page)) (page_view (pc_ws Roles_page) (shown ?p)) ?cs"
    unfolding st(4) ws by (simp_all add: getID_def js_prop_def row_for_def plain_ws_def)
  have m: "map (\<lambda>x. Push 0 (change_msg (pc_ws Roles_page) x)) ?cs =
      [Push 0 [(''Roles'', [[(''RoleID'', CInt 2)]])], Push 0 [(''Roles'', [[(''RoleID'', CInt (-1))]])]]"
    by (simp add: ws change_msg_def plain_ws_def)
  have v: "foldl spec_change (page_view (pc_ws Roles_page) (shown ?p)) ?cs = [2 \<mapsto> [(''RoleID'', CInt 2)]]"
    unfolding st(4) ws by (auto simp: plain_ws_def getID_def js_prop_def fun_eq_iff page_view_def)
  have a: "shows_all (pc_ws Roles_page)" "pc_ws Roles_page = Roles_ws" unfolding ws by simp_all
  from pushes_followed [OF r st(1,2,3) a(1) k l, unfolded m v, unfolded a(2)] r show ?thesis by blast
qed

text \<open>
  A row that is pushed before the list arrives: on most pages the observer raises and the
  subscription is gone, although the reply is still to come.
\<close>

lemma early_push_ends_updates:
  assumes "watching p i" "dataSource p = None" "\<not> pc_makes_source c"
    and "isRelevant (pc_ws c) [] u" "map_of e (targetName (pc_ws c)) = Some (u # us)"
  shows "on_push c i e p = end_subscription i p"
  using assms by (simp add: on_push_def observe_def watching_def shown_def getItems_def take_row_def Let_def split: prod.splits)

section \<open>The selected row\<close>

lemma page_step_objects: "\<exists>rows. objects (page_step c p ev) = objects p @ rows"
proof (cases ev)
  case (Push i e)
  have "take_row c u p = Some q \<Longrightarrow> objects q = objects p @ [u]" for u q
    by (auto simp: take_row_def Let_def open_snack_def split: option.splits prod.splits if_splits)
  with Push show ?thesis by (auto simp: on_push_def observe_def split: option.splits list.splits)
next
  case (Reply r)
  with on_loaded_frame [where c = c and r = r and p = p] show ?thesis by auto
qed (auto simp: on_open_def signal_def on_error_def on_close_def unsubscribe_def detach_def on_load_failed_def
    on_retry_def on_click_def on_dblclick_def ngOnDestroy_def open_snack_def Let_def end_current_def
    split: option.splits)

text \<open>
  What a page's selection refers to is the row as it was when the user picked it: no message, reply
  or loss of a connection changes the object, also when the list shows a newer row with the same
  identifier.
\<close>

lemma selected_object_stays:
  assumes "page_run c (opened c) evs p" and "selectedRow p = Some r" and "page_run c p evs' q"
  shows "objects q ! r = objects p ! r"
proof -
  have "r < length (objects p)"
    using page_okD(6) [OF page_run_ok [OF assms(1) opened_ok]] assms(2) by (simp add: refs_ok_def)
  with assms(3) show ?thesis
  proof (induction rule: page_run.induct)
    case (run_cons p ev evs q)
    from page_step_objects [of c p ev] obtain rows where "objects (page_step c p ev) = objects p @ rows" by blast
    with run_cons.IH run_cons.prems show ?case by (simp add: nth_append)
  qed simp
qed

end
