(* ===== verification/HomePage.thy ===== *)
theory HomePage
  imports PageRuns
begin

text \<open>
  The home page of the browser application (\<^verbatim>\<open>dmz-home\<close>) and the grid of one of its tabs
  (\<^verbatim>\<open>dmz-layout-tab\<close>), in \<^verbatim>\<open>web/www/main-es2015...js\<close>.  The page loads the active layout, then the tabs of
  that layout, and listens to changes of the tabs like the list pages do: its list of tabs and its
  sockets are those of \<open>ListPage\<close>, with a list that is there from the beginning and grows by what a
  reply brings.
\<close>

section \<open>The page\<close>

definition Home_config :: page_config where
  "Home_config = table_page Tabs_ws ''Tab'' []"

record home =
  hm_page :: list_page
  hm_layout :: "item option"
  layout_loads :: nat
  selectedTab :: nat

definition new_home :: home where
  "new_home = \<lparr>hm_page = new_page\<lparr>dataSource := Some \<lparr>ds_data = [], ds_filter = None, ds_ready = False\<rparr>\<rparr>,
     hm_layout = None, layout_loads = 0, selectedTab = 0\<rparr>"

definition on_page :: "(list_page \<Rightarrow> list_page) \<Rightarrow> home \<Rightarrow> home" where
  "on_page f h = h\<lparr>hm_page := f (hm_page h)\<rparr>"

definition loadLayout :: "home \<Rightarrow> home" where
  "loadLayout h = h\<lparr>layout_loads := layout_loads h + 1\<rparr>"

definition home_init :: "home \<Rightarrow> home" where
  "home_init h = on_page (\<lambda>p. (subscribe p)\<lparr>isActive := True\<rparr>) (loadLayout h)"

definition loadTabs :: "home \<Rightarrow> home" where
  "loadTabs = on_page loadData"

text \<open>The reply to the layouts: the first one is taken; an empty list leaves the page without a layout.\<close>

definition on_layouts :: "item list option \<Rightarrow> home \<Rightarrow> home" where
  "on_layouts reply h =
     (let h1 = h\<lparr>layout_loads := layout_loads h - 1\<rparr>
      in case reply of
           None \<Rightarrow> on_page (open_snack ''No Layouts returned. '' False) h1
         | Some [] \<Rightarrow> h1\<lparr>hm_layout := None\<rparr>
         | Some (l # _) \<Rightarrow> loadTabs (h1\<lparr>hm_layout := Some l\<rparr>))"

definition on_no_layouts :: "string \<Rightarrow> home \<Rightarrow> home" where
  "on_no_layouts s h = on_page (open_snack s False) (h\<lparr>layout_loads := layout_loads h - 1\<rparr>)"

text \<open>The reply to the tabs: they are pushed onto the list the page has.\<close>

definition push_tabs :: "item list \<Rightarrow> list_page \<Rightarrow> list_page" where
  "push_tabs rows p = p\<lparr>objects := objects p @ rows,
     dataSource := map_option (\<lambda>ds. ds\<lparr>ds_data := ds_data ds @
       [length (objects p)..<length (objects p) + length rows]\<rparr>) (dataSource p)\<rparr>"

definition on_tabs :: "item list option \<Rightarrow> list_page \<Rightarrow> list_page" where
  "on_tabs reply p =
     (let p1 = p\<lparr>loads := loads p - 1\<rparr>
      in case reply of None \<Rightarrow> open_snack ''No Tabs returned. '' False p1 | Some rows \<Rightarrow> push_tabs rows p1)"

definition home_retry :: "home \<Rightarrow> home" where
  "home_retry h = home_init (on_page (\<lambda>p. p\<lparr>snack := None\<rparr>) h)"

definition home_leave :: "home \<Rightarrow> home" where
  "home_leave = on_page (ngOnDestroy Home_config)"

section \<open>Runs\<close>

datatype home_event =
  Socket page_event | Layouts "item list option" | NoLayouts string
| TabRows "item list option" | NoTabs string | HomeRetry | SelectTab nat | HomeLeave

fun socket_event :: "page_event \<Rightarrow> bool" where
  "socket_event (Open i) = True"
| "socket_event (Push i e) = True"
| "socket_event (Garbled i m) = True"
| "socket_event (Fault i) = True"
| "socket_event (Close i b) = True"
| "socket_event SnackGone = True"
| "socket_event _ = False"

fun home_enabled :: "home \<Rightarrow> home_event \<Rightarrow> bool" where
  "home_enabled h (Socket ev) = (socket_event ev \<and> enabled (hm_page h) ev)"
| "home_enabled h (Layouts r) = (0 < layout_loads h)"
| "home_enabled h (NoLayouts s) = (0 < layout_loads h)"
| "home_enabled h (TabRows r) = (0 < loads (hm_page h))"
| "home_enabled h (NoTabs s) = (0 < loads (hm_page h))"
| "home_enabled h HomeRetry = (\<exists>s. snack (hm_page h) = Some (s, True))"
| "home_enabled h (SelectTab n) = (n < getItemCount (hm_page h))"
| "home_enabled h HomeLeave = True"

fun home_step :: "home \<Rightarrow> home_event \<Rightarrow> home" where
  "home_step h (Socket ev) = on_page (\<lambda>p. page_step Home_config p ev) h"
| "home_step h (Layouts r) = on_layouts r h"
| "home_step h (NoLayouts s) = on_no_layouts s h"
| "home_step h (TabRows r) = on_page (on_tabs r) h"
| "home_step h (NoTabs s) = on_page (on_load_failed s) h"
| "home_step h HomeRetry = home_retry h"
| "home_step h (SelectTab n) = h\<lparr>selectedTab := n\<rparr>"
| "home_step h HomeLeave = home_leave h"

inductive home_run :: "home \<Rightarrow> home_event list \<Rightarrow> home \<Rightarrow> bool" where
  home_nil: "home_run h [] h"
| home_cons: "home_enabled h ev \<Longrightarrow> home_run (home_step h ev) evs g \<Longrightarrow> home_run h (ev # evs) g"

inductive_simps home_run_simps [simp]: "home_run h [] g" "home_run h (ev # evs) g"

section \<open>The grid of a tab\<close>

record tab_grid =
  MinColumns :: int
  MaxColumns :: int
  MinColWidth :: int
  GutterSize :: int

text \<open>The columns for a width in pixels: the quotient is cut to the limits, then to a whole number.\<close>

definition calcColumns :: "tab_grid \<Rightarrow> int \<Rightarrow> int" where
  "calcColumns g t =
     (if t < MinColumns g * MinColWidth g then
        (if MinColumns g > MaxColumns g then MaxColumns g else MinColumns g)
      else if t > MaxColumns g * MinColWidth g then MaxColumns g
      else t div MinColWidth g)"

text \<open>The least width of the grid with \<open>n\<close> columns; with \<^verbatim>\<open>MinColumns\<close> it is \<^verbatim>\<open>gridMinWidth\<close>.\<close>

definition gridWidthFor :: "tab_grid \<Rightarrow> int \<Rightarrow> int" where
  "gridWidthFor g n = MinColWidth g * n + GutterSize g * (n - 1)"

section \<open>The invariant\<close>

definition home_ok :: "home \<Rightarrow> bool" where
  "home_ok h \<longleftrightarrow> page_ok (hm_page h) \<and> dataSource (hm_page h) \<noteq> None"

lemma on_page_simps [simp]:
  "hm_page (on_page f h) = f (hm_page h)" "hm_layout (on_page f h) = hm_layout h"
  "layout_loads (on_page f h) = layout_loads h" "selectedTab (on_page f h) = selectedTab h"
  by (simp_all add: on_page_def)

lemma take_row_source: "take_row c u p = Some q \<Longrightarrow> dataSource q \<noteq> None"
  by (auto simp: take_row_def open_snack_def Let_def split: option.splits prod.splits if_splits)

lemma source_same:
  "dataSource (on_open i p) = dataSource p" "dataSource (detach i p) = dataSource p"
  by (simp_all add: on_open_def detach_def)

lemma source_faults:
  "dataSource (signal i f p) = dataSource p" "dataSource (on_error i p) = dataSource p"
  "dataSource (unsubscribe c p) = dataSource p"
  by (simp_all add: signal_def on_error_def unsubscribe_def source_same Let_def)

lemma source_close: "dataSource (on_close c i b p) = dataSource p"
  by (simp add: on_close_def source_same source_faults Let_def)

lemma source_push: "dataSource p \<noteq> None \<Longrightarrow> dataSource (on_push c i e p) \<noteq> None"
  by (auto simp: on_push_def observe_def source_same split: option.split list.split dest: take_row_source)

lemma source_kept: "dataSource p \<noteq> None \<Longrightarrow> socket_event ev \<Longrightarrow> dataSource (page_step c p ev) \<noteq> None"
  by (cases ev) (simp_all only: page_step.simps socket_event.simps source_same source_faults source_close
      source_push simp_thms, simp_all)

lemma not_asking:
  "asks (p\<lparr>loads := n\<rparr>) = asks p" "asks (open_snack s False p) = False" "\<not> asks (p\<lparr>snack := None\<rparr>)"
  "asks (push_tabs rows p) = asks p"
  by (simp_all add: asks_def open_snack_def push_tabs_def)

lemma page_ok_updates:
  assumes "page_ok p"
  shows "page_ok (p\<lparr>loads := n\<rparr>)" "page_ok (open_snack s False p)" "page_ok (p\<lparr>snack := None\<rparr>)"
  using assms page_okD(6) [OF assms] refs_ok_cong [of "p\<lparr>loads := n\<rparr>" p] refs_ok_cong [of "p\<lparr>snack := None\<rparr>" p]
  by (auto intro!: page_ok_frame [OF assms] simp: not_asking)

lemma refs_ok_push_tabs: "refs_ok p \<Longrightarrow> refs_ok (push_tabs rows p)"
  by (auto simp: refs_ok_def push_tabs_def getItems_def list_all_iff split: option.splits)

lemma push_tabs_simps [simp]:
  "conns (push_tabs rows p) = conns p" "webSocketSubscriber (push_tabs rows p) = webSocketSubscriber p"
  "dataSource (push_tabs rows p) = None \<longleftrightarrow> dataSource p = None" "snack (push_tabs rows p) = snack p"
  by (simp_all add: push_tabs_def)

lemma push_tabs_ok: "page_ok p \<Longrightarrow> page_ok (push_tabs rows p)"
  by (rule page_ok_frame) (auto simp: not_asking refs_ok_push_tabs dest: page_okD(6))

lemma home_init_ok:
  assumes "page_ok p" and "\<And>i. \<not> watching p i" and "\<not> asks p"
  shows "page_ok ((subscribe p)\<lparr>isActive := True\<rparr>)"
proof -
  let ?q = "(subscribe p)\<lparr>isActive := True\<rparr>"
  have "page_ok (ngAfterViewInit Home_config p)" using assms page_okD(6) [OF assms(1)] by (intro init_ok)
  moreover have "?q = (ngAfterViewInit Home_config p)\<lparr>loads := loads p\<rparr>"
    by (simp add: ngAfterViewInit_def subscribe_def loadData_def Home_config_def table_page_def)
  ultimately show ?thesis by (simp only: page_ok_updates)
qed

lemma new_home_ok: "home_ok (home_init new_home)"
proof -
  have "page_ok (hm_page new_home)"
    by (intro page_ok_idle) (auto simp: new_home_def new_page_def watching_def refs_ok_def getItems_def)
  then have "page_ok ((subscribe (hm_page new_home))\<lparr>isActive := True\<rparr>)"
    by (rule home_init_ok) (auto simp: new_home_def new_page_def watching_def asks_def)
  then show ?thesis
    by (simp add: home_ok_def home_init_def loadLayout_def) (simp add: new_home_def subscribe_def)
qed

lemma home_step_ok:
  assumes "home_ok h" and "home_enabled h ev"
  shows "home_ok (home_step h ev)"
proof -
  have p: "page_ok (hm_page h)" and d: "dataSource (hm_page h) \<noteq> None" using assms(1) by (simp_all add: home_ok_def)
  show ?thesis
  proof (cases ev)
    case (Socket ev')
    with assms(2) page_step_ok [OF p, of ev' Home_config] source_kept [OF d, of ev' Home_config] show ?thesis
      by (simp only: home_ok_def home_step.simps home_enabled.simps on_page_simps simp_thms)
  next
    case (Layouts r)
    with p d show ?thesis
      by (auto simp: home_ok_def on_layouts_def loadTabs_def loadData_def page_ok_updates source_same Let_def
          split: option.split list.split)
  next
    case (NoLayouts s)
    with p d show ?thesis by (simp add: home_ok_def on_no_layouts_def page_ok_updates source_same)
  next
    case (TabRows r)
    with p d show ?thesis
      by (cases r) (simp_all add: home_ok_def on_tabs_def page_ok_updates push_tabs_ok source_same)
  next
    case (NoTabs s)
    with p d show ?thesis by (simp add: home_ok_def on_load_failed_def page_ok_updates source_same)
  next
    case HomeRetry
    with assms(2) have "asks (hm_page h)" by (auto simp: asks_def)
    with page_okD(2) [OF p] have w: "\<not> watching (hm_page h) i" for i by blast
    have "page_ok ((subscribe ((hm_page h)\<lparr>snack := None\<rparr>))\<lparr>isActive := True\<rparr>)"
      by (rule home_init_ok [OF page_ok_updates(3) [OF p]]) (use w in \<open>auto simp: watching_def not_asking\<close>)
    with HomeRetry d show ?thesis
      by (simp add: home_ok_def home_retry_def home_init_def loadLayout_def) (simp add: subscribe_def)
  next
    case (SelectTab n)
    with p d show ?thesis by (simp add: home_ok_def)
  next
    case HomeLeave
    have "page_ok (page_step Home_config (hm_page h) Leave)" using page_step_ok [OF p, of Leave] by simp
    with HomeLeave d show ?thesis
      by (simp add: home_ok_def home_leave_def) (simp add: ngOnDestroy_def source_same)
  qed
qed

lemma home_run_ok: "home_run h evs g \<Longrightarrow> home_ok h \<Longrightarrow> home_ok g"
  by (induction rule: home_run.induct) (auto intro: home_step_ok)

section \<open>Properties\<close>

lemma shown_push_tabs:
  assumes "refs_ok p" and "dataSource p \<noteq> None"
  shows "shown (push_tabs rows p) = shown p @ rows"
proof -
  have r: "list_all (\<lambda>r. r < length (objects p)) (getItems p)" using assms(1) by (simp add: refs_ok_def)
  have g: "getItems (push_tabs rows p) = getItems p @ [length (objects p)..<length (objects p) + length rows]"
    using assms(2) by (auto simp: push_tabs_def getItems_def split: option.split)
  have o: "objects (push_tabs rows p) = objects p @ rows" by (simp add: push_tabs_def)
  show ?thesis unfolding shown_def g o values_of_simps by (simp only: values_of_extend [OF r] values_of_new)
qed

lemma shown_loads [simp]:
  "shown (p\<lparr>loads := n\<rparr>) = shown p" "shown (p\<lparr>snack := v\<rparr>) = shown p" "shown (p\<lparr>isActive := b\<rparr>) = shown p"
  "shown (subscribe p) = shown p" "shown (open_snack s r p) = shown p"
  by (simp_all add: shown_def getItems_def subscribe_def open_snack_def)

lemma refs_ok_loads: "refs_ok (p\<lparr>loads := n\<rparr>) = refs_ok p"
  by (rule refs_ok_cong) simp_all

lemma tab_rows_shown:
  assumes "home_ok h"
  shows "shown (hm_page (home_step h (TabRows (Some rows)))) = shown (hm_page h) @ rows"
proof -
  have "refs_ok ((hm_page h)\<lparr>loads := n\<rparr>)" for n
    using assms page_okD(6) by (simp add: home_ok_def refs_ok_loads)
  then show ?thesis using assms by (simp add: home_ok_def on_tabs_def shown_push_tabs Let_def)
qed

text \<open>The tabs of a reply are added to those the home page has: starting again after
  the socket failed, and loading again, leaves every tab twice on the page.\<close>

theorem retry_doubles_tabs:
  assumes "home_run (home_init new_home) evs h" and "asks (hm_page h)"
    and "layout_loads h = 0" and "loads (hm_page h) = 0"
  shows "\<exists>g. home_run h [HomeRetry, Layouts (Some [layout]), TabRows (Some rows)] g \<and>
    shown (hm_page g) = shown (hm_page h) @ rows"
proof -
  let ?h1 = "home_step h HomeRetry"
  let ?h2 = "home_step ?h1 (Layouts (Some [layout]))"
  have e: "home_enabled h HomeRetry" using assms(2) by (simp add: asks_def)
  have e1: "home_enabled ?h1 (Layouts (Some [layout]))"
    by (simp add: home_retry_def home_init_def loadLayout_def)
  have e2: "home_enabled ?h2 (TabRows (Some rows))"
    by (simp add: on_layouts_def loadTabs_def loadData_def Let_def)
  have ok: "home_ok ?h2"
    using home_step_ok [OF home_step_ok [OF home_run_ok [OF assms(1) new_home_ok] e] e1] .
  have "shown (hm_page ?h2) = shown (hm_page h)"
    by (simp add: on_layouts_def loadTabs_def loadData_def home_retry_def home_init_def loadLayout_def Let_def)
  with tab_rows_shown [OF ok, of rows] e e1 e2 show ?thesis by (metis home_run_simps)
qed

definition example_tab :: item where
  "example_tab = [(''TabID'', CInt 1), (''Name'', CStr ''Main'')]"

lemma example_home:
  "home_run (home_init new_home) [Socket (Open 0), Layouts (Some [[]]), TabRows (Some [example_tab])] h \<Longrightarrow>
     watching (hm_page h) 0 \<and> cn_state (conns (hm_page h) ! 0) = Opened \<and> shown (hm_page h) = [example_tab] \<and>
     layout_loads h = 0 \<and> loads (hm_page h) = 0"
  "\<exists>h. home_run (home_init new_home) [Socket (Open 0), Layouts (Some [[]]), TabRows (Some [example_tab])] h"
  by (simp_all add: home_init_def new_home_def new_page_def subscribe_def loadLayout_def on_open_def on_layouts_def
      loadTabs_def loadData_def on_tabs_def push_tabs_def watching_def shown_def getItems_def Let_def)

theorem retry_doubles_tabs_witness:
  "\<exists>h g. home_run (home_init new_home)
      [Socket (Open 0), Layouts (Some [[]]), TabRows (Some [example_tab]), Socket (Fault 0)] h \<and>
    home_run h [HomeRetry, Layouts (Some [[]]), TabRows (Some [example_tab])] g \<and>
    shown (hm_page g) = [example_tab, example_tab]"
proof -
  let ?evs = "[Socket (Open 0), Layouts (Some [[]]), TabRows (Some [example_tab]), Socket (Fault 0)]"
  obtain h where h: "home_run (home_init new_home) ?evs h" "asks (hm_page h)" "layout_loads h = 0"
      "loads (hm_page h) = 0" "shown (hm_page h) = [example_tab]"
    by (simp add: home_init_def new_home_def new_page_def subscribe_def loadLayout_def on_open_def on_layouts_def
      loadTabs_def loadData_def on_tabs_def push_tabs_def shown_def getItems_def on_error_def detach_def signal_def
      end_subscription_def open_snack_def asks_def Let_def)
  with retry_doubles_tabs [OF h(1-4), of "[]" "[example_tab]"] show ?thesis by auto
qed

text \<open>Once it has its tabs the home page follows the table: after the messages for any sequence of
  legal changes to tabs, of whatever layout, it shows what the changes make of the tabs it showed.\<close>

theorem home_follows_tabs:
  assumes "home_run (home_init new_home) evs h" and "watching (hm_page h) i"
    and "cn_state (conns (hm_page h) ! i) = Opened" and "keyed Tabs_ws (shown (hm_page h))"
    and "legal (row_for Tabs_ws) (page_view Tabs_ws (shown (hm_page h))) cs"
  shows "\<exists>g. home_run h (map (\<lambda>x. Socket (Push i (change_msg Tabs_ws x))) cs) g \<and> watching (hm_page g) i \<and>
    page_view Tabs_ws (shown (hm_page g)) = foldl spec_change (page_view Tabs_ws (shown (hm_page h))) cs"
proof -
  have ok: "home_ok h" by (rule home_run_ok [OF assms(1) new_home_ok])
  have ws: "pc_ws Home_config = Tabs_ws" "shows_all Tabs_ws"
    by (simp_all add: Home_config_def table_page_def Tabs_ws_def)
  obtain q where q: "page_run Home_config (hm_page h) (map (\<lambda>x. Push i (change_msg Tabs_ws x)) cs) q" "watching q i"
      "shown q = foldl (page_change Tabs_ws) (shown (hm_page h)) cs"
    using push_run [of "hm_page h" i Home_config cs] ok assms(2,3) by (auto simp: home_ok_def ws)
  have "home_run h (map (\<lambda>x. Socket (Push i (change_msg Tabs_ws x))) cs) (h\<lparr>hm_page := q\<rparr>)"
    using q(1)
  proof (induction cs arbitrary: h)
    case (Cons x cs)
    then have "home_run (home_step h (Socket (Push i (change_msg Tabs_ws x))))
        (map (\<lambda>x. Socket (Push i (change_msg Tabs_ws x))) cs)
        ((home_step h (Socket (Push i (change_msg Tabs_ws x))))\<lparr>hm_page := q\<rparr>)"
      by (intro Cons.IH) simp
    with Cons.prems show ?case by (simp add: on_page_def)
  qed simp
  moreover have "page_view Tabs_ws (shown q) = foldl spec_change (page_view Tabs_ws (shown (hm_page h))) cs"
    using row_store.run_look [OF page_row_store [OF ws(2)] assms(4,5)] q(3) by auto
  ultimately show ?thesis using q(2) by force
qed

theorem home_follows_tabs_witness:
  "\<exists>h g. home_run (home_init new_home) [Socket (Open 0), Layouts (Some [[]]), TabRows (Some [example_tab])] h \<and>
    home_run h [Socket (Push 0 (change_msg Tabs_ws (Del 1)))] g \<and> page_view Tabs_ws (shown (hm_page g)) = Map.empty"
proof -
  obtain h where h: "home_run (home_init new_home) [Socket (Open 0), Layouts (Some [[]]), TabRows (Some [example_tab])] h"
    using example_home(2) by blast
  note f = example_home(1) [OF h]
  have k: "keyed Tabs_ws (shown (hm_page h))" "legal (row_for Tabs_ws) (page_view Tabs_ws (shown (hm_page h))) [Del 1]"
    and v: "foldl spec_change (page_view Tabs_ws (shown (hm_page h))) [Del 1] = Map.empty"
    using f by (auto simp: Tabs_ws_def plain_ws_def example_tab_def getID_def js_prop_def page_view_def fun_eq_iff)
  from home_follows_tabs [OF h _ _ k, of 0] f v h show ?thesis by auto
qed

text \<open>The number of columns of a tab's grid lies between its limits, is the greatest for
  which columns of the least width fit without gutters, and never less than \<^verbatim>\<open>MinColumns\<close>.\<close>

theorem grid_columns_bounded:
  assumes "0 < MinColWidth g" and "0 \<le> MinColumns g" and "MinColumns g \<le> MaxColumns g"
  shows "let n = calcColumns g t in MinColumns g \<le> n \<and> n \<le> MaxColumns g \<and>
    (n = MinColumns g \<or> n * MinColWidth g \<le> t) \<and> (n = MaxColumns g \<or> t < (n + 1) * MinColWidth g)"
proof -
  let ?w = "MinColWidth g" and ?q = "t div MinColWidth g"
  consider "t < MinColumns g * ?w" | "MaxColumns g * ?w < t"
    | "MinColumns g * ?w \<le> t" "t \<le> MaxColumns g * ?w" by linarith
  then show ?thesis
  proof cases
    case 1
    moreover have "MinColumns g * ?w \<le> (MinColumns g + 1) * ?w" using assms(1) by simp
    ultimately show ?thesis using assms(3) by (simp add: calcColumns_def Let_def)
  next
    case 2
    have "MinColumns g * ?w \<le> MaxColumns g * ?w" using assms by simp
    with 2 show ?thesis using assms(3) by (simp add: calcColumns_def Let_def)
  next
    case 3
    have "MinColumns g \<le> ?q" using 3(1) assms(1) by (simp add: zdiv_mono1 [of "MinColumns g * ?w" t ?w, simplified])
    moreover have "?q \<le> MaxColumns g" using 3(2) assms(1) zdiv_mono1 [of t "MaxColumns g * ?w" ?w] by simp
    moreover have "?q * ?w \<le> t" using assms(1) by (simp add: minus_mod_eq_div_mult [symmetric])
    moreover have "t < (?q + 1) * ?w"
    proof -
      have "(?q + 1) * ?w = ?w * ?q + ?w" by (simp add: algebra_simps)
      then show ?thesis using pos_mod_bound [OF assms(1), of t] mult_div_mod_eq [of ?w t] by linarith
    qed
    ultimately show ?thesis using 3 by (simp add: calcColumns_def Let_def)
  qed
qed

theorem grid_columns_bounded_witness:
  "calcColumns \<lparr>MinColumns = 2, MaxColumns = 8, MinColWidth = 90, GutterSize = 10\<rparr> 360 = 4 \<and>
   gridWidthFor \<lparr>MinColumns = 2, MaxColumns = 8, MinColWidth = 90, GutterSize = 10\<rparr> 4 = 390"
  using grid_columns_bounded [of "\<lparr>MinColumns = 2, MaxColumns = 8, MinColWidth = 90, GutterSize = 10\<rparr>" 360]
  by (simp add: calcColumns_def gridWidthFor_def Let_def)

end
