(* ===== verification/PageFilter.thy ===== *)
theory PageFilter
  imports PageRuns
begin

text \<open>
  What a list page shows of its rows: the filter of the page (\<^verbatim>\<open>filterPredicate\<close>, \<^verbatim>\<open>getFilter\<close>,
  \<^verbatim>\<open>onFilter\<close> and the filter dialog \<^verbatim>\<open>EL\<close>) and the part of the table's data source (\<^verbatim>\<open>dB\<close>) that
  applies it and cuts the result into pages.  A filter is the JSON text of a list of columns and
  values; the list stands for its text.  Texts are made of ASCII characters.
\<close>

section \<open>Texts\<close>

definition js_lower :: "string \<Rightarrow> string" where
  "js_lower s = map (\<lambda>c. if 65 \<le> (of_char c :: nat) \<and> (of_char c :: nat) \<le> 90 then char_of ((of_char c :: nat) + 32) else c) s"

lemma js_lower_simps [simp]: "js_lower [] = []" "length (js_lower s) = length s"
  by (simp_all add: js_lower_def)

section \<open>The filter\<close>

text \<open>The text a column is compared by; a property that is missing has none.\<close>

definition column_text :: "item \<Rightarrow> string \<Rightarrow> js_error + string" where
  "column_text t k = (case map_of t k of
      None \<Rightarrow> Inl TypeError
    | Some (CStr s) \<Rightarrow> Inr (js_lower s)
    | Some (CInt n) \<Rightarrow> Inr (int_to_string n))"

fun filter_tests :: "item \<Rightarrow> (string \<times> string) list \<Rightarrow> js_error + bool list" where
  "filter_tests t [] = Inr []"
| "filter_tests t ((k, v) # fs) =
     bind_res (column_text t k) (\<lambda>n. bind_res (filter_tests t fs) (\<lambda>bs. Inr (contains n (js_lower v) # bs)))"

definition filterPredicate :: "item \<Rightarrow> (string \<times> string) list \<Rightarrow> js_error + bool" where
  "filterPredicate t fs = bind_res (filter_tests t fs) (\<lambda>bs. Inr (list_all id bs))"

fun js_filter :: "('a \<Rightarrow> js_error + bool) \<Rightarrow> 'a list \<Rightarrow> js_error + 'a list" where
  "js_filter f [] = Inr []"
| "js_filter f (x # xs) =
     bind_res (f x) (\<lambda>b. bind_res (js_filter f xs) (\<lambda>ys. Inr (if b then x # ys else ys)))"

text \<open>\<^verbatim>\<open>_filterData\<close>: when the predicate raises, the table is not drawn again.\<close>

definition filterData :: "item list \<Rightarrow> (string \<times> string) list option \<Rightarrow> js_error + item list" where
  "filterData rows fo = (case fo of None \<Rightarrow> Inr rows | Some fs \<Rightarrow> js_filter (\<lambda>t. filterPredicate t fs) rows)"

section \<open>The dialog\<close>

text \<open>\<open>active\<close> is the column the table is sorted by.\<close>

definition getFilter :: "page_config \<Rightarrow> data_source \<Rightarrow> string option \<Rightarrow> (string \<times> string) list option
    \<Rightarrow> js_error + (string \<times> string) list" where
  "getFilter c ds active t =
     (if \<not> ds_ready ds then Inl TypeError
      else let e = (case active of Some k \<Rightarrow> k | None \<Rightarrow> pc_default_column c)
      in case t of
           None \<Rightarrow> Inr [(e, [])]
         | Some [] \<Rightarrow> Inl TypeError
         | Some ((k, v) # _) \<Rightarrow> Inr [(e, v)])"

text \<open>The dialog: what it shows, and what it gives back for the text in it.\<close>

definition dialog_text :: "(string \<times> string) list \<Rightarrow> js_error + string \<times> string" where
  "dialog_text d = (case d of
      [] \<Rightarrow> Inl TypeError | (k, v) # _ \<Rightarrow> Inr (''Filter on '' @ k @ '' column'', v))"

definition dialog_submit :: "(string \<times> string) list \<Rightarrow> string \<Rightarrow> js_error + (string \<times> string) list" where
  "dialog_submit d v = (case d of [] \<Rightarrow> Inl TypeError | (k, _) # _ \<Rightarrow> Inr [(k, v)])"

text \<open>
  \<^verbatim>\<open>onFilter\<close>: \<open>typed\<close> is what the user left in the dialog, \<^const>\<open>None\<close> when it was cancelled, and
  \<open>later\<close> the sort column when the dialog closes.
\<close>

definition onFilter :: "page_config \<Rightarrow> string option \<Rightarrow> string option \<Rightarrow> string option \<Rightarrow> list_page
    \<Rightarrow> js_error + list_page" where
  "onFilter c active later typed p =
     (case dataSource p of
        None \<Rightarrow> Inl TypeError
      | Some ds \<Rightarrow>
          bind_res (getFilter c ds active (ds_filter ds)) (\<lambda>d.
            case typed of
              None \<Rightarrow> Inr p
            | Some v \<Rightarrow> bind_res (dialog_submit d v) (\<lambda>t.
                bind_res (getFilter c ds later (Some t)) (\<lambda>f.
                  Inr (p\<lparr>dataSource := Some (ds\<lparr>ds_filter := Some f\<rparr>)\<rparr>)))))"

text \<open>What the table is given to draw.\<close>

definition drawn :: "list_page \<Rightarrow> js_error + item list" where
  "drawn p = (case dataSource p of None \<Rightarrow> Inr [] | Some ds \<Rightarrow> filterData (shown p) (ds_filter ds))"

section \<open>Pages\<close>

text \<open>\<^verbatim>\<open>_pageData\<close>, and \<^verbatim>\<open>_updatePaginator\<close> with the setter that does not let the index below 0.\<close>

definition pageData :: "nat \<Rightarrow> nat \<Rightarrow> 'a list \<Rightarrow> 'a list" where
  "pageData pageIndex pageSize rows = take pageSize (drop (pageIndex * pageSize) rows)"

definition ceil_div :: "nat \<Rightarrow> nat \<Rightarrow> int" where
  "ceil_div n d = - ((- int n) div int d)"

definition updatePaginator :: "nat \<Rightarrow> nat \<Rightarrow> nat \<Rightarrow> nat" where
  "updatePaginator pageIndex pageSize n =
     (if pageIndex > 0 then nat (max 0 (min (int pageIndex) (ceil_div n pageSize - 1))) else pageIndex)"

definition firstPage :: "nat \<Rightarrow> nat \<Rightarrow> nat" where
  "firstPage pageIndex pageSize = (if pageIndex \<ge> 1 \<and> pageSize \<noteq> 0 then 0 else pageIndex)"

section \<open>What is drawn\<close>

lemma js_filter_total:
  assumes "\<And>x. x \<in> set xs \<Longrightarrow> f x = Inr (g x)"
  shows "js_filter f xs = Inr (filter g xs)"
  using assms by (induction xs) simp_all

lemma js_filter_raises:
  assumes "x \<in> set xs" "f x = Inl TypeError"
  shows "js_filter f xs = Inl TypeError"
  using assms(1)
proof (induction xs)
  case (Cons y ys)
  show ?case
  proof (cases "f y")
    case (Inl e)
    then show ?thesis by (cases e) simp
  next
    case (Inr b)
    with Cons assms(2) show ?thesis by auto
  qed
qed simp

lemma filterPredicate_one:
  "filterPredicate t [(k, v)] = bind_res (column_text t k) (\<lambda>n. Inr (contains n (js_lower v)))"
  by (cases "column_text t k") (simp_all add: filterPredicate_def)

definition has_column :: "string \<Rightarrow> item \<Rightarrow> bool" where
  "has_column k t \<longleftrightarrow> map_of t k \<noteq> None"

definition matches_text :: "string \<Rightarrow> string \<Rightarrow> item \<Rightarrow> bool" where
  "matches_text k v t \<longleftrightarrow> (\<exists>n. column_text t k = Inr n \<and> contains n (js_lower v))"

lemma filterData_column:
  assumes "list_all (has_column k) rows"
  shows "filterData rows (Some [(k, v)]) = Inr (filter (matches_text k v) rows)"
proof -
  have "filterPredicate t [(k, v)] = Inr (matches_text k v t)" if "t \<in> set rows" for t
    using that assms
    by (auto simp: filterPredicate_one matches_text_def has_column_def column_text_def list_all_iff
        split: option.splits cell.splits)
  then show ?thesis unfolding filterData_def by (simp add: js_filter_total)
qed

lemma filterData_missing:
  assumes "t \<in> set rows" "\<not> has_column k t"
  shows "filterData rows (Some [(k, v)]) = Inl TypeError"
proof -
  have "filterPredicate t [(k, v)] = Inl TypeError"
    using assms(2) by (simp add: filterPredicate_one has_column_def column_text_def)
  with assms(1) show ?thesis unfolding filterData_def by (auto intro: js_filter_raises)
qed

lemma onFilter_submit:
  assumes "dataSource p = Some ds" "ds_ready ds" "ds_filter ds \<noteq> Some []"
  shows "onFilter c active active (Some v) p =
    Inr (p\<lparr>dataSource := Some (ds\<lparr>ds_filter := Some [(case active of Some k \<Rightarrow> k | None \<Rightarrow> pc_default_column c, v)]\<rparr>)\<rparr>)"
  using assms by (auto simp: onFilter_def getFilter_def dialog_submit_def Let_def split: option.splits list.splits)

text \<open>C33: The filter dialog does what it says: after the user typed a text while the table
  was sorted by a column that all rows have, the table draws exactly the rows whose value in that
  column contains the text, without regard to case, and the dialog shows the same column and text
  when it is opened again.\<close>

theorem filter_exact:
  assumes "dataSource p = Some ds" and "ds_ready ds" and "ds_filter ds \<noteq> Some []"
    and "list_all (has_column k) (shown p)"
  shows "\<exists>q. onFilter c (Some k) (Some k) (Some v) p = Inr q \<and> shown q = shown p \<and>
    drawn q = Inr (filter (matches_text k v) (shown p)) \<and>
    (\<exists>ds'. dataSource q = Some ds' \<and>
       bind_res (getFilter c ds' (Some k) (ds_filter ds')) dialog_text = Inr (''Filter on '' @ k @ '' column'', v))"
proof -
  let ?q = "p\<lparr>dataSource := Some (ds\<lparr>ds_filter := Some [(k, v)]\<rparr>)\<rparr>"
  have s: "shown ?q = shown p" using assms(1) by (simp add: shown_def getItems_def)
  have "drawn ?q = Inr (filter (matches_text k v) (shown p))"
    using filterData_column [OF assms(4), of v] s by (simp add: drawn_def)
  with s onFilter_submit [OF assms(1-3), of c "Some k" v] assms(2) show ?thesis
    by (auto simp: getFilter_def dialog_text_def Let_def)
qed

theorem filter_exact_witness:
  "\<exists>q. onFilter Units_page (Some ''Name'') (Some ''Name'') (Some ''AM'')
      (on_loaded Units_page (Some (''2'', [[(''Name'', CStr ''Lamp'')], [(''Name'', CStr ''Fan'')]])) (opened Units_page)) = Inr q \<and>
    drawn q = Inr [[(''Name'', CStr ''Lamp'')]]"
proof -
  let ?p = "on_loaded Units_page (Some (''2'', [[(''Name'', CStr ''Lamp'')], [(''Name'', CStr ''Fan'')]])) (opened Units_page)"
  have p: "dataSource ?p = Some \<lparr>ds_data = [0, 1], ds_filter = None, ds_ready = True\<rparr>"
    "shown ?p = [[(''Name'', CStr ''Lamp'')], [(''Name'', CStr ''Fan'')]]"
    by (simp_all add: on_loaded_def opened_def new_page_def shown_def getItems_def Let_def upt_rec)
  have "filter (matches_text ''Name'' ''AM'') [[(''Name'', CStr ''Lamp'')], [(''Name'', CStr ''Fan'')]] = [[(''Name'', CStr ''Lamp'')]]"
  proof -
    have "contains (js_lower ''Lamp'') (js_lower ''AM'')" "\<not> contains (js_lower ''Fan'') (js_lower ''AM'')" by code_simp+
    then show ?thesis by (simp add: matches_text_def column_text_def)
  qed
  with filter_exact [OF p(1), of "''Name''" Units_page "''AM''"] p show ?thesis by (auto simp: has_column_def)
qed

text \<open>The pages whose filter falls back on a column they do not have.\<close>

definition pages_without_default :: "page_config list" where
  "pages_without_default =
     filter (\<lambda>c. pc_default_column c \<notin> set (pc_columns c))
       [Roles_page, Users_page, TableAccess_page, Interfaces_page, Devices_page (JNum 0), Values_page (JNum 0),
        Units_page, Preferences_page, InterfaceLogs_page (JNum 0), DeviceLogs_page (JNum 0), ValueLogs_page (JNum 0),
        ValueHistorys_page (JNum 0), Layouts_page, Tabs_page, Tiles_page]"

lemmas page_config_defs = Roles_page_def Users_page_def TableAccess_page_def Interfaces_page_def Devices_page_def
  Values_page_def Units_page_def Preferences_page_def InterfaceLogs_page_def DeviceLogs_page_def ValueLogs_page_def
  ValueHistorys_page_def Layouts_page_def Tabs_page_def Tiles_page_def table_page_def log_page_def layout_page_def

lemma pages_without_default_list:
  "pages_without_default =
     [Roles_page, Users_page, TableAccess_page, Interfaces_page, Devices_page (JNum 0), Preferences_page]"
  by (simp add: pages_without_default_def page_config_defs)

text \<open>On six pages the filter can not be used before the table has been sorted: the dialog
  is about the column \<^verbatim>\<open>UnitID\<close>, which the page does not show, and whatever the user types, also nothing,
  the table raises an exception instead of drawing its rows.\<close>

theorem filter_before_sort_raises:
  assumes "c \<in> set pages_without_default" and "dataSource p = Some ds" and "ds_ready ds"
    and "ds_filter ds \<noteq> Some []" and "t \<in> set (shown p)" and "\<not> has_column ''UnitID'' t"
  shows "''UnitID'' \<notin> set (pc_columns c) \<and> (\<exists>q. onFilter c None None (Some v) p = Inr q \<and> drawn q = Inl TypeError)"
proof -
  have d: "pc_default_column c = ''UnitID'' \<and> ''UnitID'' \<notin> set (pc_columns c)"
    using assms(1) unfolding pages_without_default_list by (auto simp: page_config_defs)
  let ?q = "p\<lparr>dataSource := Some (ds\<lparr>ds_filter := Some [(''UnitID'', v)]\<rparr>)\<rparr>"
  have "shown ?q = shown p" using assms(2) by (simp add: shown_def getItems_def)
  then have "drawn ?q = Inl TypeError" using filterData_missing [OF assms(5,6)] by (simp add: drawn_def)
  with onFilter_submit [OF assms(2-4), of c None v] d show ?thesis by auto
qed

theorem filter_before_sort_raises_witness:
  "\<exists>q. onFilter Roles_page None None (Some [])
      (on_loaded Roles_page (Some (''1'', [[(''Name'', CStr ''Admin'')]])) (opened Roles_page)) = Inr q \<and>
    drawn q = Inl TypeError"
proof -
  let ?p = "on_loaded Roles_page (Some (''1'', [[(''Name'', CStr ''Admin'')]])) (opened Roles_page)"
  have p: "dataSource ?p = Some \<lparr>ds_data = [0], ds_filter = None, ds_ready = True\<rparr>"
    "shown ?p = [[(''Name'', CStr ''Admin'')]]"
    by (simp_all add: on_loaded_def opened_def new_page_def shown_def getItems_def Let_def)
  from filter_before_sort_raises [OF _ p(1), of Roles_page "[(''Name'', CStr ''Admin'')]" "[]"] p show ?thesis
    by (simp add: pages_without_default_list has_column_def)
qed

text \<open>After the rows have changed, the page that is shown is not beyond their end.\<close>

lemma page_not_blank:
  assumes "rows \<noteq> []" "0 < pageSize"
  shows "pageData (updatePaginator pageIndex pageSize (length rows)) pageSize rows \<noteq> []"
proof -
  let ?n = "length rows" and ?i = "updatePaginator pageIndex pageSize (length rows)"
  have "?i * pageSize < ?n"
  proof (cases "pageIndex > 0")
    case True
    let ?c = "ceil_div ?n pageSize - 1"
    have i: "int ?i \<le> max 0 ?c" using True by (simp add: updatePaginator_def)
    define x where "x = (- int ?n) div int pageSize"
    have "- int ?n = int pageSize * x + (- int ?n) mod int pageSize"
      unfolding x_def by (rule mult_div_mod_eq [symmetric])
    moreover have "(- int ?n) mod int pageSize < int pageSize" using assms(2) by simp
    moreover have "?c * int pageSize = - (int pageSize * x) - int pageSize"
      by (simp add: ceil_div_def x_def [symmetric] left_diff_distrib)
    ultimately have c: "?c * int pageSize < int ?n" by linarith
    have "int ?i * int pageSize < int ?n"
    proof (cases "?i = 0")
      case False
      with i have "int ?i \<le> ?c" by simp
      then have "int ?i * int pageSize \<le> ?c * int pageSize" by (rule mult_right_mono) simp
      with c show ?thesis by simp
    qed (use assms(1) in simp)
    then show ?thesis by (metis of_nat_less_iff of_nat_mult)
  qed (use assms(1) in \<open>simp add: updatePaginator_def\<close>)
  with assms(2) show ?thesis by (simp add: pageData_def)
qed

end
