(* ===== verification/PageForms.thy ===== *)
theory PageForms
  imports PageRuns ApiClient "HOL-Library.AList"
begin

text \<open>
  The maintenance dialogs of the browser application (\<^verbatim>\<open>web/www/main-es2015...js\<close>): the form of each
  table, the validators of Angular it uses (\<^verbatim>\<open>kf\<close>), and what a list page does with the form's value
  when the dialog closes, down to the content of the request.
\<close>

section \<open>Forms\<close>

text \<open>
  The value of a control: a number or text, a truth value, a row that was picked from a list, or
  \<^verbatim>\<open>null\<close>.  Rows have no property \<^verbatim>\<open>length\<close>.
\<close>

datatype form_value = FCell cell | FBool bool | FRow item | FNull

type_synonym form = "(string \<times> form_value) list"

abbreviation FInt :: "int \<Rightarrow> form_value" where "FInt n \<equiv> FCell (CInt n)"
abbreviation FStr :: "string \<Rightarrow> form_value" where "FStr s \<equiv> FCell (CStr s)"

datatype validator = Required | MinLength nat | MaxLength nat | MinValue int

fun js_length :: "form_value \<Rightarrow> nat option" where
  "js_length (FCell (CStr s)) = Some (length s)"
| "js_length _ = None"

text \<open>\<^verbatim>\<open>wf\<close>: null or of length 0.\<close>

definition empty_input :: "form_value \<Rightarrow> bool" where
  "empty_input v \<longleftrightarrow> v = FNull \<or> js_length v = Some 0"

text \<open>\<^verbatim>\<open>parseFloat\<close> of identifiers: integers, or texts that start with one.\<close>

fun parse_float :: "form_value \<Rightarrow> int option" where
  "parse_float (FCell (CInt n)) = Some n"
| "parse_float (FCell (CStr s)) = (if strtol_end s = s then None else Some (strtol10 s))"
| "parse_float _ = None"

fun passes :: "form_value \<Rightarrow> validator \<Rightarrow> bool" where
  "passes v Required = (\<not> empty_input v)"
| "passes v (MinLength n) = (empty_input v \<or> (case js_length v of None \<Rightarrow> True | Some k \<Rightarrow> n \<le> k))"
| "passes v (MaxLength n) = (case js_length v of None \<Rightarrow> True | Some k \<Rightarrow> k \<le> n)"
| "passes v (MinValue n) = (empty_input v \<or> (case parse_float v of None \<Rightarrow> True | Some k \<Rightarrow> n \<le> k))"

text \<open>A control: its name, the property of the row it starts with, its validators.\<close>

type_synonym control = "string \<times> string \<times> validator list"

definition form_valid :: "control list \<Rightarrow> form \<Rightarrow> bool" where
  "form_valid cs f \<longleftrightarrow> list_all (\<lambda>(n, _, vs). case map_of f n of None \<Rightarrow> True | Some v \<Rightarrow> list_all (passes v) vs) cs"

text \<open>The form a dialog opens with; a property that is missing gives \<^verbatim>\<open>null\<close>.\<close>

definition initial_form :: "control list \<Rightarrow> form \<Rightarrow> form" where
  "initial_form cs row = map (\<lambda>(n, p, _). (n, case map_of row p of None \<Rightarrow> FNull | Some v \<Rightarrow> v)) cs"

definition row_form :: "item \<Rightarrow> form" where
  "row_form t = map (\<lambda>(k, v). (k, FCell v)) t"

definition plain_control :: "string \<Rightarrow> control" where
  "plain_control n = (n, n, [])"

section \<open>The tables\<close>

text \<open>
  \<open>ed_default\<close>: the object a dialog for a new row starts with; \<open>ed_parent\<close>: the property that is set to
  the identifier in the page's address; \<open>ed_create\<close>, \<open>ed_update\<close>: the pairs of a property that is tested
  to be an object and one that is replaced by its own identifier.
\<close>

record edit_config =
  ed_table :: string
  ed_default :: form
  ed_parent :: "string option"
  ed_controls :: "control list"
  ed_create :: "(string \<times> string) list"
  ed_update :: "(string \<times> string) list"

definition Role_edit :: edit_config where
  "Role_edit = \<lparr>ed_table = ''Role'',
     ed_default = [(''RoleID'', FInt (-1)), (''Name'', FStr []), (''RemoteAccess'', FBool False),
       (''InternalTTL'', FInt 0), (''RemoteTTL'', FInt 0)],
     ed_parent = None,
     ed_controls = [plain_control ''RoleID'', (''Name'', ''Name'', [Required, MinLength 8]),
       plain_control ''RemoteAccess'', plain_control ''InternalTTL'', plain_control ''RemoteTTL''],
     ed_create = [], ed_update = []\<rparr>"

definition User_edit :: edit_config where
  "User_edit = \<lparr>ed_table = ''User'',
     ed_default = [(''UserID'', FInt (-1)), (''UserName'', FStr []), (''Password'', FStr []), (''Name'', FStr []),
       (''RoleID'', FInt (-1)), (''Active'', FBool False), (''ForceChange'', FBool True), (''FailedAttempts'', FInt 0),
       (''EmailAddress'', FStr []), (''MobileNumber'', FStr []), (''Theme'', FStr []), (''Timestamp'', FStr [])],
     ed_parent = Some ''RoleID'',
     ed_controls = [plain_control ''UserID'', (''UserName'', ''UserName'', [Required, MinLength 4, MaxLength 10]),
       (''RoleID'', ''RoleID'', [Required]), (''Name'', ''Name'', [Required, MinLength 4]),
       (''Password'', ''Password'', [Required, MinLength 8]), (''Password2'', ''Password'', [Required, MinLength 8]),
       plain_control ''Active'', plain_control ''ForceChange'', plain_control ''FailedAttempts'',
       plain_control ''Theme'', plain_control ''EmailAddress'', plain_control ''MobileNumber'',
       plain_control ''Timestamp''],
     ed_create = [(''RoleID'', ''RoleID'')], ed_update = [(''RoleID'', ''RoleID'')]\<rparr>"

definition TableAccess_edit :: edit_config where
  "TableAccess_edit = \<lparr>ed_table = ''TableAccess'',
     ed_default = [(''TableAccessID'', FInt (-1)), (''Name'', FStr []), (''RoleID'', FInt (-1)), (''CanGET'', FBool False),
       (''CanPOST'', FBool False), (''CanPUT'', FBool False), (''CanPATCH'', FBool False), (''CanDELETE'', FBool False),
       (''DontGETFields'', FStr []), (''PUTFields'', FStr ''*''), (''PATCHFields'', FStr ''*'')],
     ed_parent = Some ''RoleID'',
     ed_controls = [plain_control ''TableAccessID'', (''Name'', ''Name'', [Required, MinLength 4]),
       (''RoleID'', ''RoleID'', [Required]), plain_control ''CanGET'', plain_control ''CanPOST'', plain_control ''CanPUT'',
       plain_control ''CanPATCH'', plain_control ''CanDELETE'', plain_control ''DontGETFields'',
       plain_control ''PUTFields'', plain_control ''PATCHFields''],
     ed_create = [(''RoleID'', ''RoleID'')], ed_update = [(''TableAccessID'', ''RoleID'')]\<rparr>"

definition Interface_edit :: edit_config where
  "Interface_edit = \<lparr>ed_table = ''Interface'',
     ed_default = [(''InterfaceID'', FInt (-1)), (''Name'', FStr []), (''Script'', FStr []), (''Configuration'', FStr []),
       (''Debug'', FBool False), (''Notifiable'', FBool False), (''Active'', FBool False)],
     ed_parent = None,
     ed_controls = [plain_control ''InterfaceID'', (''Name'', ''Name'', [Required, MinLength 8]), plain_control ''Script'',
       (''Configuration'', ''Configuration'', [Required]), plain_control ''Debug'', plain_control ''Notifiable'',
       plain_control ''Active''],
     ed_create = [], ed_update = []\<rparr>"

definition Device_edit :: edit_config where
  "Device_edit = \<lparr>ed_table = ''Device'',
     ed_default = [(''DeviceID'', FInt (-1)), (''InterfaceID'', FInt (-1)), (''Name'', FStr []), (''InternalID'', FStr []),
       (''Address'', FStr []), (''Debug'', FBool False), (''Enabled'', FBool False), (''Active'', FBool False),
       (''Timestamp'', FStr [])],
     ed_parent = Some ''InterfaceID'',
     ed_controls = [plain_control ''DeviceID'', (''InterfaceID'', ''InterfaceID'', [Required, MinValue 1]),
       (''Name'', ''Name'', [Required, MinLength 4]), plain_control ''InternalID'', plain_control ''Address'',
       plain_control ''Debug'', plain_control ''Enabled'', plain_control ''Active'', plain_control ''Timestamp''],
     ed_create = [(''DeviceID'', ''DeviceID'')], ed_update = [(''InterfaceID'', ''InterfaceID'')]\<rparr>"

definition Value_edit :: edit_config where
  "Value_edit = \<lparr>ed_table = ''Value'',
     ed_default = [(''ValueID'', FInt (-1)), (''Name'', FStr []), (''InternalID'', FStr []), (''DeviceID'', FInt (-1)),
       (''UnitID'', FInt (-1)), (''Value'', FStr []), (''RetentionDays'', FInt 30), (''RetentionInterval'', FInt 900),
       (''Debug'', FBool False), (''Timestamp'', FStr [])],
     ed_parent = Some ''DeviceID'',
     ed_controls = [plain_control ''ValueID'', (''Name'', ''Name'', [Required, MinLength 4]), plain_control ''InternalID'',
       (''DeviceID'', ''DeviceID'', [Required, MinValue 1]), (''UnitID'', ''UnitID'', [Required, MinValue 1]),
       plain_control ''Value'', plain_control ''RetentionDays'', plain_control ''RetentionInterval'',
       plain_control ''Debug'', plain_control ''Timestamp''],
     ed_create = [(''DeviceID'', ''DeviceID''), (''UnitID'', ''UnitID'')],
     ed_update = [(''DeviceID'', ''DeviceID''), (''UnitID'', ''UnitID'')]\<rparr>"

definition Preference_edit :: edit_config where
  "Preference_edit = \<lparr>ed_table = ''Preference'',
     ed_default = [(''PreferenceID'', FInt (-1)), (''Name'', FStr []), (''Value'', FStr [])],
     ed_parent = None,
     ed_controls = [(''RoleID'', ''PreferenceID'', []), (''Name'', ''Name'', [Required, MinLength 8]),
       (''Value'', ''Value'', [Required])],
     ed_create = [], ed_update = []\<rparr>"

definition Unit_edit :: edit_config where
  "Unit_edit = \<lparr>ed_table = ''Unit'',
     ed_default = [(''UnitID'', FInt (-1)), (''Name'', FStr []), (''Minimum'', FInt 0), (''Maximum'', FInt 0),
       (''RetentionDays'', FInt 30), (''RetentionInterval'', FInt 900), (''IconList'', FStr []), (''TextLabels'', FStr [])],
     ed_parent = None,
     ed_controls = [plain_control ''UnitID'', (''Name'', ''Name'', [Required, MinLength 8]), plain_control ''Minimum'',
       plain_control ''Maximum'', plain_control ''RetentionDays'', plain_control ''RetentionInterval'',
       plain_control ''IconList'', plain_control ''TextLabels''],
     ed_create = [], ed_update = []\<rparr>"

definition Layout_edit :: edit_config where
  "Layout_edit = \<lparr>ed_table = ''Layout'',
     ed_default = [(''LayoutID'', FInt (-1)), (''Name'', FStr []), (''MinimumWidth'', FInt 0), (''Active'', FBool False)],
     ed_parent = None,
     ed_controls = [plain_control ''LayoutID'', (''Name'', ''Name'', [Required, MinLength 8]),
       plain_control ''MinimumWidth'', plain_control ''Active''],
     ed_create = [], ed_update = []\<rparr>"

definition Tab_edit :: edit_config where
  "Tab_edit = \<lparr>ed_table = ''Tab'',
     ed_default = [(''TabID'', FInt (-1)), (''LayoutID'', FInt (-1)), (''Name'', FStr []), (''DisplayOrder'', FInt 0),
       (''Icon'', FStr []), (''Background'', FStr []), (''RowHeight'', FInt 120), (''MinColumns'', FInt 4),
       (''MaxColumns'', FInt 8), (''MinColWidth'', FInt 90), (''MaxColWidth'', FInt 180), (''GutterSize'', FInt 5)],
     ed_parent = Some ''LayoutID'',
     ed_controls = [plain_control ''TabID'', (''LayoutID'', ''LayoutID'', [Required]), (''Name'', ''Name'', [Required]),
       plain_control ''DisplayOrder'', plain_control ''Icon'', plain_control ''Background'', plain_control ''RowHeight'',
       plain_control ''MinColumns'', plain_control ''MaxColumns'', plain_control ''MinColWidth'',
       plain_control ''MaxColWidth'', plain_control ''GutterSize''],
     ed_create = [], ed_update = []\<rparr>"

definition Tile_edit :: edit_config where
  "Tile_edit = \<lparr>ed_table = ''Tile'',
     ed_default = [(''TileID'', FInt (-1)), (''TabID'', FInt (-1)), (''Name'', FStr []), (''DisplayOrder'', FInt 0),
       (''RowSpan'', FInt 1), (''ColumnSpan'', FInt 1), (''BorderRadius'', FStr []), (''Background'', FStr [])],
     ed_parent = Some ''LayoutID'',
     ed_controls = [plain_control ''TileID'', (''TabID'', ''TabID'', [Required]), (''Name'', ''Name'', [Required]),
       plain_control ''DisplayOrder'', plain_control ''Background'', plain_control ''RowSpan'',
       plain_control ''ColumnSpan'', plain_control ''BorderRadius''],
     ed_create = [], ed_update = []\<rparr>"

lemmas edit_defs = Role_edit_def User_edit_def TableAccess_edit_def Interface_edit_def Device_edit_def Value_edit_def
  Preference_edit_def Unit_edit_def Layout_edit_def Tab_edit_def Tile_edit_def


section \<open>From the dialog to the request\<close>

text \<open>\<^verbatim>\<open>onNew\<close>: the new row, with the identifier of the address; it is \<^verbatim>\<open>undefined\<close> on a page without.\<close>

definition new_row :: "edit_config \<Rightarrow> string option \<Rightarrow> form" where
  "new_row ed route = (case ed_parent ed of
      None \<Rightarrow> ed_default ed
    | Some p \<Rightarrow> (case route of
        Some k \<Rightarrow> AList.update p (FStr k) (ed_default ed)
      | None \<Rightarrow> AList.delete p (ed_default ed)))"

text \<open>What the user does to the controls.\<close>

definition type_into :: "(string \<times> form_value) list \<Rightarrow> form \<Rightarrow> form" where
  "type_into edits f = map (\<lambda>(n, v). (n, case map_of edits n of Some w \<Rightarrow> w | None \<Rightarrow> v)) f"

text \<open>\<^verbatim>\<open>formIsValid\<close> enables the button of \<^verbatim>\<open>onSubmit\<close>; only the form of users has passwords.\<close>

definition may_save :: "edit_config \<Rightarrow> form \<Rightarrow> bool" where
  "may_save ed f \<longleftrightarrow> form_valid (ed_controls ed) f \<and> map_of f ''Password'' = map_of f ''Password2''"

definition dialog_result :: "edit_config \<Rightarrow> form \<Rightarrow> (string \<times> form_value) list \<Rightarrow> form option" where
  "dialog_result ed row edits =
     (let f = type_into edits (initial_form (ed_controls ed) row)
      in if may_save ed f then Some (AList.delete ''Password2'' f) else None)"

text \<open>\<^verbatim>\<open>"object"==typeof t.x&&(t.y=t.y.y)\<close>\<close>

fun is_object :: "form_value \<Rightarrow> bool" where
  "is_object (FRow t) = True"
| "is_object FNull = True"
| "is_object _ = False"

definition own_id :: "string \<Rightarrow> form \<Rightarrow> js_error + form" where
  "own_id y f = (case map_of f y of
      Some (FRow t) \<Rightarrow> Inr (case map_of t y of Some c \<Rightarrow> AList.update y (FCell c) f | None \<Rightarrow> AList.delete y f)
    | Some FNull \<Rightarrow> Inl TypeError
    | Some v \<Rightarrow> Inr (AList.delete y f)
    | None \<Rightarrow> Inl TypeError)"

fun unwrap :: "(string \<times> string) list \<Rightarrow> form \<Rightarrow> js_error + form" where
  "unwrap [] f = Inr f"
| "unwrap ((x, y) # ps) f =
     bind_res (case map_of f x of
         Some v \<Rightarrow> if is_object v then own_id y f else Inr f
       | None \<Rightarrow> Inr f) (unwrap ps)"

text \<open>The content of the request, as the server's reader takes it apart.\<close>

fun json_of :: "form_value \<Rightarrow> json_value" where
  "json_of (FCell (CInt n)) = JInt n"
| "json_of (FCell (CStr s)) = JStr s"
| "json_of (FBool b) = JBool b"
| "json_of (FRow t) = JOther"
| "json_of FNull = JOther"

definition content_of :: "form \<Rightarrow> json_members" where
  "content_of f = map (\<lambda>(n, v). (n, json_of v)) f"

definition after_new :: "edit_config \<Rightarrow> form \<Rightarrow> js_error + http_call \<times> json_members" where
  "after_new ed f = bind_res (unwrap (ed_create ed) f) (\<lambda>t. Inr (createOne (ed_table ed), content_of t))"

text \<open>The row that is selected when the dialog closes is the one that is changed.\<close>

definition after_edit :: "edit_config \<Rightarrow> list_page \<Rightarrow> form \<Rightarrow> js_error + http_call \<times> json_members" where
  "after_edit ed p f = bind_res (unwrap (ed_update ed) f) (\<lambda>t.
     case selectedRow p of
       None \<Rightarrow> Inl TypeError
     | Some r \<Rightarrow> Inr (updateOne (ed_table ed) (js_tostring (js_prop (objects p ! r) (ed_table ed @ ''ID''))), content_of t))"

text \<open>\<^verbatim>\<open>onEdit\<close> shows the selected object; a dialog without data starts like a new one.\<close>

definition edit_row :: "edit_config \<Rightarrow> list_page \<Rightarrow> form" where
  "edit_row ed p = (case selectedRow p of None \<Rightarrow> ed_default ed | Some r \<Rightarrow> row_form (objects p ! r))"

definition save_edit :: "edit_config \<Rightarrow> list_page \<Rightarrow> (string \<times> form_value) list \<Rightarrow> (js_error + http_call \<times> json_members) option" where
  "save_edit ed p edits = map_option (after_edit ed p) (dialog_result ed (edit_row ed p) edits)"

definition save_new :: "edit_config \<Rightarrow> string option \<Rightarrow> (string \<times> form_value) list \<Rightarrow> (js_error + http_call \<times> json_members) option" where
  "save_new ed route edits = map_option (after_new ed) (dialog_result ed (new_row ed route) edits)"

section \<open>What arrives at the server\<close>

lemma members_loop_short:
  assumes "members_loop d ms (fs, vs) = (fs', vs')" "length vs \<le> length fs"
  shows "length vs' \<le> length fs'"
    and "(length vs < length fs \<or> (\<exists>n. (n, JOther) \<in> set ms \<and> usable_field d n)) \<Longrightarrow> length vs' < length fs'"
  using assms
proof (induction d ms "(fs, vs)" arbitrary: fs vs rule: members_loop.induct)
  case (2 d n v ms fs vs)
  {
    case 1
    then show ?case using 2 by (cases "usable_field d n") (auto split: option.splits)
  next
    case 2
    then show ?case using "2.hyps" by (cases "usable_field d n"; cases v) (auto split: option.splits)
  }
qed auto

lemma object_refused:
  assumes "reader (rq_content req) = Some ms" "(n, JOther) \<in> set ms" "usable_field d n"
  shows "getFieldsAndValues reader req d = Inl st_bad_request"
proof -
  obtain fs vs where l: "members_loop d ms ([], []) = (fs, vs)" by (cases "members_loop d ms ([], [])")
  then have "length vs < length fs" using members_loop_short(2) [OF l] assms(2,3) by auto
  with l assms(1) show ?thesis by (simp add: getFieldsAndValues_def)
qed


section \<open>Forms and their content\<close>

lemma map_of_content: "map_of (content_of f) n = map_option json_of (map_of f n)"
  by (induction f) (auto simp: content_of_def)

lemma content_member: "map_of f n = Some v \<Longrightarrow> (n, json_of v) \<in> set (content_of f)"
  by (force simp: content_of_def dest: map_of_SomeD)

lemma map_of_type_into:
  "map_of (type_into edits f) n =
     (case map_of f n of None \<Rightarrow> None | Some v \<Rightarrow> Some (case map_of edits n of Some w \<Rightarrow> w | None \<Rightarrow> v))"
  by (induction f) (auto simp: type_into_def split: option.split)

lemma map_of_initial_form:
  "map_of (initial_form cs row) n =
     map_option (\<lambda>(p, _). case map_of row p of None \<Rightarrow> FNull | Some v \<Rightarrow> v) (map_of cs n)"
  by (induction cs) (auto simp: initial_form_def)

lemma map_of_row_form: "map_of (row_form t) k = map_option FCell (map_of t k)"
  by (induction t) (auto simp: row_form_def)

lemma map_of_delete_other: "k \<noteq> n \<Longrightarrow> map_of (AList.delete k f) n = map_of f n"
  by (simp add: delete_conv')

text \<open>A control of the form that is not the repeated password.\<close>

lemma dialog_result_lookup:
  assumes "dialog_result ed row edits = Some f" "n \<noteq> ''Password2''" "map_of (ed_controls ed) n = Some (p, vs)"
  shows "map_of f n = Some (case map_of edits n of Some w \<Rightarrow> w
      | None \<Rightarrow> (case map_of row p of None \<Rightarrow> FNull | Some v \<Rightarrow> v))"
  using assms
  by (auto simp: dialog_result_def Let_def map_of_delete_other map_of_type_into map_of_initial_form split: if_splits)

lemma unwrap_none:
  assumes "\<And>x y. (x, y) \<in> set ps \<Longrightarrow> map_of f x \<noteq> None \<and> \<not> is_object (the (map_of f x))"
  shows "unwrap ps f = Inr f"
  using assms by (induction ps) (fastforce split: option.splits)+

section \<open>Picking a parent\<close>

text \<open>
  The lists of parents in the dialogs give rows, not identifiers.  Where the page does not take the
  identifier out, the row goes to the server.
\<close>

definition sent_as_row :: "(edit_config \<times> string) list" where
  "sent_as_row = [(Device_edit, ''InterfaceID''), (Tab_edit, ''LayoutID''), (Tile_edit, ''TabID'')]"

definition sent_as_id :: "(edit_config \<times> string) list" where
  "sent_as_id = [(User_edit, ''RoleID''), (TableAccess_edit, ''RoleID''), (Value_edit, ''DeviceID''), (Value_edit, ''UnitID'')]"

lemma sent_as_row_controls:
  assumes "(ed, fld) \<in> set sent_as_row"
  shows "map_of (ed_controls ed) fld \<noteq> None" "fld \<noteq> ''Password2''"
    and "(x, y) \<in> set (ed_create ed) \<Longrightarrow> x = ed_table ed @ ''ID'' \<and> x \<noteq> ''Password2'' \<and>
      map_of (ed_controls ed) x = Some (x, []) \<and> map_of (ed_default ed) x = Some (FInt (- 1)) \<and> ed_parent ed \<noteq> Some x"
proof -
  have "list_all (\<lambda>(ed, fld). map_of (ed_controls ed) fld \<noteq> None \<and> fld \<noteq> ''Password2'' \<and>
      list_all (\<lambda>(x, y). x = ed_table ed @ ''ID'' \<and> x \<noteq> ''Password2'' \<and> map_of (ed_controls ed) x = Some (x, []) \<and>
        map_of (ed_default ed) x = Some (FInt (- 1)) \<and> ed_parent ed \<noteq> Some x) (ed_create ed)) sent_as_row"
    by code_simp
  with assms show "map_of (ed_controls ed) fld \<noteq> None" "fld \<noteq> ''Password2''"
    "(x, y) \<in> set (ed_create ed) \<Longrightarrow> x = ed_table ed @ ''ID'' \<and> x \<noteq> ''Password2'' \<and>
      map_of (ed_controls ed) x = Some (x, []) \<and> map_of (ed_default ed) x = Some (FInt (- 1)) \<and> ed_parent ed \<noteq> Some x"
    by (auto simp: list_all_iff)
qed

lemma new_row_other: "ed_parent ed \<noteq> Some k \<Longrightarrow> map_of (new_row ed route) k = map_of (ed_default ed) k"
  by (auto simp: new_row_def update_conv' delete_conv' split: option.splits)

lemma parent_row_refused:
  assumes "(ed, fld) \<in> set sent_as_row" and "dialog_result ed (new_row ed route) edits = Some f"
    and "map_of edits fld = Some (FRow t)" and "map_of edits (ed_table ed @ ''ID'') = None"
  shows "\<exists>ms. save_new ed route edits = Some (Inr (createOne (ed_table ed), ms)) \<and>
    (\<forall>ms'. set ms' = set ms \<and> reader (rq_content req) = Some ms' \<and> content_length req \<noteq> 0 \<and> usable_field d fld \<longrightarrow>
       POST reader jwrite query exec req d rep db = Some (stock_reply st_bad_request, db))"
proof -
  have look: "map_of f fld = Some (FRow t)"
    using dialog_result_lookup [OF assms(2), of fld] sent_as_row_controls(1,2) [OF assms(1)] assms(3) by auto
  have "unwrap (ed_create ed) f = Inr f"
  proof (rule unwrap_none)
    fix x y assume "(x, y) \<in> set (ed_create ed)"
    note x = sent_as_row_controls(3) [OF assms(1) this]
    then have "map_of f x = Some (FInt (- 1))"
      using dialog_result_lookup [OF assms(2), of x x "[]"] assms(4) new_row_other [of ed x route] by auto
    then show "map_of f x \<noteq> None \<and> \<not> is_object (the (map_of f x))" by simp
  qed
  then have s: "save_new ed route edits = Some (Inr (createOne (ed_table ed), content_of f))"
    by (simp add: save_new_def assms(2) after_new_def)
  have "(fld, JOther) \<in> set (content_of f)" using content_member [OF look] by simp
  then have "POST reader jwrite query exec req d rep db = Some (stock_reply st_bad_request, db)"
    if "set ms' = set (content_of f)" "reader (rq_content req) = Some ms'" "content_length req \<noteq> 0" "usable_field d fld" for ms'
    using object_refused [where ms = ms' and n = fld and d = d and reader = reader and req = req] that by (simp add: POST_def)
  with s show ?thesis by blast
qed

text \<open>A new device, tab or tile whose interface, layout or tab is picked from the list
  of its dialog can not be saved: the page sends the whole row in the place of its identifier, and the
  server, for any user who may write the column, answers that the request is bad and changes nothing.\<close>

theorem picked_parent_refused:
  assumes "(ed, fld) \<in> set sent_as_row" and "dialog_result ed (new_row ed route) edits = Some f"
    and "map_of edits fld = Some (FRow t)" and "map_of edits (ed_table ed @ ''ID'') = None"
  shows "\<exists>ms. save_new ed route edits = Some (Inr (createOne (ed_table ed), ms)) \<and>
    (\<forall>ms'. set ms' = set ms \<and> reader (rq_content req) = Some ms' \<and> content_length req \<noteq> 0 \<and> usable_field d fld \<longrightarrow>
       POST reader jwrite query exec req d rep db = Some (stock_reply st_bad_request, db))"
  by (rule parent_row_refused [OF assms])

theorem picked_parent_refused_witness:
  "POST (\<lambda>s. Some (content_of [(''TileID'', FInt (-1)), (''TabID'', FRow [(''TabID'', CInt 3)]), (''Name'', FStr ''Lamp''),
       (''DisplayOrder'', FInt 0), (''Background'', FStr []), (''RowSpan'', FInt 1), (''ColumnSpan'', FInt 1),
       (''BorderRadius'', FStr [])])) int_to_string (\<lambda>db s. ([], db)) (\<lambda>db s vs. (True, db + 1))
     (new_request\<lparr>content_length := 9\<rparr>)
     ((new_data_access ''Admin'' ''Tile'' ''POST'')\<lparr>m_ValidFields := [[''0'', ''TabID'', ''INTEGER'']]\<rparr>) (stock_reply st_ok) (0 :: int) =
   Some (stock_reply st_bad_request, 0)"
proof -
  let ?e = "[(''TabID'', FRow [(''TabID'', CInt 3)]), (''Name'', FStr ''Lamp'')]"
  let ?f = "[(''TileID'', FInt (-1)), (''TabID'', FRow [(''TabID'', CInt 3)]), (''Name'', FStr ''Lamp''),
       (''DisplayOrder'', FInt 0), (''Background'', FStr []), (''RowSpan'', FInt 1), (''ColumnSpan'', FInt 1),
       (''BorderRadius'', FStr [])]"
  have f: "dialog_result Tile_edit (new_row Tile_edit (Some ''5'')) ?e = Some ?f" by code_simp
  let ?d = "(new_data_access ''Admin'' ''Tile'' ''POST'')\<lparr>m_ValidFields := [[''0'', ''TabID'', ''INTEGER'']]\<rparr>"
  have u: "usable_field ?d ''TabID''" by code_simp
  have "(Tile_edit, ''TabID'') \<in> set sent_as_row" by (simp add: sent_as_row_def)
  from picked_parent_refused [OF this f, of "[(''TabID'', CInt 3)]" "\<lambda>s. Some (content_of ?f)" "new_request\<lparr>content_length := 9\<rparr>" ?d
      int_to_string "\<lambda>db s. ([], db)" "\<lambda>db s vs. (True, db + 1)" "stock_reply st_ok" 0] f u
  show ?thesis by (auto simp: save_new_def after_new_def Tile_edit_def)
qed

text \<open>Where the identifier is taken out, it is what the server gets.\<close>

lemma unwrap_keeps:
  assumes "unwrap ps f = Inr g" "k \<notin> snd ` set ps" shows "map_of g k = map_of f k"
  using assms
proof (induction ps f rule: unwrap.induct)
  case (2 x y ps f)
  from "2.prems"(1) obtain h where h: "unwrap ps h = Inr g"
    and "h = f \<or> own_id y f = Inr h" by (auto simp: bind_res_eq_Inr split: option.splits if_splits)
  then have "map_of h k = map_of f k"
    using "2.prems"(2) by (auto simp: own_id_def update_conv' delete_conv' split: option.splits form_value.splits)
  with "2.IH" h "2.prems" show ?case by (cases "h = f") (auto simp: bind_res_eq_Inr split: option.splits if_splits)
qed simp

text \<open>A user's or value's parent arrives as the identifier of the row that was picked.\<close>

lemma sent_as_id_pairs:
  assumes "(ed, fld) \<in> set sent_as_id"
  shows "ed_create ed = [(fld, fld)] \<or> (\<exists>y. y \<noteq> fld \<and> (ed_create ed = [(fld, fld), (y, y)] \<or> ed_create ed = [(y, y), (fld, fld)]))"
    and "map_of (ed_controls ed) fld \<noteq> None" and "fld \<noteq> ''Password2''"
  using assms by (auto simp: sent_as_id_def edit_defs plain_control_def)

lemma own_id_sent:
  assumes "map_of f k = Some (FRow t)" "map_of t k = Some (CInt n)" "own_id k f = Inr g"
  shows "map_of g k = Some (FInt n)"
  using assms by (auto simp: own_id_def update_conv')

text \<open>A parent that is picked for a new user, table access or value is sent as its
  identifier, so that the row the server stores refers to it.\<close>

theorem picked_parent_sent:
  assumes "(ed, fld) \<in> set sent_as_id" and "dialog_result ed (new_row ed route) edits = Some f"
    and "map_of edits fld = Some (FRow t)" and "map_of t fld = Some (CInt n)"
    and "save_new ed route edits = Some (Inr (call, ms))"
  shows "call = Call ''POST'' (''API/'' @ ed_table ed @ ''s'') \<and> map_of ms fld = Some (JInt n)"
proof -
  note c = sent_as_id_pairs [OF assms(1)]
  obtain p vs where "map_of (ed_controls ed) fld = Some (p, vs)" using c(2) by auto
  with dialog_result_lookup [OF assms(2) c(3)] assms(3) have look: "map_of f fld = Some (FRow t)" by simp
  from assms(2,5) obtain g where g: "unwrap (ed_create ed) f = Inr g" "ms = content_of g" "call = createOne (ed_table ed)"
    by (auto simp: save_new_def after_new_def bind_res_eq_Inr)
  have one: "map_of g fld = Some (FInt n)" if "unwrap [(fld, fld)] h = Inr g" "map_of h fld = Some (FRow t)" for h g
    using that own_id_sent [OF that(2) assms(4)] by (auto simp: bind_res_eq_Inr)
  have keep: "map_of h fld = Some v" if "unwrap [(y, y)] k = Inr h" "y \<noteq> fld" "map_of k fld = Some v" for h k y v
    using unwrap_keeps [OF that(1), of fld] that(2,3) by simp
  have two: "unwrap [a, b] f = bind_res (unwrap [a] f) (unwrap [b])" for a b
    by (cases a; cases b) (simp add: bind_res_def split: sum.splits option.splits)
  from c(1) have "map_of g fld = Some (FInt n)"
  proof (elim disjE exE conjE)
    fix y assume y: "y \<noteq> fld" and "ed_create ed = [(fld, fld), (y, y)]"
    with g(1) two obtain h where "unwrap [(fld, fld)] f = Inr h" "unwrap [(y, y)] h = Inr g"
      by (auto simp only: bind_res_eq_Inr)
    with one [OF _ look] keep [OF _ y] show ?thesis by blast
  next
    fix y assume y: "y \<noteq> fld" and "ed_create ed = [(y, y), (fld, fld)]"
    with g(1) two obtain h where "unwrap [(y, y)] f = Inr h" "unwrap [(fld, fld)] h = Inr g"
      by (auto simp only: bind_res_eq_Inr)
    with one keep [OF _ y look] show ?thesis by blast
  qed (use g(1) one [OF _ look] in simp)
  with g(2,3) show ?thesis by (simp add: map_of_content createOne_def)
qed

theorem picked_parent_sent_witness:
  "\<exists>ms. save_new Value_edit (Some ''7'') [(''Name'', FStr ''Watts''), (''UnitID'', FRow [(''UnitID'', CInt 4)])] =
      Some (Inr (Call ''POST'' ''API/Values'', ms)) \<and> map_of ms ''UnitID'' = Some (JInt 4)"
proof -
  let ?e = "[(''Name'', FStr ''Watts''), (''UnitID'', FRow [(''UnitID'', CInt 4)])]"
  obtain f where f: "dialog_result Value_edit (new_row Value_edit (Some ''7'')) ?e = Some f"
    "unwrap (ed_create Value_edit) f \<noteq> Inl TypeError"
  proof -
    have "case dialog_result Value_edit (new_row Value_edit (Some ''7'')) ?e of None \<Rightarrow> False
        | Some f \<Rightarrow> unwrap (ed_create Value_edit) f \<noteq> Inl TypeError" by code_simp
    with that show ?thesis by (auto split: option.splits)
  qed
  then obtain g where "unwrap (ed_create Value_edit) f = Inr g"
    by (cases "unwrap (ed_create Value_edit) f"; cases "projl (unwrap (ed_create Value_edit) f)") auto
  with f have s: "save_new Value_edit (Some ''7'') ?e = Some (Inr (createOne ''Value'', content_of g))"
    by (simp add: save_new_def after_new_def Value_edit_def)
  have "(Value_edit, ''UnitID'') \<in> set sent_as_id" by (simp add: sent_as_id_def)
  from picked_parent_sent [OF this f(1) _ _ s, of "[(''UnitID'', CInt 4)]" 4] s show ?thesis
    by (simp add: Value_edit_def)
qed

section \<open>New tiles\<close>

text \<open>No new tile gets onto a tab.  The page sets the identifier of its address as the
  tile's layout, which the dialog does not use; so the tile is created on tab -1, whatever page it is
  created from, or, when the user picks a tab, not at all.\<close>

theorem new_tile_on_no_tab:
  assumes "save_new Tile_edit route edits = Some (Inr (call, ms))"
    and "case map_of edits ''TabID'' of None \<Rightarrow> True | Some v \<Rightarrow> \<exists>t. v = FRow t"
    and "map_of edits ''TileID'' = None"
  shows "map_of ms ''TabID'' = Some (JInt (- 1)) \<or>
    (\<forall>ms'. set ms' = set ms \<and> reader (rq_content req) = Some ms' \<and> content_length req \<noteq> 0 \<and> usable_field d ''TabID'' \<longrightarrow>
       POST reader jwrite query exec req d rep db = Some (stock_reply st_bad_request, db))"
proof -
  from assms(1) obtain f where f: "dialog_result Tile_edit (new_row Tile_edit route) edits = Some f" "ms = content_of f"
    by (auto simp: save_new_def after_new_def Tile_edit_def)
  show ?thesis
  proof (cases "map_of edits ''TabID''")
    case None
    have "map_of (new_row Tile_edit route) ''TabID'' = Some (FInt (- 1))"
      by (simp add: new_row_other Tile_edit_def)
    with None dialog_result_lookup [OF f(1), of "''TabID''" "''TabID''" "[Required]"] f(2) show ?thesis
      by (simp add: map_of_content Tile_edit_def plain_control_def)
  next
    case (Some v)
    with assms(2) obtain t where "v = FRow t" by auto
    with Some have t: "map_of edits ''TabID'' = Some (FRow t)" by simp
    have "(Tile_edit, ''TabID'') \<in> set sent_as_row" by (simp add: sent_as_row_def)
    from parent_row_refused [OF this f(1) t, of reader req d jwrite query exec rep db] assms(1,3)
    show ?thesis by (auto simp: Tile_edit_def)
  qed
qed

theorem new_tile_on_no_tab_witness:
  "\<exists>ms. save_new Tile_edit (Some ''5'') [(''Name'', FStr ''Lamp'')] = Some (Inr (createOne ''Tile'', ms)) \<and>
    map_of ms ''TabID'' = Some (JInt (- 1))"
proof -
  let ?ms = "[(''TileID'', JInt (-1)), (''TabID'', JInt (-1)), (''Name'', JStr ''Lamp''), (''DisplayOrder'', JInt 0),
    (''Background'', JStr []), (''RowSpan'', JInt 1), (''ColumnSpan'', JInt 1), (''BorderRadius'', JStr [])]"
  have s: "save_new Tile_edit (Some ''5'') [(''Name'', FStr ''Lamp'')] = Some (Inr (createOne ''Tile'', ?ms))" by code_simp
  let ?d = "(new_data_access ''Admin'' ''Tile'' ''POST'')\<lparr>m_ValidFields := [[''0'', ''TabID'', ''INTEGER'']]\<rparr>"
  have "usable_field ?d ''TabID''" by code_simp
  with new_tile_on_no_tab [OF s, where reader = "\<lambda>s. Some ?ms" and req = "new_request\<lparr>content_length := 1\<rparr>" and d = ?d] s
  show ?thesis by auto
qed

section \<open>Editing\<close>

text \<open>C34: The dialog for a row sends the values the row had when the user picked it.  For
  every column the user does not change, the request holds the value of that moment, whatever newer
  rows the page has received and shows since; so saving undoes what others changed meanwhile.\<close>

theorem edit_sends_snapshot:
  assumes "page_run c (opened c) evs p" and "selectedRow p = Some r"
    and "page_run c p evs' q" and "selectedRow q = Some r" and "save_edit ed q edits = Some (Inr (call, ms))"
    and "map_of (ed_controls ed) k = Some (k, vs)" and "k \<noteq> ''Password2''" and "map_of edits k = None"
    and "k \<notin> snd ` set (ed_update ed)"
  shows "call = updateOne (ed_table ed) (js_tostring (js_prop (objects p ! r) (ed_table ed @ ''ID''))) \<and>
    map_of ms k = Some (case map_of (objects p ! r) k of None \<Rightarrow> JOther | Some v \<Rightarrow> json_of (FCell v))"
proof -
  note same = selected_object_stays [OF assms(1-3)]
  from assms(4,5) obtain f g where f: "dialog_result ed (row_form (objects q ! r)) edits = Some f"
    and g: "unwrap (ed_update ed) f = Inr g" "ms = content_of g"
    and call: "call = updateOne (ed_table ed) (js_tostring (js_prop (objects q ! r) (ed_table ed @ ''ID'')))"
    by (auto simp: save_edit_def after_edit_def edit_row_def bind_res_eq_Inr)
  have "map_of g k = map_of f k" by (rule unwrap_keeps [OF g(1) assms(9)])
  with dialog_result_lookup [OF f assms(7,6)] assms(8) g(2) call same show ?thesis
    by (simp add: map_of_content map_of_row_form split: option.split)
qed

theorem edit_sends_snapshot_witness:
  "\<exists>p q ms. page_run Roles_page (opened Roles_page)
      [Open 0, Reply (Some (''1'', [[(''RoleID'', CInt 1), (''Name'', CStr ''Operator'')]])), Click 0] p \<and>
    page_run Roles_page p [Push 0 [(''Roles'', [[(''RoleID'', CInt 1), (''Name'', CStr ''Operators'')]])]] q \<and>
    shown q = [[(''RoleID'', CInt 1), (''Name'', CStr ''Operators'')]] \<and>
    save_edit Role_edit q [(''InternalTTL'', FInt 60)] = Some (Inr (Call ''PUT'' ''API/Roles/1'', ms)) \<and>
    map_of ms ''Name'' = Some (JStr ''Operator'')"
proof -
  let ?p = "page_step Roles_page (page_step Roles_page (page_step Roles_page (opened Roles_page) (Open 0))
    (Reply (Some (''1'', [[(''RoleID'', CInt 1), (''Name'', CStr ''Operator'')]])))) (Click 0)"
  let ?e = "[(''Roles'', [[(''RoleID'', CInt 1), (''Name'', CStr ''Operators'')]])]"
  let ?q = "page_step Roles_page ?p (Push 0 ?e)"
  let ?ms = "[(''RoleID'', JInt 1), (''Name'', JStr ''Operator''), (''RemoteAccess'', JOther), (''InternalTTL'', JInt 60),
    (''RemoteTTL'', JOther)]"
  have r: "page_run Roles_page (opened Roles_page)
      [Open 0, Reply (Some (''1'', [[(''RoleID'', CInt 1), (''Name'', CStr ''Operator'')]])), Click 0] ?p"
    and st: "selectedRow ?p = Some 0" "objects ?p ! 0 = [(''RoleID'', CInt 1), (''Name'', CStr ''Operator'')]"
    and q: "page_run Roles_page ?p [Push 0 ?e] ?q" "selectedRow ?q = Some 0"
    "objects ?q ! 0 = [(''RoleID'', CInt 1), (''Name'', CStr ''Operator'')]"
    and s: "shown ?q = [[(''RoleID'', CInt 1), (''Name'', CStr ''Operators'')]]"
    by (simp_all add: opened_def new_page_def on_open_def on_loaded_def open_snack_def shown_def on_click_def
        getItems_def Let_def on_push_def observe_def take_row_def ref_merge_def Roles_page_def table_page_def
        Roles_ws_def plain_ws_def isRelevant_def getID_def js_prop_def getName_def)
  have f: "dialog_result Role_edit (row_form [(''RoleID'', CInt 1), (''Name'', CStr ''Operator'')]) [(''InternalTTL'', FInt 60)] =
      Some [(''RoleID'', FInt 1), (''Name'', FStr ''Operator''), (''RemoteAccess'', FNull), (''InternalTTL'', FInt 60),
        (''RemoteTTL'', FNull)]" by code_simp
  have u: "updateOne ''Role'' (js_tostring (js_prop [(''RoleID'', CInt 1), (''Name'', CStr ''Operator'')] ''RoleID'')) =
      Call ''PUT'' ''API/Roles/1''" by code_simp
  have e: "ed_table Role_edit = ''Role''" "ed_update Role_edit = []"
    "map_of (ed_controls Role_edit) ''Name'' = Some (''Name'', [Required, MinLength 8])"
    by (simp_all add: Role_edit_def plain_control_def)
  have c: "save_edit Role_edit ?q [(''InternalTTL'', FInt 60)] = Some (Inr (Call ''PUT'' ''API/Roles/1'', ?ms))"
    using f u e(1,2) q(2,3) by (simp add: save_edit_def edit_row_def after_edit_def content_of_def del: page_step.simps)
  have "map_of ?ms ''Name'' = Some (JStr ''Operator'')"
    using edit_sends_snapshot [OF r st(1) q(1,2) c e(3)] e(2) st(2) by simp
  with r q(1) s c show ?thesis by blast
qed

end
