(* ===== verification/BrowserAuth.thy ===== *)
theory BrowserAuth
  imports ApiClient SharedWebSocket
begin

text \<open>
  The authentication service of the browser application and the guard of its pages
  (\<^verbatim>\<open>web/www/main-es2015...js\<close>, minified names \<^verbatim>\<open>sN\<close> and \<^verbatim>\<open>rN\<close>), and what they come to with the
  server of the REST interface.  \<^verbatim>\<open>JSON.parse\<close> and \<^verbatim>\<open>JSON.stringify\<close> of a user are arguments; a user is
  an object, or \<^verbatim>\<open>null\<close>.
\<close>

section \<open>The service\<close>

type_synonym user = "item option"

text \<open>The item \<^verbatim>\<open>currentUser\<close> of the local storage, and the value of \<^verbatim>\<open>currentUserSubject\<close>.\<close>

record auth =
  au_storage :: "string option"
  au_user :: user

text \<open>The constructor; \<^const>\<open>None\<close> when the item is not JSON.\<close>

definition new_auth :: "(string \<Rightarrow> user option) \<Rightarrow> string option \<Rightarrow> auth option" where
  "new_auth parse store = (case store of
      None \<Rightarrow> Some \<lparr>au_storage = None, au_user = None\<rparr>
    | Some s \<Rightarrow> map_option (\<lambda>u. \<lparr>au_storage = Some s, au_user = u\<rparr>) (parse s))"

definition currentUserValue :: "auth \<Rightarrow> user" where
  "currentUserValue a = au_user a"

text \<open>The request of \<^verbatim>\<open>login\<close>, and what is done with a reply to it.\<close>

definition login_call :: http_call where
  "login_call = Call ''POST'' ''API//Authenticate''"

definition login_content :: "string \<Rightarrow> string \<Rightarrow> json_members" where
  "login_content name password = [(''username'', JStr name), (''password'', JStr password)]"

definition logged_in :: "(user \<Rightarrow> string) \<Rightarrow> user \<Rightarrow> auth \<Rightarrow> auth" where
  "logged_in stringify u a = a\<lparr>au_storage := Some (stringify u), au_user := u\<rparr>"

text \<open>\<^verbatim>\<open>logout\<close>; its request is never sent, since nothing subscribes to it.\<close>

definition logout :: "auth \<Rightarrow> auth \<times> http_call list" where
  "logout a = (a\<lparr>au_storage := None, au_user := None\<rparr>, [])"

section \<open>The guard\<close>

text \<open>Whether the page is opened, and where the user is sent instead.\<close>

definition canActivate :: "string \<Rightarrow> auth \<Rightarrow> bool \<times> (string \<times> (string \<times> string) list) option" where
  "canActivate url a =
     (if currentUserValue a \<noteq> None then (True, None)
      else (False, Some (''/Authenticate'', [(''returnUrl'', url)])))"

text \<open>The first part of the addresses that are guarded.\<close>

definition guarded :: "string list" where
  "guarded = [''TimerPlans'']"

definition opens :: "string \<Rightarrow> auth \<Rightarrow> bool" where
  "opens path a \<longleftrightarrow> path \<notin> set guarded \<or> fst (canActivate path a)"

section \<open>With the server\<close>

text \<open>The HTTP client takes a reply with a status from 200 to 299 for an answer, when its text is JSON.\<close>

definition answered :: "reply \<Rightarrow> bool" where
  "answered r \<longleftrightarrow> 200 \<le> status_code (rp_status r) \<and> status_code (rp_status r) < 300"

definition login where
  "login parse stringify reader jwrite rows_write query exec db content a =
     (case HandleREST reader jwrite rows_write query exec ((sent login_call)\<lparr>rq_content := content, content_length := int (length content)\<rparr>)
         (stock_reply st_ok) db of
        Inr (Some (r, db')) \<Rightarrow>
          (if answered r then (case parse (rp_content r) of Some u \<Rightarrow> (logged_in stringify u a, db') | None \<Rightarrow> (a, db'))
           else (a, db'))
      | _ \<Rightarrow> (a, db))"

text \<open>What the user does; the database is whatever others have made of it.\<close>

datatype 'db auth_event = Login 'db string | Logout | Reload

definition auth_step where
  "auth_step parse stringify reader jwrite rows_write query exec ev a =
     (case ev of
        Login db content \<Rightarrow> Some (fst (login parse stringify reader jwrite rows_write query exec db content a))
      | Logout \<Rightarrow> Some (fst (logout a))
      | Reload \<Rightarrow> new_auth parse (au_storage a))"

fun auth_run where
  "auth_run step [] a = Some a"
| "auth_run step (ev # evs) a = (case step ev a of None \<Rightarrow> None | Some a' \<Rightarrow> auth_run step evs a')"

section \<open>Logging in\<close>

text \<open>The request to log in is taken for one to insert a row into a table that does not exist.\<close>

lemma login_routed:
  "rest_Create ((sent login_call)\<lparr>rq_content := content, content_length := n\<rparr>) =
     Inr (Some (False, new_data_access ''Admin'' ''Authenticat'' ''POST''))"
proof -
  have "rest_access ((sent login_call)\<lparr>rq_content := content, content_length := n\<rparr>) = rest_access (sent login_call)"
    by (simp add: rest_access_def fun_eq_iff)
  moreover have "rq_uri ((sent login_call)\<lparr>rq_content := content, content_length := n\<rparr>) = rq_uri (sent login_call)" by simp
  ultimately have "rest_Create ((sent login_call)\<lparr>rq_content := content, content_length := n\<rparr>) = rest_Create (sent login_call)"
    by (simp only: rest_Create_def Create_elements_def)
  moreover have "rest_Create (sent login_call) = Inr (Some (False, new_data_access ''Admin'' ''Authenticat'' ''POST''))"
    by code_simp
  ultimately show ?thesis by simp
qed

lemma login_refused:
  assumes "fst (query db (access_query (new_data_access ''Admin'' ''Authenticat'' ''POST''))) = []"
  shows "HandleREST reader jwrite rows_write query exec ((sent login_call)\<lparr>rq_content := content, content_length := n\<rparr>) rep db =
    Inr (Some (stock_reply st_forbidden, db))"
  using assms by (simp add: HandleREST_def login_routed UserHasAccess_def)

text \<open>C35: Nobody can log in from the browser.  As long as no role has rights to a table named
  \<^verbatim>\<open>Authenticat\<close>, in whatever state the database is, the server answers every request to log in that
  access is forbidden, so that a browser that starts without a stored user never has one, whatever the
  user tries, and its guarded pages never open.\<close>

theorem guarded_pages_never_open:
  assumes "\<And>db. fst (query db (access_query (new_data_access ''Admin'' ''Authenticat'' ''POST''))) = []"
    and "new_auth parse None = Some a" and "path \<in> set guarded"
    and "auth_run (auth_step parse stringify reader jwrite rows_write query exec) evs a = Some b"
  shows "au_user b = None \<and> au_storage b = None \<and> canActivate path b = (False, Some (''/Authenticate'', [(''returnUrl'', path)]))"
proof -
  have f: "\<not> answered (stock_reply st_forbidden)" by (simp add: answered_def stock_reply_def Let_def)
  have step: "b = \<lparr>au_storage = None, au_user = None\<rparr>"
    if "auth_step parse stringify reader jwrite rows_write query exec ev \<lparr>au_storage = None, au_user = None\<rparr> = Some b" for ev b
    using that assms(1) f
    by (cases ev) (simp_all add: auth_step_def login_def login_refused logout_def new_auth_def)
  have "auth_run (auth_step parse stringify reader jwrite rows_write query exec) evs \<lparr>au_storage = None, au_user = None\<rparr> = Some b \<Longrightarrow>
      b = \<lparr>au_storage = None, au_user = None\<rparr>"
    by (induction evs) (auto dest: step split: option.splits)
  with assms(2,4) have "b = \<lparr>au_storage = None, au_user = None\<rparr>" by (simp add: new_auth_def)
  then show ?thesis by (simp add: canActivate_def currentUserValue_def)
qed

theorem guarded_pages_never_open_witness:
  "\<exists>b. auth_run (auth_step (\<lambda>s. Some None) (\<lambda>u. []) (\<lambda>s. None) int_to_string (\<lambda>n t rows. []) (\<lambda>db s. ([], db)) (\<lambda>db s vs. (True, db)))
      [Login (3 :: nat) ''{}'', Reload, Login 4 ''{}'', Logout] \<lparr>au_storage = None, au_user = None\<rparr> = Some b \<and>
    \<not> opens ''TimerPlans'' b"
proof -
  let ?step = "auth_step (\<lambda>s. Some None) (\<lambda>u. []) (\<lambda>s. None) int_to_string (\<lambda>n t rows. []) (\<lambda>db s. ([], db)) (\<lambda>db s vs. (True, db))"
  let ?a = "\<lparr>au_storage = None, au_user = None\<rparr>"
  have q: "fst ((\<lambda>db s. ([], db)) db (access_query (new_data_access ''Admin'' ''Authenticat'' ''POST''))) = []" for db :: nat
    by simp
  have n: "new_auth (\<lambda>s. Some None) None = Some ?a" by (simp add: new_auth_def)
  have g: "''TimerPlans'' \<in> set guarded" by (simp add: guarded_def)
  obtain b where r: "auth_run ?step [Login (3 :: nat) ''{}'', Reload, Login 4 ''{}'', Logout] ?a = Some b"
    by (simp add: auth_step_def login_def login_refused logout_def new_auth_def answered_def stock_reply_def Let_def)
  from guarded_pages_never_open [where query = "\<lambda>db s. ([], db)", OF q n g r] r g show ?thesis by (auto simp: opens_def)
qed

text \<open>A user that is in the storage is logged in, without asking the server.\<close>

lemma stored_user_opens:
  assumes "parse s = Some (Some t)" "new_auth parse (Some s) = Some a"
  shows "opens path a"
  using assms by (auto simp: new_auth_def opens_def canActivate_def currentUserValue_def)

end
