(* ===== verification/PluginQueue.thy ===== *)
theory PluginQueue
  imports Fifo "HOL-Library.Multiset"
begin

text \<open>
  The message queue of a plugin (\<^verbatim>\<open>hardware/plugins/Plugins.cpp\<close>, \<^verbatim>\<open>PluginMessages.h\<close>).  A message is
  handled at once, or from the time \<open>m_When\<close> on when it is delayed: the worker of the plugin goes
  through the queue once, takes the first message that is due, and puts those before it behind the
  others.
\<close>

section \<open>Messages\<close>

record 'k message =
  msg_kind :: 'k
  m_Delay :: bool
  m_When :: int

text \<open>\<^verbatim>\<open>CPluginMessageBase\<close> at the time \<open>now\<close>, and the ones that wait.\<close>

definition instant :: "int \<Rightarrow> 'k \<Rightarrow> 'k message" where
  "instant now k = \<lparr>msg_kind = k, m_Delay = False, m_When = now\<rparr>"

definition onStopCallback :: "int \<Rightarrow> 'k \<Rightarrow> 'k message" where
  "onStopCallback now k = (instant now k)\<lparr>m_Delay := True, m_When := now + 2\<rparr>"

definition WriteDirective :: "int \<Rightarrow> 'k \<Rightarrow> int \<Rightarrow> 'k message" where
  "WriteDirective now k d =
     (if d \<noteq> 0 then (instant now k)\<lparr>m_Delay := True, m_When := now + d\<rparr> else instant now k)"

section \<open>The next message\<close>

fun scan :: "nat \<Rightarrow> int \<Rightarrow> 'k message list \<Rightarrow> 'k message option \<times> 'k message list" where
  "scan (Suc n) now (m # q) =
     (if m_Delay m \<and> m_When m > now then scan n now (q @ [m]) else (Some m, q))"
| "scan n now q = (None, q)"

definition next_message :: "int \<Rightarrow> 'k message list \<Rightarrow> 'k message option \<times> 'k message list" where
  "next_message now q = scan (length q) now q"

section \<open>What it takes\<close>

definition due :: "int \<Rightarrow> 'k message \<Rightarrow> bool" where
  "due now m \<longleftrightarrow> m_Delay m \<longrightarrow> m_When m \<le> now"

lemma instant_due [simp]: "due t (instant now k)"
  by (simp add: due_def instant_def)

lemma scan_late:
  "list_all (\<lambda>m. \<not> due now m) a \<Longrightarrow> scan (length a + n) now (a @ q) = scan n now (q @ a)"
proof (induction a arbitrary: q)
  case (Cons m a)
  then have "scan (Suc (length a + n)) now (m # (a @ q)) = scan (length a + n) now (a @ (q @ [m]))"
    by (simp add: due_def)
  with Cons.IH [of "q @ [m]"] Cons.prems show ?case by simp
qed simp

lemma next_message_split:
  assumes "list_all (\<lambda>m. \<not> due now m) a"
  shows "due now m \<Longrightarrow> next_message now (a @ m # b) = (Some m, b @ a)"
    and "next_message now a = (None, a)"
  using scan_late [OF assms, where q = "m # b" and n = "Suc (length b)"] scan_late [OF assms, where q = "[]" and n = 0]
  by (auto simp: next_message_def due_def)

text \<open>Every queue is of one of the two forms.\<close>

lemma next_message_cases:
  obtains (none) "list_all (\<lambda>m. \<not> due now m) q" "next_message now q = (None, q)"
    | (some) a m b where "q = a @ m # b" "list_all (\<lambda>m. \<not> due now m) a" "due now m"
      "next_message now q = (Some m, b @ a)"
proof (cases "\<exists>m \<in> set q. due now m")
  case True
  from split_list_first_prop [OF True] obtain a m b
    where s: "q = a @ m # b" "due now m" "list_all (\<lambda>m. \<not> due now m) a" by (auto simp: list_all_iff)
  with next_message_split(1) [OF s(3,2), of b] that(2) show ?thesis by simp
next
  case False
  then have "list_all (\<lambda>m. \<not> due now m) q" by (simp add: list_all_iff)
  with next_message_split(2) [OF this] that(1) show ?thesis by simp
qed

text \<open>In one pass, in which the time stands still, the messages that are due are a queue.\<close>

definition due_kinds :: "int \<Rightarrow> 'k message list \<Rightarrow> 'k list" where
  "due_kinds now q = map msg_kind (filter (due now) q)"

definition post_instant :: "int \<Rightarrow> 'k message list \<Rightarrow> 'k \<Rightarrow> 'k message list" where
  "post_instant now q k = q @ [instant now k]"

definition take_kind :: "int \<Rightarrow> 'k message list \<Rightarrow> 'k option \<times> 'k message list" where
  "take_kind now q = (let (r, q') = next_message now q in (map_option msg_kind r, q'))"

lemma filter_late: "list_all (\<lambda>m. \<not> due now m) a \<Longrightarrow> filter (due now) a = []"
  by (simp add: list_all_iff filter_empty_conv)

interpretation due_queue: fifo_queue "due_kinds now" "post_instant now" "take_kind now" for now
proof
  fix q :: "'k message list" and k
  show "due_kinds now (post_instant now q k) = due_kinds now q @ [k]"
    by (simp add: due_kinds_def post_instant_def) (simp add: instant_def)
next
  fix q :: "'k message list"
  assume "due_kinds now q = []"
  then show "take_kind now q = (None, q)"
    by (cases rule: next_message_cases [of now q]) (auto simp: due_kinds_def take_kind_def)
next
  fix q :: "'k message list" and x xs
  assume "due_kinds now q = x # xs"
  then show "fst (take_kind now q) = Some x \<and> due_kinds now (snd (take_kind now q)) = xs"
    by (cases rule: next_message_cases [of now q]) (auto simp: due_kinds_def take_kind_def filter_late)
qed

section \<open>Runs of the queue\<close>

text \<open>Other threads and the handlers post messages; the worker takes them, at times that do not decrease.\<close>

datatype 'k queue_event = Post "'k message" | Take int

fun queue_run :: "'k queue_event list \<Rightarrow> 'k message list \<Rightarrow> (int \<times> 'k message) list \<times> 'k message list" where
  "queue_run [] q = ([], q)"
| "queue_run (Post m # es) q = queue_run es (q @ [m])"
| "queue_run (Take now # es) q =
     (case next_message now q of
        (None, q') \<Rightarrow> queue_run es q'
      | (Some m, q') \<Rightarrow> (let (out, q'') = queue_run es q' in ((now, m) # out, q'')))"

fun posted :: "'k queue_event list \<Rightarrow> 'k message list" where
  "posted [] = []"
| "posted (Post m # es) = m # posted es"
| "posted (Take now # es) = posted es"

abbreviation instants :: "'k message list \<Rightarrow> 'k message list" where
  "instants q \<equiv> filter (\<lambda>m. \<not> m_Delay m) q"

lemma late_delayed: "list_all (\<lambda>m. \<not> due now m) a \<Longrightarrow> instants a = []"
  by (auto simp: list_all_iff due_def filter_empty_conv)

text \<open>C26: Whatever is posted and whenever the worker looks, every message is handled at most
  once and never before its time, those that are not handled are still in the queue, and the messages
  without a delay are handled in the order in which they were posted.\<close>

theorem messages_in_order:
  "mset (map snd (fst (queue_run es q))) + mset (snd (queue_run es q)) = mset q + mset (posted es) \<and>
   instants (map snd (fst (queue_run es q))) @ instants (snd (queue_run es q)) = instants q @ instants (posted es) \<and>
   list_all (\<lambda>(t, m). due t m) (fst (queue_run es q))"
proof (induction es q rule: queue_run.induct)
  case (3 t es q)
  show ?case
  proof (cases rule: next_message_cases [of t q])
    case (some a m b)
    with 3(2) [OF some(4) [symmetric] refl] show ?thesis by (auto simp: split_beta late_delayed)
  qed (use 3(1) [OF _ refl] in simp)
qed auto

text \<open>The queue is emptied once everything is due.\<close>

lemma queue_drained:
  "list_all (due now) q \<Longrightarrow> queue_run (replicate (length q) (Take now)) q = (map (Pair now) q, [])"
proof (induction q)
  case (Cons m q)
  then have "next_message now (m # q) = (Some m, q)"
    using next_message_split(1) [of now "[]" m q] by simp
  with Cons show ?case by simp
qed simp

section \<open>Messages with a delay\<close>

text \<open>Messages with a delay are not handled in the order of their times.  When the
  worker handles a message that was posted between two delayed ones, the second of these comes before
  the first in the queue; if both are due when it looks again, the later one is handled first, although
  it was posted later and its time is later.\<close>

theorem delayed_messages_swapped:
  assumes "0 < d" and "d \<le> e" and "t \<le> u" and "u < t + d" and "t + e \<le> v"
  shows "queue_run [Post (WriteDirective t first d), Post (instant t other), Post (WriteDirective t second e),
      Take u, Take v, Take v] [] =
    ([(u, instant t other), (v, WriteDirective t second e), (v, WriteDirective t first d)], [])"
  using assms by (simp add: next_message_def WriteDirective_def instant_def eval_nat_numeral)

theorem delayed_messages_swapped_witness:
  "map (msg_kind \<circ> snd) (fst (queue_run [Post (WriteDirective 0 ''on'' 1), Post (instant 0 ''poll''),
      Post (WriteDirective 0 ''off'' 2), Take 0, Take 3, Take 3] [])) = [''poll'', ''off'', ''on'']"
  using delayed_messages_swapped [of 1 2 0 0 3 "''on''" "''poll''" "''off''"]
  by (simp add: WriteDirective_def instant_def)

end
