(* ===== verification/PluginWorker.thy ===== *)
theory PluginWorker
  imports PluginQueue
begin

text \<open>
  The life of a plugin (\<^verbatim>\<open>hardware/plugins/Plugins.cpp\<close>, \<^verbatim>\<open>hardware/DomoticzHardware.cpp\<close>): start and
  stop, the messages that initialise it, and the loop of its worker thread.

  Python is not modelled: what an interpreter answers and what the handlers of a plugin do is the
  argument \<open>python\<close> of a step.  The methods of \<^verbatim>\<open>PluginMessages.h\<close> that only call a handler differ
  in whether they need the interface object.  One turn of the loop in \<^verbatim>\<open>Do_Work\<close> is one step; calls
  from other threads come between the steps.
\<close>

section \<open>State\<close>

datatype kind =
  Initialize | OnStart | OnStop | OnHeartbeat | OnUpdateInterface bool
| OnCreateDevice int | OnUpdateDevice int | OnDeleteDevice int
| OnCreateValue int int | OnUpdateValue int int | OnDeleteValue int
| PollInterval int | Disconnect nat | Disconnected nat | OnDisconnect nat
| Directive string | Event string | Callback string

text \<open>
  \<open>m_thread\<close>: there is a \<^verbatim>\<open>std::thread\<close> object for the worker.  \<open>m_Transports\<close> are the connections of
  the transports.  The last four fields are local to \<^verbatim>\<open>Do_Work\<close>: \<open>pass\<close> is \<^verbatim>\<open>Now\<close> inside the inner loop.
\<close>

record plugin =
  m_InterfaceID :: int
  m_bIsStarted :: bool
  m_bIsStarting :: bool
  m_bIsStopping :: bool
  m_bRestart :: bool
  m_PyInterpreter :: bool
  m_PyModule :: bool
  m_Interface :: bool
  m_MessageQueue :: "kind message list"
  m_Transports :: "nat list"
  m_iPollInterval :: int
  stop_requested :: bool
  m_thread :: bool
  nextPoll :: int
  stopTime :: int
  pass :: "int option"
  exited :: bool

definition new_plugin :: "int \<Rightarrow> plugin" where
  "new_plugin i = \<lparr>m_InterfaceID = i, m_bIsStarted = False, m_bIsStarting = False, m_bIsStopping = False,
     m_bRestart = False, m_PyInterpreter = False, m_PyModule = False, m_Interface = False, m_MessageQueue = [],
     m_Transports = [], m_iPollInterval = 10, stop_requested = False, m_thread = False, nextPoll = 0, stopTime = 0,
     pass = None, exited = False\<rparr>"

text \<open>
  What a call comes to.  \<open>Waits\<close>: it goes on only after another thread has done something.  The
  crashes end the process: \<open>Terminate\<close> when a \<^verbatim>\<open>std::thread\<close> that was not joined is destroyed,
  \<open>Null_thread_state\<close> when \<^verbatim>\<open>PyEval_AcquireThread\<close> gets a null pointer, which its documentation forbids,
  \<open>Null_interface\<close> when a method of a null \<^verbatim>\<open>CInterface\<close> reads its members.
\<close>

datatype crash = Terminate | Null_thread_state | Null_interface | Null_plugin | Out_of_range

datatype 'a outcome = Waits | Crashes crash | Done 'a

fun and_then :: "'a outcome \<Rightarrow> ('a \<Rightarrow> 'b outcome) \<Rightarrow> 'b outcome" where
  "and_then Waits f = Waits"
| "and_then (Crashes c) f = Crashes c"
| "and_then (Done x) f = f x"

lemma and_then_Done: "and_then r f = Done y \<longleftrightarrow> (\<exists>x. r = Done x \<and> f x = Done y)"
  by (cases r) auto

section \<open>Python\<close>

text \<open>
  \<open>py_posts\<close>: what the handler, or the connection code, posts while it runs; \<open>py_transports\<close>: the
  transports after a connection message; \<open>py_released\<close>: the connections that only their transport refers to.
\<close>

datatype init_result = No_row | No_interpreter | Bad_script | Loaded
datatype start_result = Started | No_object | Failed

record python =
  py_init :: init_result
  py_start :: start_result
  py_posts :: "kind message list"
  py_transports :: "nat list"
  py_released :: "nat list"

section \<open>Start and stop\<close>

definition MessagePlugin :: "kind message \<Rightarrow> plugin \<Rightarrow> plugin" where
  "MessagePlugin m p = (if stop_requested p then p else p\<lparr>m_MessageQueue := m_MessageQueue p @ [m]\<rparr>)"

definition post_all :: "kind message list \<Rightarrow> plugin \<Rightarrow> plugin" where
  "post_all ms p = foldl (\<lambda>p m. MessagePlugin m p) p ms"

definition StopHardware :: "int \<Rightarrow> plugin \<Rightarrow> plugin outcome" where
  "StopHardware t p =
     (if m_bIsStarting p then Waits
      else if m_bIsStarted p
      then Done ((MessagePlugin (onStopCallback t OnStop) p)\<lparr>m_bIsStopping := True\<rparr>)
      else Done p)"

definition StartHardware :: "int \<Rightarrow> plugin \<Rightarrow> plugin outcome" where
  "StartHardware t p =
     and_then (if m_bIsStarted p then StopHardware t p else Done p)
       (\<lambda>p. if m_thread p then Crashes Terminate
            else Done (MessagePlugin (instant t Initialize)
              (p\<lparr>m_bIsStarting := True, stop_requested := False, m_MessageQueue := [], m_thread := True,
                 nextPoll := t + m_iPollInterval p, stopTime := 0, pass := None, exited := False\<rparr>)))"

text \<open>\<^verbatim>\<open>CDomoticzHardwareBase::Start\<close> and \<^verbatim>\<open>Stop\<close>; both calls of the plugin always answer true.\<close>

definition hardware_Start :: "int \<Rightarrow> plugin \<Rightarrow> plugin outcome" where
  "hardware_Start t p = and_then (StartHardware t p) (\<lambda>p. Done (p\<lparr>m_bIsStarted := True\<rparr>))"

definition hardware_Stop :: "int \<Rightarrow> plugin \<Rightarrow> plugin outcome" where
  "hardware_Stop t p = and_then (StopHardware t p) (\<lambda>p. Done (p\<lparr>m_bIsStarted := False\<rparr>))"

definition IsRunning :: "plugin \<Rightarrow> bool" where
  "IsRunning p \<longleftrightarrow> m_bIsStarted p \<and> \<not> m_bRestart p"

text \<open>\<^verbatim>\<open>CPluginSystem::RestartPlugin\<close> for a plugin that is registered.\<close>

definition restart_plugin :: "int \<Rightarrow> plugin \<Rightarrow> plugin outcome" where
  "restart_plugin t p = (if IsRunning p then StopHardware t (p\<lparr>m_bRestart := True\<rparr>) else Done p)"

text \<open>\<^verbatim>\<open>CPlugin::Stop\<close>, which ends the interpreter.\<close>

definition plugin_Stop :: "int \<Rightarrow> plugin \<Rightarrow> plugin outcome" where
  "plugin_Stop t p =
     (if \<not> m_PyInterpreter p then Crashes Null_thread_state
      else let p1 = p\<lparr>m_Interface := False, m_PyModule := False, m_PyInterpreter := False, m_bIsStarted := False\<rparr>
      in if m_bRestart p1 then and_then (StartHardware t p1) (\<lambda>p. Done (p\<lparr>m_bRestart := False\<rparr>)) else Done p1)"

definition Finalise :: "int \<Rightarrow> plugin \<Rightarrow> plugin outcome" where
  "Finalise t p = and_then (plugin_Stop t p)
     (\<lambda>p. Done (p\<lparr>m_bIsStarting := False, m_bIsStopping := False, exited := True\<rparr>))"

section \<open>Messages\<close>

definition init_error :: "int \<Rightarrow> plugin \<Rightarrow> plugin outcome" where
  "init_error t p = and_then (plugin_Stop t p) (\<lambda>p. Done (p\<lparr>m_bIsStarting := False\<rparr>))"

definition Initialise :: "init_result \<Rightarrow> int \<Rightarrow> plugin \<Rightarrow> plugin outcome" where
  "Initialise r t p =
     (let p = p\<lparr>m_bIsStarted := False\<rparr> in
      case r of
        No_row \<Rightarrow> init_error t p
      | No_interpreter \<Rightarrow> init_error t (p\<lparr>m_PyInterpreter := False\<rparr>)
      | Bad_script \<Rightarrow> init_error t (p\<lparr>m_PyInterpreter := True\<rparr>)
      | Loaded \<Rightarrow> Done ((MessagePlugin (instant t OnStart) (p\<lparr>m_PyInterpreter := True, m_PyModule := True\<rparr>))
          \<lparr>m_bIsStarting := False\<rparr>))"

definition plugin_Start :: "start_result \<Rightarrow> int \<Rightarrow> plugin \<Rightarrow> plugin" where
  "plugin_Start r t p =
     (case r of
        Started \<Rightarrow> p\<lparr>m_Interface := True, m_bIsStarted := True, m_bIsStarting := False\<rparr>
      | No_object \<Rightarrow> MessagePlugin (instant t Initialize) (p\<lparr>m_Interface := False, m_bIsStarting := False\<rparr>)
      | Failed \<Rightarrow> MessagePlugin (instant t Initialize) (p\<lparr>m_bIsStarting := False\<rparr>))"

fun needs_interface :: "kind \<Rightarrow> bool" where
  "needs_interface (OnCreateDevice d) = True"
| "needs_interface (OnUpdateDevice d) = True"
| "needs_interface (OnDeleteDevice d) = True"
| "needs_interface (OnCreateValue d v) = True"
| "needs_interface (OnUpdateValue d v) = True"
| "needs_interface (OnDeleteValue v) = True"
| "needs_interface _ = False"

fun changes_transports :: "kind \<Rightarrow> bool" where
  "changes_transports (Disconnect c) = True"
| "changes_transports (Disconnected c) = True"
| "changes_transports (Directive s) = True"
| "changes_transports _ = False"

text \<open>\<^verbatim>\<open>Process\<close> of each class.\<close>

definition Process :: "python \<Rightarrow> int \<Rightarrow> kind \<Rightarrow> plugin \<Rightarrow> plugin outcome" where
  "Process py t k p =
     (if k = Initialize then Initialise (py_init py) t p
      else if k = OnStart
      then (let q = plugin_Start (py_start py) t p in Done (if m_Interface q then post_all (py_posts py) q else q))
      else if k = OnStop then Done ((post_all (py_posts py) p)\<lparr>m_bIsStopping := True\<rparr>)
      else if needs_interface k \<and> \<not> m_Interface p then Crashes Null_interface
      else case k of
        PollInterval n \<Rightarrow> Done (p\<lparr>m_iPollInterval := if n > 0 then n else m_iPollInterval p\<rparr>)
      | _ \<Rightarrow> (let q = post_all (py_posts py) p
              in Done (if changes_transports k then q\<lparr>m_Transports := py_transports py\<rparr> else q)))"

section \<open>The worker\<close>

definition disconnect_queued :: "nat \<Rightarrow> kind message list \<Rightarrow> bool" where
  "disconnect_queued c q \<longleftrightarrow> list_ex (\<lambda>m. msg_kind m \<in> {Disconnect c, Disconnected c, OnDisconnect c}) q"

definition disconnect_transport :: "int \<Rightarrow> plugin \<Rightarrow> nat \<Rightarrow> plugin" where
  "disconnect_transport t p c =
     (if disconnect_queued c (m_MessageQueue p) then p else MessagePlugin (instant t (Disconnect c)) p)"

definition after_stop :: "int \<Rightarrow> int \<Rightarrow> plugin \<Rightarrow> plugin" where
  "after_stop Now t p =
     foldl (disconnect_transport t) (p\<lparr>stopTime := if stopTime p = 0 then Now + 1 else stopTime p\<rparr>) (m_Transports p)"

definition idle_work :: "python \<Rightarrow> int \<Rightarrow> int \<Rightarrow> plugin \<Rightarrow> plugin" where
  "idle_work py Now t p =
     (if m_bIsStopping p
      then (if m_MessageQueue p = [] \<and> Now > stopTime p then p\<lparr>stop_requested := True\<rparr> else p)
      else let q = (if m_PyInterpreter p \<and> nextPoll p \<le> Now
                    then (MessagePlugin (instant t OnHeartbeat) p)\<lparr>nextPoll := Now + m_iPollInterval p\<rparr> else p)
           in post_all (map (\<lambda>c. instant t (Disconnect c)) (py_released py)) q)"

text \<open>The message that a step of the inner loop handles.\<close>

definition handles :: "plugin \<Rightarrow> kind option" where
  "handles p = (case pass p of
      None \<Rightarrow> None
    | Some Now \<Rightarrow> (case fst (next_message Now (m_MessageQueue p)) of
        None \<Rightarrow> None
      | Some m \<Rightarrow> if m_PyInterpreter p \<or> m_bIsStarting p then Some (msg_kind m) else None))"

definition Do_Work_pass :: "python \<Rightarrow> int \<Rightarrow> int \<Rightarrow> plugin \<Rightarrow> plugin outcome" where
  "Do_Work_pass py Now t p =
     (let (r, q) = next_message Now (m_MessageQueue p); p1 = p\<lparr>m_MessageQueue := q\<rparr> in
      case r of
        None \<Rightarrow> Done ((idle_work py Now t p1)\<lparr>pass := None\<rparr>)
      | Some m \<Rightarrow>
          if m_PyInterpreter p1 \<or> m_bIsStarting p1
          then and_then (Process py t (msg_kind m) p1)
                 (\<lambda>p2. Done (idle_work py Now t (if msg_kind m = OnStop then after_stop Now t p2 else p2)))
          else Done (idle_work py Now t p1))"

definition Do_Work :: "python \<Rightarrow> int \<Rightarrow> plugin \<Rightarrow> plugin outcome" where
  "Do_Work py t p =
     (if \<not> m_thread p \<or> exited p then Waits
      else case pass p of
        None \<Rightarrow> if stop_requested p then Finalise t p else Done (p\<lparr>pass := Some t\<rparr>)
      | Some Now \<Rightarrow> Do_Work_pass py Now t p)"

section \<open>Runs\<close>

datatype plugin_event = Worker python int | Start_call int | Stop_call int | Restart_call int | Posted "kind message"

fun plugin_step :: "plugin_event \<Rightarrow> plugin \<Rightarrow> plugin outcome" where
  "plugin_step (Worker py t) p = Do_Work py t p"
| "plugin_step (Start_call t) p = hardware_Start t p"
| "plugin_step (Stop_call t) p = hardware_Stop t p"
| "plugin_step (Restart_call t) p = restart_plugin t p"
| "plugin_step (Posted m) p = Done (MessagePlugin m p)"

fun observed :: "plugin_event \<Rightarrow> plugin \<Rightarrow> kind list" where
  "observed (Worker py t) p = (if m_thread p \<and> \<not> exited p then (case handles p of None \<Rightarrow> [] | Some k \<Rightarrow> [k]) else [])"
| "observed _ p = []"

text \<open>Only the plugin itself posts the messages that start and stop it; clocks do not show times before 1970.\<close>

definition outside :: "kind message \<Rightarrow> bool" where
  "outside m \<longleftrightarrow> msg_kind m \<notin> {Initialize, OnStart, OnStop}"

fun allowed :: "plugin_event \<Rightarrow> bool" where
  "allowed (Worker py t) = (0 \<le> t \<and> list_all outside (py_posts py))"
| "allowed (Posted m) = outside m"
| "allowed _ = True"

inductive plugin_run :: "plugin \<Rightarrow> plugin_event list \<Rightarrow> kind list \<Rightarrow> plugin \<Rightarrow> bool" where
  plugin_run_nil: "plugin_run p [] [] p"
| plugin_run_cons: "allowed ev \<Longrightarrow> plugin_step ev p = Done p' \<Longrightarrow> plugin_run p' evs ks q \<Longrightarrow>
    plugin_run p (ev # evs) (observed ev p @ ks) q"

inductive_simps plugin_run_Nil [simp]: "plugin_run p [] ks q"
inductive_simps plugin_run_Cons: "plugin_run p (ev # evs) ks q"

text \<open>The same, computed.\<close>

fun exec_run :: "plugin_event list \<Rightarrow> plugin \<Rightarrow> (kind list \<times> plugin) option" where
  "exec_run [] p = Some ([], p)"
| "exec_run (ev # evs) p =
     (if allowed ev
      then (case plugin_step ev p of
          Done p' \<Rightarrow> map_option (\<lambda>(ks, q). (observed ev p @ ks, q)) (exec_run evs p')
        | _ \<Rightarrow> None)
      else None)"

lemma exec_run_iff: "plugin_run p evs ks q \<longleftrightarrow> exec_run evs p = Some (ks, q)"
proof (induction evs arbitrary: p ks)
  case (Cons ev evs)
  then show ?case by (auto simp: plugin_run_Cons split: outcome.splits)
qed auto

end
