(* ===== verification/PluginLife.thy ===== *)
theory PluginLife
  imports PluginWorker
begin

text \<open>
  What holds in every run of a plugin: which messages can be in its queue in which phase, what has
  happened when its worker ends, and that a plugin that was stopped does end.
\<close>

section \<open>Posting\<close>

lemma MessagePlugin_simps [simp]:
  "m_bIsStarted (MessagePlugin m p) = m_bIsStarted p" "m_bIsStarting (MessagePlugin m p) = m_bIsStarting p"
  "m_bIsStopping (MessagePlugin m p) = m_bIsStopping p" "m_bRestart (MessagePlugin m p) = m_bRestart p"
  "m_PyInterpreter (MessagePlugin m p) = m_PyInterpreter p" "m_Interface (MessagePlugin m p) = m_Interface p"
  "m_Transports (MessagePlugin m p) = m_Transports p" "stop_requested (MessagePlugin m p) = stop_requested p"
  "m_thread (MessagePlugin m p) = m_thread p" "nextPoll (MessagePlugin m p) = nextPoll p"
  "stopTime (MessagePlugin m p) = stopTime p" "pass (MessagePlugin m p) = pass p" "exited (MessagePlugin m p) = exited p"
  "m_iPollInterval (MessagePlugin m p) = m_iPollInterval p"
  "m_MessageQueue (MessagePlugin m p) = (if stop_requested p then m_MessageQueue p else m_MessageQueue p @ [m])"
  by (simp_all add: MessagePlugin_def)

lemma post_all_list [simp]: "post_all [] p = p" "post_all (m # ms) p = post_all ms (MessagePlugin m p)"
  by (simp_all add: post_all_def)

lemma post_all_simps [simp]:
  "m_bIsStarted (post_all ms p) = m_bIsStarted p" "m_bIsStarting (post_all ms p) = m_bIsStarting p"
  "m_bIsStopping (post_all ms p) = m_bIsStopping p" "m_bRestart (post_all ms p) = m_bRestart p"
  "m_PyInterpreter (post_all ms p) = m_PyInterpreter p" "m_Interface (post_all ms p) = m_Interface p"
  "m_Transports (post_all ms p) = m_Transports p" "stop_requested (post_all ms p) = stop_requested p"
  "m_thread (post_all ms p) = m_thread p" "nextPoll (post_all ms p) = nextPoll p" "stopTime (post_all ms p) = stopTime p"
  "pass (post_all ms p) = pass p" "exited (post_all ms p) = exited p" "m_iPollInterval (post_all ms p) = m_iPollInterval p"
  "m_MessageQueue (post_all ms p) = (if stop_requested p then m_MessageQueue p else m_MessageQueue p @ ms)"
  by (induction ms arbitrary: p) simp_all

text \<open>The messages that end a plugin's transports are posts as well.\<close>

definition disconnects :: "int \<Rightarrow> kind message list \<Rightarrow> bool" where
  "disconnects t ms \<longleftrightarrow> list_all (\<lambda>m. \<exists>c. m = instant t (Disconnect c)) ms"

lemma disconnects_outside: "disconnects t ms \<Longrightarrow> list_all outside ms"
  by (auto simp: disconnects_def list_all_iff outside_def instant_def)

lemma after_stop_posts:
  "\<exists>ms. disconnects t ms \<and>
     after_stop Now t p = post_all ms (p\<lparr>stopTime := if stopTime p = 0 then Now + 1 else stopTime p\<rparr>)"
proof -
  have "\<exists>ms. disconnects t ms \<and> foldl (disconnect_transport t) p cs = post_all ms p" for cs p
  proof (induction cs arbitrary: p)
    case Nil
    show ?case by (rule exI [of _ "[]"]) (simp add: disconnects_def)
  next
    case (Cons c cs)
    let ?m = "instant t (Disconnect c)"
    show ?case
    proof (cases "disconnect_queued c (m_MessageQueue p)")
      case True
      with Cons.IH [of p] show ?thesis by (simp add: disconnect_transport_def)
    next
      case False
      from Cons.IH [of "MessagePlugin ?m p"] obtain ms where
        "disconnects t ms" "foldl (disconnect_transport t) (MessagePlugin ?m p) cs = post_all ms (MessagePlugin ?m p)" by blast
      moreover have "disconnect_transport t p c = MessagePlugin ?m p" using False by (simp add: disconnect_transport_def)
      ultimately show ?thesis by (intro exI [of _ "?m # ms"]) (auto simp: disconnects_def)
    qed
  qed
  then show ?thesis by (simp add: after_stop_def)
qed

section \<open>The invariant\<close>

definition boot :: "kind message list \<Rightarrow> kind list" where
  "boot q = filter (\<lambda>k. k \<in> {Initialize, OnStart}) (map msg_kind q)"

definition stop_waiting :: "kind message list \<Rightarrow> bool" where
  "stop_waiting q \<longleftrightarrow> OnStop \<in> msg_kind ` set q"

text \<open>\<open>ks\<close> are the messages that were handled.\<close>

definition life :: "plugin \<Rightarrow> kind list \<Rightarrow> bool" where
  "life p ks \<longleftrightarrow>
     (m_thread p \<or> \<not> (m_bIsStarted p \<or> m_bIsStarting p \<or> m_bIsStopping p \<or> stop_requested p \<or> exited p \<or> m_PyInterpreter p)) \<and>
     length (boot (m_MessageQueue p)) \<le> 1 \<and>
     (m_bIsStarting p \<longrightarrow> \<not> m_bIsStopping p \<and> boot (m_MessageQueue p) = [Initialize]) \<and>
     (m_bIsStarted p \<and> \<not> m_bIsStarting p \<longrightarrow> m_PyInterpreter p \<and> boot (m_MessageQueue p) = []) \<and>
     (stop_waiting (m_MessageQueue p) \<longrightarrow> m_bIsStopping p) \<and>
     (m_bIsStopping p \<longrightarrow> m_PyInterpreter p \<and> boot (m_MessageQueue p) = [] \<and>
        (stop_waiting (m_MessageQueue p) \<or> stopTime p \<noteq> 0)) \<and>
     0 \<le> stopTime p \<and> (stopTime p \<noteq> 0 \<longrightarrow> OnStop \<in> set ks \<and> (m_bIsStopping p \<or> exited p)) \<and>
     (\<forall>n. pass p = Some n \<longrightarrow> 0 \<le> n) \<and>
     (stop_requested p \<longrightarrow> m_MessageQueue p = [] \<and> stopTime p \<noteq> 0) \<and>
     (exited p \<longrightarrow> stop_requested p \<and> \<not> m_bIsStarting p \<and> \<not> m_bIsStarted p \<and> \<not> m_PyInterpreter p)"

lemma boot_append [simp]: "boot (a @ b) = boot a @ boot b" by (simp add: boot_def)
lemma boot_Nil [simp]: "boot [] = []" by (simp add: boot_def)
lemma boot_Cons [simp]: "boot (m # q) = (if msg_kind m \<in> {Initialize, OnStart} then msg_kind m # boot q else boot q)"
  by (simp add: boot_def)
lemma stop_waiting_simps [simp]:
  "\<not> stop_waiting []" "stop_waiting (m # q) \<longleftrightarrow> msg_kind m = OnStop \<or> stop_waiting q"
  "stop_waiting (a @ b) \<longleftrightarrow> stop_waiting a \<or> stop_waiting b"
  by (auto simp: stop_waiting_def)

lemma boot_outside: "list_all outside ms \<Longrightarrow> boot ms = []"
  by (induction ms) (auto simp: outside_def)

lemma instant_kind [simp]: "msg_kind (instant t k) = k"
  by (simp add: instant_def)

lemma stop_kind [simp]: "msg_kind (onStopCallback t k) = k"
  by (simp add: onStopCallback_def instant_def)

lemma no_stop_outside: "list_all outside ms \<Longrightarrow> \<not> stop_waiting ms"
  by (induction ms) (auto simp: outside_def)

lemma life_post_all: "life p ks \<Longrightarrow> list_all outside ms \<Longrightarrow> life (post_all ms p) ks"
  by (auto simp: life_def boot_outside no_stop_outside)

lemma life_MessagePlugin: "life p ks \<Longrightarrow> outside m \<Longrightarrow> life (MessagePlugin m p) ks"
  using life_post_all [of p ks "[m]"] by (simp add: post_all_def)

lemma life_updates [simp]:
  "life (p\<lparr>nextPoll := n\<rparr>) ks = life p ks" "life (p\<lparr>m_Transports := ts\<rparr>) ks = life p ks"
  "life (p\<lparr>m_iPollInterval := n\<rparr>) ks = life p ks" "life (p\<lparr>m_bRestart := r\<rparr>) ks = life p ks"
  "life p ks \<Longrightarrow> life (p\<lparr>pass := None\<rparr>) ks"
  by (simp_all add: life_def)

section \<open>Calls from outside\<close>

lemma life_StopHardware:
  assumes "life p ks" "StopHardware t p = Done q" shows "life q ks \<and> \<not> m_bIsStarting q"
  using assms by (auto simp: StopHardware_def life_def split: if_splits)

lemma StartHardware_Done:
  assumes "StartHardware t p = Done q" shows "\<not> m_thread p"
  using assms by (auto simp: StartHardware_def StopHardware_def and_then_Done split: if_splits)

lemma life_hardware_Start:
  assumes "life p ks" "hardware_Start t p = Done q" shows "life q ks"
proof -
  from assms(2) obtain p1 where p1: "StartHardware t p = Done p1" "q = p1\<lparr>m_bIsStarted := True\<rparr>"
    by (auto simp: hardware_Start_def and_then_Done)
  with StartHardware_Done [OF p1(1)] assms(1)
  have "\<not> m_bIsStarted p" "\<not> m_bIsStopping p" "\<not> m_PyInterpreter p" by (auto simp: life_def)
  with p1 show ?thesis by (auto simp: StartHardware_def life_def and_then_Done split: if_splits)
qed

lemma life_hardware_Stop:
  assumes "life p ks" "hardware_Stop t p = Done q" shows "life q ks"
proof -
  from assms(2) obtain p1 where p1: "StopHardware t p = Done p1" "q = p1\<lparr>m_bIsStarted := False\<rparr>"
    by (auto simp: hardware_Stop_def and_then_Done)
  with life_StopHardware [OF assms(1) p1(1)] show ?thesis by (auto simp: life_def)
qed

lemma life_restart:
  assumes "life p ks" "restart_plugin t p = Done q" shows "life q ks"
  using assms life_StopHardware [of "p\<lparr>m_bRestart := True\<rparr>"]
  by (auto simp: restart_plugin_def split: if_splits)

section \<open>The worker\<close>

lemma plugin_Stop_Done:
  assumes "m_thread p" "plugin_Stop t p = Done q"
  shows "m_PyInterpreter p" "\<not> m_bRestart p"
    "q = p\<lparr>m_Interface := False, m_PyModule := False, m_PyInterpreter := False, m_bIsStarted := False\<rparr>"
  using assms by (auto simp: plugin_Stop_def Let_def and_then_Done StartHardware_def split: if_splits)

lemma life_idle_work:
  assumes "life p ks" "0 \<le> Now" shows "life (idle_work py Now t p) ks"
proof (cases "m_bIsStopping p")
  case True
  with assms show ?thesis by (auto simp: idle_work_def life_def)
next
  case False
  let ?q = "if m_PyInterpreter p \<and> nextPoll p \<le> Now
    then (MessagePlugin (instant t OnHeartbeat) p)\<lparr>nextPoll := Now + m_iPollInterval p\<rparr> else p"
  have "life (MessagePlugin (instant t OnHeartbeat) p) ks"
    by (rule life_MessagePlugin [OF assms(1)]) (simp add: outside_def)
  with assms(1) have "life ?q ks" by simp
  moreover have "list_all outside (map (\<lambda>c. instant t (Disconnect c)) cs)" for cs
    by (auto simp: list_all_iff outside_def)
  ultimately show ?thesis unfolding idle_work_def Let_def using life_post_all False by simp
qed

text \<open>A message is taken from the queue.\<close>

definition takes :: "plugin \<Rightarrow> kind \<Rightarrow> kind message list \<Rightarrow> bool" where
  "takes p k q \<longleftrightarrow> (\<exists>a m b. m_MessageQueue p = a @ m # b \<and> k = msg_kind m \<and> q = b @ a)"

lemma taken:
  assumes "life p ks" "takes p k q"
  shows "k \<notin> {Initialize, OnStart} \<Longrightarrow> boot q = boot (m_MessageQueue p)"
    "k \<in> {Initialize, OnStart} \<Longrightarrow> boot q = [] \<and> boot (m_MessageQueue p) = [k]"
    "stop_waiting (m_MessageQueue p) \<longleftrightarrow> k = OnStop \<or> stop_waiting q" "\<not> stop_requested p" "\<not> exited p"
proof -
  from assms(2) obtain a m b where q: "m_MessageQueue p = a @ m # b" "k = msg_kind m" "q = b @ a"
    by (auto simp: takes_def)
  have "length (boot (m_MessageQueue p)) \<le> 1" using assms(1) by (simp add: life_def)
  with q show "k \<notin> {Initialize, OnStart} \<Longrightarrow> boot q = boot (m_MessageQueue p)"
    "k \<in> {Initialize, OnStart} \<Longrightarrow> boot q = [] \<and> boot (m_MessageQueue p) = [k]"
    by (cases "boot a"; cases "boot b"; simp)+
  show "stop_waiting (m_MessageQueue p) \<longleftrightarrow> k = OnStop \<or> stop_waiting q" using q by auto
  show "\<not> stop_requested p" "\<not> exited p" using assms(1) q by (auto simp: life_def)
qed

lemma life_taken:
  assumes "life p ks" "takes p k q" "k \<notin> {Initialize, OnStart, OnStop}"
  shows "life (p\<lparr>m_MessageQueue := q\<rparr>) (ks @ [k])"
  using taken [OF assms(1,2)] assms(1,3) by (auto simp: life_def)

lemma life_taken_dead:
  assumes "life p ks" "takes p k q" "\<not> m_PyInterpreter p" "\<not> m_bIsStarting p"
  shows "life (p\<lparr>m_MessageQueue := q\<rparr>) ks"
  using taken [OF assms(1,2)] assms(1,3,4) by (cases "k \<in> {Initialize, OnStart}") (auto simp: life_def)

lemma life_Initialise:
  assumes "life p ks" "m_thread p" "takes p Initialize q'" "Initialise r t (p\<lparr>m_MessageQueue := q'\<rparr>) = Done q"
  shows "life q (ks @ [Initialize])"
proof -
  note f = taken [OF assms(1,3)]
  have s: "\<not> m_bIsStopping p" "boot q' = []" "\<not> stop_waiting q'" "0 \<le> stopTime p" "\<forall>n. pass p = Some n \<longrightarrow> 0 \<le> n"
    "stopTime p = 0"
    using assms(1) f by (auto simp: life_def)
  have err: "q = p'\<lparr>m_Interface := False, m_PyModule := False, m_PyInterpreter := False, m_bIsStarted := False, m_bIsStarting := False\<rparr>"
    if "init_error t p' = Done q" "m_thread p'" for p'
    using that plugin_Stop_Done [of p' t] by (auto simp: init_error_def and_then_Done)
  show ?thesis
  proof (cases "r = Loaded")
    case True
    with assms(2,4) s f(4,5) show ?thesis by (auto simp: Initialise_def life_def)
  next
    case False
    with assms(4) obtain p' where "init_error t p' = Done q"
      "p' \<in> {p\<lparr>m_MessageQueue := q', m_bIsStarted := False\<rparr>, p\<lparr>m_MessageQueue := q', m_bIsStarted := False, m_PyInterpreter := False\<rparr>,
        p\<lparr>m_MessageQueue := q', m_bIsStarted := False, m_PyInterpreter := True\<rparr>}"
      by (cases r) (auto simp: Initialise_def Let_def)
    with err [of p'] assms(2) s f(4,5) show ?thesis by (auto simp: life_def)
  qed
qed

lemma life_OnStart:
  assumes "life p ks" "takes p OnStart q'" "m_PyInterpreter p \<or> m_bIsStarting p"
  shows "life (plugin_Start r t (p\<lparr>m_MessageQueue := q'\<rparr>)) (ks @ [OnStart])"
proof -
  note f = taken [OF assms(1,2)]
  have s: "\<not> m_bIsStopping p" "boot q' = []" "\<not> m_bIsStarting p" "\<not> stop_waiting q'" "\<not> m_bIsStarted p" "m_PyInterpreter p"
    "m_thread p" "0 \<le> stopTime p" "\<forall>n. pass p = Some n \<longrightarrow> 0 \<le> n" "stopTime p = 0"
    using assms(1,3) f by (auto simp: life_def)
  with f(4,5) show ?thesis by (cases r) (simp_all add: plugin_Start_def life_def)
qed

lemma life_OnStop:
  assumes "life p ks" "takes p OnStop q'" "0 \<le> Now" "list_all outside ms"
  shows "life (after_stop Now t ((post_all ms (p\<lparr>m_MessageQueue := q'\<rparr>))\<lparr>m_bIsStopping := True\<rparr>)) (ks @ [OnStop])"
proof -
  let ?p = "(post_all ms (p\<lparr>m_MessageQueue := q'\<rparr>))\<lparr>m_bIsStopping := True\<rparr>"
  obtain ds where d: "disconnects t ds"
    and q: "after_stop Now t ?p = post_all ds (?p\<lparr>stopTime := if stopTime ?p = 0 then Now + 1 else stopTime ?p\<rparr>)"
    using after_stop_posts by blast
  note f = taken [OF assms(1,2)]
  have s: "m_bIsStopping p" "boot q' = []" "\<not> m_bIsStarting p" "m_PyInterpreter p" "m_thread p" "0 \<le> stopTime p"
    "\<forall>n. pass p = Some n \<longrightarrow> 0 \<le> n" "boot ms = []" "\<not> stop_waiting ms"
    using assms(1) f boot_outside [OF assms(4)] no_stop_outside [OF assms(4)] by (auto simp: life_def)
  with f(4,5) assms(3) have "life (?p\<lparr>stopTime := if stopTime ?p = 0 then Now + 1 else stopTime ?p\<rparr>) (ks @ [OnStop])"
    by (simp add: life_def)
  then show ?thesis unfolding q by (rule life_post_all [OF _ disconnects_outside [OF d]])
qed

lemma life_Process:
  assumes "life p ks" "m_thread p" "takes p k q'" "k \<noteq> OnStop"
    "m_PyInterpreter p \<or> m_bIsStarting p" "list_all outside (py_posts py)"
    "Process py t k (p\<lparr>m_MessageQueue := q'\<rparr>) = Done q"
  shows "life q (ks @ [k])"
proof -
  consider "k = Initialize" | "k = OnStart" | "k \<notin> {Initialize, OnStart, OnStop}" using assms(4) by blast
  then show ?thesis
  proof cases
    case 1
    with assms life_Initialise [OF assms(1,2)] show ?thesis by (simp add: Process_def)
  next
    case 2
    with assms life_OnStart [OF assms(1) _ assms(5), where r = "py_start py" and t = t] life_post_all show ?thesis
      by (auto simp: Process_def Let_def)
  next
    case 3
    have l: "life (p\<lparr>m_MessageQueue := q'\<rparr>) (ks @ [k])" using life_taken [OF assms(1,3) 3] .
    have "life (post_all (py_posts py) (p\<lparr>m_MessageQueue := q'\<rparr>)) (ks @ [k])" by (rule life_post_all [OF l assms(6)])
    with assms(7) l 3 show ?thesis
      by (cases k) (auto simp: Process_def Let_def split: if_splits)
  qed
qed

lemma life_pass:
  assumes "life p ks" "m_thread p" "pass p = Some Now" "list_all outside (py_posts py)" "Do_Work_pass py Now t p = Done q"
  shows "life q (ks @ (case handles p of None \<Rightarrow> [] | Some k \<Rightarrow> [k]))"
proof -
  have now: "0 \<le> Now" using assms(1,3) by (simp add: life_def)
  show ?thesis
  proof (cases rule: next_message_cases [of Now "m_MessageQueue p"])
    case none
    with assms have "q = (idle_work py Now t p)\<lparr>pass := None\<rparr>" "handles p = None" by (auto simp: Do_Work_pass_def handles_def)
    with life_idle_work [OF assms(1) now] show ?thesis by simp
  next
    case (some a m b)
    let ?p = "p\<lparr>m_MessageQueue := b @ a\<rparr>"
    have tk: "takes p (msg_kind m) (b @ a)" using some(1) by (auto simp: takes_def)
    show ?thesis
    proof (cases "m_PyInterpreter p \<or> m_bIsStarting p")
      case False
      with some assms have "q = idle_work py Now t ?p" "handles p = None" by (auto simp: Do_Work_pass_def handles_def)
      with False life_idle_work [OF life_taken_dead [OF assms(1) tk] now] show ?thesis by simp
    next
      case True
      with some assms have h: "handles p = Some (msg_kind m)" by (auto simp: handles_def)
      from True some assms obtain p2 where p2: "Process py t (msg_kind m) ?p = Done p2"
        "q = idle_work py Now t (if msg_kind m = OnStop then after_stop Now t p2 else p2)"
        by (auto simp: Do_Work_pass_def and_then_Done)
      have "life (if msg_kind m = OnStop then after_stop Now t p2 else p2) (ks @ [msg_kind m])"
      proof (cases "msg_kind m = OnStop")
        case True
        with p2(1) have "p2 = (post_all (py_posts py) ?p)\<lparr>m_bIsStopping := True\<rparr>" by (simp add: Process_def)
        with tk True life_OnStop [OF assms(1) _ now assms(4)] show ?thesis by simp
      next
        case False
        with life_Process [OF assms(1,2) tk _ True assms(4) p2(1)] show ?thesis by simp
      qed
      with p2(2) h life_idle_work [OF _ now] show ?thesis by simp
    qed
  qed
qed

lemma life_Finalise:
  assumes "life p ks" "m_thread p" "stop_requested p" "Finalise t p = Done q" shows "life q ks"
proof -
  from assms(4) obtain p1 where p1: "plugin_Stop t p = Done p1"
    "q = p1\<lparr>m_bIsStarting := False, m_bIsStopping := False, exited := True\<rparr>" by (auto simp: Finalise_def and_then_Done)
  with plugin_Stop_Done(3) [OF assms(2) p1(1)] assms show ?thesis by (auto simp: life_def)
qed

lemma life_worker:
  assumes "life p ks" "0 \<le> t" "list_all outside (py_posts py)" "Do_Work py t p = Done q"
  shows "life q (ks @ observed (Worker py t) p)"
proof -
  from assms(4) have w: "m_thread p" "\<not> exited p" by (auto simp: Do_Work_def split: if_splits)
  show ?thesis
  proof (cases "pass p")
    case None
    then have h: "handles p = None" by (simp add: handles_def)
    show ?thesis
    proof (cases "stop_requested p")
      case True
      with None w assms(4) have "Finalise t p = Done q" by (simp add: Do_Work_def)
      from life_Finalise [OF assms(1) w(1) True this] h show ?thesis by simp
    next
      case False
      with None w assms(4) have "q = p\<lparr>pass := Some t\<rparr>" by (simp add: Do_Work_def)
      then have "life q ks" using assms(1,2) by (auto simp: life_def)
      with h show ?thesis by simp
    qed
  next
    case (Some Now)
    with w assms(4) have "Do_Work_pass py Now t p = Done q" by (simp add: Do_Work_def)
    from life_pass [OF assms(1) w(1) Some assms(3) this] w show ?thesis by simp
  qed
qed

lemma life_step:
  assumes "life p ks" "allowed ev" "plugin_step ev p = Done q" shows "life q (ks @ observed ev p)"
proof (cases ev)
  case (Worker py t)
  with assms life_worker [OF assms(1), of t py q] show ?thesis by simp
next
  case (Start_call t)
  with assms life_hardware_Start [OF assms(1)] show ?thesis by simp
next
  case (Stop_call t)
  with assms life_hardware_Stop [OF assms(1)] show ?thesis by simp
next
  case (Restart_call t)
  with assms life_restart [OF assms(1)] show ?thesis by simp
next
  case (Posted m)
  with assms life_MessagePlugin [OF assms(1)] show ?thesis by auto
qed

lemma life_run: "plugin_run p evs ks' q \<Longrightarrow> life p ks \<Longrightarrow> life q (ks @ ks')"
proof (induction arbitrary: ks rule: plugin_run.induct)
  case (plugin_run_cons ev p p' evs ks' q)
  from plugin_run_cons.IH [OF life_step [OF plugin_run_cons.prems plugin_run_cons.hyps(1,2)]] show ?case by simp
qed simp

lemma life_new: "life (new_plugin i) []"
  by (simp add: life_def new_plugin_def)


text \<open>Handlers that do nothing, for examples.\<close>

definition idle_python :: python where
  "idle_python = \<lparr>py_init = Loaded, py_start = Started, py_posts = [], py_transports = [], py_released = []\<rparr>"

definition example_start :: "plugin_event list" where
  "example_start = [Start_call 100, Worker idle_python 100, Worker idle_python 100, Worker idle_python 100, Worker idle_python 100]"

definition example_stop :: "plugin_event list" where
  "example_stop = [Worker idle_python 103, Worker idle_python 103, Worker idle_python 103, Worker idle_python 105,
     Worker idle_python 105]"


section \<open>A plugin that is stopped\<close>

lemma plugin_run_append:
  "plugin_run p evs ks q \<Longrightarrow> plugin_run q evs' ks' r \<Longrightarrow> plugin_run p (evs @ evs') (ks @ ks') r"
  by (induction rule: plugin_run.induct) (auto intro: plugin_run_cons)

lemma plugin_run_one:
  "allowed ev \<Longrightarrow> plugin_step ev p = Done q \<Longrightarrow> observed ev p = ks \<Longrightarrow> plugin_run p [ev] ks q"
  using plugin_run_cons [OF _ _ plugin_run_nil, of ev p q] by auto

lemma post_all_eq: "\<not> stop_requested p \<Longrightarrow> post_all ms p = p\<lparr>m_MessageQueue := m_MessageQueue p @ ms\<rparr>"
proof (induction ms arbitrary: p)
  case (Cons m ms)
  from Cons.prems have "MessagePlugin m p = p\<lparr>m_MessageQueue := m_MessageQueue p @ [m]\<rparr>" by (simp add: MessagePlugin_def)
  with Cons show ?case by simp
qed simp

text \<open>Handlers that do nothing, and connections that stay.\<close>

definition quiet_python :: "plugin \<Rightarrow> python" where
  "quiet_python p = \<lparr>py_init = Loaded, py_start = Started, py_posts = [], py_transports = m_Transports p, py_released = []\<rparr>"

lemma quiet_python_simps [simp]:
  "py_posts (quiet_python p) = []" "py_released (quiet_python p) = []" "py_transports (quiet_python p) = m_Transports p"
  by (simp_all add: quiet_python_def)

definition stopping_worker :: "plugin \<Rightarrow> int \<Rightarrow> bool" where
  "stopping_worker p Now \<longleftrightarrow> m_thread p \<and> \<not> exited p \<and> m_PyInterpreter p \<and> m_Interface p \<and> \<not> m_bRestart p \<and>
     m_bIsStopping p \<and> \<not> stop_requested p \<and> pass p = Some Now"

definition by_worker :: "int \<Rightarrow> plugin_event list \<Rightarrow> bool" where
  "by_worker t evs \<longleftrightarrow> list_all (\<lambda>ev. \<exists>py s. ev = Worker py s \<and> t \<le> s) evs"

lemma by_worker_simps [simp]:
  "by_worker t []" "by_worker t (a @ b) \<longleftrightarrow> by_worker t a \<and> by_worker t b"
  "by_worker t (Worker py s # evs) \<longleftrightarrow> t \<le> s \<and> by_worker t evs"
  by (auto simp: by_worker_def)

lemma drain_step:
  assumes "stopping_worker p Now" "m_MessageQueue p = m # r" "due Now m" "msg_kind m \<notin> {Initialize, OnStart, OnStop}"
    "r \<noteq> [] \<or> Now \<le> stopTime p" "0 \<le> t"
  shows "\<exists>n. plugin_run p [Worker (quiet_python p) t] [msg_kind m] (p\<lparr>m_MessageQueue := r, m_iPollInterval := n\<rparr>)"
proof -
  have nm: "next_message Now (m_MessageQueue p) = (Some m, r)"
    using next_message_split(1) [of Now "[]" m r] assms(2,3) by simp
  let ?q = "p\<lparr>m_MessageQueue := r\<rparr>"
  have "Process (quiet_python p) t (msg_kind m) ?q = Done (?q\<lparr>m_iPollInterval :=
      case msg_kind m of PollInterval k \<Rightarrow> if k > 0 then k else m_iPollInterval p | _ \<Rightarrow> m_iPollInterval p\<rparr>)"
    using assms(1,4) by (cases "msg_kind m") (simp_all add: Process_def stopping_worker_def Let_def)
  then obtain n where n: "Process (quiet_python p) t (msg_kind m) ?q = Done (?q\<lparr>m_iPollInterval := n\<rparr>)" by blast
  moreover have "idle_work py Now t (?q\<lparr>m_iPollInterval := n\<rparr>) = ?q\<lparr>m_iPollInterval := n\<rparr>" for py
    using assms(1,5) by (auto simp: idle_work_def stopping_worker_def)
  ultimately have "Do_Work (quiet_python p) t p = Done (?q\<lparr>m_iPollInterval := n\<rparr>)"
    using assms(1,4) nm by (simp add: Do_Work_def Do_Work_pass_def stopping_worker_def)
  moreover have "observed (Worker (quiet_python p) t) p = [msg_kind m]"
    using assms(1) nm by (simp add: handles_def stopping_worker_def)
  ultimately show ?thesis using assms(6) by (intro exI [of _ n] plugin_run_one) simp_all
qed

lemma drained_by_worker:
  assumes "stopping_worker p Now" "m_MessageQueue p = ms @ r" "list_all (due Now) ms"
    "boot ms = []" "\<not> stop_waiting ms" "r \<noteq> [] \<or> Now \<le> stopTime p" "0 \<le> t"
  shows "\<exists>evs n. by_worker t evs \<and> plugin_run p evs (map msg_kind ms) (p\<lparr>m_MessageQueue := r, m_iPollInterval := n\<rparr>)"
  using assms
proof (induction ms arbitrary: p)
  case Nil
  then have "p\<lparr>m_MessageQueue := r, m_iPollInterval := m_iPollInterval p\<rparr> = p" by simp
  with Nil show ?case by (metis by_worker_simps(1) list.simps(8) plugin_run_nil)
next
  case (Cons m ms)
  have k: "msg_kind m \<notin> {Initialize, OnStart, OnStop}" using Cons.prems(4,5) by (auto split: if_splits)
  from drain_step [OF Cons.prems(1) _ _ k, of "ms @ r" t] Cons.prems obtain n where
    n: "plugin_run p [Worker (quiet_python p) t] [msg_kind m] (p\<lparr>m_MessageQueue := ms @ r, m_iPollInterval := n\<rparr>)" by auto
  let ?p = "p\<lparr>m_MessageQueue := ms @ r, m_iPollInterval := n\<rparr>"
  have "stopping_worker ?p Now" "boot ms = []" using Cons.prems k by (auto simp: stopping_worker_def)
  with Cons.IH [of ?p] Cons.prems obtain evs n' where
    e: "by_worker t evs" "plugin_run ?p evs (map msg_kind ms) (?p\<lparr>m_MessageQueue := r, m_iPollInterval := n'\<rparr>)" by auto
  from plugin_run_append [OF n e(2)] e(1) show ?case
    by (intro exI [of _ "[Worker (quiet_python p) t] @ evs"] exI [of _ n']) simp
qed

text \<open>The stop handler, then the messages that end the connections.\<close>

lemma stop_handled:
  assumes "stopping_worker p Now" "m_MessageQueue p = m # b" "due Now m" "msg_kind m = OnStop" "stopTime p = 0" "0 \<le> t"
  shows "\<exists>ds. disconnects t ds \<and>
    plugin_run p [Worker (quiet_python p) t] [OnStop] (p\<lparr>m_MessageQueue := b @ ds, stopTime := Now + 1\<rparr>)"
proof -
  have nm: "next_message Now (m_MessageQueue p) = (Some m, b)"
    using next_message_split(1) [of Now "[]" m b] assms(2,3) by simp
  let ?q = "p\<lparr>m_MessageQueue := b\<rparr>"
  obtain ds where d: "disconnects t ds"
    "after_stop Now t ?q = post_all ds (?q\<lparr>stopTime := if stopTime ?q = 0 then Now + 1 else stopTime ?q\<rparr>)"
    using after_stop_posts by blast
  with assms(1,5) have "after_stop Now t ?q = p\<lparr>m_MessageQueue := b @ ds, stopTime := Now + 1\<rparr>"
    by (simp add: post_all_eq stopping_worker_def)
  moreover have "?q\<lparr>m_bIsStopping := True\<rparr> = ?q" using assms(1) by (simp add: stopping_worker_def)
  ultimately have a: "after_stop Now t (?q\<lparr>m_bIsStopping := True\<rparr>) = p\<lparr>m_MessageQueue := b @ ds, stopTime := Now + 1\<rparr>"
    by (simp only:)
  have "Process (quiet_python p) t OnStop ?q = Done (?q\<lparr>m_bIsStopping := True\<rparr>)" by (simp add: Process_def)
  then have "Do_Work (quiet_python p) t p = Done (p\<lparr>m_MessageQueue := b @ ds, stopTime := Now + 1\<rparr>)"
    using assms(1,4) nm a by (simp add: Do_Work_def Do_Work_pass_def stopping_worker_def idle_work_def)
  moreover have "observed (Worker (quiet_python p) t) p = [OnStop]"
    using assms(1,4) nm by (simp add: handles_def stopping_worker_def)
  ultimately show ?thesis using assms(6) d(1) by (intro exI [of _ ds] conjI plugin_run_one) simp_all
qed

lemma next_message_Nil [simp]: "next_message t [] = (None, [])"
  by (simp add: next_message_def)

text \<open>Nothing is left: the worker asks itself to stop and ends.\<close>

lemma empty_worker_ends:
  assumes "stopping_worker p Now" "m_MessageQueue p = []" "Now \<le> stopTime p" "stopTime p < u" "0 \<le> t" "0 \<le> u" "t \<le> u"
  shows "\<exists>evs q. by_worker t evs \<and> plugin_run p evs [] q \<and> exited q"
proof -
  let ?py = "quiet_python p"
  let ?a = "p\<lparr>pass := None\<rparr>" and ?b = "p\<lparr>pass := Some u\<rparr>" and ?c = "p\<lparr>stop_requested := True, pass := None\<rparr>"
  let ?d = "p\<lparr>m_Interface := False, m_PyModule := False, m_PyInterpreter := False, m_bIsStarted := False,
    stop_requested := True, pass := None, m_bIsStarting := False, m_bIsStopping := False, exited := True\<rparr>"
  note f = assms(1) [unfolded stopping_worker_def] assms(2-4)
  have "Do_Work ?py t p = Done ?a" "Do_Work ?py u ?a = Done ?b" "Do_Work ?py u ?b = Done ?c" "Do_Work ?py u ?c = Done ?d"
    using f by (simp_all add: Do_Work_def Do_Work_pass_def idle_work_def Finalise_def plugin_Stop_def Let_def)
  moreover have "observed (Worker ?py t) p = []" "observed (Worker ?py u) ?a = []" "observed (Worker ?py u) ?b = []"
    "observed (Worker ?py u) ?c = []"
    using f by (simp_all add: handles_def)
  ultimately have "plugin_run p [Worker ?py t, Worker ?py u, Worker ?py u, Worker ?py u] [] ?d"
    using plugin_run_append [OF plugin_run_one plugin_run_append [OF plugin_run_one plugin_run_append [OF plugin_run_one plugin_run_one]],
      of "Worker ?py t" p ?a "[]" "Worker ?py u" ?b "[]" "Worker ?py u" ?c "[]" "Worker ?py u" ?d "[]"] assms(5,6) by simp
  with assms(7) show ?thesis by (intro exI [of _ "[Worker ?py t, Worker ?py u, Worker ?py u, Worker ?py u]"] exI [of _ ?d]) simp
qed

text \<open>A worker with the stop message somewhere in its queue.\<close>

lemma stopping_plugin_ends:
  assumes "stopping_worker (p\<lparr>pass := Some Now\<rparr>) Now" "pass p = None" "m_MessageQueue p = a @ m # b" "msg_kind m = OnStop"
    "list_all (due Now) (m_MessageQueue p)" "boot (a @ b) = []" "\<not> stop_waiting (a @ b)" "stopTime p = 0" "0 \<le> Now"
  shows "\<exists>evs ds q. by_worker Now evs \<and> disconnects Now ds \<and> exited q \<and>
    plugin_run p evs (map msg_kind a @ OnStop # map msg_kind (b @ ds)) q"
proof -
  let ?p = "p\<lparr>pass := Some Now\<rparr>"
  have start: "plugin_run p [Worker (quiet_python p) Now] [] ?p"
    using assms(1,2,9) by (intro plugin_run_one) (simp_all add: Do_Work_def handles_def stopping_worker_def)
  from drained_by_worker [OF assms(1), of a "m # b" Now] assms(3,5-9) obtain evs1 n where
    e1: "by_worker Now evs1" "plugin_run ?p evs1 (map msg_kind a) (?p\<lparr>m_MessageQueue := m # b, m_iPollInterval := n\<rparr>)"
    by auto
  let ?p1 = "?p\<lparr>m_MessageQueue := m # b, m_iPollInterval := n\<rparr>"
  have w1: "stopping_worker ?p1 Now" and st: "m_MessageQueue ?p1 = m # b" "stopTime ?p1 = 0" "due Now m"
    using assms(1,3,5,8) by (simp_all add: stopping_worker_def)
  from stop_handled [OF w1 st(1,3) assms(4) st(2) assms(9)] obtain ds where
    ds: "disconnects Now ds" "plugin_run ?p1 [Worker (quiet_python ?p1) Now] [OnStop] (?p1\<lparr>m_MessageQueue := b @ ds, stopTime := Now + 1\<rparr>)"
    by blast
  let ?p2 = "?p1\<lparr>m_MessageQueue := b @ ds, stopTime := Now + 1\<rparr>"
  have w2: "stopping_worker ?p2 Now" using assms(1) by (simp add: stopping_worker_def)
  have d: "list_all (due Now) (b @ ds)" "boot (b @ ds) = []" "\<not> stop_waiting (b @ ds)"
    using ds(1) assms(3,5-7) boot_outside [OF disconnects_outside [OF ds(1)]] no_stop_outside [OF disconnects_outside [OF ds(1)]]
    by (auto simp: disconnects_def list_all_iff)
  with drained_by_worker [OF w2, of "b @ ds" "[]" Now] assms(9) obtain evs2 n2 where
    e2: "by_worker Now evs2" "plugin_run ?p2 evs2 (map msg_kind (b @ ds)) (?p2\<lparr>m_MessageQueue := [], m_iPollInterval := n2\<rparr>)"
    by auto
  let ?p3 = "?p2\<lparr>m_MessageQueue := [], m_iPollInterval := n2\<rparr>"
  have w3: "stopping_worker ?p3 Now" using assms(1) by (simp add: stopping_worker_def)
  from empty_worker_ends [OF w3, of "Now + 2" Now] assms(9) obtain evs3 q where
    e3: "by_worker Now evs3" "plugin_run ?p3 evs3 [] q" "exited q" by auto
  from plugin_run_append [OF start plugin_run_append [OF e1(2) plugin_run_append [OF ds(2) plugin_run_append [OF e2(2) e3(2)]]]]
  have "plugin_run p (Worker (quiet_python p) Now # evs1 @ Worker (quiet_python ?p1) Now # evs2 @ evs3)
    (map msg_kind a @ OnStop # map msg_kind (b @ ds)) q" by simp
  with e1(1) e2(1) e3(1,3) ds(1) show ?thesis
    by (intro exI [of _ "Worker (quiet_python p) Now # evs1 @ Worker (quiet_python ?p1) Now # evs2 @ evs3"] exI [of _ ds] exI [of _ q]) simp
qed

text \<open>A plugin that runs, in a state that its runs reach.\<close>

definition running :: "plugin \<Rightarrow> bool" where
  "running p \<longleftrightarrow> m_bIsStarted p \<and> \<not> m_bIsStarting p \<and> \<not> m_bIsStopping p \<and> m_Interface p \<and> \<not> m_bRestart p \<and>
     \<not> exited p \<and> pass p = None"

lemma running_facts:
  assumes "life p ks" "running p"
  shows "m_thread p" "m_PyInterpreter p" "boot (m_MessageQueue p) = []" "\<not> stop_waiting (m_MessageQueue p)"
    "stopTime p = 0" "\<not> stop_requested p"
  using assms by (auto simp: life_def running_def)

lemma running_stop:
  assumes "life p ks" "running p"
  shows "hardware_Stop t p = Done (p\<lparr>m_MessageQueue := m_MessageQueue p @ [onStopCallback t OnStop], m_bIsStopping := True, m_bIsStarted := False\<rparr>)"
  using running_facts [OF assms] assms(2) by (simp add: hardware_Stop_def StopHardware_def MessagePlugin_def running_def)

lemma stop_due [simp]: "due (t + 2) (onStopCallback t k)"
  by (simp add: due_def onStopCallback_def instant_def)


section \<open>A plugin that fails to start\<close>

definition failed :: "plugin \<Rightarrow> bool" where
  "failed p \<longleftrightarrow> m_thread p \<and> \<not> exited p \<and> \<not> m_PyInterpreter p \<and> \<not> m_bIsStarting p \<and> \<not> m_bIsStarted p \<and>
     \<not> m_bIsStopping p \<and> \<not> stop_requested p \<and> \<not> m_Interface p"

lemma failed_idle_work: "failed p \<Longrightarrow> failed (idle_work py Now t p)"
  by (simp add: failed_def idle_work_def Let_def)

lemma failed_step:
  assumes "failed p" "plugin_step ev p = Done q" shows "failed q \<and> observed ev p = []"
proof (cases ev)
  case (Worker py t)
  show ?thesis
  proof (cases "pass p")
    case None
    with assms Worker show ?thesis by (auto simp: failed_def Do_Work_def handles_def)
  next
    case (Some Now)
    have "handles p = None" using assms(1) Some by (auto simp: failed_def handles_def split: option.splits)
    moreover have f: "failed (idle_work py Now t (p\<lparr>m_MessageQueue := r\<rparr>))"
      "failed ((idle_work py Now t (p\<lparr>m_MessageQueue := r\<rparr>))\<lparr>pass := None\<rparr>)" for r
      using failed_idle_work [of "p\<lparr>m_MessageQueue := r\<rparr>"] assms(1) by (simp_all add: failed_def)
    moreover have "\<exists>r. q = idle_work py Now t (p\<lparr>m_MessageQueue := r\<rparr>) \<or> q = (idle_work py Now t (p\<lparr>m_MessageQueue := r\<rparr>))\<lparr>pass := None\<rparr>"
      using assms Worker Some by (auto simp: failed_def Do_Work_def Do_Work_pass_def Let_def split: prod.splits option.splits if_splits)
    ultimately show ?thesis using Worker by auto
  qed
next
  case (Start_call t)
  with assms show ?thesis by (auto simp: failed_def hardware_Start_def and_then_Done dest: StartHardware_Done)
next
  case (Stop_call t)
  with assms show ?thesis by (auto simp: failed_def hardware_Stop_def StopHardware_def)
next
  case (Restart_call t)
  with assms show ?thesis by (auto simp: failed_def restart_plugin_def IsRunning_def)
next
  case (Posted m)
  with assms show ?thesis by (auto simp: failed_def)
qed

lemma failed_run: "plugin_run p evs ks q \<Longrightarrow> failed p \<Longrightarrow> failed q \<and> ks = []"
  by (induction rule: plugin_run.induct) (auto dest: failed_step)

lemma handles_message:
  assumes "handles p = Some k"
  obtains Now a m b where "pass p = Some Now" "m_MessageQueue p = a @ m # b" "msg_kind m = k"
    "next_message Now (m_MessageQueue p) = (Some m, b @ a)" "m_PyInterpreter p \<or> m_bIsStarting p"
proof -
  from assms obtain Now where n: "pass p = Some Now" by (cases "pass p") (auto simp: handles_def)
  show ?thesis
  proof (cases rule: next_message_cases [of Now "m_MessageQueue p"])
    case none
    with assms n show ?thesis by (simp add: handles_def)
  next
    case (some a m b)
    with assms n that show ?thesis by (simp add: handles_def split: if_splits)
  qed
qed

lemma bad_script_fails:
  assumes "life p ks" "handles p = Some Initialize" "Do_Work py t p = Done q" "py_init py = Bad_script"
  shows "failed q"
proof -
  have w: "m_thread p" "\<not> exited p" using assms(3) by (auto simp: Do_Work_def split: if_splits)
  obtain Now a m b where m: "pass p = Some Now" "m_MessageQueue p = a @ m # b" "msg_kind m = Initialize"
    "next_message Now (m_MessageQueue p) = (Some m, b @ a)" "m_PyInterpreter p \<or> m_bIsStarting p"
    using handles_message [OF assms(2)] by blast
  let ?p = "p\<lparr>m_MessageQueue := b @ a\<rparr>"
  have "takes p Initialize (b @ a)" unfolding takes_def using m(2,3) by metis
  from taken [OF assms(1) this] have f: "boot (m_MessageQueue p) = [Initialize]" "\<not> stop_requested p" by auto
  then have s: "\<not> m_bIsStopping p" using assms(1) by (auto simp: life_def)
  from assms(3,4) w m obtain p2 where p2: "init_error t (?p\<lparr>m_bIsStarted := False, m_PyInterpreter := True\<rparr>) = Done p2"
    "q = idle_work py Now t p2"
    by (auto simp: Do_Work_def Do_Work_pass_def Process_def Initialise_def and_then_Done)
  let ?i = "?p\<lparr>m_bIsStarted := False, m_PyInterpreter := True\<rparr>"
  from p2(1) obtain p3 where p3: "plugin_Stop t ?i = Done p3" "p2 = p3\<lparr>m_bIsStarting := False\<rparr>"
    by (auto simp: init_error_def and_then_Done)
  have "m_thread ?i" using w by simp
  from plugin_Stop_Done(3) [OF this p3(1)] p3(2) w s f(2) have "failed p2" by (simp add: failed_def)
  then show ?thesis using failed_idle_work p2(2) by simp
qed

text \<open>A plugin whose script can not be loaded is lost.  Its worker never handles another
  message and never ends, whatever is posted and however often the plugin is stopped and restarted.\<close>

theorem failed_plugin_stays:
  assumes "plugin_run (new_plugin i) evs ks p" and "handles p = Some Initialize"
    and "py_init py = Bad_script" and "Do_Work py t p = Done q" and "plugin_run q evs' ks' r"
  shows "ks' = [] \<and> \<not> exited r \<and> m_thread r \<and> \<not> m_PyInterpreter r"
  using failed_run [OF assms(5) bad_script_fails [OF life_run [OF assms(1) life_new] assms(2,4,3)]] by (simp add: failed_def)

section \<open>Restart\<close>

text \<open>A restart ends the whole server: when the worker of a plugin for which a restart was
  asked has come to its end, it starts a thread in the place of its own, which is still running, and the
  process is terminated.\<close>

theorem restart_ends_process:
  assumes "plugin_run (new_plugin i) evs ks p" and "m_bRestart p" and "stop_requested p" and "\<not> exited p" and "pass p = None"
  shows "Do_Work py t p = Crashes Terminate"
proof -
  from life_run [OF assms(1) life_new] assms(3,4) have "m_thread p" "m_PyInterpreter p" by (auto simp: life_def)
  with assms(2-5) show ?thesis
    by (simp add: Do_Work_def Finalise_def plugin_Stop_def StartHardware_def)
qed

theorem restart_ends_process_witness:
  "case exec_run (example_start @ Restart_call 101 # example_stop) (new_plugin 7) of
     None \<Rightarrow> False | Some (ks, p) \<Rightarrow> Do_Work idle_python 105 p = Crashes Terminate"
proof -
  have "case exec_run (example_start @ Restart_call 101 # example_stop) (new_plugin 7) of
      None \<Rightarrow> False | Some (ks, p) \<Rightarrow> m_bRestart p \<and> stop_requested p \<and> \<not> exited p \<and> pass p = None" by code_simp
  then obtain ks p where r: "exec_run (example_start @ Restart_call 101 # example_stop) (new_plugin 7) = Some (ks, p)"
    "m_bRestart p" "stop_requested p" "\<not> exited p" "pass p = None" by (auto split: option.splits)
  from restart_ends_process [OF r(1) [folded exec_run_iff] r(2-5), of idle_python 105] r(1) show ?thesis by simp
qed

theorem failed_plugin_stays_witness:
  "case exec_run [Start_call 100, Worker idle_python 100, Worker (idle_python\<lparr>py_init := Bad_script\<rparr>) 100,
      Stop_call 101, Posted (instant 102 (OnUpdateInterface False)), Worker idle_python 103, Restart_call 104] (new_plugin 7) of
     None \<Rightarrow> False | Some (ks, p) \<Rightarrow> ks = [Initialize] \<and> \<not> exited p"
proof -
  let ?bad = "idle_python\<lparr>py_init := Bad_script\<rparr>"
  let ?e = "[Stop_call 101, Posted (instant 102 (OnUpdateInterface False)), Worker idle_python 103, Restart_call 104]"
  let ?s = "exec_run [Start_call 100, Worker idle_python 100] (new_plugin 7)"
  have c: "case ?s of None \<Rightarrow> False | Some (ks, p) \<Rightarrow>
      ks = [] \<and> handles p = Some Initialize \<and> observed (Worker ?bad 100) p = [Initialize] \<and>
      (case Do_Work ?bad 100 p of Done q \<Rightarrow> (case exec_run ?e q of None \<Rightarrow> False | Some r \<Rightarrow> True) | _ \<Rightarrow> False)" by code_simp
  obtain ks p where s: "?s = Some (ks, p)" using c by (metis (no_types, lifting) option.exhaust option.simps(4) surj_pair)
  obtain q where q: "Do_Work ?bad 100 p = Done q" using c unfolding s by (cases "Do_Work ?bad 100 p") simp_all
  obtain ks' r where e: "exec_run ?e q = Some (ks', r)"
    using c unfolding s option.case prod.case q outcome.case by (cases "exec_run ?e q") auto
  have r: "exec_run [Start_call 100, Worker idle_python 100] (new_plugin 7) = Some ([], p)"
    "handles p = Some Initialize" "observed (Worker ?bad 100) p = [Initialize]" "Do_Work ?bad 100 p = Done q" "exec_run ?e q = Some (ks', r)"
    using c unfolding s option.case prod.case by (simp_all only: s q e)
  have f: "ks' = []" "\<not> exited r"
    using failed_plugin_stays [OF r(1) [folded exec_run_iff] r(2) _ r(4) r(5) [folded exec_run_iff]] by simp_all
  have "plugin_run p (Worker ?bad 100 # ?e) ([Initialize] @ ks') r"
    using plugin_run_cons [OF _ _ r(5) [folded exec_run_iff], of "Worker ?bad 100" p] r(3,4) by (simp add: idle_python_def)
  from plugin_run_append [OF r(1) [folded exec_run_iff] this] f show ?thesis
    by (simp only: exec_run_iff) simp
qed


end
