(* ===== verification/PluginManager.thy ===== *)
theory PluginManager
  imports PluginLife UpdatePublisher
begin

text \<open>
  \<^verbatim>\<open>hardware/plugins/PluginManager.cpp\<close>: the plugins that are registered, and what the plugin system
  does with the changes of the database that the update publisher hands it.

  A plugin is an object that lives as long as the process; \<open>m_pPlugins\<close> holds references.  The
  dictionaries of devices and values are Python objects: which plugin has which is an argument.
\<close>

section \<open>The registry\<close>

record plugin_system =
  m_bEnabled :: bool
  plugins :: "plugin list"
  m_pPlugins :: "(int \<times> nat) list"

text \<open>\<^verbatim>\<open>std::map::insert\<close> keeps an entry that is there; the map is ordered by its key.\<close>

fun map_insert :: "int \<Rightarrow> nat \<Rightarrow> (int \<times> nat) list \<Rightarrow> (int \<times> nat) list" where
  "map_insert k v [] = [(k, v)]"
| "map_insert k v ((k', v') # r) =
     (if k = k' then (k', v') # r else if k < k' then (k, v) # (k', v') # r else (k', v') # map_insert k v r)"

definition RegisterPlugin :: "int \<Rightarrow> plugin_system \<Rightarrow> nat option \<times> plugin_system" where
  "RegisterPlugin i s =
     (if m_bEnabled s
      then (Some (length (plugins s)),
        s\<lparr>plugins := plugins s @ [new_plugin i], m_pPlugins := map_insert i (length (plugins s)) (m_pPlugins s)\<rparr>)
      else (None, s))"

definition DeregisterPlugin :: "int \<Rightarrow> plugin_system \<Rightarrow> plugin_system" where
  "DeregisterPlugin i s = s\<lparr>m_pPlugins := filter (\<lambda>(k, _). k \<noteq> i) (m_pPlugins s)\<rparr>"

definition on_plugin :: "nat \<Rightarrow> (plugin \<Rightarrow> plugin outcome) \<Rightarrow> plugin_system \<Rightarrow> plugin_system outcome" where
  "on_plugin j f s = and_then (f (plugins s ! j)) (\<lambda>p. Done (s\<lparr>plugins := (plugins s)[j := p]\<rparr>))"

definition RestartPlugin :: "int \<Rightarrow> int \<Rightarrow> plugin_system \<Rightarrow> plugin_system outcome" where
  "RestartPlugin t i s = (case map_of (m_pPlugins s) i of None \<Rightarrow> Done s | Some j \<Rightarrow> on_plugin j (restart_plugin t) s)"

section \<open>Changes of the database\<close>

text \<open>A column without a value, which a row with a null key has, is read outside the vector.\<close>

fun field_loop :: "string \<Rightarrow> string list \<Rightarrow> string list \<Rightarrow> string outcome" where
  "field_loop f [] vs = Done []"
| "field_loop f (c # cs) vs =
     (if c = f then (case vs of [] \<Rightarrow> Crashes Out_of_range | v # _ \<Rightarrow> Done v) else field_loop f cs (tl vs))"

definition GetFieldValue :: "string \<Rightarrow> update_entry \<Rightarrow> string outcome" where
  "GetFieldValue f e = field_loop f (m_Columns e) (m_Values e)"

text \<open>\<^verbatim>\<open>m_Values[1]\<close>, the name of the row.\<close>

definition second_value :: "update_entry \<Rightarrow> string outcome" where
  "second_value e = (if length (m_Values e) < 2 then Crashes Out_of_range else Done (m_Values e ! 1))"

definition int32 :: "int \<Rightarrow> int" where
  "int32 n = sint (word_of_int n :: 32 word)"

fun PluginFromDeviceID :: "(nat \<Rightarrow> int \<Rightarrow> bool) \<Rightarrow> int \<Rightarrow> plugin list \<Rightarrow> (int \<times> nat) list \<Rightarrow> nat option" where
  "PluginFromDeviceID has d ps [] = None"
| "PluginFromDeviceID has d ps ((i, j) # r) =
     (if m_Interface (ps ! j) \<and> has j d then Some j else PluginFromDeviceID has d ps r)"

text \<open>The search for a value does not look whether there is an interface object.\<close>

fun PluginFromValueID :: "(nat \<Rightarrow> int \<Rightarrow> bool) \<Rightarrow> int \<Rightarrow> plugin list \<Rightarrow> (int \<times> nat) list \<Rightarrow> nat option outcome" where
  "PluginFromValueID has v ps [] = Done None"
| "PluginFromValueID has v ps ((i, j) # r) =
     (if \<not> m_Interface (ps ! j) then Crashes Null_interface
      else if has j v then Done (Some j) else PluginFromValueID has v ps r)"

definition post_to :: "nat \<Rightarrow> int \<Rightarrow> kind \<Rightarrow> plugin_system \<Rightarrow> plugin_system outcome" where
  "post_to j t k = on_plugin j (\<lambda>p. Done (MessagePlugin (instant t k) p))"

definition post_to_found :: "nat option \<Rightarrow> int \<Rightarrow> kind \<Rightarrow> plugin_system \<Rightarrow> plugin_system outcome" where
  "post_to_found r t k s = (case r of None \<Rightarrow> Done s | Some j \<Rightarrow> post_to j t k s)"

definition start_new :: "int \<Rightarrow> int \<Rightarrow> update_entry \<Rightarrow> plugin_system \<Rightarrow> plugin_system outcome" where
  "start_new t i e s = and_then (second_value e) (\<lambda>_.
     case RegisterPlugin i s of
       (None, s') \<Rightarrow> Done s'
     | (Some j, s') \<Rightarrow> on_plugin j (hardware_Start t) s')"

definition interface_update :: "int \<Rightarrow> update_entry \<Rightarrow> plugin_system \<Rightarrow> plugin_system outcome" where
  "interface_update t e s = and_then (GetFieldValue ''Active'' e) (\<lambda>active.
     let i = int32 (m_RowIdx e); bActive = (active = ''1''); found = map_of (m_pPlugins s) i in
     if m_Action e = ''Insert'' then (if bActive then start_new t i e s else Done s)
     else if m_Action e = ''Update''
     then (case found of
         None \<Rightarrow> if bActive then start_new t i e s else Done s
       | Some j \<Rightarrow> if \<not> bActive then on_plugin j (hardware_Stop t) s
           else post_to j t (OnUpdateInterface (m_Interface (plugins s ! j))) s)
     else if m_Action e = ''Delete''
     then (case found of
         None \<Rightarrow> Done s
       | Some j \<Rightarrow> if \<not> bActive then on_plugin j (hardware_Stop t) s else Done s)
     else and_then (second_value e) (\<lambda>_. Done s))"

definition device_update ::
  "(nat \<Rightarrow> int \<Rightarrow> bool) \<Rightarrow> int \<Rightarrow> update_entry \<Rightarrow> plugin_system \<Rightarrow> plugin_system outcome" where
  "device_update has t e s = and_then (GetFieldValue ''InterfaceID'' e) (\<lambda>f.
     let d = m_RowIdx e; i = atoi f; found = (if i = 0 then None else map_of (m_pPlugins s) i) in
     if i \<noteq> 0 \<and> found = None then Done s
     else if m_Action e = ''Insert''
     then (case found of None \<Rightarrow> Crashes Null_plugin | Some j \<Rightarrow> post_to j t (OnCreateDevice d) s)
     else if m_Action e = ''Update''
     then (case found of None \<Rightarrow> Crashes Null_plugin | Some j \<Rightarrow> post_to j t (OnUpdateDevice d) s)
     else if m_Action e = ''Delete''
     then post_to_found (PluginFromDeviceID has d (plugins s) (m_pPlugins s)) t (OnDeleteDevice d) s
     else and_then (second_value e) (\<lambda>_. Done s))"

definition value_update ::
  "(nat \<Rightarrow> int \<Rightarrow> bool) \<Rightarrow> (nat \<Rightarrow> int \<Rightarrow> bool) \<Rightarrow> int \<Rightarrow> update_entry \<Rightarrow> plugin_system \<Rightarrow> plugin_system outcome" where
  "value_update has has_value t e s = and_then (GetFieldValue ''DeviceID'' e) (\<lambda>f.
     let d = atoi f; v = m_RowIdx e in
     if m_Action e = ''Insert''
     then post_to_found (PluginFromDeviceID has d (plugins s) (m_pPlugins s)) t (OnCreateValue d v) s
     else if m_Action e = ''Update''
     then post_to_found (PluginFromDeviceID has d (plugins s) (m_pPlugins s)) t (OnUpdateValue d v) s
     else if m_Action e = ''Delete''
     then and_then (PluginFromValueID has_value v (plugins s) (m_pPlugins s)) (\<lambda>r. post_to_found r t (OnDeleteValue v) s)
     else and_then (second_value e) (\<lambda>_. Done s))"

definition DatabaseUpdate ::
  "(nat \<Rightarrow> int \<Rightarrow> bool) \<Rightarrow> (nat \<Rightarrow> int \<Rightarrow> bool) \<Rightarrow> int \<Rightarrow> update_entry \<Rightarrow> plugin_system \<Rightarrow> plugin_system outcome" where
  "DatabaseUpdate has has_value t e s =
     (if \<not> m_bEnabled s then Done s
      else if m_Table e = ''Interface'' then interface_update t e s
      else if m_Table e = ''Device'' then device_update has t e s
      else if m_Table e = ''Value'' then value_update has has_value t e s
      else if m_Table e = ''Preference'' then and_then (second_value e) (\<lambda>_. Done s)
      else Done s)"

section \<open>Runs\<close>

text \<open>\<^verbatim>\<open>Finalise\<close> takes the interface of the worker that ends off the registry.\<close>

definition work :: "nat \<Rightarrow> python \<Rightarrow> int \<Rightarrow> plugin_system \<Rightarrow> plugin_system outcome" where
  "work j py t s = and_then (on_plugin j (Do_Work py t) s) (\<lambda>s'.
     Done (if exited (plugins s' ! j) then DeregisterPlugin (m_InterfaceID (plugins s' ! j)) s' else s'))"

datatype system_event =
  Changed "nat \<Rightarrow> int \<Rightarrow> bool" "nat \<Rightarrow> int \<Rightarrow> bool" int update_entry
| Work nat python int | Message nat "kind message" | Restart int int

fun system_step :: "system_event \<Rightarrow> plugin_system \<Rightarrow> plugin_system outcome" where
  "system_step (Changed has has_value t e) s = DatabaseUpdate has has_value t e s"
| "system_step (Work j py t) s = (if j < length (plugins s) then work j py t s else Waits)"
| "system_step (Message j m) s = (if j < length (plugins s) then on_plugin j (\<lambda>p. Done (MessagePlugin m p)) s else Waits)"
| "system_step (Restart t i) s = RestartPlugin t i s"

inductive system_run :: "plugin_system \<Rightarrow> system_event list \<Rightarrow> plugin_system \<Rightarrow> bool" where
  system_run_nil: "system_run s [] s"
| system_run_cons: "system_step ev s = Done s' \<Longrightarrow> system_run s' evs s'' \<Longrightarrow> system_run s (ev # evs) s''"

inductive_simps system_run_simps [simp]: "system_run s [] s'" "system_run s (ev # evs) s'"

text \<open>\<^verbatim>\<open>StartPluginSystem\<close>\<close>

definition started_system :: plugin_system where
  "started_system = \<lparr>m_bEnabled = True, plugins = [], m_pPlugins = []\<rparr>"

section \<open>Start and stop of the server\<close>

text \<open>
  \<^verbatim>\<open>main/mainworker.cpp\<close>: the interfaces that are active when the server starts are registered at once
  and started later; \<open>ids\<close> are their identifiers.  The result of the first function is \<^verbatim>\<open>m_hardwaredevices\<close>.
  The objects are deleted when the server stops, whether or not their thread has ended.
\<close>

fun AddAllDomoticzHardware :: "int list \<Rightarrow> plugin_system \<Rightarrow> nat list \<times> plugin_system" where
  "AddAllDomoticzHardware [] s = ([], s)"
| "AddAllDomoticzHardware (i # ids) s =
     (let (r, s1) = RegisterPlugin i s; (hw, s2) = AddAllDomoticzHardware ids s1
      in (case r of None \<Rightarrow> (hw, s2) | Some j \<Rightarrow> (j # hw, s2)))"

fun StartDomoticzHardware :: "int \<Rightarrow> nat list \<Rightarrow> plugin_system \<Rightarrow> plugin_system outcome" where
  "StartDomoticzHardware t [] s = Done s"
| "StartDomoticzHardware t (j # hw) s =
     and_then (if m_bIsStarted (plugins s ! j) then Done s else on_plugin j (hardware_Start t) s) (StartDomoticzHardware t hw)"

definition delete_plugin :: "nat \<Rightarrow> plugin_system \<Rightarrow> plugin_system outcome" where
  "delete_plugin j s = (if m_thread (plugins s ! j) then Crashes Terminate else Done s)"

fun StopDomoticzHardware :: "int \<Rightarrow> nat list \<Rightarrow> plugin_system \<Rightarrow> plugin_system outcome" where
  "StopDomoticzHardware t [] s = Done s"
| "StopDomoticzHardware t (j # hw) s =
     and_then (on_plugin j (hardware_Stop t) (DeregisterPlugin (m_InterfaceID (plugins s ! j)) s))
       (\<lambda>s. and_then (delete_plugin j s) (StopDomoticzHardware t hw))"

end
