(* ===== verification/PluginRegistry.thy ===== *)
theory PluginRegistry
  imports PluginManager
begin

text \<open>
  The registry of plugins in every run of the plugin system, and what changes of the database do to
  the plugins.
\<close>

section \<open>What no step changes\<close>

definition same_plugin :: "plugin \<Rightarrow> plugin \<Rightarrow> bool" where
  "same_plugin p q \<longleftrightarrow> m_InterfaceID q = m_InterfaceID p \<and> (m_thread p \<longrightarrow> m_thread q)"

named_theorems same_plugin \<open>operations keep the identity of a plugin\<close>

lemma same_plugin_trans: "same_plugin p q \<Longrightarrow> same_plugin q r \<Longrightarrow> same_plugin p r"
  by (simp add: same_plugin_def)

lemma MessagePlugin_same [same_plugin, simp]: "same_plugin p (MessagePlugin m p)"
  by (simp add: same_plugin_def MessagePlugin_def)

lemma same_plugin_updates [simp]:
  "same_plugin p (q\<lparr>m_bIsStarted := b\<rparr>) = same_plugin p q" "same_plugin p (q\<lparr>m_bIsStarting := b\<rparr>) = same_plugin p q"
  "same_plugin p (q\<lparr>m_bIsStopping := b\<rparr>) = same_plugin p q" "same_plugin p (q\<lparr>m_bRestart := b\<rparr>) = same_plugin p q"
  "same_plugin p (q\<lparr>m_PyInterpreter := b\<rparr>) = same_plugin p q" "same_plugin p (q\<lparr>m_PyModule := b\<rparr>) = same_plugin p q"
  "same_plugin p (q\<lparr>m_Interface := b\<rparr>) = same_plugin p q" "same_plugin p (q\<lparr>m_MessageQueue := ms\<rparr>) = same_plugin p q"
  "same_plugin p (q\<lparr>m_Transports := ts\<rparr>) = same_plugin p q" "same_plugin p (q\<lparr>m_iPollInterval := n\<rparr>) = same_plugin p q"
  "same_plugin p (q\<lparr>stop_requested := b\<rparr>) = same_plugin p q" "same_plugin p (q\<lparr>nextPoll := n\<rparr>) = same_plugin p q"
  "same_plugin p (q\<lparr>stopTime := n\<rparr>) = same_plugin p q" "same_plugin p (q\<lparr>pass := x\<rparr>) = same_plugin p q"
  "same_plugin p (q\<lparr>exited := b\<rparr>) = same_plugin p q" "same_plugin p (q\<lparr>m_thread := True\<rparr>) = (m_InterfaceID q = m_InterfaceID p)"
  "same_plugin p p"
  by (simp_all add: same_plugin_def)

lemma post_all_same [simp]: "same_plugin p (post_all ms p)"
proof (induction ms arbitrary: p)
  case (Cons m ms)
  show ?case using same_plugin_trans [OF MessagePlugin_same Cons [of "MessagePlugin m p"]] by simp
qed simp

lemma StopHardware_same [same_plugin]: "StopHardware t p = Done q \<Longrightarrow> same_plugin p q"
  by (auto simp: StopHardware_def split: if_splits)

lemma StartHardware_same [same_plugin]: "StartHardware t p = Done q \<Longrightarrow> same_plugin p q"
  by (auto simp: StartHardware_def and_then_Done same_plugin_def MessagePlugin_def StopHardware_def split: if_splits)

lemma plugin_Stop_same [same_plugin]: "plugin_Stop t p = Done q \<Longrightarrow> same_plugin p q"
  by (auto simp: plugin_Stop_def Let_def and_then_Done same_plugin_def dest!: StartHardware_same split: if_splits)

lemma init_error_same: "init_error t p = Done q \<Longrightarrow> same_plugin p q"
  by (auto simp: init_error_def and_then_Done dest: plugin_Stop_same)

lemma Initialise_same: "Initialise r t p = Done q \<Longrightarrow> same_plugin p q"
  by (cases r) (auto simp: Initialise_def Let_def same_plugin_def MessagePlugin_def dest!: init_error_same)

lemma plugin_Start_same: "same_plugin p (plugin_Start r t p)"
  by (cases r) (simp_all add: plugin_Start_def same_plugin_def MessagePlugin_def)

lemma Process_same:
  assumes "Process py t k p = Done q" shows "same_plugin p q"
proof (cases "k \<in> {Initialize, OnStart, OnStop}")
  case True
  with assms show ?thesis
    by (auto simp: Process_def Let_def intro: Initialise_same plugin_Start_same same_plugin_trans [OF plugin_Start_same post_all_same]
        split: if_splits)
next
  case False
  with assms show ?thesis by (cases k) (auto simp: Process_def Let_def split: if_splits)
qed

lemma after_stop_same [simp]: "same_plugin p (after_stop Now t p)"
proof -
  obtain ms where "after_stop Now t p = post_all ms (p\<lparr>stopTime := if stopTime p = 0 then Now + 1 else stopTime p\<rparr>)"
    using after_stop_posts by blast
  then show ?thesis
    using same_plugin_trans [OF _ post_all_same, of p "p\<lparr>stopTime := if stopTime p = 0 then Now + 1 else stopTime p\<rparr>" ms] by simp
qed

lemma idle_work_same [simp]: "same_plugin p (idle_work py Now t p)"
proof -
  let ?q = "if m_PyInterpreter p \<and> nextPoll p \<le> Now
    then (MessagePlugin (instant t OnHeartbeat) p)\<lparr>nextPoll := Now + m_iPollInterval p\<rparr> else p"
  have "same_plugin p (post_all ms ?q)" for ms using same_plugin_trans [of p ?q "post_all ms ?q"] by simp
  then show ?thesis by (auto simp: idle_work_def Let_def)
qed

lemma Do_Work_pass_same:
  assumes "Do_Work_pass py Now t p = Done q" shows "same_plugin p q"
proof (cases rule: next_message_cases [of Now "m_MessageQueue p"])
  case none
  with assms show ?thesis by (auto simp: Do_Work_pass_def)
next
  case (some a m b)
  let ?p = "p\<lparr>m_MessageQueue := b @ a\<rparr>"
  have p: "same_plugin p ?p" by simp
  show ?thesis
  proof (cases "m_PyInterpreter p \<or> m_bIsStarting p")
    case True
    with some assms obtain p2 where p2: "Process py t (msg_kind m) ?p = Done p2"
      "q = idle_work py Now t (if msg_kind m = OnStop then after_stop Now t p2 else p2)"
      by (auto simp: Do_Work_pass_def and_then_Done)
    have "same_plugin p2 (if msg_kind m = OnStop then after_stop Now t p2 else p2)" by simp
    with same_plugin_trans [OF p same_plugin_trans [OF Process_same [OF p2(1)] same_plugin_trans [OF _ idle_work_same]]] p2(2)
    show ?thesis by blast
  next
    case False
    with some assms same_plugin_trans [OF p idle_work_same] show ?thesis by (auto simp: Do_Work_pass_def)
  qed
qed

lemma Do_Work_same: "Do_Work py t p = Done q \<Longrightarrow> same_plugin p q"
  by (auto simp: Do_Work_def Finalise_def and_then_Done dest: plugin_Stop_same Do_Work_pass_same split: if_splits option.splits)

lemma hardware_Start_same: "hardware_Start t p = Done q \<Longrightarrow> same_plugin p q"
  by (auto simp: hardware_Start_def and_then_Done dest: StartHardware_same)

lemma hardware_Stop_same: "hardware_Stop t p = Done q \<Longrightarrow> same_plugin p q"
  by (auto simp: hardware_Stop_def and_then_Done dest: StopHardware_same)

lemma restart_plugin_same: "restart_plugin t p = Done q \<Longrightarrow> same_plugin p q"
  using same_plugin_trans [of p "p\<lparr>m_bRestart := True\<rparr>" q]
  by (auto simp: restart_plugin_def dest: StopHardware_same split: if_splits)

lemma plugin_step_same: "plugin_step ev p = Done q \<Longrightarrow> same_plugin p q"
  by (cases ev) (auto dest: Do_Work_same hardware_Start_same hardware_Stop_same restart_plugin_same)

lemma plugin_run_same: "plugin_run p evs ks q \<Longrightarrow> same_plugin p q"
  by (induction rule: plugin_run.induct) (auto dest: plugin_step_same intro: same_plugin_trans)

text \<open>Only the worker ends a plugin.\<close>

lemma calls_keep_exited:
  "hardware_Start t p = Done q \<Longrightarrow> \<not> exited q" "hardware_Stop t p = Done q \<Longrightarrow> exited q = exited p"
  "restart_plugin t p = Done q \<Longrightarrow> exited q = exited p" "exited (MessagePlugin m p) = exited p"
  by (auto simp: hardware_Start_def StartHardware_def hardware_Stop_def restart_plugin_def StopHardware_def and_then_Done
      split: if_splits)

section \<open>The registry\<close>

definition registry_ok :: "plugin_system \<Rightarrow> bool" where
  "registry_ok s \<longleftrightarrow> sorted_wrt (<) (map fst (m_pPlugins s)) \<and>
     list_all (\<lambda>(i, j). j < length (plugins s) \<and> m_InterfaceID (plugins s ! j) = i \<and> \<not> exited (plugins s ! j)) (m_pPlugins s)"

lemma map_insert_keys: "set (map fst (map_insert k v r)) = insert k (set (map fst r))"
  by (induction k v r rule: map_insert.induct) auto

lemma map_insert_sorted: "sorted_wrt (<) (map fst r) \<Longrightarrow> sorted_wrt (<) (map fst (map_insert k v r))"
proof (induction k v r rule: map_insert.induct)
  case (2 k v k' v' r)
  have "set (map fst (map_insert k v r)) = insert k (set (map fst r))" by (rule map_insert_keys)
  with 2 show ?case by auto
qed simp

lemma map_insert_set: "set (map_insert k v r) \<subseteq> insert (k, v) (set r)"
  by (induction k v r rule: map_insert.induct) auto

lemma map_insert_lookup:
  "sorted_wrt (<) (map fst r) \<Longrightarrow> map_of r k = None \<Longrightarrow> map_of (map_insert k v r) i = (if i = k then Some v else map_of r i)"
proof (induction k v r rule: map_insert.induct)
  case (2 k v k' v' r)
  then show ?case by (auto split: if_splits)
qed auto

lemma registered:
  assumes "registry_ok s" "map_of (m_pPlugins s) i = Some j"
  shows "j < length (plugins s)" "m_InterfaceID (plugins s ! j) = i" "\<not> exited (plugins s ! j)"
  using assms map_of_SomeD [of "m_pPlugins s" i j] by (auto simp: registry_ok_def list_all_iff)

text \<open>A step of one plugin that does not end it.\<close>

lemma on_plugin_Done:
  "on_plugin j f s = Done s' \<longleftrightarrow> (\<exists>p. f (plugins s ! j) = Done p \<and> s' = s\<lparr>plugins := (plugins s)[j := p]\<rparr>)"
  by (auto simp: on_plugin_def and_then_Done)

lemma registry_update:
  assumes "registry_ok s" "m_InterfaceID p = m_InterfaceID (plugins s ! j)" "exited p \<longrightarrow> exited (plugins s ! j)"
  shows "registry_ok (s\<lparr>plugins := (plugins s)[j := p]\<rparr>)"
proof -
  have "k < length (plugins s) \<and> m_InterfaceID (plugins s ! k) = i \<and> \<not> exited (plugins s ! k) \<Longrightarrow>
      m_InterfaceID ((plugins s)[j := p] ! k) = i \<and> \<not> exited ((plugins s)[j := p] ! k)" for i k
    using assms(2,3) by (cases "k = j") auto
  with assms(1) show ?thesis by (auto simp: registry_ok_def list_all_iff)
qed

lemma registry_on_plugin:
  assumes "registry_ok s" "on_plugin j f s = Done s'"
    "\<And>p. f (plugins s ! j) = Done p \<Longrightarrow> same_plugin (plugins s ! j) p \<and> (exited p \<longrightarrow> exited (plugins s ! j))"
  shows "registry_ok s'"
  using assms registry_update [OF assms(1), of _ j] by (auto simp: on_plugin_Done same_plugin_def)

lemma registry_register:
  assumes "registry_ok s" "RegisterPlugin i s = (r, s')"
  shows "registry_ok s'" "r = Some j \<Longrightarrow> j = length (plugins s) \<and> plugins s' = plugins s @ [new_plugin i]"
proof -
  let ?n = "length (plugins s)"
  have e: "k < length (plugins s @ [new_plugin i]) \<and> m_InterfaceID ((plugins s @ [new_plugin i]) ! k) = i' \<and>
      \<not> exited ((plugins s @ [new_plugin i]) ! k)" if "(i', k) \<in> set (map_insert i ?n (m_pPlugins s))" for i' k
    using assms(1) that map_insert_set [of i ?n "m_pPlugins s"]
    by (auto simp: registry_ok_def list_all_iff nth_append new_plugin_def)
  with assms map_insert_sorted [of "m_pPlugins s" i ?n] show "registry_ok s'"
    by (auto simp: RegisterPlugin_def registry_ok_def list_all_iff split: if_splits)
  show "r = Some j \<Longrightarrow> j = length (plugins s) \<and> plugins s' = plugins s @ [new_plugin i]"
    using assms(2) by (auto simp: RegisterPlugin_def split: if_splits)
qed

lemma registry_post: "registry_ok s \<Longrightarrow> post_to j t k s = Done s' \<Longrightarrow> registry_ok s'"
  by (erule registry_on_plugin) (auto simp: post_to_def calls_keep_exited)

lemma registry_start_new:
  assumes "registry_ok s" "start_new t i e s = Done s'" shows "registry_ok s'"
proof -
  obtain r s1 where r: "RegisterPlugin i s = (r, s1)" by (cases "RegisterPlugin i s")
  note ok = registry_register(1) [OF assms(1) r]
  show ?thesis
  proof (cases r)
    case None
    with assms(2) r ok show ?thesis by (auto simp: start_new_def and_then_Done)
  next
    case (Some j)
    with assms(2) r have s': "on_plugin j (hardware_Start t) s1 = Done s'" by (auto simp: start_new_def and_then_Done)
    show ?thesis
      by (rule registry_on_plugin [OF ok s']) (auto dest: hardware_Start_same calls_keep_exited(1))
  qed
qed

text \<open>What a change of the database can come to.\<close>

definition effect :: "int \<Rightarrow> plugin_system \<Rightarrow> plugin_system \<Rightarrow> bool" where
  "effect t s s' \<longleftrightarrow> s' = s \<or> (\<exists>i e. start_new t i e s = Done s') \<or> (\<exists>j. on_plugin j (hardware_Stop t) s = Done s') \<or>
     (\<exists>j k. post_to j t k s = Done s')"

lemma interface_effect: "interface_update t e s = Done s' \<Longrightarrow> effect t s s'"
  unfolding interface_update_def and_then_Done Let_def effect_def
  by (elim exE conjE) (auto simp: and_then_Done split: if_split_asm option.split_asm)

lemma found_effect: "post_to_found r t k s = Done s' \<Longrightarrow> effect t s s'"
  by (cases r) (auto simp: post_to_found_def effect_def)

lemma device_effect: "device_update has t e s = Done s' \<Longrightarrow> effect t s s'"
  unfolding device_update_def and_then_Done Let_def
  by (elim exE conjE) (auto simp: and_then_Done effect_def dest: found_effect [unfolded effect_def] split: if_split_asm option.split_asm)

lemma value_effect: "value_update has hv t e s = Done s' \<Longrightarrow> effect t s s'"
  unfolding value_update_def and_then_Done Let_def
  by (elim exE conjE) (auto simp: and_then_Done dest: found_effect split: if_split_asm, simp_all add: effect_def)

lemma database_effect:
  assumes "DatabaseUpdate has hv t e s = Done s'"
  shows "effect t s s'"
proof -
  have "effect t s s" by (simp add: effect_def)
  with assms show ?thesis
    by (auto simp: DatabaseUpdate_def and_then_Done dest: interface_effect device_effect value_effect split: if_split_asm)
qed

lemma registry_effect:
  assumes "registry_ok s" "effect t s s'" shows "registry_ok s'"
proof -
  have stop: "on_plugin j (hardware_Stop t) s = Done s' \<Longrightarrow> registry_ok s'" for j
    by (erule registry_on_plugin [OF assms(1)]) (auto dest: hardware_Stop_same simp: calls_keep_exited(2))
  from assms(2) [unfolded effect_def] registry_start_new [OF assms(1)] registry_post [OF assms(1)] stop assms(1)
  show ?thesis by blast
qed

lemma registry_work:
  assumes "registry_ok s" "work j py t s = Done s'" "j < length (plugins s)" shows "registry_ok s'"
proof -
  from assms(2) obtain p where p: "Do_Work py t (plugins s ! j) = Done p"
    "s' = (let s1 = s\<lparr>plugins := (plugins s)[j := p]\<rparr> in if exited (plugins s1 ! j) then DeregisterPlugin (m_InterfaceID (plugins s1 ! j)) s1 else s1)"
    by (auto simp: work_def and_then_Done on_plugin_Done Let_def)
  let ?s = "s\<lparr>plugins := (plugins s)[j := p]\<rparr>"
  have id: "m_InterfaceID p = m_InterfaceID (plugins s ! j)" using Do_Work_same [OF p(1)] by (simp add: same_plugin_def)
  show ?thesis
  proof (cases "exited p")
    case True
    with p(2) assms(3) have s': "s' = DeregisterPlugin (m_InterfaceID p) ?s" by simp
    have "sorted_wrt (<) (map fst (filter (\<lambda>(k, _). k \<noteq> i) r))" if "sorted_wrt (<) (map fst r)" for i :: int and r :: "(int \<times> nat) list"
      using that by (induction r) auto
    moreover have "m_InterfaceID ((plugins s)[j := p] ! k) = i \<and> \<not> exited ((plugins s)[j := p] ! k)"
      if "k < length (plugins s)" "m_InterfaceID (plugins s ! k) = i" "\<not> exited (plugins s ! k)" "i \<noteq> m_InterfaceID p" for i k
      using that id by (cases "k = j") auto
    ultimately show ?thesis using assms(1) by (auto simp: s' DeregisterPlugin_def registry_ok_def list_all_iff)
  next
    case False
    with p(2) assms(3) registry_update [OF assms(1) id] show ?thesis by simp
  qed
qed

lemma registry_step:
  assumes "registry_ok s" "system_step ev s = Done s'" shows "registry_ok s'"
proof (cases ev)
  case (Changed has hv t e)
  with assms(2) have "DatabaseUpdate has hv t e s = Done s'" by simp
  from registry_effect [OF assms(1) database_effect [OF this]] show ?thesis .
next
  case (Work j py t)
  with assms registry_work show ?thesis by (auto split: if_splits)
next
  case (Message j m)
  with assms registry_on_plugin [OF assms(1), of j "\<lambda>p. Done (MessagePlugin m p)" s'] show ?thesis
    by (auto simp: calls_keep_exited split: if_splits)
next
  case (Restart t i)
  have "on_plugin j (restart_plugin t) s = Done s' \<Longrightarrow> registry_ok s'" for j
    by (erule registry_on_plugin [OF assms(1)]) (auto dest: restart_plugin_same simp: calls_keep_exited(3))
  with Restart assms show ?thesis by (auto simp: RestartPlugin_def split: option.splits)
qed

text \<open>C29: Whatever happens in the database and in the plugins, an interface is registered at
  most once, and what is registered for it is a plugin with its identifier whose worker has not ended.\<close>

theorem registry_sound:
  assumes "system_run started_system evs s"
  shows "distinct (map fst (m_pPlugins s)) \<and>
    list_all (\<lambda>(i, j). j < length (plugins s) \<and> m_InterfaceID (plugins s ! j) = i \<and> \<not> exited (plugins s ! j)) (m_pPlugins s)"
proof -
  have "system_run s0 evs s \<Longrightarrow> registry_ok s0 \<Longrightarrow> registry_ok s" for s0
    by (induction rule: system_run.induct) (auto dest: registry_step)
  moreover have "registry_ok started_system" by (simp add: registry_ok_def started_system_def)
  ultimately have "registry_ok s" using assms by blast
  then show ?thesis by (auto simp: registry_ok_def strict_sorted_iff)
qed

section \<open>An interface that is switched off and on\<close>

definition is_work :: "nat \<Rightarrow> system_event \<Rightarrow> bool" where
  "is_work j ev \<longleftrightarrow> (\<exists>py t. ev = Work j py t)"

text \<open>The steps of a worker, seen in the system.\<close>

lemma work_run:
  assumes "plugin_run p evs ks q" "by_worker u evs" "j < length (plugins s)" "plugins s ! j = p" "\<not> exited p"
  shows "\<exists>works s'. list_all (is_work j) works \<and> system_run s works s' \<and> plugins s' = (plugins s)[j := q] \<and>
    m_pPlugins s' = (if exited q then filter (\<lambda>(k, _). k \<noteq> m_InterfaceID p) (m_pPlugins s) else m_pPlugins s)"
  using assms
proof (induction arbitrary: s rule: plugin_run.induct)
  case (plugin_run_nil p)
  then show ?case by (intro exI [of _ "[]"] exI [of _ s]) (auto simp: list_update_same_conv)
next
  case (plugin_run_cons ev p p' evs ks q)
  from plugin_run_cons.prems(1) obtain py t where ev: "ev = Worker py t" "by_worker u evs"
    by (auto simp: by_worker_def)
  with plugin_run_cons.hyps(2) have w: "Do_Work py t p = Done p'" by simp
  have id: "m_InterfaceID p' = m_InterfaceID p" using Do_Work_same [OF w] by (simp add: same_plugin_def)
  let ?s = "s\<lparr>plugins := (plugins s)[j := p']\<rparr>"
  have o: "on_plugin j (Do_Work py t) s = Done ?s" using plugin_run_cons.prems(3) w by (simp add: on_plugin_def)
  have iw: "is_work j (Work j py t)" by (simp add: is_work_def)
  show ?case
  proof (cases "exited p'")
    case True
    have "evs = []"
    proof (cases evs)
      case (Cons ev' evs')
      with ev(2) obtain py' t' where "ev' = Worker py' t'" by (auto simp: by_worker_def)
      with plugin_run_cons.hyps(3) Cons True show ?thesis by (auto simp: plugin_run_Cons Do_Work_def)
    qed
    with plugin_run_cons.hyps(3) have "p' = q" by simp
    have "system_step (Work j py t) s = Done (DeregisterPlugin (m_InterfaceID p) ?s)"
      using o plugin_run_cons.prems(2) True id by (simp add: work_def)
    with \<open>p' = q\<close> True iw show ?thesis
      by (intro exI [of _ "[Work j py t]"] exI [of _ "DeregisterPlugin (m_InterfaceID p) ?s"]) (auto simp: DeregisterPlugin_def)
  next
    case False
    have st: "system_step (Work j py t) s = Done ?s" using o plugin_run_cons.prems(2) False by (simp add: work_def)
    from plugin_run_cons.IH [OF ev(2), of ?s] plugin_run_cons.prems(2) False id obtain works s' where
      "list_all (is_work j) works" "system_run ?s works s'" "plugins s' = (plugins s)[j := q]"
      "m_pPlugins s' = (if exited q then filter (\<lambda>(k, _). k \<noteq> m_InterfaceID p) (m_pPlugins s) else m_pPlugins s)" by auto
    with st iw show ?thesis by (intro exI [of _ "Work j py t # works"] exI [of _ s']) auto
  qed
qed

text \<open>An entry for the row of an interface that was written.\<close>

definition interface_written :: "int \<Rightarrow> string \<Rightarrow> update_entry \<Rightarrow> bool" where
  "interface_written i active e \<longleftrightarrow> m_Table e = ''Interface'' \<and> m_Action e = ''Update'' \<and> int32 (m_RowIdx e) = i \<and>
     GetFieldValue ''Active'' e = Done active"

lemma life_reached: "plugin_run (new_plugin i) evs ks p \<Longrightarrow> life p ks"
  using life_run [OF _ life_new, of i evs ks p] by simp

text \<open>Switching an interface off and on again leaves it off.  When a running plugin's
  interface becomes inactive and then active again before its worker has ended, both changes are handled
  without complaint, the worker can run its stop handler and end, and then the interface is not
  registered and has no plugin, although the table says that it is active.\<close>

theorem reactivation_lost:
  assumes "plugin_run (new_plugin i) evs ks p" and "running p" and "0 \<le> t" and "list_all (due (t + 2)) (m_MessageQueue p)"
    and "m_bEnabled s" and "j < length (plugins s)" and "plugins s ! j = p" and "map_of (m_pPlugins s) i = Some j"
    and "interface_written i ''0'' off" and "interface_written i ''1'' on"
  shows "\<exists>works s'. list_all (is_work j) works \<and>
    system_run s (Changed has hv t off # Changed has hv t on # works) s' \<and>
    map_of (m_pPlugins s') i = None \<and> length (plugins s') = length (plugins s) \<and> exited (plugins s' ! j)"
proof -
  note l = life_reached [OF assms(1)]
  note p = running_facts [OF l assms(2)]
  have id: "m_InterfaceID p = i" using plugin_run_same [OF assms(1)] by (simp add: same_plugin_def new_plugin_def)
  let ?m = "onStopCallback t OnStop" and ?u = "instant t (OnUpdateInterface (m_Interface p))"
  let ?p1 = "p\<lparr>m_MessageQueue := m_MessageQueue p @ [?m], m_bIsStopping := True, m_bIsStarted := False\<rparr>"
  let ?p2 = "?p1\<lparr>m_MessageQueue := m_MessageQueue p @ [?m, ?u]\<rparr>"
  let ?s1 = "s\<lparr>plugins := (plugins s)[j := ?p1]\<rparr>" and ?s2 = "s\<lparr>plugins := (plugins s)[j := ?p2]\<rparr>"
  have "DatabaseUpdate has hv t off s = Done ?s1"
    using assms(5-9) running_stop [OF l assms(2)] by (simp add: DatabaseUpdate_def interface_written_def interface_update_def on_plugin_def)
  moreover have "DatabaseUpdate has hv t on ?s1 = Done ?s2"
    using assms(5-8,10) p(6) by (simp add: DatabaseUpdate_def interface_written_def interface_update_def post_to_def on_plugin_def MessagePlugin_def)
  moreover have "stopping_worker (?p2\<lparr>pass := Some (t + 2)\<rparr>) (t + 2)" using p assms(2) by (simp add: stopping_worker_def running_def)
  from stopping_plugin_ends [OF this, of "m_MessageQueue p" ?m "[?u]"] p assms(2,3,4) obtain evs' ds q where
    q: "by_worker (t + 2) evs'" "exited q" "plugin_run ?p2 evs' (map msg_kind (m_MessageQueue p) @ OnStop # map msg_kind ([?u] @ ds)) q"
    by (auto simp: running_def)
  have n: "\<not> exited ?p2" "m_InterfaceID ?p2 = i" using assms(2) id by (simp_all add: running_def)
  from work_run [OF q(3,1), of j ?s2] assms(6) n q(2) obtain works s' where
    s': "list_all (is_work j) works" "system_run ?s2 works s'" "plugins s' = (plugins s)[j := q]"
    "m_pPlugins s' = filter (\<lambda>(k, _). k \<noteq> i) (m_pPlugins s)" by auto
  moreover have "map_of (filter (\<lambda>(k, _). k \<noteq> i) r) i = None" for r :: "(int \<times> nat) list"
    by (induction r) auto
  ultimately show ?thesis using q(2) assms(6) by (intro exI [of _ works] exI [of _ s']) auto
qed

theorem reactivation_lost_witness:
  "case exec_run example_start (new_plugin 7) of
     None \<Rightarrow> False
   | Some (ks, p) \<Rightarrow> \<exists>works s'. system_run (started_system\<lparr>plugins := [p], m_pPlugins := [(7, 0)]\<rparr>) works s' \<and>
       map_of (m_pPlugins s') 7 = None"
proof -
  have "case exec_run example_start (new_plugin 7) of None \<Rightarrow> False | Some (ks, p) \<Rightarrow>
      running p \<and> list_all (due 103) (m_MessageQueue p)" by code_simp
  then obtain ks p where r: "exec_run example_start (new_plugin 7) = Some (ks, p)" "running p" "list_all (due 103) (m_MessageQueue p)"
    by (auto split: option.splits)
  from r(3) have d: "list_all (due (101 + 2)) (m_MessageQueue p)" by simp
  let ?s = "started_system\<lparr>plugins := [p], m_pPlugins := [(7, 0)]\<rparr>"
  let ?e = "\<lambda>a. \<lparr>m_Action = ''Update'', m_Table = ''Interface'', m_RowIdx = 7, m_Columns = [''InterfaceID'', ''Name'', ''Active''],
    m_ColumnTypes = [''INTEGER'', ''TEXT'', ''INTEGER''], m_Values = [''7'', ''Echo'', a]\<rparr>"
  have w: "interface_written 7 a (?e a)" for a by (simp add: interface_written_def GetFieldValue_def int32_def)
  have s: "m_bEnabled ?s" "0 < length (plugins ?s)" "plugins ?s ! 0 = p" "map_of (m_pPlugins ?s) 7 = Some 0"
    by (simp_all add: started_system_def)
  have t: "(0 :: int) \<le> 101" by simp
  from reactivation_lost [OF r(1) [folded exec_run_iff] r(2) t d s w w] obtain works s' where
    "system_run ?s (Changed (\<lambda>_ _. False) (\<lambda>_ _. False) 101 (?e ''0'') # Changed (\<lambda>_ _. False) (\<lambda>_ _. False) 101 (?e ''1'') # works) s'"
    "map_of (m_pPlugins s') 7 = None" by blast
  with r(1) show ?thesis by (simp only: option.case prod.case) blast
qed

section \<open>Deletions\<close>

text \<open>Deleting a preference ends the server while the plugin system runs: the entry that
  the publisher makes for a deletion has no values, and the plugin system reads the second one to log it.\<close>

theorem preference_deletion_crashes:
  assumes "m_bEnabled s"
  shows "\<exists>e. callback select queue SQLITE_DELETE True ''Preference'' r = queue @ [e] \<and>
    DatabaseUpdate has hv t e s = Crashes Out_of_range"
  using assms
  by (simp add: callback_def DatabaseUpdate_def second_value_def new_update_entry_def SQLITE_DELETE_def SQLITE_INSERT_def SQLITE_UPDATE_def)

theorem preference_deletion_crashes_witness:
  "DatabaseUpdate (\<lambda>_ _. False) (\<lambda>_ _. False) 100 (new_update_entry ''Delete'' ''Preference'' 3) started_system = Crashes Out_of_range"
proof -
  have "m_bEnabled started_system" by (simp add: started_system_def)
  from preference_deletion_crashes [OF this, of "\<lambda>_ _. None" "[]" 3 "\<lambda>_ _. False" "\<lambda>_ _. False" 100]
  show ?thesis by (simp add: callback_def SQLITE_DELETE_def SQLITE_INSERT_def SQLITE_UPDATE_def)
qed

lemma value_search_crashes:
  "(i, j) \<in> set r \<Longrightarrow> \<not> m_Interface (ps ! j) \<Longrightarrow> (\<And>k. \<not> has k v) \<Longrightarrow> PluginFromValueID has v ps r = Crashes Null_interface"
  by (induction r) auto

text \<open>Deleting a value that belongs to no plugin ends the server while any plugin is
  starting or has failed to start: the search for its owner uses the interface object of every plugin,
  and such a plugin has none.\<close>

theorem value_deletion_crashes:
  assumes "m_bEnabled s" and "(i, j) \<in> set (m_pPlugins s)" and "\<not> m_Interface (plugins s ! j)"
    and "\<And>k. \<not> hv k v"
  shows "\<exists>e. callback select queue SQLITE_DELETE True ''Value'' v = queue @ [e] \<and>
    DatabaseUpdate has hv t e s = Crashes Null_interface"
  using assms(1) value_search_crashes [of i j "m_pPlugins s" "plugins s" hv v, OF assms(2,3)] assms(4)
  by (simp add: callback_def DatabaseUpdate_def value_update_def GetFieldValue_def new_update_entry_def
      SQLITE_DELETE_def SQLITE_INSERT_def SQLITE_UPDATE_def)

theorem value_deletion_crashes_witness:
  "DatabaseUpdate (\<lambda>_ _. False) (\<lambda>_ _. False) 100 (new_update_entry ''Delete'' ''Value'' 9)
     (snd (RegisterPlugin 7 started_system)) = Crashes Null_interface"
proof -
  let ?s = "snd (RegisterPlugin 7 started_system)"
  have "m_bEnabled ?s" "(7, 0) \<in> set (m_pPlugins ?s)" "\<not> m_Interface (plugins ?s ! 0)"
    by (simp_all add: RegisterPlugin_def started_system_def new_plugin_def)
  from value_deletion_crashes [OF this, of "\<lambda>_ _. False" 9 "\<lambda>_ _. None" "[]" "\<lambda>_ _. False" 100]
  show ?thesis by (simp add: callback_def SQLITE_DELETE_def SQLITE_INSERT_def SQLITE_UPDATE_def)
qed

text \<open>A device that is created before its plugin has started.\<close>

lemma early_device_crashes:
  assumes "pass p = Some Now" "m_thread p" "\<not> exited p" "m_MessageQueue p = instant u (OnCreateDevice d) # q"
    "m_PyInterpreter p" "\<not> m_Interface p"
  shows "Do_Work py t p = Crashes Null_interface"
  using assms next_message_split(1) [of Now "[]" "instant u (OnCreateDevice d)" q]
  by (simp add: Do_Work_def Do_Work_pass_def Process_def)

section \<open>The end of the server\<close>

lemma on_plugin_keeps_thread:
  assumes "on_plugin k f s = Done s'" "\<And>p. f (plugins s ! k) = Done p \<Longrightarrow> same_plugin (plugins s ! k) p"
    "j < length (plugins s)" "m_thread (plugins s ! j)"
  shows "j < length (plugins s') \<and> m_thread (plugins s' ! j)"
  using assms by (cases "k = j") (auto simp: on_plugin_Done same_plugin_def)

lemma threads_stay:
  assumes "system_step ev s = Done s'" "j < length (plugins s)" "m_thread (plugins s ! j)"
  shows "j < length (plugins s') \<and> m_thread (plugins s' ! j)"
proof -
  note keep = on_plugin_keeps_thread
  have post: "j < length (plugins s'') \<and> m_thread (plugins s'' ! j)" if "post_to k u m s = Done s''" for k u m s''
    using that unfolding post_to_def by (rule keep [OF _ _ assms(2,3)]) auto
  have stop: "j < length (plugins s'') \<and> m_thread (plugins s'' ! j)" if "on_plugin k (hardware_Stop u) s = Done s''" for k u s''
    by (rule keep [OF that hardware_Stop_same assms(2,3)])
  have start: "j < length (plugins s'') \<and> m_thread (plugins s'' ! j)" if "start_new u i e s = Done s''" for u i e s''
  proof -
    obtain r s1 where r: "RegisterPlugin i s = (r, s1)" by (cases "RegisterPlugin i s")
    then have l: "j < length (plugins s1)" "m_thread (plugins s1 ! j)"
      using assms(2,3) by (auto simp: RegisterPlugin_def nth_append split: if_splits)
    show ?thesis
    proof (cases r)
      case None
      with that r l show ?thesis by (auto simp: start_new_def and_then_Done)
    next
      case (Some k)
      with that r have "on_plugin k (hardware_Start u) s1 = Done s''" by (auto simp: start_new_def and_then_Done)
      from keep [OF this hardware_Start_same l] show ?thesis .
    qed
  qed
  show ?thesis
  proof (cases ev)
    case (Changed has hv u e)
    with assms(1) have "DatabaseUpdate has hv u e s = Done s'" by simp
    from database_effect [OF this, unfolded effect_def] assms(2,3) start stop post show ?thesis by blast
  next
    case (Work k py u)
    with assms(1) have "work k py u s = Done s'" by (simp split: if_split_asm)
    then obtain s1 where s1: "on_plugin k (Do_Work py u) s = Done s1"
      "s' = (if exited (plugins s1 ! k) then DeregisterPlugin (m_InterfaceID (plugins s1 ! k)) s1 else s1)"
      unfolding work_def and_then_Done by blast
    from keep [OF s1(1) Do_Work_same assms(2,3)] s1(2) show ?thesis by (simp add: DeregisterPlugin_def)
  next
    case (Message k m)
    with assms(1) have "on_plugin k (\<lambda>p. Done (MessagePlugin m p)) s = Done s'" by (simp split: if_split_asm)
    from keep [OF this _ assms(2,3)] show ?thesis by auto
  next
    case (Restart u i)
    with assms show ?thesis
      by (cases "map_of (m_pPlugins s) i") (auto simp: RestartPlugin_def dest!: keep [OF _ restart_plugin_same assms(2,3)])
  qed
qed

lemma threads_stay_run:
  "system_run s evs s' \<Longrightarrow> j < length (plugins s) \<Longrightarrow> m_thread (plugins s ! j) \<Longrightarrow>
   j < length (plugins s') \<and> m_thread (plugins s' ! j)"
proof (induction rule: system_run.induct)
  case (system_run_cons ev s s' evs s'')
  from threads_stay [OF system_run_cons.hyps(1) system_run_cons.prems] system_run_cons.IH show ?case by blast
qed simp

lemma started_threads_stay:
  "StartDomoticzHardware t ks s = Done s' \<Longrightarrow> j < length (plugins s) \<Longrightarrow> m_thread (plugins s ! j) \<Longrightarrow>
   j < length (plugins s') \<and> m_thread (plugins s' ! j)"
proof (induction ks arbitrary: s)
  case (Cons k ks)
  from Cons.prems(1) obtain s1 where s1: "StartDomoticzHardware t ks s1 = Done s'"
    "s1 = s \<or> on_plugin k (hardware_Start t) s = Done s1" by (auto simp: and_then_Done split: if_splits)
  from s1(2) have "j < length (plugins s1) \<and> m_thread (plugins s1 ! j)"
  proof
    assume "on_plugin k (hardware_Start t) s = Done s1"
    from on_plugin_keeps_thread [OF this hardware_Start_same Cons.prems(2,3)] show ?thesis .
  qed (use Cons.prems(2,3) in simp)
  with Cons.IH [OF s1(1)] show ?case by blast
qed simp

lemma hardware_Stop_cases: "hardware_Stop t p = Waits \<or> (\<exists>q. hardware_Stop t p = Done q)"
  by (simp add: hardware_Stop_def StopHardware_def)

text \<open>C30: A server that started with an active interface can not be stopped in order: it
  posts the stop message of the plugin, whose handler would run two seconds later, and deletes the plugin
  at once; since the plugin still has its thread, the process is terminated.\<close>

theorem shutdown_terminates:
  assumes "StartDomoticzHardware t (j # hw) s0 = Done s1" and "j < length (plugins s0)" and "\<not> m_bIsStarted (plugins s0 ! j)"
    and "system_run s1 evs s2"
  shows "StopDomoticzHardware u (j # hw) s2 \<in> {Waits, Crashes Terminate}"
proof -
  from assms(1,3) obtain s where s: "on_plugin j (hardware_Start t) s0 = Done s" "StartDomoticzHardware t hw s = Done s1"
    by (auto simp: and_then_Done)
  then have "m_thread (plugins s ! j)" "j < length (plugins s)"
    using assms(2) by (auto simp: on_plugin_Done hardware_Start_def StartHardware_def and_then_Done split: if_splits)
  then have "j < length (plugins s1) \<and> m_thread (plugins s1 ! j)" using started_threads_stay [OF s(2)] by simp
  then have e: "j < length (plugins s2)" "m_thread (plugins s2 ! j)" using threads_stay_run [OF assms(4)] by simp_all
  show ?thesis
  proof (cases "hardware_Stop u (plugins s2 ! j) = Waits")
    case True
    then show ?thesis by (simp add: on_plugin_def DeregisterPlugin_def)
  next
    case False
    with hardware_Stop_cases obtain p where p: "hardware_Stop u (plugins s2 ! j) = Done p" by blast
    with hardware_Stop_same [OF p] e show ?thesis
      by (simp add: on_plugin_def DeregisterPlugin_def delete_plugin_def same_plugin_def)
  qed
qed

theorem shutdown_terminates_witness:
  "case AddAllDomoticzHardware [7] started_system of (hw, s0) \<Rightarrow>
     (case StartDomoticzHardware 100 hw s0 of Done s1 \<Rightarrow> StopDomoticzHardware 101 hw s1 = Waits \<or>
        StopDomoticzHardware 101 hw s1 = Crashes Terminate | _ \<Rightarrow> False)"
proof -
  obtain s0 where a: "AddAllDomoticzHardware [7] started_system = ([0], s0)" "0 < length (plugins s0)" "plugins s0 ! 0 = new_plugin 7"
    by (simp add: RegisterPlugin_def started_system_def)
  have n: "\<not> m_bIsStarted (plugins s0 ! 0)" by (simp add: a(3) new_plugin_def)
  obtain s1 where s1: "StartDomoticzHardware 100 [0] s0 = Done s1"
    by (simp add: on_plugin_def hardware_Start_def StartHardware_def a(3) new_plugin_def)
  from shutdown_terminates [OF s1 a(2) n system_run_nil, of 101]
  have "StopDomoticzHardware 101 [0] s1 = Waits \<or> StopDomoticzHardware 101 [0] s1 = Crashes Terminate" by blast
  then show ?thesis unfolding a(1) prod.case s1 outcome.case .
qed

theorem registry_sound_witness:
  "\<exists>s. system_run started_system [Changed (\<lambda>_ _. False) (\<lambda>_ _. False) 100
      \<lparr>m_Action = ''Insert'', m_Table = ''Interface'', m_RowIdx = 7, m_Columns = [''InterfaceID'', ''Name'', ''Active''],
       m_ColumnTypes = [''INTEGER'', ''TEXT'', ''INTEGER''], m_Values = [''7'', ''Echo'', ''1'']\<rparr>] s \<and>
    distinct (map fst (m_pPlugins s)) \<and> map fst (m_pPlugins s) = [7]"
proof -
  let ?e = "\<lparr>m_Action = ''Insert'', m_Table = ''Interface'', m_RowIdx = 7, m_Columns = [''InterfaceID'', ''Name'', ''Active''],
    m_ColumnTypes = [''INTEGER'', ''TEXT'', ''INTEGER''], m_Values = [''7'', ''Echo'', ''1'']\<rparr>"
  let ?f = "\<lambda>_ _. False"
  have c: "case DatabaseUpdate ?f ?f 100 ?e started_system of Done s \<Rightarrow> map fst (m_pPlugins s) = [7] | _ \<Rightarrow> False" by code_simp
  then obtain s where s: "DatabaseUpdate ?f ?f 100 ?e started_system = Done s" "map fst (m_pPlugins s) = [7]"
    by (auto split: outcome.splits)
  have r: "system_run started_system [Changed ?f ?f 100 ?e] s" using s(1) by simp
  note d = conjunct1 [OF registry_sound [OF r]]
  from r d s(2) show ?thesis by (intro exI [of _ s] conjI)
qed

end
