(* ===== verification/PluginTransport.thy ===== *)
theory PluginTransport
  imports PluginText PluginQueue
begin

text \<open>
  A connection of a plugin (\<^verbatim>\<open>PluginTransports.cpp\<close>, \<^verbatim>\<open>PythonConnections.cpp\<close>, the connection directives
  and events of \<^verbatim>\<open>Plugins.cpp\<close> and \<^verbatim>\<open>PluginMessages.h\<close>): the Python object, the transports that were
  made for it by \<^verbatim>\<open>Connect\<close>, and the messages about it in the queue of its plugin, which is running.

  Three threads change this state: the io thread runs the handlers of finished operations, the worker
  handles messages, and Python code calls the methods of the connection.  Each of them is one step.
  Transports that listen (TCP, UDP and ICMP servers) are left out, as are reference counts.
\<close>

section \<open>State\<close>

text \<open>
  What is left of the asynchronous operations of a transport: \<open>tr_op\<close> is the one of its socket,
  \<open>tr_armed\<close> says that its timer is waited for, \<open>tr_aborted\<close> counts the handlers of waits that were
  cancelled and have not run.  \<open>m_Timer\<close>: there is a timer; \<open>tr_open\<close>: the serial port is open.  A transport
  that was deleted stays in the list, marked \<open>tr_freed\<close>, for its handlers may still run.
\<close>

datatype tr_kind = TCP | TLS | Serial

datatype op = Resolve | Connect_op | Read_op

record transport =
  tr_kind :: tr_kind
  m_bConnecting :: bool
  m_bConnected :: bool
  m_bDisconnectQueued :: bool
  m_iTotalBytes :: nat
  m_Timer :: bool
  tr_op :: "op option"
  tr_armed :: bool
  tr_aborted :: nat
  tr_open :: bool
  tr_freed :: bool

definition new_transport :: "tr_kind \<Rightarrow> transport" where
  "new_transport k = \<lparr>tr_kind = k, m_bConnecting = False, m_bConnected = False, m_bDisconnectQueued = False,
     m_iTotalBytes = 0, m_Timer = False, tr_op = None, tr_armed = False, tr_aborted = 0, tr_open = False,
     tr_freed = False\<rparr>"

text \<open>The messages about the connection; a callback keeps the target it was made with (a null pointer is \<^const>\<open>None\<close>).\<close>

datatype conn_msg =
  Protocol_directive | Connect_directive | Write_directive py | Disconnect_directive
| Read_event string | Disconnected_event bool
| On_connect "nat option" int | On_message "nat option" PluginText.message
| On_timeout "nat option" | On_disconnect "nat option"

datatype call = Call_connect int | Call_message py | Call_timeout | Call_disconnect

text \<open>
  \<open>Target\<close>, \<open>Timeout\<close>, \<open>pTransport\<close> and \<open>pProtocol\<close> with its retained data are members of \<^verbatim>\<open>CConnection\<close>,
  \<open>cn_transports\<close> is \<^verbatim>\<open>m_Transports\<close> of the plugin.  \<open>wire\<close> and \<open>calls\<close> record what was written and
  which handlers of the plugin were called.
\<close>

record link =
  cn_Transport :: string
  cn_Port :: string
  cn_Protocol :: string
  Target :: "nat option"
  Timeout :: nat
  pTransport :: "nat option"
  pProtocol :: "(protocol \<times> string) option"
  heap :: "transport list"
  cn_transports :: "nat list"
  queue :: "conn_msg PluginQueue.message list"
  clock :: int
  wire :: string
  calls :: "(nat \<times> call) list"

text \<open>
  What ends the process: a handler that runs on a deleted transport, \<^verbatim>\<open>PyObject_GetAttrString\<close> of a null
  target, a null transport in \<^verbatim>\<open>onConnectCallback\<close>, and a protocol that throws.
\<close>

datatype link_fault = Use_after_free | Null_target | Null_transport | Protocol_throws

definition post :: "conn_msg \<Rightarrow> link \<Rightarrow> link" where
  "post k s = s\<lparr>queue := queue s @ [instant (clock s) k]\<rparr>"

definition change :: "nat \<Rightarrow> (transport \<Rightarrow> transport) \<Rightarrow> link \<Rightarrow> link" where
  "change i f s = s\<lparr>heap := (heap s)[i := f (heap s ! i)]\<rparr>"

text \<open>\<^verbatim>\<open>IsConnected\<close>, \<^verbatim>\<open>IsConnecting\<close> of the transport of the connection, when there is one.\<close>

definition IsConnected :: "link \<Rightarrow> bool" where
  "IsConnected s \<longleftrightarrow> (case pTransport s of None \<Rightarrow> False | Some i \<Rightarrow> m_bConnected (heap s ! i))"

definition IsConnecting :: "link \<Rightarrow> bool" where
  "IsConnecting s \<longleftrightarrow> (case pTransport s of None \<Rightarrow> False | Some i \<Rightarrow> m_bConnecting (heap s ! i))"

section \<open>The timer\<close>

definition cancel_timer :: "transport \<Rightarrow> transport" where
  "cancel_timer t = t\<lparr>tr_aborted := tr_aborted t + (if tr_armed t then 1 else 0), tr_armed := False\<rparr>"

definition configureTimeout :: "nat \<Rightarrow> transport \<Rightarrow> transport" where
  "configureTimeout n t =
     (if n \<noteq> 0 then (cancel_timer t)\<lparr>m_Timer := True, tr_armed := True\<rparr>
      else if m_Timer t then (cancel_timer t)\<lparr>m_Timer := False\<rparr> else t)"

definition handleTimeout :: "nat \<Rightarrow> link \<Rightarrow> link" where
  "handleTimeout i s = change i (configureTimeout (Timeout s))
     (post (On_timeout (Target s)) (change i (\<lambda>t. t\<lparr>tr_armed := False\<rparr>) s))"

section \<open>Handlers of the transports\<close>

text \<open>\<open>ok\<close>: the address can be resolved, or the port opened; otherwise an exception is thrown.\<close>

definition handleConnect :: "bool \<Rightarrow> nat \<Rightarrow> link \<Rightarrow> bool \<times> link" where
  "handleConnect ok i s =
     (if tr_kind (heap s ! i) = Serial
      then if ok
           then (True, change i (configureTimeout (Timeout s)) (post (On_connect (Target s) 0)
                   (change i (\<lambda>t. t\<lparr>m_bConnected := True, tr_open := True, tr_op := Some Read_op\<rparr>) s)))
           else (False, post (On_connect (Target s) (- 1)) (change i (\<lambda>t. t\<lparr>m_bConnected := False\<rparr>) s))
      else if ok
           then (True, change i (\<lambda>t. t\<lparr>m_bConnected := False, tr_op := Some Resolve, m_bConnecting := True\<rparr>) s)
           else (False, post (On_connect (Target s) (- 1))
                   (change i (\<lambda>t. t\<lparr>m_bConnecting := False, m_bConnected := False\<rparr>) s)))"

text \<open>An error code of 0 is success.\<close>

definition handleAsyncResolve :: "int \<Rightarrow> nat \<Rightarrow> link \<Rightarrow> link" where
  "handleAsyncResolve err i s =
     (if err = 0 then change i (\<lambda>t. t\<lparr>tr_op := Some Connect_op\<rparr>) s
      else post (Disconnected_event True) (post (On_connect (Target s) err)
             (change i (\<lambda>t. t\<lparr>m_bConnecting := False, tr_op := None\<rparr>) s)))"

text \<open>With TLS \<open>shaken\<close> says whether the handshake succeeds; a failure is not reported by \<^verbatim>\<open>onConnect\<close>.\<close>

definition handleAsyncConnect :: "int \<Rightarrow> bool \<Rightarrow> nat \<Rightarrow> link \<Rightarrow> link" where
  "handleAsyncConnect err shaken i s =
     change i (\<lambda>t. t\<lparr>m_bConnecting := False\<rparr>)
       (if err \<noteq> 0
        then post (Disconnected_event True) (post (On_connect (Target s) err)
               (change i (\<lambda>t. t\<lparr>m_bConnected := False, tr_op := None\<rparr>) s))
        else if tr_kind (heap s ! i) = TLS \<and> \<not> shaken
        then post (Disconnected_event True) (change i (\<lambda>t. t\<lparr>tr_op := None\<rparr>) s)
        else change i (configureTimeout (Timeout s)) (post (On_connect (Target s) 0)
               (change i (\<lambda>t. t\<lparr>m_bConnected := True, tr_op := Some Read_op\<rparr>) s)))"

definition handleRead :: "string \<Rightarrow> nat \<Rightarrow> link \<Rightarrow> link" where
  "handleRead data i s =
     (if tr_kind (heap s ! i) = Serial \<and> data = [] then s
      else change i (configureTimeout (Timeout s)) (post (Read_event data)
             (change i (\<lambda>t. t\<lparr>m_iTotalBytes := m_iTotalBytes t + length data\<rparr>) s)))"

text \<open>
  A read that fails.  \<^verbatim>\<open>AsyncSerial\<close> closes the port in this case and does not tell the transport.
\<close>

definition read_failed :: "nat \<Rightarrow> link \<Rightarrow> link" where
  "read_failed i s =
     (if tr_kind (heap s ! i) = Serial then change i (\<lambda>t. t\<lparr>tr_op := None, tr_open := False\<rparr>) s
      else change i (\<lambda>t. t\<lparr>tr_op := None, m_bDisconnectQueued := True\<rparr>) (post (Disconnected_event True) s))"

definition handleDisconnect :: "nat \<Rightarrow> link \<Rightarrow> link" where
  "handleDisconnect i s =
     (let t = heap s ! i in
      if tr_kind t = Serial
      then if m_bConnected t \<and> tr_open t
           then post (On_disconnect (Target s))
                  (change i (\<lambda>t. (if m_Timer t then cancel_timer t else t)
                     \<lparr>m_bConnected := False, tr_open := False, tr_op := None\<rparr>) s)
           else change i (\<lambda>t. t\<lparr>m_bConnected := False\<rparr>) s
      else change i (\<lambda>t. (if m_Timer t then cancel_timer t else t)\<lparr>m_bConnected := False\<rparr>) s)"

definition AsyncDisconnect :: "transport \<Rightarrow> bool" where
  "AsyncDisconnect t \<longleftrightarrow> tr_kind t \<noteq> Serial \<and> (m_bConnected t \<or> m_bConnecting t)"

text \<open>
  The destructors: the timer is cancelled, the socket of an IP transport is closed (its operation ends
  with an error), the thread of a serial port is joined.
\<close>

definition delete_transport :: "nat \<Rightarrow> link \<Rightarrow> link" where
  "delete_transport i s =
     change i (\<lambda>t. (if m_Timer t then cancel_timer t else t)
       \<lparr>tr_freed := True, m_Timer := False, tr_open := False, tr_op := (if tr_kind t = Serial then None else tr_op t)\<rparr>) s"

text \<open>A connection that only its transport refers to is shut down.\<close>

definition VerifyConnection :: "nat \<Rightarrow> link \<Rightarrow> link" where
  "VerifyConnection i s =
     (if m_bDisconnectQueued (heap s ! i) then s
      else change i (\<lambda>t. t\<lparr>m_bDisconnectQueued := True\<rparr>) (post Disconnect_directive s))"

section \<open>Methods of the connection\<close>

datatype action = Connect nat nat | Send py int | Disconnect

definition CConnection_connect :: "nat \<Rightarrow> nat \<Rightarrow> link \<Rightarrow> link" where
  "CConnection_connect target timeout s =
     (if IsConnecting s \<or> IsConnected s then s
      else post Connect_directive
        (s\<lparr>Timeout := (if timeout = 0 \<or> timeout > 199 then timeout else Timeout s), Target := Some target\<rparr>))"

definition CConnection_send :: "py \<Rightarrow> int \<Rightarrow> link \<Rightarrow> link" where
  "CConnection_send data delay s = s\<lparr>queue := queue s @ [WriteDirective (clock s) (Write_directive data) delay]\<rparr>"

definition CConnection_disconnect :: "link \<Rightarrow> link" where
  "CConnection_disconnect s = (if IsConnecting s \<or> IsConnected s then post Disconnect_directive s else s)"

fun act :: "action \<Rightarrow> link \<Rightarrow> link" where
  "act (Connect target timeout) s = CConnection_connect target timeout s"
| "act (Send data delay) s = CConnection_send data delay s"
| "act Disconnect s = CConnection_disconnect s"

definition acts :: "action list \<Rightarrow> link \<Rightarrow> link" where
  "acts as s = foldl (\<lambda>s a. act a s) s as"

end
