(* ===== verification/PluginConnection.thy ===== *)
theory PluginConnection
  imports PluginTransport
begin

text \<open>
  The messages about a connection as the worker of its plugin handles them, the steps of the three
  threads, and what follows for whole runs.
\<close>

section \<open>Directives and events\<close>

text \<open>
  \<open>inb\<close> and \<open>outb\<close> are \<^verbatim>\<open>ProcessInbound\<close> and \<^verbatim>\<open>ProcessOutbound\<close> of the protocols; \<^const>\<open>None\<close> is an
  exception.  The answers of a step: whether a connection can be initiated, whether a write succeeds,
  and what the plugin does in the handler that is called.
\<close>

type_synonym inbound = "protocol \<Rightarrow> string \<Rightarrow> string \<Rightarrow> (PluginText.message list \<times> string) option"

record answers =
  an_connect :: bool
  an_write :: bool
  an_acts :: "action list"

definition ConnectionProtocol :: "link \<Rightarrow> link" where
  "ConnectionProtocol s = s\<lparr>pProtocol := Some (Create_protocol (cn_Protocol s), [])\<rparr>"

definition with_protocol :: "link \<Rightarrow> link" where
  "with_protocol s = (if pProtocol s = None then s\<lparr>pProtocol := Some (RawProtocol, [])\<rparr> else s)"

definition AddConnection :: "nat \<Rightarrow> link \<Rightarrow> link" where
  "AddConnection i s = s\<lparr>cn_transports := cn_transports s @ [i]\<rparr>"

definition RemoveConnection :: "nat \<Rightarrow> link \<Rightarrow> link" where
  "RemoveConnection i s = s\<lparr>cn_transports := remove1 i (cn_transports s)\<rparr>"

text \<open>The kind of transport for a connection, \<^const>\<open>None\<close> when the directive is refused.\<close>

definition transport_kind :: "link \<Rightarrow> tr_kind option" where
  "transport_kind s =
     (if cn_Transport s = ''TCP/IP'' \<or> cn_Transport s = ''TLS/IP''
      then if cn_Port s = [] then None
           else Some (if cn_Transport s = ''TLS/IP'' \<or> Secure (fst (the (pProtocol s))) then TLS else TCP)
      else if cn_Transport s = ''Serial'' then Some Serial else None)"

definition ConnectionConnect :: "bool \<Rightarrow> link \<Rightarrow> link" where
  "ConnectionConnect ok s =
     (if IsConnected s then s
      else let s1 = with_protocol s in
        case transport_kind s1 of
          None \<Rightarrow> s1
        | Some k \<Rightarrow>
            let i = length (heap s1);
                (started, s2) = handleConnect ok i
                  (AddConnection i (s1\<lparr>heap := heap s1 @ [new_transport k], pTransport := Some i\<rparr>))
            in if started then s2 else RemoveConnection i s2)"

definition ConnectionRead :: "inbound \<Rightarrow> string \<Rightarrow> link \<Rightarrow> link_fault + link" where
  "ConnectionRead inb data s =
     (case pProtocol s of
        None \<Rightarrow> Inr s
      | Some (p, r) \<Rightarrow>
          if Target s = None then Inl Null_target
          else case inb p r data of
            None \<Rightarrow> Inl Protocol_throws
          | Some (ms, r') \<Rightarrow>
              Inr (foldl (\<lambda>s m. post (On_message (Target s) m) s) (s\<lparr>pProtocol := Some (p, r')\<rparr>) ms))"

text \<open>\<^verbatim>\<open>handleWrite\<close> of the transport of the connection, or of one that is made for a datagram.\<close>

definition handleWrite :: "bool \<Rightarrow> string \<Rightarrow> link \<Rightarrow> link" where
  "handleWrite ok data s =
     (case pTransport s of
        None \<Rightarrow> s
      | Some i \<Rightarrow> if ok \<and> tr_kind (heap s ! i) \<noteq> Serial
                 then change i (\<lambda>t. t\<lparr>m_iTotalBytes := m_iTotalBytes t + length data\<rparr>) s else s)
     \<lparr>wire := wire s @ (if ok then data else [])\<rparr>"

definition ConnectionWrite :: "(protocol \<Rightarrow> py \<Rightarrow> string) \<Rightarrow> bool \<Rightarrow> py \<Rightarrow> link \<Rightarrow> link_fault + link" where
  "ConnectionWrite outb ok data s =
     (if (case pTransport s of
            None \<Rightarrow> cn_Transport s \<noteq> ''UDP/IP''
          | Some i \<Rightarrow> cn_Transport s = ''UDP/IP'' \<or> cn_Transport s \<noteq> ''ICMP/IP'' \<and> \<not> m_bConnected (heap s ! i))
      then Inr s
      else let s1 = with_protocol s in
        if Target s1 = None then Inl Null_target
        else Inr (handleWrite ok (outb (fst (the (pProtocol s1))) data) s1))"

definition flush_protocol :: "link \<Rightarrow> link" where
  "flush_protocol s =
     (case pProtocol s of
        None \<Rightarrow> s
      | Some (p, r) \<Rightarrow>
          let (ms, r') = Flush r
          in foldl (\<lambda>s m. post (On_message (Target s) m) s) (s\<lparr>pProtocol := Some (p, r')\<rparr>) ms)"

definition ConnectionDisconnect :: "link \<Rightarrow> link" where
  "ConnectionDisconnect s =
     (let s1 = flush_protocol s in
      case pTransport s1 of
        None \<Rightarrow> s1
      | Some i \<Rightarrow>
          if AsyncDisconnect (heap s1 ! i) then handleDisconnect i s1
          else (delete_transport i (RemoveConnection i (handleDisconnect i s1)))\<lparr>pTransport := None\<rparr>)"

definition DisconnectEvent :: "bool \<Rightarrow> link \<Rightarrow> link" where
  "DisconnectEvent notify s =
     (let s1 = flush_protocol s in
      case pTransport s1 of
        None \<Rightarrow> s1
      | Some i \<Rightarrow>
          let s2 = (delete_transport i (RemoveConnection i s1))\<lparr>pTransport := None\<rparr>
          in if notify then post (On_disconnect (Target s2)) s2 else s2\<lparr>Target := None\<rparr>)"

section \<open>Messages\<close>

text \<open>A handler of the plugin: it is called on the target of the message and calls methods of the connection.\<close>

definition Callback :: "nat \<Rightarrow> call \<Rightarrow> action list \<Rightarrow> link \<Rightarrow> link" where
  "Callback target c as s = acts as (s\<lparr>calls := calls s @ [(target, c)]\<rparr>)"

fun process :: "inbound \<Rightarrow> (protocol \<Rightarrow> py \<Rightarrow> string) \<Rightarrow> answers \<Rightarrow> conn_msg \<Rightarrow> link \<Rightarrow> link_fault + link" where
  "process inb outb an Protocol_directive s = Inr (ConnectionProtocol s)"
| "process inb outb an Connect_directive s = Inr (ConnectionConnect (an_connect an) s)"
| "process inb outb an (Write_directive data) s = ConnectionWrite outb (an_write an) data s"
| "process inb outb an Disconnect_directive s = Inr (ConnectionDisconnect s)"
| "process inb outb an (Read_event data) s = ConnectionRead inb data s"
| "process inb outb an (Disconnected_event notify) s = Inr (DisconnectEvent notify s)"
| "process inb outb an (On_connect None status) s = Inr s"
| "process inb outb an (On_connect (Some target) status) s =
     (let s1 = Callback target (Call_connect status) (an_acts an) s in
      case pTransport s1 of
        None \<Rightarrow> Inl Null_transport
      | Some i \<Rightarrow> Inr (if m_bConnected (heap s1 ! i) then s1 else s1\<lparr>Target := None\<rparr>))"
| "process inb outb an (On_message None m) s = Inr s"
| "process inb outb an (On_message (Some target) m) s =
     Inr (Callback target (Call_message (message_argument m)) (an_acts an) s)"
| "process inb outb an (On_timeout None) s = Inr s"
| "process inb outb an (On_timeout (Some target)) s = Inr (Callback target Call_timeout (an_acts an) s)"
| "process inb outb an (On_disconnect None) s = Inr s"
| "process inb outb an (On_disconnect (Some target)) s =
     Inr ((Callback target Call_disconnect (an_acts an) s)\<lparr>Target := None\<rparr>)"

definition Work :: "inbound \<Rightarrow> (protocol \<Rightarrow> py \<Rightarrow> string) \<Rightarrow> answers \<Rightarrow> link \<Rightarrow> link_fault + link" where
  "Work inb outb an s =
     (case next_message (clock s) (queue s) of
        (None, q) \<Rightarrow> Inr (s\<lparr>queue := q\<rparr>)
      | (Some m, q) \<Rightarrow> process inb outb an (msg_kind m) (s\<lparr>queue := q\<rparr>))"

section \<open>Steps and runs\<close>

text \<open>
  \<open>Resolved\<close>, \<open>Connected\<close>, \<open>Received\<close>, \<open>Lost\<close>, \<open>Fired\<close> and \<open>Aborted\<close> are handlers on the io thread,
  \<open>Calls\<close> other handlers of the plugin that use the connection, \<open>Verified\<close> a turn of the work loop.
\<close>

datatype link_event =
  Resolved nat int | Connected nat int bool | Received nat string | Lost nat | Fired nat | Aborted nat
| Handled answers | Calls "action list" | Verified nat | Tick nat

fun possible :: "link \<Rightarrow> link_event \<Rightarrow> bool" where
  "possible s (Resolved i err) \<longleftrightarrow> i < length (heap s) \<and> tr_op (heap s ! i) = Some Resolve"
| "possible s (Connected i err shaken) \<longleftrightarrow> i < length (heap s) \<and> tr_op (heap s ! i) = Some Connect_op"
| "possible s (Received i data) \<longleftrightarrow> i < length (heap s) \<and> tr_op (heap s ! i) = Some Read_op"
| "possible s (Lost i) \<longleftrightarrow> i < length (heap s) \<and> tr_op (heap s ! i) = Some Read_op"
| "possible s (Fired i) \<longleftrightarrow> i < length (heap s) \<and> tr_armed (heap s ! i)"
| "possible s (Aborted i) \<longleftrightarrow> i < length (heap s) \<and> 0 < tr_aborted (heap s ! i)"
| "possible s (Verified i) \<longleftrightarrow> i \<in> set (cn_transports s)"
| "possible s _ \<longleftrightarrow> True"

text \<open>A handler that runs on a deleted transport reads freed memory.\<close>

definition on_transport :: "nat \<Rightarrow> (link \<Rightarrow> link) \<Rightarrow> link \<Rightarrow> link_fault + link" where
  "on_transport i f s = (if tr_freed (heap s ! i) then Inl Use_after_free else Inr (f s))"

fun link_step :: "inbound \<Rightarrow> (protocol \<Rightarrow> py \<Rightarrow> string) \<Rightarrow> link_event \<Rightarrow> link \<Rightarrow> link_fault + link" where
  "link_step inb outb (Resolved i err) s = on_transport i (handleAsyncResolve err i) s"
| "link_step inb outb (Connected i err shaken) s = on_transport i (handleAsyncConnect err shaken i) s"
| "link_step inb outb (Received i data) s = on_transport i (handleRead data i) s"
| "link_step inb outb (Lost i) s = on_transport i (read_failed i) s"
| "link_step inb outb (Fired i) s = on_transport i (handleTimeout i) s"
| "link_step inb outb (Aborted i) s = on_transport i (change i (\<lambda>t. t\<lparr>tr_aborted := tr_aborted t - 1\<rparr>)) s"
| "link_step inb outb (Handled an) s = Work inb outb an s"
| "link_step inb outb (Calls as) s = Inr (acts as s)"
| "link_step inb outb (Verified i) s = on_transport i (VerifyConnection i) s"
| "link_step inb outb (Tick n) s = Inr (s\<lparr>clock := clock s + int n\<rparr>)"

inductive link_run :: "inbound \<Rightarrow> (protocol \<Rightarrow> py \<Rightarrow> string) \<Rightarrow> link \<Rightarrow> link_event list \<Rightarrow> link \<Rightarrow> bool"
  for inb outb where
  run_done: "link_run inb outb s [] s"
| run_more: "possible s ev \<Longrightarrow> link_step inb outb ev s = Inr s1 \<Longrightarrow> link_run inb outb s1 evs s2 \<Longrightarrow>
    link_run inb outb s (ev # evs) s2"

inductive_simps link_run_simps [simp]:
  "link_run inb outb s [] s'" "link_run inb outb s (ev # evs) s'"

text \<open>\<^verbatim>\<open>CConnection_new\<close> and \<^verbatim>\<open>CConnection_init\<close>; the target is \<^verbatim>\<open>None\<close>, which is the object 0.\<close>

definition new_connection :: "string \<Rightarrow> string option \<Rightarrow> string \<Rightarrow> link" where
  "new_connection transport protocol port =
     (let s = \<lparr>cn_Transport = transport, cn_Port = port,
                cn_Protocol = (case protocol of None \<Rightarrow> ''None'' | Some p \<Rightarrow> p), Target = Some 0, Timeout = 0,
                pTransport = None, pProtocol = None, heap = [], cn_transports = [], queue = [], clock = 0,
                wire = [], calls = []\<rparr>
      in if protocol = None then s else post Protocol_directive s)"

section \<open>Runs that end the process\<close>

lemmas step_defs = Work_def post_def change_def on_transport_def ConnectionConnect_def with_protocol_def AddConnection_def
  RemoveConnection_def handleConnect_def handleAsyncResolve_def handleAsyncConnect_def handleRead_def read_failed_def
  ConnectionDisconnect_def DisconnectEvent_def handleDisconnect_def AsyncDisconnect_def delete_transport_def
  CConnection_connect_def CConnection_disconnect_def IsConnected_def IsConnecting_def new_transport_def
  cancel_timer_def acts_def Callback_def instant_def

lemma next_instant: "\<not> m_Delay m \<Longrightarrow> next_message now (m # q) = (Some m, q)"
  using next_message_split(1) [of now "[]" m q] by (simp add: due_def)

lemma next_empty: "next_message now [] = (None, [])"
  using next_message_split(2) [of now "[]"] by simp

text \<open>A timer that is waited for outlives its transport: when the message that deletes the
  transport of a connection with a timeout has been handled, the handler of the cancelled wait is still
  to run, and it reads the deleted transport.\<close>

theorem timer_outlives_transport:
  assumes "pTransport s = Some i" and "i < length (heap s)" and "m_Timer (heap s ! i)" and "tr_armed (heap s ! i)"
    and "next_message (clock s) (queue s) = (Some m, q)" and "msg_kind m = Disconnected_event b"
  shows "\<exists>s'. Work inb outb an s = Inr s' \<and> possible s' (Aborted i) \<and> link_step inb outb (Aborted i) s' = Inl Use_after_free"
proof -
  have f: "heap (foldl (\<lambda>s m. post (On_message (Target s) m) s) u ms) = heap u \<and>
      pTransport (foldl (\<lambda>s m. post (On_message (Target s) m) s) u ms) = pTransport u" for u ms
    by (induction ms arbitrary: u) (simp_all add: post_def)
  have "heap (flush_protocol u) = heap u" "pTransport (flush_protocol u) = pTransport u" for u
    using f by (simp_all add: flush_protocol_def split: option.splits prod.splits)
  with assms show ?thesis
    by (simp add: Work_def DisconnectEvent_def Let_def RemoveConnection_def delete_transport_def change_def post_def
        cancel_timer_def on_transport_def)
qed

text \<open>The protocols without state beyond what they keep of a stream, and a connection with lines.\<close>

fun stream_in :: inbound where
  "stream_in LineProtocol r data = Some (line_inbound r data)"
| "stream_in p r data = Some (raw_inbound data, r)"

fun stream_out :: "protocol \<Rightarrow> py \<Rightarrow> string" where
  "stream_out p data = (case raw_outbound data of None \<Rightarrow> [] | Some b \<Rightarrow> b)"

fun link_exec :: "link_event list \<Rightarrow> link \<Rightarrow> (link_fault + link) option" where
  "link_exec [] s = Some (Inr s)"
| "link_exec (ev # evs) s =
     (if possible s ev
      then case link_step stream_in stream_out ev s of Inl f \<Rightarrow> Some (Inl f) | Inr s1 \<Rightarrow> link_exec evs s1
      else None)"

lemma link_exec_run: "link_exec evs s = Some (Inr s') \<longleftrightarrow> link_run stream_in stream_out s evs s'"
  by (induction evs arbitrary: s) (auto split: sum.splits)

definition answer :: "action list \<Rightarrow> answers" where
  "answer as = \<lparr>an_connect = True, an_write = True, an_acts = as\<rparr>"

definition line_connection :: link where
  "line_connection = new_connection ''TCP/IP'' (Some ''Line'') ''23''"

text \<open>A connection with a timeout of half a second is made and lost.\<close>

definition example_connect :: "nat \<Rightarrow> link_event list" where
  "example_connect n = [Handled (answer []), Calls [Connect 1 n], Handled (answer [])]"

definition example_made :: "nat \<Rightarrow> link_event list" where
  "example_made n = example_connect n @ [Resolved 0 0, Connected 0 0 True, Handled (answer [])]"

definition example_lost :: "link_event list" where
  "example_lost = example_made 500 @ [Lost 0]"

theorem timer_outlives_transport_witness:
  "case link_exec example_lost line_connection of
     Some (Inr s) \<Rightarrow> \<exists>s'. Work stream_in stream_out (answer []) s = Inr s' \<and> possible s' (Aborted 0) \<and>
       link_step stream_in stream_out (Aborted 0) s' = Inl Use_after_free
   | _ \<Rightarrow> False"
proof -
  have "case link_exec example_lost line_connection of
     Some (Inr s) \<Rightarrow> pTransport s = Some 0 \<and> 0 < length (heap s) \<and> m_Timer (heap s ! 0) \<and> tr_armed (heap s ! 0) \<and>
       next_message (clock s) (queue s) = (Some (instant 0 (Disconnected_event True)), [])
   | _ \<Rightarrow> False"
    by code_simp
  moreover have "msg_kind (instant 0 (Disconnected_event True)) = Disconnected_event True" by (simp add: instant_def)
  ultimately show ?thesis
    using timer_outlives_transport [of _ 0 "instant 0 (Disconnected_event True)" "[]" True]
    by (auto split: option.splits sum.splits simp del: possible.simps link_step.simps)
qed

lemma transport_kind_cong:
  "cn_Transport u = cn_Transport s \<Longrightarrow> cn_Port u = cn_Port s \<Longrightarrow> pProtocol u = pProtocol s \<Longrightarrow>
    transport_kind u = transport_kind s"
  by (simp add: transport_kind_def)

lemma connect_starts:
  assumes "\<not> IsConnected s" and "pProtocol s \<noteq> None" and "transport_kind s = Some k" and "k \<noteq> Serial"
  shows "ConnectionConnect True s = s\<lparr>heap := heap s @ [(new_transport k)\<lparr>tr_op := Some Resolve, m_bConnecting := True\<rparr>],
    pTransport := Some (length (heap s)), cn_transports := cn_transports s @ [length (heap s)]\<rparr>"
  using assms by (auto simp: ConnectionConnect_def with_protocol_def handleConnect_def AddConnection_def change_def new_transport_def Let_def)

text \<open>A plugin that connects again in its handler \<^verbatim>\<open>onDisconnect\<close>, or that is told about the end of
  a connection after it has connected again, loses the new target: no handler is called for the new
  connection, and the first data that it receives ends the process.\<close>

theorem reconnect_in_handler_crashes:
  assumes "queue s = [instant c (On_disconnect (Some target))]" and "pTransport s = None" and "pProtocol s \<noteq> None"
    and "transport_kind s = Some k" and "k \<noteq> Serial" and "an_connect an"
  shows "\<exists>s'. link_run inb outb s [Handled (an\<lparr>an_acts := [Connect target' n]\<rparr>), Handled an, Resolved (length (heap s)) 0,
        Connected (length (heap s)) 0 True, Received (length (heap s)) data, Handled an] s' \<and>
    calls s' = calls s @ [(target, Call_disconnect)] \<and> Work inb outb an s' = Inl Null_target"
proof -
  let ?j = "length (heap s)"
  define s1 where "s1 = s\<lparr>queue := [instant (clock s) Connect_directive], calls := calls s @ [(target, Call_disconnect)],
    Timeout := (if n = 0 \<or> n > 199 then n else Timeout s), Target := None\<rparr>"
  have 1: "Work inb outb (an\<lparr>an_acts := [Connect target' n]\<rparr>) s = Inr s1"
    using assms(1,2) by (simp add: s1_def Work_def next_instant instant_def Callback_def acts_def CConnection_connect_def
        IsConnecting_def IsConnected_def post_def)
  define t where "t = (new_transport k)\<lparr>tr_op := Some Resolve, m_bConnecting := True\<rparr>"
  define s2 where "s2 = s1\<lparr>queue := [], heap := heap s @ [t], pTransport := Some ?j, cn_transports := cn_transports s @ [?j]\<rparr>"
  have 2: "Work inb outb an s1 = Inr s2"
  proof -
    let ?u = "s1\<lparr>queue := []\<rparr>"
    have "transport_kind ?u = Some k" using assms(4) by (subst transport_kind_cong [of _ s]) (simp_all add: s1_def)
    then have "ConnectionConnect True ?u = s2"
      using assms(2,3,5) by (subst connect_starts [of _ k]) (simp_all add: s1_def s2_def t_def IsConnected_def)
    with assms(6) show ?thesis by (simp add: s1_def Work_def next_instant instant_def)
  qed
  define s3 where "s3 = s2\<lparr>heap := heap s @ [t\<lparr>tr_op := Some Connect_op\<rparr>]\<rparr>"
  have 3: "link_step inb outb (Resolved ?j 0) s2 = Inr s3"
    by (simp add: s2_def s3_def t_def on_transport_def handleAsyncResolve_def change_def new_transport_def)
  define u where "u = (configureTimeout (Timeout s1) (t\<lparr>tr_op := Some Read_op, m_bConnected := True\<rparr>))\<lparr>m_bConnecting := False\<rparr>"
  define s4 where "s4 = s3\<lparr>heap := heap s @ [u], queue := [instant (clock s) (On_connect None 0)]\<rparr>"
  have 4: "link_step inb outb (Connected ?j 0 True) s3 = Inr s4"
    by (simp add: s1_def s2_def s3_def s4_def t_def u_def on_transport_def handleAsyncConnect_def change_def post_def new_transport_def)
  define s5 where "s5 = s4\<lparr>heap := heap s @ [configureTimeout (Timeout s1) (u\<lparr>m_iTotalBytes := m_iTotalBytes u + length data\<rparr>)],
    queue := [instant (clock s) (On_connect None 0), instant (clock s) (Read_event data)]\<rparr>"
  have u: "tr_op u = Some Read_op" "\<not> tr_freed u" "tr_kind u \<noteq> Serial"
    using assms(5) by (simp_all add: u_def t_def configureTimeout_def cancel_timer_def new_transport_def)
  have 5: "link_step inb outb (Received ?j data) s4 = Inr s5"
    using u by (simp add: s1_def s2_def s3_def s4_def s5_def on_transport_def handleRead_def change_def post_def)
  define s6 where "s6 = s5\<lparr>queue := [instant (clock s) (Read_event data)]\<rparr>"
  have 6: "Work inb outb an s5 = Inr s6"
    by (simp add: s5_def s6_def Work_def next_instant instant_def)
  have "Work inb outb an s6 = Inl Null_target"
    using assms(3) by (auto simp: s1_def s2_def s3_def s4_def s5_def s6_def Work_def next_instant instant_def ConnectionRead_def)
  moreover have "calls s6 = calls s @ [(target, Call_disconnect)]"
    by (simp add: s1_def s2_def s3_def s4_def s5_def s6_def)
  moreover have "link_run inb outb s [Handled (an\<lparr>an_acts := [Connect target' n]\<rparr>), Handled an, Resolved ?j 0,
      Connected ?j 0 True, Received ?j data, Handled an] s6"
  proof -
    have p: "possible s2 (Resolved ?j 0)" "possible s3 (Connected ?j 0 True)" "possible s4 (Received ?j data)"
      using u(1) by (simp_all add: s2_def s3_def s4_def t_def new_transport_def)
    have h: "possible x (Handled an')" "link_step inb outb (Handled an') x = Work inb outb an' x" for x an' by simp_all
    show ?thesis
      by (intro run_more [OF h(1) 1 [folded h(2)]] run_more [OF h(1) 2 [folded h(2)]] run_more [OF p(1) 3]
          run_more [OF p(2) 4] run_more [OF p(3) 5] run_more [OF h(1) 6 [folded h(2)]] run_done)
  qed
  ultimately show ?thesis by blast
qed

theorem reconnect_in_handler_crashes_witness:
  "case link_exec (example_made 0 @ [Lost 0, Handled (answer [])]) line_connection of
     Some (Inr s) \<Rightarrow> \<exists>s'. link_run stream_in stream_out s [Handled (answer [Connect 1 0]), Handled (answer []),
         Resolved 1 0, Connected 1 0 True, Received 1 ''220'', Handled (answer [])] s' \<and>
       Work stream_in stream_out (answer []) s' = Inl Null_target
   | _ \<Rightarrow> False"
proof -
  have "case link_exec (example_made 0 @ [Lost 0, Handled (answer [])]) line_connection of
     Some (Inr s) \<Rightarrow> queue s = [instant 0 (On_disconnect (Some 1))] \<and> pTransport s = None \<and>
       pProtocol s = Some (LineProtocol, []) \<and> transport_kind s = Some TCP \<and> length (heap s) = 1
   | _ \<Rightarrow> False"
    by code_simp
  then obtain s where e: "link_exec (example_made 0 @ [Lost 0, Handled (answer [])]) line_connection = Some (Inr s)"
    and h: "queue s = [instant 0 (On_disconnect (Some 1))]" "pTransport s = None" "pProtocol s \<noteq> None"
      "transport_kind s = Some TCP" "length (heap s) = 1"
    by (auto split: option.splits sum.splits)
  have a: "(answer [])\<lparr>an_acts := [Connect 1 0]\<rparr> = answer [Connect 1 0]" "an_connect (answer [])"
    by (simp_all add: answer_def)
  from reconnect_in_handler_crashes [OF h(1-4) _ a(2), of stream_in stream_out 1 0 "''220''"] e h(5) show ?thesis
    unfolding a(1) by (auto simp del: link_run_simps)
qed

text \<open>The directive to disconnect is lost while the address of a connection is resolved: the handler
  closes a socket that is not open yet, and the connection is made.\<close>

theorem disconnect_while_resolving_lost:
  assumes "queue s = []" and "pTransport s = Some i" and "i < length (heap s)" and "tr_op (heap s ! i) = Some Resolve"
    and "m_bConnecting (heap s ! i)" and "\<not> tr_freed (heap s ! i)" and "tr_kind (heap s ! i) \<noteq> Serial"
  shows "\<exists>s'. link_run inb outb s [Calls [Disconnect], Handled an, Resolved i 0, Connected i 0 True] s' \<and>
    IsConnected s' \<and> Disconnect_directive \<notin> msg_kind ` set (queue s')"
proof -
  define s1 where "s1 = flush_protocol (s\<lparr>queue := []\<rparr>)"
  define s2 where "s2 = handleDisconnect i s1"
  have f: "heap s1 = heap s" "pTransport s1 = Some i" "Disconnect_directive \<notin> msg_kind ` set (queue s1)"
    using assms(2) by (auto simp: s1_def flush_protocol_def Flush_def post_def instant_def split: option.splits)
  have d: "link_step inb outb (Handled an) (s\<lparr>queue := [instant (clock s) Disconnect_directive]\<rparr>) = Inr s2"
    using assms f by (simp add: Work_def next_instant instant_def ConnectionDisconnect_def AsyncDisconnect_def
        s2_def s1_def [symmetric] Let_def)
  have c: "link_step inb outb (Calls [Disconnect]) s = Inr (s\<lparr>queue := [instant (clock s) Disconnect_directive]\<rparr>)"
    using assms by (simp add: acts_def CConnection_disconnect_def IsConnecting_def post_def)
  have h: "tr_op (heap s2 ! i) = Some Resolve" "\<not> tr_freed (heap s2 ! i)" "i < length (heap s2)" "pTransport s2 = Some i"
      "tr_kind (heap s2 ! i) \<noteq> Serial" "queue s2 = queue s1"
    using assms(3,4,6,7) f by (simp_all add: s2_def handleDisconnect_def change_def cancel_timer_def Let_def)
  define s3 where "s3 = handleAsyncResolve 0 i s2"
  have k: "tr_op (heap s3 ! i) = Some Connect_op" "\<not> tr_freed (heap s3 ! i)" "i < length (heap s3)" "pTransport s3 = Some i"
      "tr_kind (heap s3 ! i) \<noteq> Serial" "queue s3 = queue s1"
    using h by (simp_all add: s3_def handleAsyncResolve_def change_def)
  define s4 where "s4 = handleAsyncConnect 0 True i s3"
  have "IsConnected s4" "Disconnect_directive \<notin> msg_kind ` set (queue s4)"
    using k f(3) by (auto simp: s4_def handleAsyncConnect_def change_def post_def configureTimeout_def cancel_timer_def
        IsConnected_def instant_def)
  moreover have "link_step inb outb (Resolved i 0) s2 = Inr s3" "link_step inb outb (Connected i 0 True) s3 = Inr s4"
    using h k by (simp_all add: s3_def s4_def on_transport_def)
  moreover have "link_run inb outb s [Calls [Disconnect], Handled an, Resolved i 0, Connected i 0 True] s4"
    using calculation h k c d by (intro run_more [OF _ c] run_more [OF _ d] run_more run_done) simp_all
  ultimately show ?thesis by blast
qed

theorem disconnect_while_resolving_lost_witness:
  "case link_exec (example_connect 0) line_connection of
     Some (Inr s) \<Rightarrow> \<exists>s'. link_run stream_in stream_out s [Calls [Disconnect], Handled (answer []), Resolved 0 0,
         Connected 0 0 True] s' \<and> IsConnected s'
   | _ \<Rightarrow> False"
proof -
  have "case link_exec (example_connect 0) line_connection of
     Some (Inr s) \<Rightarrow> queue s = [] \<and> pTransport s = Some 0 \<and> 0 < length (heap s) \<and> tr_op (heap s ! 0) = Some Resolve \<and>
       m_bConnecting (heap s ! 0) \<and> \<not> tr_freed (heap s ! 0) \<and> tr_kind (heap s ! 0) = TCP
   | _ \<Rightarrow> False"
    by code_simp
  then show ?thesis
    using disconnect_while_resolving_lost [of _ 0 stream_in stream_out "answer []"]
    by (fastforce split: option.splits sum.splits simp del: link_run_simps)
qed

text \<open>Two calls of \<^verbatim>\<open>Disconnect\<close> before the first is handled free the transport while its read is
  pending: the second directive finds it neither connected nor connecting and deletes it at once.\<close>

theorem second_disconnect_frees_early:
  assumes "queue s = []" and "pTransport s = Some i" and "i < length (heap s)" and "tr_op (heap s ! i) = Some Read_op"
    and "m_bConnected (heap s ! i)" and "\<not> m_bConnecting (heap s ! i)" and "\<not> tr_freed (heap s ! i)"
    and "tr_kind (heap s ! i) \<noteq> Serial" and "pProtocol s = Some (p, [])"
  shows "\<exists>s'. link_run inb outb s [Calls [Disconnect, Disconnect], Handled an, Handled an] s' \<and> possible s' (Lost i) \<and>
    link_step inb outb (Lost i) s' = Inl Use_after_free"
  using assms
  by (auto simp: step_defs next_instant flush_protocol_def Flush_def Let_def)

theorem second_disconnect_frees_early_witness:
  "case link_exec (example_made 0) line_connection of
     Some (Inr s) \<Rightarrow> \<exists>s'. link_run stream_in stream_out s [Calls [Disconnect, Disconnect], Handled (answer []),
         Handled (answer [])] s' \<and> link_step stream_in stream_out (Lost 0) s' = Inl Use_after_free
   | _ \<Rightarrow> False"
proof -
  have "case link_exec (example_made 0) line_connection of
     Some (Inr s) \<Rightarrow> queue s = [] \<and> pTransport s = Some 0 \<and> 0 < length (heap s) \<and> tr_op (heap s ! 0) = Some Read_op \<and>
       m_bConnected (heap s ! 0) \<and> \<not> m_bConnecting (heap s ! 0) \<and> \<not> tr_freed (heap s ! 0) \<and>
       tr_kind (heap s ! 0) = TCP \<and> pProtocol s = Some (LineProtocol, [])
   | _ \<Rightarrow> False"
    by code_simp
  then show ?thesis
    using second_disconnect_frees_early [of _ 0 LineProtocol stream_in stream_out "answer []"]
    by (fastforce split: option.splits sum.splits simp del: link_run_simps link_step.simps)
qed

text \<open>Calling \<^verbatim>\<open>Connect\<close> twice makes two transports for the connection, and the loss of one deletes the other.\<close>

lemma second_connect_crashes:
  "link_exec [Handled (answer []), Calls [Connect 1 0, Connect 1 0], Handled (answer []), Handled (answer []),
     Resolved 0 1, Handled (answer []), Handled (answer []), Resolved 1 0] line_connection = Some (Inl Use_after_free)"
  by code_simp

end
