(* ===== verification/ConnectionSafety.thy ===== *)
theory ConnectionSafety
  imports PluginConnection
begin

text \<open>
  The discipline under which a connection is safe.  The plugin connects only when nothing of the last
  connection is left, and not in the handlers that end one; it disconnects once, and not while it
  connects; it uses no timeout.  Under it no handler reads a deleted transport and no target is missing,
  whatever the network does and in whatever order the threads run.
\<close>

section \<open>The discipline\<close>

fun is_mark :: "conn_msg \<Rightarrow> bool" where
  "is_mark Connect_directive = True"
| "is_mark (On_connect target status) = True"
| "is_mark (Disconnected_event notify) = True"
| "is_mark (On_disconnect target) = True"
| "is_mark _ = False"

fun is_read :: "conn_msg \<Rightarrow> bool" where
  "is_read (Read_event data) = True"
| "is_read _ = False"

fun is_onconnect :: "conn_msg \<Rightarrow> bool" where
  "is_onconnect (On_connect target status) = True"
| "is_onconnect _ = False"

fun is_write :: "conn_msg \<Rightarrow> bool" where
  "is_write (Write_directive data) = True"
| "is_write _ = False"

definition significant :: "conn_msg \<Rightarrow> bool" where
  "significant k \<longleftrightarrow> is_mark k \<or> is_read k \<or> k = Disconnect_directive"

lemma significant_simps [simp]:
  "significant Connect_directive" "significant (On_connect t c)" "significant (Disconnected_event b)"
  "significant (On_disconnect t)" "significant (Read_event d)" "significant Disconnect_directive"
  "\<not> significant Protocol_directive" "\<not> significant (Write_directive p)" "\<not> significant (On_message t m)"
  "\<not> significant (On_timeout t)"
  by (simp_all add: significant_def)

text \<open>What is queued about the life of the connection.\<close>

definition sig :: "link \<Rightarrow> conn_msg list" where
  "sig s = filter significant (map msg_kind (queue s))"

definition marks :: "conn_msg list \<Rightarrow> conn_msg list" where
  "marks l = filter is_mark l"

lemma marks_simps [simp]:
  "marks [] = []" "marks (k # l) = (if is_mark k then k # marks l else marks l)" "marks (l @ l') = marks l @ marks l'"
  by (simp_all add: marks_def)

definition settled :: "link \<Rightarrow> bool" where
  "settled s \<longleftrightarrow> marks (sig s) = [] \<and> Disconnect_directive \<notin> set (sig s) \<and>
     (case pTransport s of None \<Rightarrow> True | Some i \<Rightarrow> tr_op (heap s ! i) = None)"

fun polite_act :: "link \<Rightarrow> action \<Rightarrow> bool" where
  "polite_act s (Connect target timeout) \<longleftrightarrow> timeout < 200 \<and> settled s"
| "polite_act s (Send data delay) \<longleftrightarrow> True"
| "polite_act s Disconnect \<longleftrightarrow> \<not> IsConnecting s \<and> Disconnect_directive \<notin> set (sig s)"

fun polite_acts :: "link \<Rightarrow> action list \<Rightarrow> bool" where
  "polite_acts s [] \<longleftrightarrow> True"
| "polite_acts s (a # as) \<longleftrightarrow> polite_act s a \<and> polite_acts (act a s) as"

fun is_connect :: "action \<Rightarrow> bool" where
  "is_connect (Connect target timeout) = True"
| "is_connect _ = False"

fun ends_connection :: "conn_msg \<Rightarrow> bool" where
  "ends_connection (On_connect target status) = True"
| "ends_connection (On_disconnect target) = True"
| "ends_connection _ = False"

fun polite :: "link \<Rightarrow> link_event \<Rightarrow> bool" where
  "polite s (Handled an) \<longleftrightarrow>
     (case next_message (clock s) (queue s) of
        (None, q) \<Rightarrow> True
      | (Some m, q) \<Rightarrow> polite_acts (s\<lparr>queue := q\<rparr>) (an_acts an) \<and>
          (ends_connection (msg_kind m) \<longrightarrow> \<not> list_ex is_connect (an_acts an)))"
| "polite s (Calls as) \<longleftrightarrow> polite_acts s as"
| "polite s (Verified i) \<longleftrightarrow> m_bConnected (heap s ! i) \<and> Disconnect_directive \<notin> set (sig s)"
| "polite s _ \<longleftrightarrow> True"

inductive polite_run :: "inbound \<Rightarrow> (protocol \<Rightarrow> py \<Rightarrow> string) \<Rightarrow> link \<Rightarrow> link_event list \<Rightarrow> link \<Rightarrow> bool"
  for inb outb where
  polite_done: "polite_run inb outb s [] s"
| polite_more: "possible s ev \<Longrightarrow> polite s ev \<Longrightarrow> link_step inb outb ev s = Inr s1 \<Longrightarrow> polite_run inb outb s1 evs s2 \<Longrightarrow>
    polite_run inb outb s (ev # evs) s2"

section \<open>The invariant\<close>

text \<open>Nothing of a kind comes behind a message.\<close>

fun no_after :: "(conn_msg \<Rightarrow> bool) \<Rightarrow> conn_msg \<Rightarrow> conn_msg list \<Rightarrow> bool" where
  "no_after P k [] \<longleftrightarrow> True"
| "no_after P k (m # l) \<longleftrightarrow> (m = k \<longrightarrow> \<not> list_ex P l) \<and> no_after P k l"

lemma no_after_append:
  "no_after P k (l @ l') \<longleftrightarrow> no_after P k l \<and> no_after P k l' \<and> (k \<in> set l \<longrightarrow> \<not> list_ex P l')"
  by (induction l) auto

lemma in_marks: "is_mark k \<Longrightarrow> k \<in> set l \<longleftrightarrow> k \<in> set (marks l)"
  by (simp add: marks_def)

definition disconnects_first :: "conn_msg list \<Rightarrow> bool" where
  "disconnects_first l \<longleftrightarrow> no_after (\<lambda>k. k = Disconnect_directive \<or> is_onconnect k) Disconnect_directive l"

definition reads_first :: "conn_msg list \<Rightarrow> bool" where
  "reads_first l \<longleftrightarrow> no_after is_read (Disconnected_event True) l"

lemma onconnect_marks: "list_ex is_onconnect l \<longleftrightarrow> list_ex is_onconnect (marks l)"
proof -
  have "is_onconnect k \<Longrightarrow> is_mark k" for k by (cases k) simp_all
  then show ?thesis by (auto simp: marks_def list_ex_iff)
qed

lemma disconnects_first_simps [simp]:
  "disconnects_first []"
  "disconnects_first (k # l) \<longleftrightarrow>
    (k = Disconnect_directive \<longrightarrow> Disconnect_directive \<notin> set l \<and> \<not> list_ex is_onconnect (marks l)) \<and> disconnects_first l"
  "disconnects_first (l @ l') \<longleftrightarrow> disconnects_first l \<and> disconnects_first l' \<and>
    (Disconnect_directive \<in> set l \<longrightarrow> Disconnect_directive \<notin> set l' \<and> \<not> list_ex is_onconnect (marks l'))"
  using onconnect_marks [of l] onconnect_marks [of l']
  by (auto simp: disconnects_first_def no_after_append list_ex_iff)

lemma reads_first_simps [simp]:
  "reads_first []"
  "reads_first (k # l) \<longleftrightarrow> (k = Disconnected_event True \<longrightarrow> \<not> list_ex is_read l) \<and> reads_first l"
  "reads_first (l @ l') \<longleftrightarrow> reads_first l \<and> reads_first l' \<and>
    (Disconnected_event True \<in> set (marks l) \<longrightarrow> \<not> list_ex is_read l')"
  using in_marks [of "Disconnected_event True" l]
  by (auto simp: reads_first_def no_after_append)

text \<open>
  Where a transport stands: its flags and its pending operation (\<open>inn\<close>: it is in the list of the
  plugin), against the queued messages.
\<close>

definition onconnect_only :: "conn_msg list \<Rightarrow> bool" where
  "onconnect_only ms \<longleftrightarrow> (\<exists>target status. ms = [On_connect target status])"

definition phase :: "transport \<Rightarrow> bool \<Rightarrow> conn_msg list \<Rightarrow> bool \<Rightarrow> bool" where
  "phase t inn ms reading \<longleftrightarrow>
     (case tr_op t of
        Some Read_op \<Rightarrow> \<not> m_bConnecting t \<and> inn \<and> (ms = [] \<or> onconnect_only ms \<and> m_bConnected t)
      | Some _ \<Rightarrow> m_bConnecting t \<and> \<not> m_bConnected t \<and> inn \<and> ms = [] \<and> \<not> reading
      | None \<Rightarrow> \<not> m_bConnecting t \<and>
          (if inn
           then ms = [Disconnected_event True] \<or>
             (\<exists>target status. ms = [On_connect target status, Disconnected_event True]) \<and> (reading \<longrightarrow> m_bConnected t)
           else \<not> m_bConnected t \<and> \<not> reading \<and> (ms = [] \<or> ms = [Connect_directive] \<or> onconnect_only ms)))"

definition orderly :: "conn_msg list \<Rightarrow> bool" where
  "orderly l \<longleftrightarrow> disconnects_first l \<and> reads_first l \<and>
     (Disconnect_directive \<in> set l \<longrightarrow> Connect_directive \<notin> set (marks l))"

definition alive :: "transport \<Rightarrow> bool \<Rightarrow> bool \<Rightarrow> conn_msg list \<Rightarrow> bool" where
  "alive t inn target l \<longleftrightarrow> \<not> tr_freed t \<and> orderly l \<and> phase t inn (marks l) (list_ex is_read l) \<and>
     (Disconnect_directive \<in> set l \<longrightarrow> m_bConnected t) \<and>
     (target \<or> \<not> list_ex is_read l \<and> Connect_directive \<notin> set (marks l) \<and> tr_op t = None \<and> \<not> m_bConnected t)"

definition gone :: "bool \<Rightarrow> conn_msg list \<Rightarrow> bool" where
  "gone target l \<longleftrightarrow> orderly l \<and> \<not> list_ex is_read l \<and>
     (marks l = [] \<or> marks l = [Connect_directive] \<or> (\<exists>t. marks l = [On_disconnect t])) \<and>
     (target \<or> Connect_directive \<notin> set (marks l))"

definition plain_transport :: "transport \<Rightarrow> bool" where
  "plain_transport t \<longleftrightarrow> tr_kind t \<noteq> Serial \<and> \<not> tr_armed t \<and> tr_aborted t = 0 \<and> \<not> m_Timer t"

definition place :: "transport list \<Rightarrow> nat option \<Rightarrow> nat list \<Rightarrow> bool \<Rightarrow> conn_msg list \<Rightarrow> bool" where
  "place h p v target l \<longleftrightarrow> list_all plain_transport h \<and>
     (case p of
        None \<Rightarrow> v = [] \<and> list_all (\<lambda>t. tr_op t = None) h \<and> gone target l
      | Some i \<Rightarrow> i < length h \<and> (v = [] \<or> v = [i]) \<and> (\<forall>j < length h. j \<noteq> i \<longrightarrow> tr_op (h ! j) = None) \<and>
          alive (h ! i) (v = [i]) target l)"

definition link_ok :: "link \<Rightarrow> bool" where
  "link_ok s \<longleftrightarrow> Timeout s = 0 \<and> (cn_Transport s = ''TCP/IP'' \<or> cn_Transport s = ''TLS/IP'') \<and>
     list_all (\<lambda>m. m_Delay m \<longrightarrow> is_write (msg_kind m)) (queue s) \<and>
     place (heap s) (pTransport s) (cn_transports s) (Target s \<noteq> None) (sig s)"

lemma place_None: "place h None v target l \<longleftrightarrow>
    list_all plain_transport h \<and> v = [] \<and> list_all (\<lambda>t. tr_op t = None) h \<and> gone target l"
  by (simp add: place_def)

lemma place_Some: "place h (Some i) v target l \<longleftrightarrow> list_all plain_transport h \<and> i < length h \<and> (v = [] \<or> v = [i]) \<and>
    (\<forall>j < length h. j \<noteq> i \<longrightarrow> tr_op (h ! j) = None) \<and> alive (h ! i) (v = [i]) target l"
  by (simp add: place_def)

section \<open>Posting and taking\<close>

lemma sig_post [simp]: "sig (post k s) = sig s @ (if significant k then [k] else [])"
  by (simp add: sig_def post_def instant_def)

lemma sig_change [simp]: "sig (change i f s) = sig s"
  by (simp add: sig_def change_def)

lemma post_simps [simp]:
  "Timeout (post k s) = Timeout s" "cn_Transport (post k s) = cn_Transport s" "heap (post k s) = heap s"
  "pTransport (post k s) = pTransport s" "cn_transports (post k s) = cn_transports s" "Target (post k s) = Target s"
  "pProtocol (post k s) = pProtocol s" "clock (post k s) = clock s"
  "list_all (\<lambda>m. m_Delay m \<longrightarrow> is_write (msg_kind m)) (queue (post k s)) \<longleftrightarrow>
    list_all (\<lambda>m. m_Delay m \<longrightarrow> is_write (msg_kind m)) (queue s)"
  by (simp_all add: post_def instant_def)

lemma change_simps [simp]:
  "Timeout (change i f s) = Timeout s" "cn_Transport (change i f s) = cn_Transport s" "queue (change i f s) = queue s"
  "pTransport (change i f s) = pTransport s" "cn_transports (change i f s) = cn_transports s" "Target (change i f s) = Target s"
  "length (heap (change i f s)) = length (heap s)" "pProtocol (change i f s) = pProtocol s"
  by (simp_all add: change_def)

lemma post_neutral: "\<not> significant k \<Longrightarrow> link_ok (post k s) \<longleftrightarrow> link_ok s"
  by (simp add: link_ok_def)

lemma post_messages:
  "link_ok s \<Longrightarrow> link_ok (foldl (\<lambda>s m. post (On_message (Target s) m) s) s ms)"
  by (induction ms arbitrary: s) (simp_all add: post_neutral)


lemma taken_sig:
  assumes "list_all (\<lambda>m. m_Delay m \<longrightarrow> is_write (msg_kind m)) (queue s)" and "next_message c (queue s) = (Some m, q)"
  shows "sig s = (if significant (msg_kind m) then [msg_kind m] else []) @ sig (s\<lparr>queue := q\<rparr>) \<and>
    list_all (\<lambda>m. m_Delay m \<longrightarrow> is_write (msg_kind m)) q"
proof (cases rule: next_message_cases [of c "queue s"])
  case (some a n b)
  have "\<not> significant (msg_kind x)" if "x \<in> set a" for x
  proof -
    from that some(2) have "m_Delay x" by (auto simp: list_all_iff due_def)
    with that some(1) assms(1) have "is_write (msg_kind x)" by (simp add: list_all_iff)
    then show ?thesis by (cases "msg_kind x") simp_all
  qed
  then have "filter significant (map msg_kind a) = []" by (auto simp: filter_empty_conv)
  with some assms show ?thesis by (auto simp: sig_def)
qed (use assms in simp)

text \<open>Moves of the transport of the connection.\<close>

lemma place_update:
  assumes "place h (Some i) v target l" and "plain_transport t" and "alive t (v = [i]) target' l'"
  shows "place (h[i := t]) (Some i) v target' l'"
  using assms by (auto simp: place_Some list_all_length nth_list_update)

lemma place_delete:
  assumes "place h (Some i) v target l" and "tr_op (h ! i) = None" and "plain_transport t" and "tr_op t = None"
    and "gone target' l'"
  shows "place (h[i := t]) None (remove1 i v) target' l'"
  using assms by (auto simp: place_None place_Some list_all_length nth_list_update)

lemma place_new:
  assumes "place h p v target l" and "v = []" and "\<And>i. p = Some i \<Longrightarrow> tr_op (h ! i) = None"
    and "plain_transport t" and "alive t inn target' l'" and "v' = (if inn then [length h] else [])"
  shows "place (h @ [t]) (Some (length h)) v' target' l'"
proof -
  from assms(1,3) have "tr_op (h ! j) = None" if "j < length h" for j
    using that by (cases p) (auto simp: place_None place_Some list_all_length)
  with assms show ?thesis
    by (cases p) (auto simp: place_None place_Some list_all_length nth_append less_Suc_eq)
qed

lemma configure_plain: "plain_transport t \<Longrightarrow> configureTimeout 0 t = t"
  by (simp add: configureTimeout_def plain_transport_def)

lemmas state_defs = alive_def gone_def orderly_def phase_def onconnect_only_def

section \<open>Handlers of the transports\<close>

lemma pending_current:
  assumes "link_ok s" and "i < length (heap s)" and "tr_op (heap s ! i) \<noteq> None"
  shows "pTransport s = Some i" and "\<not> tr_freed (heap s ! i)" and "plain_transport (heap s ! i)"
    and "alive (heap s ! i) (cn_transports s = [i]) (Target s \<noteq> None) (sig s)"
proof -
  from assms show p: "pTransport s = Some i"
    by (cases "pTransport s") (auto simp: link_ok_def place_None place_Some list_all_length)
  from p assms show "alive (heap s ! i) (cn_transports s = [i]) (Target s \<noteq> None) (sig s)"
    by (simp add: link_ok_def place_Some)
  then show "\<not> tr_freed (heap s ! i)" by (simp add: alive_def)
  from p assms show "plain_transport (heap s ! i)" by (simp add: link_ok_def place_Some list_all_length)
qed

lemma io_update:
  assumes "link_ok s" and "i < length (heap s)" and "pTransport s = Some i"
    and "s' = s\<lparr>heap := (heap s)[i := t], queue := queue s @ map (instant (clock s)) ks\<rparr>"
    and "plain_transport t" and "alive t (cn_transports s = [i]) (Target s \<noteq> None) (sig s @ filter significant ks)"
  shows "link_ok s'"
proof -
  have "sig s' = sig s @ filter significant ks"
    by (simp add: assms(4) sig_def instant_def comp_def)
  moreover have "place (heap s') (Some i) (cn_transports s) (Target s \<noteq> None) (sig s @ filter significant ks)"
    using assms by (auto simp: link_ok_def intro: place_update)
  ultimately show ?thesis using assms(1,3,4) by (auto simp: link_ok_def list_all_iff instant_def)
qed

lemma resolve_ok:
  assumes "link_ok s" and "possible s (Resolved i err)"
  shows "link_ok (handleAsyncResolve err i s)"
proof -
  from assms(2) have o: "i < length (heap s)" "tr_op (heap s ! i) = Some Resolve" by simp_all
  from pending_current [OF assms(1) o(1)] o(2) have p: "pTransport s = Some i" "plain_transport (heap s ! i)"
    "alive (heap s ! i) (cn_transports s = [i]) (Target s \<noteq> None) (sig s)" by simp_all
  show ?thesis
  proof (cases "err = 0")
    case True
    with p o show ?thesis
      by (intro io_update [OF assms(1) o(1) p(1), where ks = "[]" and t = "(heap s ! i)\<lparr>tr_op := Some Connect_op\<rparr>"])
        (auto simp: handleAsyncResolve_def change_def plain_transport_def state_defs)
  next
    case False
    with p o show ?thesis
      by (intro io_update [OF assms(1) o(1) p(1), where ks = "[On_connect (Target s) err, Disconnected_event True]"
            and t = "(heap s ! i)\<lparr>m_bConnecting := False, tr_op := None\<rparr>"])
        (auto simp: handleAsyncResolve_def change_def post_def plain_transport_def state_defs)
  qed
qed

lemma connect_ok:
  assumes "link_ok s" and "possible s (Connected i err shaken)"
  shows "link_ok (handleAsyncConnect err shaken i s)"
proof -
  from assms(2) have o: "i < length (heap s)" "tr_op (heap s ! i) = Some Connect_op" by simp_all
  from pending_current [OF assms(1) o(1)] o(2) have p: "pTransport s = Some i" "plain_transport (heap s ! i)"
    "alive (heap s ! i) (cn_transports s = [i]) (Target s \<noteq> None) (sig s)" by simp_all
  have n: "Timeout s = 0" using assms(1) by (simp add: link_ok_def)
  consider "err \<noteq> 0" | "err = 0" "tr_kind (heap s ! i) = TLS" "\<not> shaken" | "err = 0" "tr_kind (heap s ! i) = TLS \<longrightarrow> shaken" by blast
  then show ?thesis
  proof cases
    case 1
    with p o show ?thesis
      by (intro io_update [OF assms(1) o(1) p(1), where ks = "[On_connect (Target s) err, Disconnected_event True]"
            and t = "(heap s ! i)\<lparr>m_bConnected := False, tr_op := None, m_bConnecting := False\<rparr>"])
        (auto simp: handleAsyncConnect_def change_def post_def plain_transport_def state_defs)
  next
    case 2
    with p o show ?thesis
      by (intro io_update [OF assms(1) o(1) p(1), where ks = "[Disconnected_event True]"
            and t = "(heap s ! i)\<lparr>tr_op := None, m_bConnecting := False\<rparr>"])
        (auto simp: handleAsyncConnect_def change_def post_def plain_transport_def state_defs)
  next
    case 3
    with p o n show ?thesis
      by (intro io_update [OF assms(1) o(1) p(1), where ks = "[On_connect (Target s) 0]"
            and t = "(heap s ! i)\<lparr>m_bConnected := True, tr_op := Some Read_op, m_bConnecting := False\<rparr>"])
        (auto simp: handleAsyncConnect_def change_def post_def plain_transport_def configureTimeout_def state_defs)
  qed
qed

lemma read_ok:
  assumes "link_ok s" and "possible s (Received i data)"
  shows "link_ok (handleRead data i s)"
proof -
  from assms(2) have o: "i < length (heap s)" "tr_op (heap s ! i) = Some Read_op" by simp_all
  from pending_current [OF assms(1) o(1)] o(2) have p: "pTransport s = Some i" "plain_transport (heap s ! i)"
    "alive (heap s ! i) (cn_transports s = [i]) (Target s \<noteq> None) (sig s)" by simp_all
  have n: "Timeout s = 0" using assms(1) by (simp add: link_ok_def)
  from p o n show ?thesis
    by (intro io_update [OF assms(1) o(1) p(1), where ks = "[Read_event data]"
          and t = "(heap s ! i)\<lparr>m_iTotalBytes := m_iTotalBytes (heap s ! i) + length data\<rparr>"])
      (auto simp: handleRead_def change_def post_def plain_transport_def configureTimeout_def state_defs)
qed

lemma lost_ok:
  assumes "link_ok s" and "possible s (Lost i)"
  shows "link_ok (read_failed i s)"
proof -
  from assms(2) have o: "i < length (heap s)" "tr_op (heap s ! i) = Some Read_op" by simp_all
  from pending_current [OF assms(1) o(1)] o(2) have p: "pTransport s = Some i" "plain_transport (heap s ! i)"
    "alive (heap s ! i) (cn_transports s = [i]) (Target s \<noteq> None) (sig s)" by simp_all
  from p o show ?thesis
    by (intro io_update [OF assms(1) o(1) p(1), where ks = "[Disconnected_event True]"
          and t = "(heap s ! i)\<lparr>tr_op := None, m_bDisconnectQueued := True\<rparr>"])
      (auto simp: read_failed_def change_def post_def plain_transport_def state_defs)
qed

lemma verify_ok:
  assumes "link_ok s" and "possible s (Verified i)" and "polite s (Verified i)"
  shows "link_ok (VerifyConnection i s)" and "\<not> tr_freed (heap s ! i)"
proof -
  from assms(1,2) have p: "pTransport s = Some i" "i < length (heap s)" "plain_transport (heap s ! i)" "cn_transports s = [i]"
    "alive (heap s ! i) (cn_transports s = [i]) (Target s \<noteq> None) (sig s)"
    by (cases "pTransport s"; auto simp: link_ok_def place_None place_Some list_all_length)+
  from p(5) show "\<not> tr_freed (heap s ! i)" by (simp add: alive_def)
  show "link_ok (VerifyConnection i s)"
  proof (cases "m_bDisconnectQueued (heap s ! i)")
    case False
    with p assms(3) show ?thesis
      by (intro io_update [OF assms(1) p(2,1), where ks = "[Disconnect_directive]"
            and t = "(heap s ! i)\<lparr>m_bDisconnectQueued := True\<rparr>"])
        (auto simp: VerifyConnection_def change_def post_def plain_transport_def state_defs split: option.splits op.splits)
  qed (use assms(1) in \<open>simp add: VerifyConnection_def\<close>)
qed

section \<open>Methods of the connection\<close>

lemma act_frame [simp]:
  "heap (act a s) = heap s" "pTransport (act a s) = pTransport s" "cn_transports (act a s) = cn_transports s"
  by (cases a; simp add: CConnection_connect_def CConnection_send_def CConnection_disconnect_def)+

lemma act_target: "\<not> is_connect a \<Longrightarrow> Target (act a s) = Target s \<and> marks (sig (act a s)) = marks (sig s)"
  by (cases a) (auto simp: CConnection_send_def CConnection_disconnect_def sig_def WriteDirective_def instant_def post_def)

lemma acts_Cons [simp]: "acts [] s = s" "acts (a # as) s = acts as (act a s)"
  by (simp_all add: acts_def)

lemma acts_frame [simp]:
  "heap (acts as s) = heap s" "pTransport (acts as s) = pTransport s" "cn_transports (acts as s) = cn_transports s"
  by (induction as arbitrary: s) simp_all

lemma acts_target:
  "\<not> list_ex is_connect as \<Longrightarrow> Target (acts as s) = Target s \<and> marks (sig (acts as s)) = marks (sig s)"
  by (induction as arbitrary: s) (simp_all add: act_target)

lemma none_facts:
  assumes "link_ok s" and "pTransport s = None"
  shows "cn_transports s = []" and "list_all (\<lambda>t. tr_op t = None) (heap s)" and "gone (Target s \<noteq> None) (sig s)"
  using assms by (auto simp: link_ok_def place_None)

lemma some_facts:
  assumes "link_ok s" and "pTransport s = Some i"
  shows "i < length (heap s)" and "plain_transport (heap s ! i)" and "cn_transports s = [] \<or> cn_transports s = [i]"
    and "alive (heap s ! i) (cn_transports s = [i]) (Target s \<noteq> None) (sig s)"
  using assms by (auto simp: link_ok_def place_Some list_all_length)

text \<open>A change of the target and of what is queued.\<close>

lemma queue_update:
  assumes "link_ok s" and "heap s' = heap s" and "pTransport s' = pTransport s" and "cn_transports s' = cn_transports s"
    and "cn_Transport s' = cn_Transport s" and "Timeout s' = 0"
    and "list_all (\<lambda>m. m_Delay m \<longrightarrow> is_write (msg_kind m)) (queue s')"
    and "pTransport s = None \<Longrightarrow> gone (Target s' \<noteq> None) (sig s')"
    and "\<And>i. pTransport s = Some i \<Longrightarrow> alive (heap s ! i) (cn_transports s = [i]) (Target s' \<noteq> None) (sig s')"
  shows "link_ok s'"
  using assms by (cases "pTransport s") (auto simp: link_ok_def place_None place_Some)

lemma connect_act_ok:
  assumes "link_ok s" and "polite_act s (Connect target timeout)"
  shows "link_ok (CConnection_connect target timeout s)"
proof (cases "IsConnecting s \<or> IsConnected s")
  case False
  let ?s = "CConnection_connect target timeout s"
  have g: "sig ?s = sig s @ [Connect_directive]" "Target ?s = Some target"
    using False by (simp_all add: CConnection_connect_def) (simp add: sig_def)
  from assms(2) have m: "marks (sig s) = []" "Disconnect_directive \<notin> set (sig s)" by (simp_all add: settled_def)
  show ?thesis
  proof (rule queue_update [OF assms(1)])
    assume "pTransport s = None"
    with m g none_facts(3) [OF assms(1)] show "gone (Target ?s \<noteq> None) (sig ?s)"
      by (auto simp: gone_def orderly_def)
  next
    fix i
    assume p: "pTransport s = Some i"
    with assms(2) have "tr_op (heap s ! i) = None" by (simp add: settled_def)
    with some_facts(4) [OF assms(1) p] m g show "alive (heap s ! i) (cn_transports s = [i]) (Target ?s \<noteq> None) (sig ?s)"
      by (auto simp: state_defs split: if_splits)
  qed (use False assms in \<open>auto simp: CConnection_connect_def link_ok_def\<close>)
qed (use assms(1) in \<open>simp add: CConnection_connect_def\<close>)

lemma disconnect_act_ok:
  assumes "link_ok s" and "polite_act s Disconnect"
  shows "link_ok (CConnection_disconnect s)"
proof (cases "IsConnected s")
  case True
  then obtain i where p: "pTransport s = Some i" "m_bConnected (heap s ! i)"
    by (auto simp: IsConnected_def split: option.splits)
  show ?thesis
  proof (rule queue_update [OF assms(1)])
    fix j
    assume "pTransport s = Some j"
    with p some_facts(4) [OF assms(1)] True assms(2) show "alive (heap s ! j) (cn_transports s = [j]) (Target (CConnection_disconnect s) \<noteq> None)
        (sig (CConnection_disconnect s))"
      by (auto simp: CConnection_disconnect_def state_defs split: option.splits op.splits if_splits)
  qed (use p True assms in \<open>auto simp: CConnection_disconnect_def link_ok_def\<close>)
next
  case False
  with assms show ?thesis by (simp add: CConnection_disconnect_def)
qed

lemma act_ok: "link_ok s \<Longrightarrow> polite_act s a \<Longrightarrow> link_ok (act a s)"
proof (cases a)
  case (Send d n)
  assume "link_ok s"
  moreover have "sig (act a s) = sig s"
    by (simp add: Send CConnection_send_def sig_def WriteDirective_def instant_def)
  ultimately show ?thesis
    by (auto simp: Send CConnection_send_def link_ok_def WriteDirective_def instant_def)
qed (auto intro: connect_act_ok disconnect_act_ok)

lemma acts_ok: "link_ok s \<Longrightarrow> polite_acts s as \<Longrightarrow> link_ok (acts as s)"
  by (induction as arbitrary: s) (simp_all add: act_ok)

section \<open>Messages\<close>

text \<open>What the first message says about the connection, and that it may be taken.\<close>

lemma taken_facts:
  assumes "link_ok s" and "next_message (clock s) (queue s) = (Some m, q)"
  shows "sig s = (if significant (msg_kind m) then [msg_kind m] else []) @ sig (s\<lparr>queue := q\<rparr>)"
    and "list_all (\<lambda>m. m_Delay m \<longrightarrow> is_write (msg_kind m)) q"
  using taken_sig [OF _ assms(2)] assms(1) by (auto simp: link_ok_def)

lemma taken_ok:
  assumes "link_ok s" and "next_message (clock s) (queue s) = (Some m, q)" and "\<forall>b. msg_kind m \<noteq> Disconnected_event b"
  shows "link_ok (s\<lparr>queue := q\<rparr>)"
proof (rule queue_update [OF assms(1)])
  note t = taken_facts(1) [OF assms(1,2)]
  assume "pTransport s = None"
  from none_facts(3) [OF assms(1) this] show "gone (Target (s\<lparr>queue := q\<rparr>) \<noteq> None) (sig (s\<lparr>queue := q\<rparr>))"
    unfolding t using assms(3) by (cases "msg_kind m") (auto simp: gone_def orderly_def)
next
  note t = taken_facts(1) [OF assms(1,2)]
  fix i
  assume "pTransport s = Some i"
  from some_facts(4) [OF assms(1) this]
  show "alive (heap s ! i) (cn_transports s = [i]) (Target (s\<lparr>queue := q\<rparr>) \<noteq> None) (sig (s\<lparr>queue := q\<rparr>))"
    unfolding t using assms(3) by (cases "msg_kind m") (auto simp: state_defs split: option.splits op.splits if_splits)
qed (use assms taken_facts(2) [OF assms(1,2)] in \<open>auto simp: link_ok_def\<close>)

lemma link_ok_other [simp]:
  "link_ok (s\<lparr>pProtocol := x\<rparr>) \<longleftrightarrow> link_ok s" "link_ok (s\<lparr>calls := y\<rparr>) \<longleftrightarrow> link_ok s"
  "link_ok (s\<lparr>wire := w\<rparr>) \<longleftrightarrow> link_ok s" "link_ok (s\<lparr>clock := n\<rparr>) \<longleftrightarrow> link_ok s"
  by (simp_all add: link_ok_def sig_def)

lemma flush_ok: "link_ok s \<Longrightarrow> link_ok (flush_protocol s)"
  by (simp add: flush_protocol_def post_messages split: option.splits prod.splits)

lemma messages_frame [simp]:
  fixes ms :: "PluginText.message list"
  defines "f \<equiv> \<lambda>s. foldl (\<lambda>s m. post (On_message (Target s) m) s) s ms"
  shows "heap (f s) = heap s" "pTransport (f s) = pTransport s" "cn_transports (f s) = cn_transports s"
    "Target (f s) = Target s" "sig (f s) = sig s"
  unfolding f_def by (induction ms arbitrary: s) simp_all

lemma sig_pProtocol [simp]: "sig (s\<lparr>pProtocol := x\<rparr>) = sig s"
  by (simp add: sig_def)

lemma flush_frame [simp]:
  "heap (flush_protocol s) = heap s" "pTransport (flush_protocol s) = pTransport s"
  "cn_transports (flush_protocol s) = cn_transports s" "Target (flush_protocol s) = Target s"
  "sig (flush_protocol s) = sig s"
  by (simp_all add: flush_protocol_def split: option.splits prod.splits)

lemma write_message_ok:
  assumes "link_ok s"
  shows "\<exists>s'. ConnectionWrite outb ok data s = Inr s' \<and> link_ok s'"
proof (cases "case pTransport s of None \<Rightarrow> cn_Transport s \<noteq> ''UDP/IP''
    | Some i \<Rightarrow> cn_Transport s = ''UDP/IP'' \<or> cn_Transport s \<noteq> ''ICMP/IP'' \<and> \<not> m_bConnected (heap s ! i)")
  case True
  with assms show ?thesis by (simp add: ConnectionWrite_def)
next
  case False
  have "cn_Transport s \<noteq> ''UDP/IP''" "cn_Transport s \<noteq> ''ICMP/IP''" using assms by (auto simp: link_ok_def)
  with False obtain i where p: "pTransport s = Some i" "m_bConnected (heap s ! i)" by (auto split: option.splits)
  note f = some_facts [OF assms p(1)]
  have w: "Target (with_protocol s) = Target s" "pTransport (with_protocol s) = Some i" "heap (with_protocol s) = heap s"
    "link_ok (with_protocol s)" "sig (with_protocol s) = sig s"
    using assms p by (auto simp: with_protocol_def)
  from f(4) p(2) have t: "Target s \<noteq> None" by (auto simp: alive_def)
  have "link_ok (change i (\<lambda>t. t\<lparr>m_iTotalBytes := m_iTotalBytes t + n\<rparr>) (with_protocol s))" for n
    using f w t by (intro io_update [OF w(4) _ w(2), where ks = "[]" and
        t = "(heap s ! i)\<lparr>m_iTotalBytes := m_iTotalBytes (heap s ! i) + n\<rparr>"])
      (auto simp: change_def plain_transport_def state_defs with_protocol_def split: option.splits op.splits)
  with False t w show ?thesis by (simp add: ConnectionWrite_def Let_def handleWrite_def)
qed

lemma read_message_ok:
  assumes "link_ok s" and "Target s \<noteq> None"
  shows "case ConnectionRead inb data s of Inl f \<Rightarrow> f = Protocol_throws | Inr s' \<Rightarrow> link_ok s'"
  using assms by (auto simp: ConnectionRead_def post_messages split: option.splits prod.splits)

lemma connect_message_ok:
  assumes "link_ok s" and "marks (sig s) = []" and "Disconnect_directive \<notin> set (sig s)" and "\<not> list_ex is_read (sig s)"
    and "cn_transports s = []" and "Target s \<noteq> None" and "\<And>i. pTransport s = Some i \<Longrightarrow> tr_op (heap s ! i) = None"
  shows "link_ok (ConnectionConnect ok s)"
proof -
  define s1 where "s1 = with_protocol s"
  have w: "link_ok s1" "marks (sig s1) = []" "Disconnect_directive \<notin> set (sig s1)" "\<not> list_ex is_read (sig s1)"
    "cn_transports s1 = []" "Target s1 \<noteq> None" "\<And>i. pTransport s1 = Some i \<Longrightarrow> tr_op (heap s1 ! i) = None" "Timeout s1 = 0"
    using assms by (auto simp: s1_def with_protocol_def link_ok_def)
  from w(1) have pl: "place (heap s1) (pTransport s1) (cn_transports s1) (Target s1 \<noteq> None) (sig s1)"
    by (simp add: link_ok_def)
  have o: "orderly (sig s1)" using w(1) by (cases "pTransport s1") (auto dest: none_facts(3) some_facts(4) simp: state_defs)
  have "\<not> IsConnected s"
    using assms(1,5,7) some_facts(4) [OF assms(1)] by (auto simp: IsConnected_def state_defs split: option.splits)
  moreover have "link_ok (if started then s2 else RemoveConnection (length (heap s1)) s2)"
    if k: "transport_kind s1 = Some k" and h: "handleConnect ok (length (heap s1)) (AddConnection (length (heap s1))
        (s1\<lparr>heap := heap s1 @ [new_transport k], pTransport := Some (length (heap s1))\<rparr>)) = (started, s2)" for k started s2
  proof -
    from k w(1) have n: "k \<noteq> Serial" by (auto simp: transport_kind_def link_ok_def split: if_splits)
    let ?u = "(new_transport k)\<lparr>tr_op := Some Resolve, m_bConnecting := True\<rparr>"
    have "place (heap s1 @ [?u]) (Some (length (heap s1))) [length (heap s1)] (Target s1 \<noteq> None) (sig s1)"
      using n w o by (intro place_new [OF pl w(5,7), where inn = True])
        (auto simp: plain_transport_def new_transport_def state_defs)
    moreover have "place (heap s1 @ [new_transport k]) (Some (length (heap s1))) [] (Target s1 \<noteq> None)
        (sig s1 @ [On_connect (Target s1) (- 1)])"
      using n w o by (intro place_new [OF pl w(5,7), where inn = False])
        (auto simp: plain_transport_def new_transport_def state_defs)
    moreover have "sig (AddConnection i v) = sig v" "sig (v\<lparr>heap := x\<rparr>) = sig v" "sig (v\<lparr>pTransport := z\<rparr>) = sig v"
        "sig (RemoveConnection i v) = sig v" for i v x z
      by (simp_all add: sig_def AddConnection_def RemoveConnection_def)
    ultimately show ?thesis
      using h n w(1,5) by (cases ok) (auto simp: handleConnect_def AddConnection_def RemoveConnection_def change_def link_ok_def
          new_transport_def post_def instant_def sig_def)
  qed
  ultimately show ?thesis
    using w(1) by (auto simp: ConnectionConnect_def s1_def [symmetric] Let_def split: option.splits prod.splits)
qed

lemma disconnect_message_ok:
  assumes "link_ok s" and "\<And>i. pTransport s = Some i \<Longrightarrow> m_bConnected (heap s ! i)"
    and "Disconnect_directive \<notin> set (sig s)" and "\<not> list_ex is_onconnect (marks (sig s))"
  shows "link_ok (ConnectionDisconnect s)"
proof (cases "pTransport s")
  case None
  with assms(1) flush_ok show ?thesis by (simp add: ConnectionDisconnect_def)
next
  case (Some i)
  let ?s = "flush_protocol s"
  note f = some_facts [OF assms(1) Some]
  have "link_ok (change i (\<lambda>t. t\<lparr>m_bConnected := False\<rparr>) ?s)"
    using f assms(2) [OF Some] assms(3,4) Some
    by (intro io_update [OF flush_ok [OF assms(1)], where ks = "[]" and t = "(heap s ! i)\<lparr>m_bConnected := False\<rparr>" and i = i])
      (auto simp: change_def plain_transport_def state_defs split: option.splits op.splits if_splits)
  moreover have "ConnectionDisconnect s = change i (\<lambda>t. t\<lparr>m_bConnected := False\<rparr>) ?s"
    using f assms(2) [OF Some] Some
    by (simp add: ConnectionDisconnect_def AsyncDisconnect_def handleDisconnect_def Let_def plain_transport_def change_def)
  ultimately show ?thesis by simp
qed

lemma disconnected_message_ok:
  assumes "link_ok s" and "next_message (clock s) (queue s) = (Some m, q)" and "msg_kind m = Disconnected_event b"
  shows "link_ok (DisconnectEvent b (s\<lparr>queue := q\<rparr>))"
proof -
  let ?s = "flush_protocol (s\<lparr>queue := q\<rparr>)"
  have t: "sig s = Disconnected_event b # sig (s\<lparr>queue := q\<rparr>)"
    using taken_facts(1) [OF assms(1,2)] assms(3) by simp
  have fk: "list_all (\<lambda>m. m_Delay m \<longrightarrow> is_write (msg_kind m)) (queue (foldl (\<lambda>s m. post (On_message (Target s) m) s) u ms))"
    if "list_all (\<lambda>m. m_Delay m \<longrightarrow> is_write (msg_kind m)) (queue u)" for u ms
    using that by (induction ms arbitrary: u) simp_all
  have delays: "list_all (\<lambda>m. m_Delay m \<longrightarrow> is_write (msg_kind m)) (queue ?s)"
    using taken_facts(2) [OF assms(1,2)] by (auto simp: flush_protocol_def fk split: option.splits prod.splits)
  have c: "cn_Transport ?s = cn_Transport s" "Timeout ?s = Timeout s"
  proof -
    have "cn_Transport (foldl (\<lambda>s m. post (On_message (Target s) m) s) u ms) = cn_Transport u \<and>
        Timeout (foldl (\<lambda>s m. post (On_message (Target s) m) s) u ms) = Timeout u" for u and ms :: "PluginText.message list"
      by (induction ms arbitrary: u) simp_all
    then show "cn_Transport ?s = cn_Transport s" "Timeout ?s = Timeout s"
      by (simp_all add: flush_protocol_def split: option.splits prod.splits)
  qed
  show ?thesis
  proof (cases "pTransport s")
    case None
    from none_facts(3) [OF assms(1) None] show ?thesis unfolding t by (auto simp: gone_def)
  next
    case (Some i)
    note f = some_facts [OF assms(1) Some]
    from f(4) have a: "b" "tr_op (heap s ! i) = None" "marks (sig (s\<lparr>queue := q\<rparr>)) = []" "\<not> list_ex is_read (sig (s\<lparr>queue := q\<rparr>))"
        "orderly (sig (s\<lparr>queue := q\<rparr>))"
      unfolding t by (auto simp: state_defs split: option.splits op.splits if_splits)
    let ?t = "(heap s ! i)\<lparr>tr_freed := True, m_Timer := False, tr_open := False, tr_op := None\<rparr>"
    have "place ((heap s)[i := ?t]) None (remove1 i (cn_transports s)) (Target s \<noteq> None)
        (sig (s\<lparr>queue := q\<rparr>) @ [On_disconnect (Target s)])"
    proof (rule place_delete)
      show "place (heap s) (Some i) (cn_transports s) (Target s \<noteq> None) (sig s)" using assms(1) Some by (simp add: link_ok_def)
    qed (use f a in \<open>auto simp: plain_transport_def gone_def orderly_def\<close>)
    moreover have "DisconnectEvent b (s\<lparr>queue := q\<rparr>) =
        post (On_disconnect (Target s)) (?s\<lparr>heap := (heap s)[i := ?t], cn_transports := remove1 i (cn_transports s), pTransport := None\<rparr>)"
      using f a Some by (simp add: DisconnectEvent_def Let_def delete_transport_def change_def RemoveConnection_def plain_transport_def
          post_def)
    moreover have "sig (v\<lparr>heap := h, cn_transports := x, pTransport := z\<rparr>) = sig v" for v h x z by (simp add: sig_def)
    ultimately show ?thesis using assms(1) delays c by (simp add: link_ok_def)
  qed
qed

lemma target_lost_ok:
  assumes "link_ok s" and "pTransport s = None \<Longrightarrow> Connect_directive \<notin> set (marks (sig s))"
    and "\<And>i. pTransport s = Some i \<Longrightarrow> Connect_directive \<notin> set (marks (sig s)) \<and> \<not> list_ex is_read (sig s) \<and>
      tr_op (heap s ! i) = None \<and> \<not> m_bConnected (heap s ! i)"
  shows "link_ok (s\<lparr>Target := None\<rparr>)"
proof (rule queue_update [OF assms(1)])
  have "sig (s\<lparr>Target := None\<rparr>) = sig s" by (simp add: sig_def)
  then show "pTransport s = None \<Longrightarrow> gone (Target (s\<lparr>Target := None\<rparr>) \<noteq> None) (sig (s\<lparr>Target := None\<rparr>))"
    and "\<And>i. pTransport s = Some i \<Longrightarrow>
      alive (heap s ! i) (cn_transports s = [i]) (Target (s\<lparr>Target := None\<rparr>) \<noteq> None) (sig (s\<lparr>Target := None\<rparr>))"
    using none_facts(3) [OF assms(1)] some_facts(4) [OF assms(1)] assms(2,3) by (auto simp: gone_def alive_def)
qed (use assms(1) in \<open>simp_all add: link_ok_def\<close>)

lemma acts_reads: "list_ex is_read (sig (acts as s)) = list_ex is_read (sig s)"
proof (induction as arbitrary: s)
  case (Cons a as)
  have "list_ex is_read (sig (act a s)) = list_ex is_read (sig s)"
    by (cases a) (auto simp: CConnection_connect_def CConnection_send_def CConnection_disconnect_def sig_def WriteDirective_def
        instant_def post_def)
  with Cons show ?case by simp
qed simp

lemma calls_frame [simp]:
  "IsConnecting (s\<lparr>calls := x\<rparr>) = IsConnecting s" "IsConnected (s\<lparr>calls := x\<rparr>) = IsConnected s"
  "sig (s\<lparr>calls := x\<rparr>) = sig s" "settled (s\<lparr>calls := x\<rparr>) = settled s"
  by (simp_all add: IsConnecting_def IsConnected_def sig_def settled_def split: option.splits)

lemma polite_acts_cong: "polite_acts (s\<lparr>calls := x\<rparr>) as \<longleftrightarrow> polite_acts s as"
proof (induction as arbitrary: s)
  case (Cons a as)
  have "act a (s\<lparr>calls := x\<rparr>) = (act a s)\<lparr>calls := x\<rparr>"
    by (cases a) (simp_all add: CConnection_connect_def CConnection_send_def CConnection_disconnect_def post_def)
  moreover have "polite_act (s\<lparr>calls := x\<rparr>) a \<longleftrightarrow> polite_act s a"
    by (cases a) simp_all
  ultimately show ?case using Cons by simp
qed simp

lemma Callback_ok:
  "link_ok s \<Longrightarrow> polite_acts s as \<Longrightarrow> link_ok (Callback target c as s)"
  by (simp add: Callback_def acts_ok polite_acts_cong)

lemma onconnect_message_ok:
  assumes "link_ok s" and "next_message (clock s) (queue s) = (Some m, q)" and "msg_kind m = On_connect (Some target) status"
    and "polite s (Handled an)"
  shows "\<exists>s'. process inb outb an (msg_kind m) (s\<lparr>queue := q\<rparr>) = Inr s' \<and> link_ok s'"
proof -
  let ?s = "s\<lparr>queue := q\<rparr>" and ?c = "Callback target (Call_connect status) (an_acts an) (s\<lparr>queue := q\<rparr>)"
  have k: "link_ok ?s" using assms(2,3) by (intro taken_ok [OF assms(1)]) auto
  have t: "sig s = On_connect (Some target) status # sig ?s"
    using taken_facts(1) [OF assms(1,2)] assms(3) by simp
  from assms(2-4) have a: "polite_acts ?s (an_acts an)" "\<not> list_ex is_connect (an_acts an)" by auto
  have c: "link_ok ?c" using k a(1) by (rule Callback_ok)
  have f: "pTransport ?c = pTransport s" "heap ?c = heap s" "Target ?c = Target s" "marks (sig ?c) = marks (sig ?s)"
      "list_ex is_read (sig ?c) = list_ex is_read (sig ?s)"
    using acts_target [OF a(2)] by (simp_all add: Callback_def acts_reads)
  show ?thesis
  proof (cases "pTransport s")
    case None
    from none_facts(3) [OF assms(1) this] show ?thesis unfolding t by (auto simp: gone_def)
  next
    case (Some i)
    from some_facts(4) [OF assms(1) Some] have n: "\<not> m_bConnected (heap s ! i) \<Longrightarrow>
        Connect_directive \<notin> set (marks (sig ?s)) \<and> \<not> list_ex is_read (sig ?s) \<and> tr_op (heap s ! i) = None"
      unfolding t by (auto simp: state_defs split: option.splits op.splits if_splits)
    have "link_ok (?c\<lparr>Target := None\<rparr>)" if "\<not> m_bConnected (heap s ! i)"
      using n [OF that] that Some f by (intro target_lost_ok [OF c]) auto
    with c Some f assms(3) show ?thesis by (simp add: Let_def)
  qed
qed

lemma ondisconnect_message_ok:
  assumes "link_ok s" and "next_message (clock s) (queue s) = (Some m, q)" and "msg_kind m = On_disconnect (Some target)"
    and "polite s (Handled an)"
  shows "\<exists>s'. process inb outb an (msg_kind m) (s\<lparr>queue := q\<rparr>) = Inr s' \<and> link_ok s'"
proof -
  let ?s = "s\<lparr>queue := q\<rparr>" and ?c = "Callback target Call_disconnect (an_acts an) (s\<lparr>queue := q\<rparr>)"
  have k: "link_ok ?s" using assms(2,3) by (intro taken_ok [OF assms(1)]) auto
  have t: "sig s = On_disconnect (Some target) # sig ?s"
    using taken_facts(1) [OF assms(1,2)] assms(3) by simp
  from assms(2-4) have a: "polite_acts ?s (an_acts an)" "\<not> list_ex is_connect (an_acts an)" by auto
  have c: "link_ok ?c" using k a(1) by (rule Callback_ok)
  have f: "pTransport ?c = pTransport s" "marks (sig ?c) = marks (sig ?s)"
    using acts_target [OF a(2)] by (simp_all add: Callback_def)
  have n: "pTransport s = None"
  proof (cases "pTransport s")
    case (Some i)
    from some_facts(4) [OF assms(1) this] show ?thesis
      unfolding t by (auto simp: state_defs split: option.splits op.splits if_splits)
  qed
  from none_facts(3) [OF assms(1) n] have "marks (sig ?s) = []" unfolding t by (auto simp: gone_def)
  with n f have "link_ok (?c\<lparr>Target := None\<rparr>)" by (intro target_lost_ok [OF c]) auto
  with assms(3) show ?thesis by simp
qed

lemma work_ok:
  assumes "link_ok s" and "polite s (Handled an)"
  shows "case Work inb outb an s of Inl f \<Rightarrow> f = Protocol_throws | Inr s' \<Rightarrow> link_ok s'"
proof (cases "next_message (clock s) (queue s)")
  case (Pair r q)
  show ?thesis
  proof (cases r)
    case None
    with Pair have "q = queue s" by (cases rule: next_message_cases [of "clock s" "queue s"]) auto
    with None Pair assms(1) show ?thesis by (simp add: Work_def)
  next
    case (Some m)
    with Pair have nx: "next_message (clock s) (queue s) = (Some m, q)" by simp
    let ?s = "s\<lparr>queue := q\<rparr>"
    note t = taken_facts(1) [OF assms(1) nx]
    have k: "link_ok ?s" if "\<forall>b. msg_kind m \<noteq> Disconnected_event b" using taken_ok [OF assms(1) nx that] .
    have a: "polite_acts ?s (an_acts an)" using assms(2) nx by simp
    have "case process inb outb an (msg_kind m) ?s of Inl f \<Rightarrow> f = Protocol_throws | Inr s' \<Rightarrow> link_ok s'"
    proof (cases "msg_kind m")
      case Protocol_directive
      with k show ?thesis by (simp add: ConnectionProtocol_def)
    next
      case Connect_directive
      with k have k': "link_ok ?s" by simp
      from Connect_directive t have t': "sig s = Connect_directive # sig ?s" by simp
      have "link_ok (ConnectionConnect (an_connect an) ?s)"
        using none_facts(1,3) [OF assms(1)] some_facts(3,4) [OF assms(1)] unfolding t'
        by (intro connect_message_ok [OF k']; cases "pTransport s")
          (auto simp: state_defs split: option.splits op.splits if_splits)
      with Connect_directive show ?thesis by simp
    next
      case (Write_directive data)
      with k write_message_ok [of ?s outb "an_write an" data] show ?thesis by auto
    next
      case Disconnect_directive
      with k have k': "link_ok ?s" by simp
      from Disconnect_directive t have t': "sig s = Disconnect_directive # sig ?s" by simp
      have "link_ok (ConnectionDisconnect ?s)"
        using none_facts(3) [OF assms(1)] some_facts(4) [OF assms(1)] unfolding t'
        by (intro disconnect_message_ok [OF k']; cases "pTransport s") (auto simp: gone_def alive_def orderly_def)
      with Disconnect_directive show ?thesis by simp
    next
      case (Read_event data)
      with k have k': "link_ok ?s" by simp
      from Read_event t have t': "sig s = Read_event data # sig ?s" by simp
      have "Target ?s \<noteq> None"
        using none_facts(3) [OF assms(1)] some_facts(4) [OF assms(1)] unfolding t'
        by (cases "pTransport s") (auto simp: gone_def alive_def)
      with read_message_ok [OF k'] Read_event show ?thesis by simp
    next
      case (Disconnected_event b)
      with disconnected_message_ok [OF assms(1) nx] show ?thesis by simp
    next
      case (On_connect target status)
      then show ?thesis
      proof (cases target)
        case (Some x)
        with onconnect_message_ok [OF assms(1) nx _ assms(2), of x status inb outb] On_connect show ?thesis by auto
      qed (use k in simp)
    next
      case (On_message target msg)
      with k Callback_ok [OF _ a] show ?thesis by (cases target) auto
    next
      case (On_timeout target)
      with k Callback_ok [OF _ a] show ?thesis by (cases target) auto
    next
      case (On_disconnect target)
      then show ?thesis
      proof (cases target)
        case (Some x)
        with ondisconnect_message_ok [OF assms(1) nx _ assms(2), of x inb outb] On_disconnect show ?thesis by auto
      qed (use k in simp)
    qed
    with nx show ?thesis by (simp add: Work_def)
  qed
qed

section \<open>Polite plugins\<close>

lemma step_ok:
  assumes "link_ok s" and "possible s ev" and "polite s ev"
  shows "case link_step inb outb ev s of Inl f \<Rightarrow> f = Protocol_throws | Inr s' \<Rightarrow> link_ok s'"
proof -
  have no: "\<not> tr_armed (heap s ! i) \<and> tr_aborted (heap s ! i) = 0" if "i < length (heap s)" for i
    using assms(1) that by (cases "pTransport s") (auto simp: link_ok_def place_None place_Some plain_transport_def list_all_length)
  show ?thesis
  proof (cases ev)
    case (Handled an)
    with work_ok [OF assms(1)] assms(3) show ?thesis by simp
  next
    case (Calls as)
    with acts_ok [OF assms(1)] assms(3) show ?thesis by simp
  qed (use assms no pending_current(2) resolve_ok connect_ok read_ok lost_ok verify_ok in \<open>auto simp: on_transport_def\<close>)
qed

lemma polite_run_ok: "polite_run inb outb s evs s' \<Longrightarrow> link_ok s \<Longrightarrow> link_ok s'"
proof (induction rule: polite_run.induct)
  case (polite_more s ev s1 evs s2)
  with step_ok [of s ev inb outb] show ?case by simp
qed

lemma new_connection_ok: "transport = ''TCP/IP'' \<or> transport = ''TLS/IP'' \<Longrightarrow> link_ok (new_connection transport protocol port)"
  by (auto simp: new_connection_def link_ok_def place_None gone_def orderly_def sig_def post_def instant_def Let_def)


text \<open>The steps of an example: a line arrives, the connection is lost, and the plugin connects again.\<close>

fun polite_exec :: "inbound \<Rightarrow> link_event list \<Rightarrow> link \<Rightarrow> link option" where
  "polite_exec inb [] s = Some s"
| "polite_exec inb (ev # evs) s =
     (if possible s ev \<and> polite s ev
      then case link_step inb stream_out ev s of Inl f \<Rightarrow> None | Inr s1 \<Rightarrow> polite_exec inb evs s1
      else None)"

lemma polite_exec_run: "polite_exec inb evs s = Some s' \<Longrightarrow> polite_run inb stream_out s evs s'"
  by (induction evs arbitrary: s) (auto intro: polite_run.intros split: if_splits sum.splits)

definition example_again :: "link_event list" where
  "example_again = [Handled (answer []), Calls [Connect 1 0], Handled (answer []), Resolved 0 0, Connected 0 0 True,
     Handled (answer [Send (PStr ''hello'') 0]), Handled (answer []), Lost 0, Handled (answer []), Handled (answer []),
     Calls [Connect 2 0], Handled (answer []), Resolved 1 0, Connected 1 0 True, Received 1 ''220''] @
     [Handled (answer [])]"


end
