(* ===== verification/ConnectionData.thy ===== *)
theory ConnectionData
  imports ConnectionSafety
begin

text \<open>
  From the socket to the plugin: while a connection is in use, what the handler \<^verbatim>\<open>onMessage\<close> gets is what
  the protocol makes of the data in the order in which it arrived, for every interleaving of the io
  thread, the worker and the plugin's own writes.
\<close>

section \<open>A connection in use\<close>

fun is_send :: "action \<Rightarrow> bool" where
  "is_send (Send data delay) = True"
| "is_send _ = False"

fun in_use :: "link_event \<Rightarrow> bool" where
  "in_use (Received i data) \<longleftrightarrow> data \<noteq> []"
| "in_use (Fired i) \<longleftrightarrow> True"
| "in_use (Aborted i) \<longleftrightarrow> True"
| "in_use (Tick n) \<longleftrightarrow> True"
| "in_use (Calls as) \<longleftrightarrow> list_all is_send as"
| "in_use (Handled an) \<longleftrightarrow> list_all is_send (an_acts an)"
| "in_use _ \<longleftrightarrow> False"

fun received :: "link_event list \<Rightarrow> string list" where
  "received [] = []"
| "received (Received i data # evs) = data # received evs"
| "received (ev # evs) = received evs"

lemma received_append [simp]: "received (evs @ evs') = received evs @ received evs'"
  by (induction evs rule: received.induct) simp_all

text \<open>What the handlers of a target were told, and what is queued for it.\<close>

fun told_arg :: "nat \<times> call \<Rightarrow> py list" where
  "told_arg (t, Call_message x) = [x]"
| "told_arg _ = []"

definition told :: "link \<Rightarrow> py list" where
  "told s = concat (map told_arg (calls s))"

fun read_data :: "conn_msg \<Rightarrow> string list" where
  "read_data (Read_event b) = [b]"
| "read_data _ = []"

fun queued_arg :: "conn_msg \<Rightarrow> py list" where
  "queued_arg (On_message t m) = [message_argument m]"
| "queued_arg _ = []"

definition unread :: "conn_msg PluginQueue.message list \<Rightarrow> string list" where
  "unread q = concat (map (read_data \<circ> msg_kind) q)"

definition untold :: "conn_msg PluginQueue.message list \<Rightarrow> py list" where
  "untold q = concat (map (queued_arg \<circ> msg_kind) q)"

lemma un_simps [simp]:
  "unread [] = []" "unread (m # q) = read_data (msg_kind m) @ unread q" "unread (q @ q') = unread q @ unread q'"
  "untold [] = []" "untold (m # q) = queued_arg (msg_kind m) @ untold q" "untold (q @ q') = untold q @ untold q'"
  by (simp_all add: unread_def untold_def)

fun usual :: "nat \<Rightarrow> conn_msg \<Rightarrow> bool" where
  "usual t (Read_event b) \<longleftrightarrow> True"
| "usual t (Write_directive d) \<longleftrightarrow> True"
| "usual t (On_message target m) \<longleftrightarrow> target = Some t"
| "usual t (On_timeout target) \<longleftrightarrow> target = Some t"
| "usual t _ \<longleftrightarrow> False"

definition data_queue :: "nat \<Rightarrow> conn_msg PluginQueue.message list \<Rightarrow> bool" where
  "data_queue t q \<longleftrightarrow> list_all (\<lambda>m. usual t (msg_kind m) \<and> (m_Delay m \<longrightarrow> is_write (msg_kind m))) q"

lemma data_queue_simps [simp]:
  "data_queue t []" "data_queue t (q @ q') \<longleftrightarrow> data_queue t q \<and> data_queue t q'"
  "data_queue t (m # q) \<longleftrightarrow> usual t (msg_kind m) \<and> (m_Delay m \<longrightarrow> is_write (msg_kind m)) \<and> data_queue t q"
  by (simp_all add: data_queue_def)

lemma take_data:
  assumes "data_queue t q" and "next_message c q = (Some m, q')"
  shows "usual t (msg_kind m) \<and> data_queue t q' \<and> unread q = read_data (msg_kind m) @ unread q' \<and>
    untold q = queued_arg (msg_kind m) @ untold q'"
proof (cases rule: next_message_cases [of c q])
  case (some a n b)
  have "is_write (msg_kind x)" if "x \<in> set a" for x
    using that some(1,2) assms(1) by (auto simp: list_all_iff due_def data_queue_def)
  then have "read_data (msg_kind x) = [] \<and> queued_arg (msg_kind x) = []" if "x \<in> set a" for x
    using that by (cases "msg_kind x") fastforce+
  then have "unread a = []" "untold a = []" by (auto simp: unread_def untold_def)
  with some assms show ?thesis by auto
qed (use assms in simp)

section \<open>The invariant\<close>

definition flows :: "inbound \<Rightarrow> nat \<Rightarrow> protocol \<Rightarrow> string \<Rightarrow> py list \<Rightarrow> string list \<Rightarrow> link \<Rightarrow> bool" where
  "flows inb t p r z cs s \<longleftrightarrow> Target s = Some t \<and> data_queue t (queue s) \<and>
     (\<exists>hs ms r'. pProtocol s = Some (p, r') \<and> cs = hs @ unread (queue s) \<and>
       deliveries (inb p) r hs = Some (ms, r') \<and> z @ map message_argument ms = told s @ untold (queue s))"

lemma flows_cong:
  assumes "flows inb t p r z cs s" and "Target s' = Target s" and "pProtocol s' = pProtocol s" and "calls s' = calls s"
    and "queue s' = queue s @ ms" and "data_queue t ms" and "untold ms = []"
  shows "flows inb t p r z (cs @ unread ms) s'"
  using assms by (fastforce simp: flows_def told_def)

lemma send_flows: "flows inb t p r z cs s \<Longrightarrow> is_send a \<Longrightarrow> flows inb t p r z cs (act a s)"
proof (cases a)
  case (Send d n)
  assume f: "flows inb t p r z cs s"
  have "msg_kind (WriteDirective (clock s) (Write_directive d) n) = Write_directive d"
    by (simp add: WriteDirective_def instant_def)
  with flows_cong [OF f, of "act a s" "[WriteDirective (clock s) (Write_directive d) n]"] show ?thesis
    by (simp add: Send CConnection_send_def)
qed simp_all

lemma sends_flows: "flows inb t p r z cs s \<Longrightarrow> list_all is_send as \<Longrightarrow> flows inb t p r z cs (acts as s)"
  by (induction as arbitrary: s) (simp_all add: send_flows)

lemma posts_messages:
  assumes "Target u = Some t" and "data_queue t (queue u)"
  shows "let v = foldl (\<lambda>s m. post (On_message (Target s) m) s) u ms in
    Target v = Some t \<and> data_queue t (queue v) \<and> pProtocol v = pProtocol u \<and> calls v = calls u \<and>
    unread (queue v) = unread (queue u) \<and> untold (queue v) = untold (queue u) @ map message_argument ms"
  using assms
proof (induction ms arbitrary: u)
  case (Cons m ms)
  from Cons.prems Cons.IH [of "post (On_message (Target u) m) u"] show ?case
    by (simp add: Let_def post_def instant_def)
qed (simp add: Let_def)

lemma read_flows:
  assumes "flows inb t p r z cs s" and "next_message (clock s) (queue s) = (Some m, q)" and "msg_kind m = Read_event b"
    and "ConnectionRead inb b (s\<lparr>queue := q\<rparr>) = Inr s'"
  shows "flows inb t p r z cs s'"
proof -
  from assms(1) obtain hs ms r' where f: "Target s = Some t" "data_queue t (queue s)" "pProtocol s = Some (p, r')"
      "cs = hs @ unread (queue s)" "deliveries (inb p) r hs = Some (ms, r')"
      "z @ map message_argument ms = told s @ untold (queue s)"
    unfolding flows_def by blast
  note d = take_data [OF f(2) assms(2)]
  from assms(4) f(1,3) obtain ns r'' where n: "inb p r' b = Some (ns, r'')"
    "s' = foldl (\<lambda>s m. post (On_message (Target s) m) s) (s\<lparr>queue := q, pProtocol := Some (p, r'')\<rparr>) ns"
    by (auto simp: ConnectionRead_def split: option.splits)
  have "deliveries (inb p) r (hs @ [b]) = Some (ms @ ns, r'')" using f(5) n(1) by (simp add: deliveries_append)
  moreover have "Target s' = Some t \<and> data_queue t (queue s') \<and> pProtocol s' = Some (p, r'') \<and> calls s' = calls s \<and>
      unread (queue s') = unread q \<and> untold (queue s') = untold q @ map message_argument ns"
    using posts_messages [of "s\<lparr>queue := q, pProtocol := Some (p, r'')\<rparr>" t ns] f(1) d n(2) by (simp add: Let_def)
  moreover have "cs = (hs @ [b]) @ unread q" "z @ map message_argument (ms @ ns) = told s @ untold q @ map message_argument ns"
    using f(4,6) d assms(3) by simp_all
  ultimately show ?thesis unfolding flows_def told_def by (metis append_assoc)
qed


text \<open>The other messages.\<close>

lemma handled_flows:
  assumes "flows inb t p r z cs s" and "Work inb outb an s = Inr s'" and "list_all is_send (an_acts an)"
  shows "flows inb t p r z cs s'"
proof (cases "next_message (clock s) (queue s)")
  case (Pair n q)
  show ?thesis
  proof (cases n)
    case None
    with Pair have "q = queue s" by (cases rule: next_message_cases [of "clock s" "queue s"]) auto
    with None Pair assms(1,2) show ?thesis by (simp add: Work_def)
  next
    case (Some m)
    with Pair have nx: "next_message (clock s) (queue s) = (Some m, q)" by simp
    with assms(2) have pr: "process inb outb an (msg_kind m) (s\<lparr>queue := q\<rparr>) = Inr s'" by (simp add: Work_def)
    from assms(1) obtain hs ms r' where f: "Target s = Some t" "data_queue t (queue s)" "pProtocol s = Some (p, r')"
      "cs = hs @ unread (queue s)" "deliveries (inb p) r hs = Some (ms, r')"
      "z @ map message_argument ms = told s @ untold (queue s)"
      unfolding flows_def by blast
    note d = take_data [OF f(2) nx]
    have told: "told (u\<lparr>calls := calls u @ [c]\<rparr>) = told u @ told_arg c" for u c by (simp add: told_def)
    show ?thesis
    proof (cases "msg_kind m")
      case (Read_event b)
      with pr show ?thesis by (intro read_flows [OF assms(1) nx]) simp_all
    next
      case (Write_directive x)
      have "flows inb t p r z cs (s\<lparr>queue := q\<rparr>)"
        using f d Write_directive unfolding flows_def told_def by auto
      moreover have "Target s' = Target s \<and> pProtocol s' = pProtocol s \<and> calls s' = calls s \<and> queue s' = q"
        using pr f(3) Write_directive by (auto simp: ConnectionWrite_def with_protocol_def handleWrite_def Let_def change_def
            split: if_splits option.splits)
      ultimately show ?thesis by (simp add: flows_def told_def)
    next
      case (On_message target x)
      with d have "target = Some t" by simp
      with pr On_message have s': "s' = Callback t (Call_message (message_argument x)) (an_acts an) (s\<lparr>queue := q\<rparr>)" by simp
      have "flows inb t p r z cs (s\<lparr>queue := q, calls := calls s @ [(t, Call_message (message_argument x))]\<rparr>)"
        unfolding flows_def using f d On_message by (auto simp: told_def)
      with s' assms(3) show ?thesis by (simp add: Callback_def sends_flows)
    next
      case (On_timeout target)
      with d have "target = Some t" by simp
      with pr On_timeout have s': "s' = Callback t Call_timeout (an_acts an) (s\<lparr>queue := q\<rparr>)" by simp
      have "flows inb t p r z cs (s\<lparr>queue := q, calls := calls s @ [(t, Call_timeout)]\<rparr>)"
        unfolding flows_def using f d On_timeout by (auto simp: told_def)
      with s' assms(3) show ?thesis by (simp add: Callback_def sends_flows)
    qed (use d in auto)
  qed
qed

lemma step_flows:
  assumes "flows inb t p r z cs s" and "in_use ev" and "link_step inb outb ev s = Inr s'"
  shows "flows inb t p r z (cs @ received [ev]) s'"
proof (cases ev)
  case (Received i data)
  with assms(2,3) show ?thesis
    using flows_cong [OF assms(1), of s' "[instant (clock s) (Read_event data)]"]
    by (auto simp: on_transport_def handleRead_def change_def post_def instant_def split: if_splits)
next
  case (Fired i)
  moreover have "Target s = Some t" using assms(1) by (simp add: flows_def)
  ultimately show ?thesis
    using flows_cong [OF assms(1), of s' "[instant (clock s) (On_timeout (Some t))]"] assms(2,3)
    by (auto simp: on_transport_def handleTimeout_def change_def post_def instant_def split: if_splits)
next
  case (Aborted i)
  with assms(3) show ?thesis
    using flows_cong [OF assms(1), of s' "[]"] by (auto simp: on_transport_def change_def split: if_splits)
next
  case (Handled an)
  with assms show ?thesis by (auto intro: handled_flows)
next
  case (Calls as)
  with assms show ?thesis by (auto simp: sends_flows)
next
  case (Tick n)
  with assms(3) show ?thesis using flows_cong [OF assms(1), of s' "[]"] by auto
qed (use assms(2) in simp_all)

lemma run_flows:
  "link_run inb outb s evs s' \<Longrightarrow> list_all in_use evs \<Longrightarrow> flows inb t p r z cs s \<Longrightarrow> flows inb t p r z (cs @ received evs) s'"
proof (induction arbitrary: cs rule: link_run.induct)
  case (run_more s ev s1 evs s2)
  from run_more.prems(1) have "in_use ev" "list_all in_use evs" by simp_all
  with run_more.IH step_flows [OF run_more.prems(2) _ run_more.hyps(2)]
  have "flows inb t p r z ((cs @ received [ev]) @ received evs) s2" by blast
  moreover have "received (ev # evs) = received [ev] @ received evs" using received_append [of "[ev]" evs] by simp
  ultimately show ?case by simp
qed simp

text \<open>While a connection is in use, the data that its socket receives reaches the plugin completely
  and in order: when the queue has been worked off, the handler \<^verbatim>\<open>onMessage\<close> has been called with what
  the protocol delivers for the reads one after the other, and the protocol keeps the rest, whatever
  the plugin writes meanwhile and however the threads take turns.\<close>

theorem data_delivered_in_order:
  assumes "link_run inb outb s evs s'" and "list_all in_use evs" and "Target s = Some t" and "queue s = []"
    and "pProtocol s = Some (p, r)" and "queue s' = []"
  shows "\<exists>ms r'. deliveries (inb p) r (received evs) = Some (ms, r') \<and> told s' = told s @ map message_argument ms \<and>
    pProtocol s' = Some (p, r')"
proof -
  have "flows inb t p r (told s) [] s" using assms(3-5) by (simp add: flows_def)
  from run_flows [OF assms(1,2) this] assms(6) show ?thesis by (auto simp: flows_def)
qed



definition example_use :: "link_event list" where
  "example_use = [Received 0 ''22'', Received 0 (''0 ok'' @ [CR] @ ''3''), Handled (answer []), Calls [Send (PStr ''quit'') 2],
     Handled (answer []), Tick 2, Handled (answer [Send (PStr ''now'') 0]), Handled (answer []), Handled (answer [])]"

lemma example_use_run:
  "case link_exec (example_made 0) line_connection of
     Some (Inr s) \<Rightarrow> Target s = Some 1 \<and> queue s = [] \<and> pProtocol s = Some (LineProtocol, []) \<and> told s = [] \<and>
       (case link_exec example_use s of Some (Inr s') \<Rightarrow> queue s' = [] | _ \<Rightarrow> False)
   | _ \<Rightarrow> False"
  by code_simp

lemma example_use_obtain:
  obtains s s' where "link_run stream_in stream_out line_connection (example_made 0) s"
    and "link_run stream_in stream_out s example_use s'" and "Target s = Some 1" and "queue s = []"
    and "pProtocol s = Some (LineProtocol, [])" and "told s = []" and "queue s' = []"
proof -
  from example_use_run obtain s y where 1: "link_exec (example_made 0) line_connection = Some (Inr s)"
    "Target s = Some 1" "queue s = []" "pProtocol s = Some (LineProtocol, [])" "told s = []"
    "link_exec example_use s = Some y" "case y of Inr s' \<Rightarrow> queue s' = [] | _ \<Rightarrow> False"
    by (cases "link_exec (example_made 0) line_connection")
      (auto split: sum.split_asm option.split_asm simp del: link_exec.simps)
  then show ?thesis using that by (cases y) (auto simp: link_exec_run simp del: link_run_simps)
qed

theorem data_delivered_in_order_witness:
  "\<exists>s s' ms r. link_run stream_in stream_out line_connection (example_made 0) s \<and>
     link_run stream_in stream_out s example_use s' \<and> told s' = map message_argument ms \<and>
     deliveries line_reader [] (received example_use) = Some (ms, r)"
proof -
  obtain s s' where e: "link_run stream_in stream_out line_connection (example_made 0) s"
    "link_run stream_in stream_out s example_use s'" "Target s = Some 1" "queue s = []"
    "pProtocol s = Some (LineProtocol, [])" "told s = []" "queue s' = []"
    by (rule example_use_obtain)
  have u: "list_all in_use example_use" by (simp add: example_use_def answer_def)
  have "stream_in LineProtocol = line_reader" by (simp add: line_reader_def fun_eq_iff)
  with data_delivered_in_order [OF e(2) u e(3,4,5,7)] e show ?thesis by auto
qed


end
