(* ===== verification/ConnectionFile.thy ===== *)
theory ConnectionFile
  imports Connection StaticFiles
begin

text \<open>
  \<^verbatim>\<open>web/webserver/connection.cpp\<close>: \<^verbatim>\<open>send_file\<close> and \<^verbatim>\<open>handle_write_file\<close>, which answer a
  \<^verbatim>\<open>download_file\<close> reply with the headers and then the file in pieces of 16 KiB, each read when the
  piece before it was written.

  A connection opens one file at most: it reads nothing more once a file was opened, and is stopped
  at the file's end.  The file's content, its time and the clock's date format are those of the \<open>environment\<close>.
  \<open>file_write\<close> says that a write is outstanding whose completion is \<^verbatim>\<open>handle_write_file\<close>.
\<close>

section \<open>Input file streams\<close>

record ifstream =
  is_open :: bool
  unread :: string
  eofbit :: bool
  failbit :: bool

definition closed_stream :: ifstream where
  "closed_stream = \<lparr>is_open = False, unread = [], eofbit = False, failbit = False\<rparr>"

definition ifstream_open :: "string option \<Rightarrow> ifstream \<Rightarrow> ifstream" where
  "ifstream_open content s =
     (case content of
        None \<Rightarrow> s\<lparr>failbit := True\<rparr>
      | Some d \<Rightarrow> \<lparr>is_open = True, unread = d, eofbit = False, failbit = False\<rparr>)"

text \<open>\<^verbatim>\<open>istream::read\<close>: what was read, whose length is \<^verbatim>\<open>gcount()\<close>.  The end of the file is noticed
  when fewer characters are there than were asked for.\<close>

definition ifstream_read :: "nat \<Rightarrow> ifstream \<Rightarrow> string \<times> ifstream" where
  "ifstream_read n s =
     (if eofbit s \<or> failbit s then ([], s\<lparr>failbit := True\<rparr>)
      else (take n (unread s),
            s\<lparr>unread := drop n (unread s), eofbit := length (unread s) < n,
              failbit := length (unread s) < n\<rparr>))"

section \<open>The connection with its file\<close>

record filer =
  fl_conn :: connection
  sendfile :: ifstream
  send_buffer :: "string option"
  file_write :: bool

definition new_filer :: filer where
  "new_filer = \<lparr>fl_conn = new_connection, sendfile = closed_stream, send_buffer = None, file_write = False\<rparr>"

definition FILE_SEND_BUFFER_SIZE :: nat where
  "FILE_SEND_BUFFER_SIZE = 16 * 1024"

text \<open>What is handed to the socket directly, beside the queue of \<^const>\<open>MyWrite\<close>.\<close>

definition file_async_write :: "string \<Rightarrow> filer \<Rightarrow> filer" where
  "file_async_write b fl =
     fl\<lparr>fl_conn := (fl_conn fl)\<lparr>cn_issued := cn_issued (fl_conn fl) @ [b]\<rparr>, file_write := True\<rparr>"

definition handle_write_file :: "bool \<Rightarrow> filer \<Rightarrow> filer" where
  "handle_write_file error fl0 =
     (let fl = fl0\<lparr>file_write := False\<rparr>
      in if \<not> error \<and> is_open (sendfile fl) \<and> \<not> eofbit (sendfile fl) then
           let (piece, s) = ifstream_read FILE_SEND_BUFFER_SIZE (sendfile fl);
               fl1 = fl\<lparr>sendfile := s, send_buffer := Some piece\<rparr>
           in if piece = [] then fl1 else file_async_write piece fl1
         else
           fl\<lparr>sendfile := (sendfile fl)\<lparr>is_open := False\<rparr>, send_buffer := None,
              fl_conn := stop_connection (fl_conn fl)\<rparr>)"

text \<open>The headers; \<open>now\<close> is the time.\<close>

definition file_reply :: "environment \<Rightarrow> int \<Rightarrow> string \<Rightarrow> string \<Rightarrow> string \<Rightarrow> reply" where
  "file_reply env now filename attachment content =
     (let r1 = add_header ''Cache-Control'' ''max-age=0, private'' True (stock_reply st_ok);
          r2 = add_header ''Accept-Ranges'' ''bytes'' True r1;
          r3 = add_header ''Date'' (env_http_date env now) True r2;
          r4 = add_header ''Last-Modified'' (env_http_date env (env_mtime env filename)) True r3;
          r5 = add_header ''Server'' ''Apache/2.2.22'' True r4;
          r6 = (case after_last_dot filename of
                  None \<Rightarrow> r5 | Some e \<Rightarrow> add_header_content_type (content_type_of e) r5);
          r7 = add_header_attachment attachment r6
      in add_header ''Content-Length'' (nat_to_string (length content)) True r7)"

text \<open>The flag is the function's result; the reply is its out parameter.\<close>

definition send_file ::
  "environment \<Rightarrow> int \<Rightarrow> string \<Rightarrow> string \<Rightarrow> filer \<Rightarrow> bool \<times> reply \<times> filer" where
  "send_file env now filename attachment fl =
     (let fl1 = fl\<lparr>sendfile := ifstream_open (env_file env filename) (sendfile fl)\<rparr>
      in if \<not> is_open (sendfile fl1) then (False, stock_reply st_not_found, fl1)
         else
           let rep = file_reply env now filename attachment (unread (sendfile fl1));
               headers = reply_to_string ''GET'' rep;
               fl2 = fl1\<lparr>fl_conn := (fl_conn fl1)\<lparr>write_buffer := headers\<rparr>\<rparr>
           in (True, rep, file_async_write headers fl2))"

text \<open>
  The request handling with the file branch put in: \<^const>\<open>handle_request\<close> learns what
  \<^const>\<open>send_file\<close> returned, and the stream and the headers' write are those of \<^const>\<open>send_file\<close>.
\<close>

definition download_target :: "reply \<Rightarrow> (string \<times> string) option" where
  "download_target rep =
     (if rp_status rep = st_download_file then
        (case str_find crlf (rp_content rep) 0 of
           None \<Rightarrow> None
         | Some n \<Rightarrow> Some (take n (rp_content rep), drop (n + 2) (rp_content rep)))
      else None)"

definition seen_request :: "string \<Rightarrow> request \<Rightarrow> request" where
  "seen_request address req =
     req\<lparr>rq_keep_alive := wants_keepalive req, host_address := client_address address\<rparr>"

definition handle_request_file ::
  "environment \<Rightarrow> int \<Rightarrow> (request \<Rightarrow> reply) \<Rightarrow> string \<Rightarrow> string \<Rightarrow> request \<Rightarrow> filer \<Rightarrow> filer" where
  "handle_request_file env now handler address limits req0 fl =
     (let ask = (\<lambda>f a. case send_file env now f a fl of
            (ok, rep, _) \<Rightarrow> if ok then None else Some rep);
          c = handle_request handler ask address limits req0 (fl_conn fl)
      in case download_target (handler (seen_request address req0)) of
           None \<Rightarrow> fl\<lparr>fl_conn := c\<rparr>
         | Some (f, a) \<Rightarrow> snd (snd (send_file env now f a (fl\<lparr>fl_conn := c\<rparr>))))"

section \<open>The pieces of a file\<close>

function file_pieces :: "string \<Rightarrow> string list" where
  "file_pieces d =
     (if d = [] then [] else take FILE_SEND_BUFFER_SIZE d # file_pieces (drop FILE_SEND_BUFFER_SIZE d))"
  by pat_completeness auto
termination
  by (relation "measure length") (simp_all add: FILE_SEND_BUFFER_SIZE_def)

declare file_pieces.simps [simp del]

lemma buffer_size_pos [simp]: "0 < FILE_SEND_BUFFER_SIZE"
  by (simp add: FILE_SEND_BUFFER_SIZE_def)

lemma file_pieces_Nil [simp]: "file_pieces [] = []"
  by (simp add: file_pieces.simps)

lemma file_pieces_step:
  "d \<noteq> [] \<Longrightarrow> file_pieces d = take FILE_SEND_BUFFER_SIZE d # file_pieces (drop FILE_SEND_BUFFER_SIZE d)"
  by (simp add: file_pieces.simps [of d])

lemma concat_file_pieces: "concat (file_pieces d) = d"
proof (induction d rule: file_pieces.induct)
  case (1 d)
  then show ?case by (cases "d = []") (simp_all add: file_pieces_step [of d])
qed

lemma file_pieces_bounded: "\<forall>p \<in> set (file_pieces d). p \<noteq> [] \<and> length p \<le> FILE_SEND_BUFFER_SIZE"
proof (induction d rule: file_pieces.induct)
  case (1 d)
  show ?case
  proof (cases "d = []")
    case False
    have "take FILE_SEND_BUFFER_SIZE d \<noteq> []" using False buffer_size_pos by simp
    with "1.IH" [OF False] show ?thesis
      by (simp only: file_pieces_step [OF False] list.set ball_simps length_take min.cobounded2 simp_thms)
  qed simp
qed

section \<open>Completions\<close>

text \<open>As many successful completions as there are writes outstanding, \<open>n\<close> at most.\<close>

primrec file_run :: "nat \<Rightarrow> filer \<Rightarrow> filer" where
  "file_run 0 fl = fl"
| "file_run (Suc n) fl = file_run n (if file_write fl then handle_write_file False fl else fl)"

lemma file_run_done [simp]: "\<not> file_write fl \<Longrightarrow> file_run n fl = fl"
  by (induction n) simp_all

text \<open>The state while the rest \<open>d\<close> of a file is to be sent.\<close>

definition sending :: "string \<Rightarrow> filer \<Rightarrow> bool" where
  "sending d fl \<longleftrightarrow> file_write fl \<and> is_open (sendfile fl) \<and> unread (sendfile fl) = d \<and>
     \<not> eofbit (sendfile fl) \<and> \<not> failbit (sendfile fl)"

lemma sending_nothing:
  assumes "sending [] fl"
  shows "let fl' = handle_write_file False fl in
    \<not> file_write fl' \<and> is_open (sendfile fl') \<and> fl_conn fl' = fl_conn fl"
  using assms by (simp add: sending_def handle_write_file_def ifstream_read_def Let_def)

lemma sending_piece:
  assumes "sending d fl" and "FILE_SEND_BUFFER_SIZE \<le> length d"
  shows "let fl' = handle_write_file False fl in
    sending (drop FILE_SEND_BUFFER_SIZE d) fl' \<and>
    fl_conn fl' = (fl_conn fl)\<lparr>cn_issued := cn_issued (fl_conn fl) @ [take FILE_SEND_BUFFER_SIZE d]\<rparr>"
proof -
  have "d \<noteq> []" using assms(2) buffer_size_pos by (metis le_zero_eq list.size(3) not_gr_zero)
  with assms show ?thesis
    by (auto simp: sending_def handle_write_file_def ifstream_read_def file_async_write_def Let_def)
qed

lemma sending_last:
  assumes "sending d fl" and "d \<noteq> []" and "length d < FILE_SEND_BUFFER_SIZE"
  shows "let fl' = handle_write_file False (handle_write_file False fl) in
    file_write (handle_write_file False fl) \<and> \<not> file_write fl' \<and> \<not> is_open (sendfile fl') \<and>
    fl_conn fl' = (fl_conn fl)\<lparr>cn_issued := cn_issued (fl_conn fl) @ [d], cn_stopped := True\<rparr>"
  using assms
  by (auto simp: sending_def handle_write_file_def ifstream_read_def file_async_write_def
      stop_connection_def Let_def)

lemma file_run_sends:
  "sending d fl \<Longrightarrow> length d div FILE_SEND_BUFFER_SIZE + 2 \<le> n \<Longrightarrow>
   (let fl' = file_run n fl; whole = (length d mod FILE_SEND_BUFFER_SIZE = 0) in
     \<not> file_write fl' \<and> is_open (sendfile fl') = whole \<and>
     fl_conn fl' = (fl_conn fl)\<lparr>cn_issued := cn_issued (fl_conn fl) @ file_pieces d,
                                cn_stopped := cn_stopped (fl_conn fl) \<or> \<not> whole\<rparr>)"
proof (induction d arbitrary: fl n rule: file_pieces.induct)
  case (1 d)
  obtain k where k: "n = Suc (Suc k)" using "1.prems"(2) by (metis add_2_eq_Suc' le_Suc_ex plus_nat.simps(2))
  have fw: "file_write fl" using "1.prems"(1) by (simp add: sending_def)
  consider "d = []" | "d \<noteq> []" "length d < FILE_SEND_BUFFER_SIZE" | "FILE_SEND_BUFFER_SIZE \<le> length d"
    by linarith
  then show ?case
  proof cases
    case 1
    then show ?thesis using sending_nothing [of fl] "1.prems"(1) fw by (simp add: k Let_def)
  next
    case 2
    then show ?thesis
      using sending_last [OF "1.prems"(1) 2] fw by (simp add: k file_pieces_step [of d] Let_def)
  next
    case 3
    let ?d = "drop FILE_SEND_BUFFER_SIZE d"
    have ne: "d \<noteq> []" using 3 buffer_size_pos by (metis le_zero_eq list.size(3) not_gr_zero)
    note p = sending_piece [OF "1.prems"(1) 3, unfolded Let_def]
    have l: "length ?d div FILE_SEND_BUFFER_SIZE + 2 \<le> Suc k"
      using "1.prems"(2) 3 by (simp add: k le_div_geq)
    have m: "(length d - FILE_SEND_BUFFER_SIZE) mod FILE_SEND_BUFFER_SIZE = length d mod FILE_SEND_BUFFER_SIZE"
      using 3 by (metis le_mod_geq)
    have run: "file_run n fl = file_run (Suc k) (handle_write_file False fl)"
      using fw by (simp only: k file_run.simps if_True)
    show ?thesis
      using "1.IH" [OF ne conjunct1 [OF p] l] conjunct2 [OF p]
      by (simp only: run m length_drop file_pieces_step [OF ne] Let_def) simp
  qed
qed

section \<open>A download\<close>

text \<open>The reply of \<^const>\<open>set_download_file\<close> names a file that exists.\<close>

definition downloads :: "environment \<Rightarrow> string \<Rightarrow> string \<Rightarrow> string \<Rightarrow> reply \<Rightarrow> bool" where
  "downloads env f a d rep \<longleftrightarrow> rp_status rep = st_download_file \<and> rp_content rep = f @ crlf @ a \<and>
     CHR 0x0D \<notin> set f \<and> env_file env f = Some d"

lemma find_crlf: "CHR 0x0D \<notin> set f \<Longrightarrow> str_find crlf (f @ crlf @ a) 0 = Some (length f)"
proof -
  have "find_at i crlf (f @ crlf @ a) = Some (i + length f)" if "CHR 0x0D \<notin> set f" for i
    using that by (induction f arbitrary: i) (auto simp: crlf_def)
  then show "CHR 0x0D \<notin> set f \<Longrightarrow> ?thesis" by (simp add: str_find_def)
qed

lemma downloads_target:
  assumes "downloads env f a d rep"
  shows "download_target rep = Some (f, a)"
  using assms find_crlf [of f a] by (simp add: downloads_def download_target_def crlf_def)

lemma download_started:
  assumes "downloads env f a d (handler (seen_request addr req))"
  shows "let fl' = handle_request_file env now handler addr limits req fl;
      headers = reply_to_string ''GET'' (file_reply env now f a d)
    in sending d fl' \<and>
       fl_conn fl' = (fl_conn fl)\<lparr>conn_keepalive := wants_keepalive req, write_buffer := headers,
                                  cn_issued := cn_issued (fl_conn fl) @ [headers]\<rparr>"
  using assms downloads_target [OF assms] find_crlf [of f a]
  by (simp add: handle_request_file_def seen_request_def handle_request_def send_file_def ifstream_open_def downloads_def
      file_async_write_def sending_def Let_def split: prod.splits)

section \<open>Properties\<close>

text \<open>C38: A download sends the headers and then the whole file, in pieces of 16 KiB at most and in
  order, with its length in \<^verbatim>\<open>Content-Length\<close>, and after as many successful writes as there are
  pieces nothing is outstanding any more.  The connection is stopped and the file closed exactly
  when the length is no multiple of 16 KiB: otherwise (an empty file too) the read that
  finds nothing returns without either, and the connection is left as it is, reading nothing.\<close>

theorem file_sent_whole:
  assumes "downloads env f a d (handler (seen_request addr req))"
    and "length d div FILE_SEND_BUFFER_SIZE + 2 \<le> n"
  shows "let fl' = file_run n (handle_request_file env now handler addr limits req fl);
      rep = file_reply env now f a d
    in cn_issued (fl_conn fl') = cn_issued (fl_conn fl) @ reply_to_string ''GET'' rep # file_pieces d \<and>
       concat (file_pieces d) = d \<and> list_all (\<lambda>p. length p \<le> FILE_SEND_BUFFER_SIZE) (file_pieces d) \<and>
       reply_header rep ''Content-Length'' = Some (nat_to_string (length d)) \<and>
       \<not> file_write fl' \<and> cn_reading (fl_conn fl') = cn_reading (fl_conn fl) \<and>
       (cn_stopped (fl_conn fl') \<longleftrightarrow> cn_stopped (fl_conn fl) \<or> length d mod FILE_SEND_BUFFER_SIZE \<noteq> 0) \<and>
       (is_open (sendfile fl') \<longleftrightarrow> length d mod FILE_SEND_BUFFER_SIZE = 0)"
proof -
  note s = download_started [where handler = handler and req = req and addr = addr, OF assms(1), of now limits fl, unfolded Let_def]
  have "reply_header (file_reply env now f a d) ''Content-Length'' = Some (nat_to_string (length d))"
    by (simp add: file_reply_def Let_def)
  with file_run_sends [OF conjunct1 [OF s] assms(2), unfolded Let_def] conjunct2 [OF s]
  show ?thesis
    using file_pieces_bounded [of d] by (simp add: concat_file_pieces list_all_iff Let_def)
qed

definition download_env :: "string \<Rightarrow> environment" where
  "download_env d = \<lparr>env_file = (\<lambda>f. if f = ''/tmp/x.db'' then Some d else None), env_mtime = (\<lambda>_. 0),
     env_strptime = (\<lambda>_ _. None), env_http_date = (\<lambda>_. ''Thu, 01 Jan 1970 00:00:00 GMT''), env_gunzip = (\<lambda>s. s)\<rparr>"

definition download_handler :: "request \<Rightarrow> reply" where
  "download_handler req = snd (set_download_file ''/tmp/x.db'' ''x.db'' (stock_reply st_ok))"

lemma example_downloads: "downloads (download_env d) ''/tmp/x.db'' ''x.db'' d (download_handler req)"
  by (simp add: downloads_def download_handler_def set_download_file_def download_env_def reply_reset_def)

theorem file_sent_whole_witness:
  "let start = (\<lambda>d. handle_request_file (download_env d) 0 download_handler [] [] (head_request example_get) new_filer)
   in cn_stopped (fl_conn (file_run 2 (start ''abc''))) \<and> \<not> cn_stopped (fl_conn (file_run 2 (start [])))"
  using file_sent_whole [where handler = download_handler and req = "head_request example_get" and addr = "[]"
      and n = 2 and now = 0 and limits = "[]" and fl = new_filer, OF example_downloads, of "''abc''"]
    file_sent_whole [where handler = download_handler and req = "head_request example_get" and addr = "[]"
      and n = 2 and now = 0 and limits = "[]" and fl = new_filer, OF example_downloads, of "[]"]
  by (simp add: Let_def FILE_SEND_BUFFER_SIZE_def new_filer_def new_connection_def)

text \<open>A download that is asked for while the reply before it is still being written takes
  that write's buffer: the headers replace \<^verbatim>\<open>write_buffer\<close> with two writes outstanding on it, and the
  first one's completion clears it and, without keep-alive, stops the connection while the file's
  write is outstanding.\<close>

theorem pipelined_download_takes_buffer:
  assumes "downloads env f a d (handler (seen_request addr req))"
    and "write_in_progress (fl_conn fl)" and "writeQ (fl_conn fl) = []"
  shows "let fl' = handle_request_file env now handler addr limits req fl;
      c' = handle_write False (fl_conn fl')
    in write_in_progress (fl_conn fl') \<and> file_write fl' \<and>
       write_buffer (fl_conn fl') = reply_to_string ''GET'' (file_reply env now f a d) \<and>
       write_buffer c' = [] \<and> (\<not> wants_keepalive req \<longrightarrow> cn_stopped c')"
  using assms(2,3) conjunct1 [OF download_started [where handler = handler and req = req and addr = addr, OF assms(1), of now limits fl, unfolded Let_def]]
    conjunct2 [OF download_started [where handler = handler and req = req and addr = addr, OF assms(1), of now limits fl, unfolded Let_def]]
  by (simp add: handle_write_def stop_connection_def sending_def Let_def)

theorem pipelined_download_takes_buffer_witness:
  "let c = new_connection\<lparr>write_in_progress := True, write_buffer := ''HTTP/1.1 200 OK''\<rparr>;
       fl = handle_request_file (download_env ''abc'') 0 download_handler [] [] (head_request example_get)
              (new_filer\<lparr>fl_conn := c\<rparr>)
   in write_buffer (handle_write False (fl_conn fl)) = [] \<and> file_write fl"
  using pipelined_download_takes_buffer [where handler = download_handler and req = "head_request example_get"
      and addr = "[]" and now = 0 and limits = "[]"
      and fl = "new_filer\<lparr>fl_conn := new_connection\<lparr>write_in_progress := True, write_buffer := ''HTTP/1.1 200 OK''\<rparr>\<rparr>",
      OF example_downloads, of "''abc''"]
  by (simp add: new_connection_def Let_def)

end
