(* ===== verification/ConnectionLife.thy ===== *)
theory ConnectionLife
  imports ConnectionFile "HOL-Library.Multiset"
begin

text \<open>
  The life of a connection of the web server: \<^verbatim>\<open>connection::start\<close>, the handlers that
  \<^verbatim>\<open>Boost.Asio\<close> owes it, the connection manager that holds it (\<^verbatim>\<open>connection_manager.cpp\<close>), and
  the server that accepts it (\<^verbatim>\<open>server.cpp\<close>).

  A connection is held by shared pointers: one in the set of the connection manager and one in every
  handler that was bound with \<^verbatim>\<open>shared_from_this()\<close>.  The completion of a file's write is bound to
  the plain \<^verbatim>\<open>this\<close>.  The connection is destroyed when the last pointer goes; a handler that runs
  after that runs on freed memory, which is recorded in \<open>lf_fault\<close>.
\<close>

section \<open>What surrounds a connection\<close>

record services =
  sv_handler :: "request \<Rightarrow> reply"
  sv_env :: environment
  sv_address :: string
  sv_limits :: string
  sv_reader :: json_reader
  sv_query :: "string \<Rightarrow> result_rows"
  sv_jwrite :: "push_doc \<Rightarrow> bytes"
  sv_secure :: bool

text \<open>
  A frame that makes the web socket parser raise an exception: \<^const>\<open>handle_read\<close> is left with what
  the parser had changed by then, its input not consumed and no further read asked for.
\<close>

definition ws_raised :: "services \<Rightarrow> string \<Rightarrow> connection \<Rightarrow> connection" where
  "ws_raised sv input c =
     (let c1 = c\<lparr>cn_reading := False, cn_buf := cn_buf c @ input\<rparr>;
          r = ws_parse (sv_reader sv) (sv_query sv) (map (\<lambda>ch. word_of_nat (of_char ch)) (cn_buf c1))
                (conn_keepalive c1) (websocket_parser c1)
      in (run_output (sv_jwrite sv) c1 (ws_output r))\<lparr>websocket_parser := ws_state r,
           conn_keepalive := keep_alive r\<rparr>)"

text \<open>\<^const>\<open>handle_read\<close>, with the file branch of a complete request; the flag says that an exception
  leaves it.\<close>

definition handle_read_filer ::
  "services \<Rightarrow> int \<Rightarrow> bool \<Rightarrow> bool \<Rightarrow> string \<Rightarrow> filer \<Rightarrow> filer \<times> bool" where
  "handle_read_filer sv now error aborted input fl =
     (let c = fl_conn fl;
          others = (case handle_read (sv_handler sv) (\<lambda>_ _. None) (sv_address sv) (sv_limits sv) (sv_reader sv)
               (sv_query sv) (sv_jwrite sv) error aborted input c of
              Some c' \<Rightarrow> (fl\<lparr>fl_conn := c'\<rparr>, False)
            | None \<Rightarrow> (fl\<lparr>fl_conn := ws_raised sv input c\<rparr>, True))
      in if \<not> error \<and> input \<noteq> [] \<and> connection_type c = connection_http then
           (case parse_request (cn_buf c @ input) of
              (Done True, st, req, rest) \<Rightarrow>
                (handle_request_file (sv_env sv) now (sv_handler sv) (sv_address sv) (sv_limits sv) req
                   (fl\<lparr>fl_conn := c\<lparr>cn_reading := False, cn_buf := rest\<rparr>\<rparr>), False)
            | _ \<Rightarrow> others)
         else others)"

definition handle_handshake :: "bool \<Rightarrow> connection \<Rightarrow> connection" where
  "handle_handshake error c = (if \<not> error then read_more c else stop_connection c)"

text \<open>
  \<^verbatim>\<open>handle_timeout\<close> is bound to no timer.  On an HTTP connection it cancels the timers and closes the
  socket, which is the environment's part; on a web socket it sends a ping.
\<close>

definition handle_timeout :: "(push_doc \<Rightarrow> bytes) \<Rightarrow> bool \<Rightarrow> connection \<Rightarrow> connection" where
  "handle_timeout jwrite aborted c =
     (if \<not> aborted \<and> connection_type c = connection_websocket
      then run_output jwrite c (SendPing (websocket_parser c)) else c)"

section \<open>Handlers\<close>

datatype handler = H_read | H_write | H_file | H_read_timer | H_abandoned | H_handshake

text \<open>Bound with \<^verbatim>\<open>shared_from_this()\<close>.\<close>

definition shared :: "handler \<Rightarrow> bool" where
  "shared h \<longleftrightarrow> h \<noteq> H_file"

definition perform ::
  "services \<Rightarrow> handler \<Rightarrow> bool \<Rightarrow> bool \<Rightarrow> string \<Rightarrow> int \<Rightarrow> filer \<Rightarrow> filer \<times> bool" where
  "perform sv h error aborted input now fl =
     (let on = (\<lambda>f. (fl\<lparr>fl_conn := f (fl_conn fl)\<rparr>, False))
      in case h of
           H_read \<Rightarrow> handle_read_filer sv now error aborted input fl
         | H_write \<Rightarrow> on (handle_write error)
         | H_file \<Rightarrow> (handle_write_file error fl, False)
         | H_read_timer \<Rightarrow> on (handle_read_timeout (sv_jwrite sv) error aborted)
         | H_abandoned \<Rightarrow> on (handle_abandoned_timeout aborted)
         | H_handshake \<Rightarrow> on (handle_handshake error))"

text \<open>
  The handlers that the run of \<open>h\<close> leaves with the socket and the timers: a read comes with its
  timer, and a write that went well on a connection that is kept alive restarts the other one.
\<close>

definition asked :: "handler \<Rightarrow> bool \<Rightarrow> filer \<Rightarrow> filer \<Rightarrow> handler list" where
  "asked h error fl fl' =
     (let c = fl_conn fl; c' = fl_conn fl';
          file = file_write fl' \<and> (h = H_file \<or> \<not> file_write fl);
          writes = length (cn_issued c') - length (cn_issued c) - of_bool file
      in (if cn_reading c' \<and> (h = H_read \<or> \<not> cn_reading c) then [H_read_timer, H_read] else []) @
         replicate writes H_write @ (if file then [H_file] else []) @
         (if h = H_write \<and> \<not> error \<and> conn_keepalive c' then [H_abandoned] else []))"

section \<open>The life of a connection\<close>

record life =
  lf_filer :: filer
  lf_pending :: "handler list"
  lf_managed :: bool
  lf_destroyed :: bool
  lf_fault :: bool

text \<open>The last shared pointer goes with the handler that ran.\<close>

definition release :: "life \<Rightarrow> life" where
  "release l =
     (if \<not> lf_managed l \<and> \<not> list_ex shared (lf_pending l) then l\<lparr>lf_destroyed := True\<rparr> else l)"

text \<open>\<^verbatim>\<open>connection_manager::stop\<close>: erased from the set and stopped.  The cancelled timers and the closed
  socket still owe their handlers, now with an error.\<close>

definition manager_stop :: "life \<Rightarrow> life" where
  "manager_stop l = l\<lparr>lf_managed := False,
     lf_filer := (lf_filer l)\<lparr>fl_conn := connection_stop (fl_conn (lf_filer l))\<rparr>\<rparr>"

definition stop_asked :: "filer \<Rightarrow> life \<Rightarrow> life" where
  "stop_asked fl l = (if cn_stopped (fl_conn fl) then manager_stop l else l)"

definition run_handler ::
  "services \<Rightarrow> handler \<Rightarrow> bool \<Rightarrow> bool \<Rightarrow> string \<Rightarrow> int \<Rightarrow> life \<Rightarrow> life \<times> bool" where
  "run_handler sv h error aborted input now l =
     (let fl = (lf_filer l)\<lparr>fl_conn := (fl_conn (lf_filer l))\<lparr>cn_stopped := False\<rparr>\<rparr>;
          (fl', raised) = perform sv h error aborted input now fl
      in (release (stop_asked fl' (l\<lparr>lf_filer := fl', lf_pending := lf_pending l @ asked h error fl fl'\<rparr>)), raised))"

text \<open>
  \<^verbatim>\<open>connection_manager::start\<close> with the \<^verbatim>\<open>connection::start\<close> it calls; \<open>ec1\<close> and \<open>ec2\<close> are the errors of
  the two calls of \<^verbatim>\<open>remote_endpoint\<close>.
\<close>

definition new_life :: life where
  "new_life = \<lparr>lf_filer = new_filer, lf_pending = [], lf_managed = True, lf_destroyed = False, lf_fault = False\<rparr>"

definition connection_start :: "services \<Rightarrow> bool \<Rightarrow> life \<Rightarrow> life" where
  "connection_start sv ec l =
     (if ec then manager_stop l
      else if sv_secure sv then l\<lparr>lf_pending := lf_pending l @ [H_abandoned, H_handshake]\<rparr>
      else l\<lparr>lf_filer := (lf_filer l)\<lparr>fl_conn := read_more (fl_conn (lf_filer l))\<rparr>,
             lf_pending := lf_pending l @ [H_abandoned, H_read_timer, H_read]\<rparr>)"

definition manager_start :: "services \<Rightarrow> bool \<Rightarrow> bool \<Rightarrow> life" where
  "manager_start sv ec1 ec2 =
     release (if ec1 then manager_stop new_life else connection_start sv ec2 new_life)"

datatype event = Run handler bool bool string int | StopAll

text \<open>The flag says that an exception leaves the handler, and with it \<^verbatim>\<open>io_service::run\<close>.\<close>

fun life_event :: "services \<Rightarrow> life \<Rightarrow> event \<Rightarrow> life \<times> bool" where
  "life_event sv l (Run h error aborted input now) =
     (if h \<notin> set (lf_pending l) then (l, False)
      else let l1 = l\<lparr>lf_pending := remove1 h (lf_pending l)\<rparr>
           in if lf_destroyed l then (l1\<lparr>lf_fault := True\<rparr>, False)
              else run_handler sv h error aborted input now l1)"
| "life_event sv l StopAll = (if lf_managed l then release (manager_stop l) else l, False)"

definition life_step :: "services \<Rightarrow> life \<Rightarrow> event \<Rightarrow> life" where
  "life_step sv l ev = fst (life_event sv l ev)"

definition life_run :: "services \<Rightarrow> life \<Rightarrow> event list \<Rightarrow> life" where
  "life_run sv l evs = foldl (life_step sv) l evs"

lemma life_run_simps [simp]:
  "life_run sv l [] = l" "life_run sv l (ev # evs) = life_run sv (life_step sv l ev) evs"
  "life_run sv l (evs @ evs') = life_run sv (life_run sv l evs) evs'"
  by (simp_all add: life_run_def)

section \<open>Accounts of the writes\<close>

text \<open>Every buffer that \<^const>\<open>MyWrite\<close> gives to the socket begins a write, and one is begun only when
  none is in progress.\<close>

definition grows :: "connection \<Rightarrow> connection \<Rightarrow> bool" where
  "grows c c' \<longleftrightarrow> (write_in_progress c \<longrightarrow> write_in_progress c') \<and>
     length (cn_issued c') + of_bool (write_in_progress c) = length (cn_issued c) + of_bool (write_in_progress c')"

lemma writes_grow_refl [simp]: "grows c c"
  by (simp add: grows_def)

lemma writes_grow_trans: "grows c c' \<Longrightarrow> grows c' c'' \<Longrightarrow> grows c c''"
  by (auto simp: grows_def)

lemma grows_same: "write_in_progress c' = write_in_progress c \<Longrightarrow> cn_issued c' = cn_issued c \<Longrightarrow> grows c c'"
  by (simp add: grows_def)

lemma grows_update [simp]:
  "grows c (c'\<lparr>connection_type := t\<rparr>) = grows c c'" "grows c (c'\<lparr>conn_keepalive := k\<rparr>) = grows c c'"
  "grows c (c'\<lparr>cn_buf := b\<rparr>) = grows c c'" "grows c (c'\<lparr>websocket_parser := w\<rparr>) = grows c c'"
  "grows c (c'\<lparr>cn_reading := r\<rparr>) = grows c c'" "grows c (c'\<lparr>cn_stopped := st\<rparr>) = grows c c'"
  "grows c (read_more c') = grows c c'" "grows c (stop_connection c') = grows c c'"
  "grows c (connection_stop c') = grows c c'"
  by (simp_all add: grows_def read_more_def stop_connection_def connection_stop_def)

lemma MyWrite_grows [simp]: "grows c c' \<Longrightarrow> grows c (MyWrite b c')"
  by (auto simp: grows_def MyWrite_def SocketWrite_def)

lemma MyWrite_reading [simp]: "cn_reading (MyWrite b c) = cn_reading c"
  by (simp add: MyWrite_def SocketWrite_def)

lemma run_output_grows: "grows c c' \<Longrightarrow> grows c (run_output jwrite c' os)"
  by (induction os arbitrary: c') (auto simp: run_output_def WS_Write_def split: ws_out.splits)

lemma run_output_reading: "cn_reading (run_output jwrite c os) = cn_reading c"
  by (induction os arbitrary: c) (auto simp: run_output_def WS_Write_def split: ws_out.splits)

lemma finish_request_grows: "grows c c' \<Longrightarrow> grows c (finish_request limits req rep c')"
  by (simp add: finish_request_def Let_def)

lemma handle_request_grows:
  "grows c c' \<Longrightarrow> grows c (handle_request handler snd_file address limits req c')"
  by (auto simp: handle_request_def Let_def finish_request_grows split: option.splits)

lemma handle_read_grows:
  "handle_read handler sf address limits reader sq jwrite error aborted input c = Some c' \<Longrightarrow> grows c c'"
  by (auto simp: handle_read_def handle_read_http_def handle_read_ws_def Let_def run_output_grows
      handle_request_grows split: if_splits verdict.splits prod.splits step_result.splits bool.splits)

lemma handle_write_grows: "grows (c\<lparr>write_in_progress := False\<rparr>) (handle_write error c)"
  by (auto simp: handle_write_def SocketWrite_def stop_connection_def grows_def Let_def split: list.splits)

lemma handle_write_reading: "cn_reading (handle_write error c) = cn_reading c"
  by (auto simp: handle_write_def SocketWrite_def stop_connection_def Let_def split: list.splits)

section \<open>What a handler leaves behind\<close>

text \<open>The flags that the run of \<open>h\<close> finds, its own taken down.\<close>

definition reading_before :: "handler \<Rightarrow> filer \<Rightarrow> bool" where
  "reading_before h fl \<longleftrightarrow> h \<noteq> H_read \<and> cn_reading (fl_conn fl)"

definition file_before :: "handler \<Rightarrow> filer \<Rightarrow> bool" where
  "file_before h fl \<longleftrightarrow> h \<noteq> H_file \<and> file_write fl"

definition writing_before :: "handler \<Rightarrow> filer \<Rightarrow> bool" where
  "writing_before h fl \<longleftrightarrow> h \<noteq> H_write \<and> write_in_progress (fl_conn fl)"

text \<open>The counts of the handlers that were asked for.\<close>

definition flags_kept :: "handler \<Rightarrow> filer \<Rightarrow> filer \<Rightarrow> bool" where
  "flags_kept h fl fl' \<longleftrightarrow>
     (reading_before h fl \<longrightarrow> cn_reading (fl_conn fl')) \<and> (file_before h fl \<longrightarrow> file_write fl') \<and>
     (writing_before h fl \<longrightarrow> write_in_progress (fl_conn fl')) \<and>
     length (cn_issued (fl_conn fl')) + of_bool (writing_before h fl) + of_bool (file_before h fl) =
       length (cn_issued (fl_conn fl)) + of_bool (write_in_progress (fl_conn fl')) + of_bool (file_write fl')"

lemma flags_keptI:
  assumes "cn_reading (fl_conn fl') = reading_before h fl \<or> h \<in> {H_read, H_handshake} \<and> cn_reading (fl_conn fl')
      \<or> h = H_read \<and> \<not> cn_reading (fl_conn fl')"
    and "file_write fl' = file_before h fl"
    and "grows ((fl_conn fl)\<lparr>write_in_progress := writing_before h fl\<rparr>) (fl_conn fl')"
  shows "flags_kept h fl fl'"
  using assms by (auto simp: flags_kept_def grows_def reading_before_def)

lemma send_file_cases:
  "snd (snd (send_file env now f a fl)) =
     (if is_open (ifstream_open (env_file env f) (sendfile fl)) then
        file_async_write (reply_to_string ''GET'' (file_reply env now f a (unread (ifstream_open (env_file env f) (sendfile fl)))))
          (fl\<lparr>sendfile := ifstream_open (env_file env f) (sendfile fl),
              fl_conn := (fl_conn fl)\<lparr>write_buffer := reply_to_string ''GET'' (file_reply env now f a
                (unread (ifstream_open (env_file env f) (sendfile fl))))\<rparr>\<rparr>)
      else fl\<lparr>sendfile := ifstream_open (env_file env f) (sendfile fl)\<rparr>)"
  by (simp add: send_file_def Let_def)

lemma send_file_ok:
  "fst (send_file env now f a fl) = is_open (ifstream_open (env_file env f) (sendfile fl))"
  by (simp add: send_file_def Let_def)

text \<open>The two outcomes of a request: the file is opened and nothing is read, or nothing happens to
  the file.\<close>

lemma handle_request_file_cases:
  assumes "\<not> is_open (sendfile fl)" and "\<not> cn_reading (fl_conn fl)"
  shows "let fl' = handle_request_file env now handler address limits req fl in
    (grows (fl_conn fl) (fl_conn fl') \<and> file_write fl' = file_write fl \<and> \<not> is_open (sendfile fl')) \<or>
    (\<exists>b. cn_issued (fl_conn fl') = cn_issued (fl_conn fl) @ [b] \<and>
       write_in_progress (fl_conn fl') = write_in_progress (fl_conn fl) \<and> \<not> cn_reading (fl_conn fl') \<and>
       file_write fl')"
proof (cases "download_target (handler (seen_request address req))")
  case None
  then show ?thesis
    using assms(1) handle_request_grows [OF writes_grow_refl] by (simp add: handle_request_file_def Let_def)
next
  case (Some t)
  obtain f a where t: "t = (f, a)" by (cases t)
  let ?ask = "\<lambda>f a. case send_file env now f a fl of (ok, rep, _) \<Rightarrow> if ok then None else Some rep"
  let ?c = "handle_request handler ?ask address limits req (fl_conn fl)"
  let ?s = "ifstream_open (env_file env f) (sendfile fl)"
  have fl': "handle_request_file env now handler address limits req fl =
      snd (snd (send_file env now f a (fl\<lparr>fl_conn := ?c\<rparr>)))"
    by (simp add: handle_request_file_def Some t Let_def)
  show ?thesis
  proof (cases "is_open ?s")
    case True
    have ask: "?ask f a = None" using True by (simp add: send_file_def Let_def)
    have "rp_status (handler (seen_request address req)) = st_download_file \<and>
        (\<exists>n. str_find crlf (rp_content (handler (seen_request address req))) 0 = Some n \<and>
           f = take n (rp_content (handler (seen_request address req))) \<and>
           a = drop (n + 2) (rp_content (handler (seen_request address req))))"
      using Some t by (auto simp: download_target_def split: if_splits option.splits)
    then have "?c = (fl_conn fl)\<lparr>conn_keepalive := wants_keepalive req\<rparr>"
      using ask by (auto simp: handle_request_def seen_request_def Let_def simp del: prod.case)
    with True assms(2) show ?thesis
      unfolding fl' Let_def by (simp add: send_file_cases file_async_write_def)
  next
    case False
    then show ?thesis
      using handle_request_grows [OF writes_grow_refl] unfolding fl' Let_def by (simp add: send_file_cases)
  qed
qed

definition file_idle :: "filer \<Rightarrow> bool" where
  "file_idle fl \<longleftrightarrow> \<not> is_open (sendfile fl) \<and> \<not> file_write fl"

lemma handle_read_filer_cases:
  assumes "fst (handle_read_filer sv now error aborted input fl) = fl'" and "file_idle fl"
  shows "(grows (fl_conn fl) (fl_conn fl') \<and> file_idle fl') \<or>
    (\<exists>b. cn_issued (fl_conn fl') = cn_issued (fl_conn fl) @ [b] \<and>
       write_in_progress (fl_conn fl') = write_in_progress (fl_conn fl) \<and> \<not> cn_reading (fl_conn fl') \<and>
       file_write fl')"
proof -
  let ?buf = "cn_buf (fl_conn fl) @ input"
  have raised: "grows (fl_conn fl) (ws_raised sv input (fl_conn fl))"
  proof -
    have "grows (fl_conn fl) (run_output j (fl_conn fl\<lparr>cn_reading := False, cn_buf := b\<rparr>) os)" for j b os
      by (rule run_output_grows) (simp add: grows_def)
    then show ?thesis by (simp add: ws_raised_def Let_def)
  qed
  let ?others = "case handle_read (sv_handler sv) (\<lambda>_ _. None) (sv_address sv) (sv_limits sv) (sv_reader sv)
     (sv_query sv) (sv_jwrite sv) error aborted input (fl_conn fl) of
    Some c' \<Rightarrow> (fl\<lparr>fl_conn := c'\<rparr>, False) | None \<Rightarrow> (fl\<lparr>fl_conn := ws_raised sv input (fl_conn fl)\<rparr>, True)"
  have others: "grows (fl_conn fl) (fl_conn fl') \<and> file_idle fl'" if "fst ?others = fl'"
    using that assms(2) raised by (auto simp: file_idle_def dest: handle_read_grows split: option.splits)
  obtain v st req rest where p: "parse_request ?buf = (v, st, req, rest)" by (cases "parse_request ?buf")
  show ?thesis
  proof (cases "\<not> error \<and> input \<noteq> [] \<and> connection_type (fl_conn fl) = connection_http \<and> v = Done True")
    case True
    let ?fl = "fl\<lparr>fl_conn := (fl_conn fl)\<lparr>cn_reading := False, cn_buf := rest\<rparr>\<rparr>"
    have fl': "fl' = handle_request_file (sv_env sv) now (sv_handler sv) (sv_address sv) (sv_limits sv) req ?fl"
      using assms(1) True by (simp add: handle_read_filer_def p Let_def)
    have g: "grows (fl_conn ?fl) c \<longleftrightarrow> grows (fl_conn fl) c" for c by (simp add: grows_def)
    show ?thesis
      using handle_request_file_cases [of ?fl "sv_env sv" now "sv_handler sv" "sv_address sv" "sv_limits sv" req] assms(2)
      unfolding fl' Let_def g by (auto simp: file_idle_def)
  next
    case False
    then show ?thesis
      using assms(1) others by (auto simp: handle_read_filer_def p Let_def split: if_splits step_result.splits bool.splits)
  qed
qed

lemma handle_write_file_cases:
  "let fl' = handle_write_file error fl in cn_reading (fl_conn fl') = cn_reading (fl_conn fl) \<and>
     write_in_progress (fl_conn fl') = write_in_progress (fl_conn fl) \<and>
     length (cn_issued (fl_conn fl')) = length (cn_issued (fl_conn fl)) + of_bool (file_write fl')"
  by (simp add: handle_write_file_def file_async_write_def stop_connection_def Let_def split: prod.splits)

lemma handle_read_timeout_grows:
  "grows c (handle_read_timeout jwrite error aborted c) \<and>
   cn_reading (handle_read_timeout jwrite error aborted c) = cn_reading c"
  by (simp add: handle_read_timeout_def run_output_grows run_output_reading) (simp add: stop_connection_def)

lemma writing_same [simp]: "c\<lparr>write_in_progress := write_in_progress c\<rparr> = c"
  by (cases c) simp

lemma perform_flags:
  assumes "fst (perform sv h error aborted input now fl) = fl'" and "h = H_read \<Longrightarrow> file_idle fl"
    and "h = H_handshake \<Longrightarrow> \<not> cn_reading (fl_conn fl)"
  shows "flags_kept h fl fl' \<and>
    (h \<noteq> H_read \<and> h \<noteq> H_file \<longrightarrow> sendfile fl' = sendfile fl \<and> file_write fl' = file_write fl) \<and>
    (h \<noteq> H_read \<and> h \<noteq> H_handshake \<longrightarrow> cn_reading (fl_conn fl') = cn_reading (fl_conn fl)) \<and>
    (h = H_read \<and> \<not> file_idle fl' \<longrightarrow> \<not> cn_reading (fl_conn fl'))"
proof (cases h)
  case H_read
  then show ?thesis
    using handle_read_filer_cases [of sv now error aborted input fl fl'] assms(1,2)
    by (auto simp: perform_def flags_kept_def reading_before_def file_before_def writing_before_def grows_def
        file_idle_def)
next
  case H_write
  then show ?thesis
    using assms(1) handle_write_grows [of "fl_conn fl" error]
    by (auto simp: perform_def flags_kept_def reading_before_def file_before_def writing_before_def grows_def
        handle_write_reading)
next
  case H_file
  then show ?thesis
    using assms(1) handle_write_file_cases [of error fl]
    by (auto simp: perform_def flags_kept_def reading_before_def file_before_def writing_before_def Let_def)
next
  case H_read_timer
  then show ?thesis
    using assms(1) handle_read_timeout_grows [of "fl_conn fl" "sv_jwrite sv" error aborted]
    by (auto simp: perform_def flags_kept_def reading_before_def file_before_def writing_before_def grows_def)
next
  case H_abandoned
  then show ?thesis
    using assms(1)
    by (cases aborted; cases error) (auto simp: perform_def flags_kept_def reading_before_def file_before_def writing_before_def
        handle_abandoned_timeout_def stop_connection_def)
next
  case H_handshake
  then show ?thesis
    using assms(1,3)
    by (cases aborted; cases error) (auto simp: perform_def flags_kept_def reading_before_def file_before_def writing_before_def
        handle_handshake_def stop_connection_def read_more_def)
qed

section \<open>The invariant of all runs\<close>

lemma count_asked:
  "count (mset (asked h error fl fl')) H_read =
     of_bool (cn_reading (fl_conn fl') \<and> (h = H_read \<or> \<not> cn_reading (fl_conn fl)))"
  "count (mset (asked h error fl fl')) H_write =
     length (cn_issued (fl_conn fl')) - length (cn_issued (fl_conn fl)) -
       of_bool (file_write fl' \<and> (h = H_file \<or> \<not> file_write fl))"
  "count (mset (asked h error fl fl')) H_file = of_bool (file_write fl' \<and> (h = H_file \<or> \<not> file_write fl))"
  "count (mset (asked h error fl fl')) H_handshake = 0"
  by (simp_all add: asked_def Let_def)

lemma writes_account:
  fixes a b :: nat
  assumes "a + of_bool p + of_bool f = b + of_bool w + of_bool g" and "f \<longrightarrow> g" and "p \<longrightarrow> w"
  shows "a - b - of_bool (g \<and> \<not> f) + of_bool p = of_bool w"
  using assms by (cases p; cases f; cases g; cases w) simp_all

lemma asked_counts:
  assumes "flags_kept h fl fl'"
  shows "count (mset (asked h error fl fl')) H_read + of_bool (reading_before h fl) = of_bool (cn_reading (fl_conn fl'))"
    and "count (mset (asked h error fl fl')) H_write + of_bool (writing_before h fl) = of_bool (write_in_progress (fl_conn fl'))"
    and "count (mset (asked h error fl fl')) H_file + of_bool (file_before h fl) = of_bool (file_write fl')"
proof -
  have f: "file_write fl' \<and> (h = H_file \<or> \<not> file_write fl) \<longleftrightarrow> file_write fl' \<and> \<not> file_before h fl"
    by (auto simp: file_before_def)
  show "count (mset (asked h error fl fl')) H_read + of_bool (reading_before h fl) = of_bool (cn_reading (fl_conn fl'))"
    using assms by (auto simp: count_asked flags_kept_def reading_before_def)
  show "count (mset (asked h error fl fl')) H_write + of_bool (writing_before h fl) = of_bool (write_in_progress (fl_conn fl'))"
    using assms unfolding count_asked f flags_kept_def by (intro writes_account) simp_all
  show "count (mset (asked h error fl fl')) H_file + of_bool (file_before h fl) = of_bool (file_write fl')"
    using assms unfolding count_asked f flags_kept_def by auto
qed

definition counts_ok :: "filer \<Rightarrow> handler multiset \<Rightarrow> bool" where
  "counts_ok fl m \<longleftrightarrow>
     count m H_read = of_bool (cn_reading (fl_conn fl)) \<and>
     count m H_write = of_bool (write_in_progress (fl_conn fl)) \<and>
     count m H_file = of_bool (file_write fl)"

definition reads_ok :: "filer \<Rightarrow> handler multiset \<Rightarrow> bool" where
  "reads_ok fl m \<longleftrightarrow> count m H_handshake \<le> 1 \<and>
     (count m H_handshake = 1 \<longrightarrow> \<not> cn_reading (fl_conn fl)) \<and>
     (\<not> file_idle fl \<longrightarrow> \<not> cn_reading (fl_conn fl) \<and> count m H_handshake = 0)"

definition life_ok :: "life \<Rightarrow> bool" where
  "life_ok l \<longleftrightarrow>
     (lf_destroyed l \<longleftrightarrow> \<not> lf_managed l \<and> \<not> list_ex shared (lf_pending l)) \<and>
     (lf_fault l \<longrightarrow> lf_destroyed l) \<and>
     (\<not> lf_fault l \<longrightarrow> counts_ok (lf_filer l) (mset (lf_pending l)) \<and> reads_ok (lf_filer l) (mset (lf_pending l)))"

lemma release_fields [simp]:
  "lf_filer (release l) = lf_filer l" "lf_pending (release l) = lf_pending l"
  "lf_managed (release l) = lf_managed l" "lf_fault (release l) = lf_fault l"
  by (simp_all add: release_def)

lemma release_destroyed:
  "\<not> lf_destroyed l \<Longrightarrow> lf_destroyed (release l) \<longleftrightarrow> \<not> lf_managed l \<and> \<not> list_ex shared (lf_pending l)"
  by (simp add: release_def)

lemma connection_stop_fields [simp]:
  "cn_reading (connection_stop c) = cn_reading c" "write_in_progress (connection_stop c) = write_in_progress c"
  by (simp_all add: connection_stop_def)

lemma stop_asked_fields [simp]:
  "lf_pending (stop_asked fl l) = lf_pending l" "lf_fault (stop_asked fl l) = lf_fault l"
  "lf_destroyed (stop_asked fl l) = lf_destroyed l"
  "counts_ok (lf_filer (stop_asked fl l)) m = counts_ok (lf_filer l) m"
  "reads_ok (lf_filer (stop_asked fl l)) m = reads_ok (lf_filer l) m"
  by (simp_all add: stop_asked_def manager_stop_def counts_ok_def reads_ok_def file_idle_def)

lemma manager_stop_fields [simp]:
  "lf_pending (manager_stop l) = lf_pending l" "lf_fault (manager_stop l) = lf_fault l"
  "lf_destroyed (manager_stop l) = lf_destroyed l" "\<not> lf_managed (manager_stop l)"
  "counts_ok (lf_filer (manager_stop l)) m = counts_ok (lf_filer l) m"
  "reads_ok (lf_filer (manager_stop l)) m = reads_ok (lf_filer l) m"
  by (simp_all add: manager_stop_def counts_ok_def reads_ok_def file_idle_def)

lemma perform_keeps_counts:
  assumes p: "fst (perform sv h error aborted input now fl) = fl'" and h: "h \<in># m"
    and c: "counts_ok fl m" and r: "reads_ok fl m"
  shows "counts_ok fl' (m - {#h#} + mset (asked h error fl fl')) \<and>
    reads_ok fl' (m - {#h#} + mset (asked h error fl fl'))"
proof -
  have read: "cn_reading (fl_conn fl)" if "h = H_read"
  proof -
    have "count m H_read > 0" using h that by (simp add: count_greater_zero_iff)
    with c show ?thesis by (simp add: counts_ok_def split: if_splits)
  qed
  have fwrite: "file_write fl" if "h = H_file"
  proof -
    have "count m H_file > 0" using h that by (simp add: count_greater_zero_iff)
    with c show ?thesis by (simp add: counts_ok_def split: if_splits)
  qed
  have hand: "count m H_handshake = 1" if "h = H_handshake"
  proof -
    have "count m H_handshake > 0" using h that by (simp add: count_greater_zero_iff)
    moreover have "count m H_handshake \<le> 1" using r by (simp add: reads_ok_def)
    ultimately show ?thesis by linarith
  qed
  have f: "flags_kept h fl fl' \<and>
    (h \<noteq> H_read \<and> h \<noteq> H_file \<longrightarrow> sendfile fl' = sendfile fl \<and> file_write fl' = file_write fl) \<and>
    (h \<noteq> H_read \<and> h \<noteq> H_handshake \<longrightarrow> cn_reading (fl_conn fl') = cn_reading (fl_conn fl)) \<and>
    (h = H_read \<and> \<not> file_idle fl' \<longrightarrow> \<not> cn_reading (fl_conn fl'))"
    by (rule perform_flags [OF p]) (use r read hand in \<open>auto simp: reads_ok_def\<close>)
  note a = asked_counts [OF conjunct1 [OF f], of error]
  show ?thesis
  proof
    show "counts_ok fl' (m - {#h#} + mset (asked h error fl fl'))"
      using a c by (cases h) (auto simp: counts_ok_def reading_before_def writing_before_def file_before_def)
    show "reads_ok fl' (m - {#h#} + mset (asked h error fl fl'))"
      using f r read hand fwrite
      by (cases h) (auto simp: count_asked(4) reads_ok_def file_idle_def)
  qed
qed

lemma counts_unstopped [simp]:
  "counts_ok (fl\<lparr>fl_conn := (fl_conn fl)\<lparr>cn_stopped := b\<rparr>\<rparr>) m = counts_ok fl m"
  "reads_ok (fl\<lparr>fl_conn := (fl_conn fl)\<lparr>cn_stopped := b\<rparr>\<rparr>) m = reads_ok fl m"
  by (simp_all add: counts_ok_def reads_ok_def file_idle_def)

lemma life_start_ok: "life_ok (manager_start sv ec1 ec2)"
  by (auto simp: life_ok_def manager_start_def connection_start_def new_life_def manager_stop_def release_def
      counts_ok_def reads_ok_def file_idle_def new_filer_def new_connection_def connection_stop_def
      closed_stream_def read_more_def shared_def)

lemma list_ex_remove1: "list_ex P (remove1 x xs) \<Longrightarrow> list_ex P xs"
  by (induction xs) (auto split: if_splits)

lemma run_handler_split:
  "\<exists>fl'. fst (perform sv h error aborted input now
        ((lf_filer l)\<lparr>fl_conn := (fl_conn (lf_filer l))\<lparr>cn_stopped := False\<rparr>\<rparr>)) = fl' \<and>
     fst (run_handler sv h error aborted input now l) =
       release (stop_asked fl' (l\<lparr>lf_filer := fl', lf_pending := lf_pending l @
         asked h error ((lf_filer l)\<lparr>fl_conn := (fl_conn (lf_filer l))\<lparr>cn_stopped := False\<rparr>\<rparr>) fl'\<rparr>))"
  by (simp add: run_handler_def Let_def split: prod.splits)

lemma run_handler_ok:
  assumes "life_ok l" and h: "h \<in> set (lf_pending l)" and d: "\<not> lf_destroyed l"
    and run: "fst (run_handler sv h error aborted input now (l\<lparr>lf_pending := remove1 h (lf_pending l)\<rparr>)) = l'"
  shows "life_ok l' \<and> \<not> lf_fault l'"
proof -
  let ?fl = "(lf_filer l)\<lparr>fl_conn := (fl_conn (lf_filer l))\<lparr>cn_stopped := False\<rparr>\<rparr>"
  have f: "\<not> lf_fault l" using assms(1) d by (simp add: life_ok_def)
  then have ok: "counts_ok ?fl (mset (lf_pending l))" "reads_ok ?fl (mset (lf_pending l))"
    using assms(1) by (simp_all add: life_ok_def)
  obtain fl' where p: "fst (perform sv h error aborted input now ?fl) = fl'"
    and l': "l' = release (stop_asked fl' (l\<lparr>lf_filer := fl',
      lf_pending := remove1 h (lf_pending l) @ asked h error ?fl fl'\<rparr>))"
    using run_handler_split [of sv h error aborted input now "l\<lparr>lf_pending := remove1 h (lf_pending l)\<rparr>"] run
    by auto
  have "h \<in># mset (lf_pending l)" using h by simp
  note k = perform_keeps_counts [OF p this ok]
  have "\<not> lf_destroyed (stop_asked fl' (l\<lparr>lf_filer := fl',
      lf_pending := remove1 h (lf_pending l) @ asked h error ?fl fl'\<rparr>))" using d by simp
  from release_destroyed [OF this] show ?thesis
    unfolding l' life_ok_def using k f by simp
qed

text \<open>The three cases of a step.\<close>

lemma life_step_Run:
  "h \<notin> set (lf_pending l) \<Longrightarrow> life_step sv l (Run h error aborted input now) = l"
  "h \<in> set (lf_pending l) \<Longrightarrow> lf_destroyed l \<Longrightarrow>
     life_step sv l (Run h error aborted input now) =
       l\<lparr>lf_pending := remove1 h (lf_pending l), lf_fault := True\<rparr>"
  "h \<in> set (lf_pending l) \<Longrightarrow> \<not> lf_destroyed l \<Longrightarrow>
     life_step sv l (Run h error aborted input now) =
       fst (run_handler sv h error aborted input now (l\<lparr>lf_pending := remove1 h (lf_pending l)\<rparr>))"
  by (simp_all add: life_step_def Let_def)

lemma life_step_StopAll:
  "life_step sv l StopAll = (if lf_managed l then release (manager_stop l) else l)"
  by (simp add: life_step_def)

lemma life_step_ok:
  assumes "life_ok l"
  shows "life_ok (life_step sv l ev)"
proof (cases ev)
  case (Run h error aborted input now)
  consider "h \<notin> set (lf_pending l)" | "h \<in> set (lf_pending l)" "lf_destroyed l"
    | "h \<in> set (lf_pending l)" "\<not> lf_destroyed l" by blast
  then show ?thesis
  proof cases
    case 1
    with assms Run show ?thesis by (simp add: life_step_Run)
  next
    case 2
    with assms Run show ?thesis by (auto simp: life_ok_def life_step_Run dest: list_ex_remove1)
  next
    case 3
    with Run show ?thesis
      using run_handler_ok [OF assms 3 refl, of sv error aborted input now] by (simp add: life_step_Run)
  qed
next
  case StopAll
  show ?thesis
  proof (cases "lf_managed l")
    case True
    then have "\<not> lf_destroyed l" using assms by (simp add: life_ok_def)
    with release_destroyed [of "manager_stop l"] show ?thesis
      using assms StopAll True by (auto simp: life_ok_def life_step_StopAll)
  qed (use assms StopAll in \<open>simp add: life_step_StopAll\<close>)
qed

lemma life_run_ok: "life_ok l \<Longrightarrow> life_ok (life_run sv l evs)"
  by (induction evs arbitrary: l) (auto intro: life_step_ok)

section \<open>Draining a stopped connection\<close>

text \<open>What a closed socket and cancelled timers still owe: every handler, with an error.\<close>

definition aborted_run :: "handler list \<Rightarrow> event list" where
  "aborted_run hs = map (\<lambda>h. Run h True True [] 0) hs"

lemma aborted_run_simps [simp]:
  "aborted_run [] = []" "aborted_run (h # hs) = Run h True True [] 0 # aborted_run hs"
  by (simp_all add: aborted_run_def)

lemma aborted_asks_nothing: "asked h True fl (fst (perform sv h True True [] 0 fl)) = []"
proof (cases h)
  case H_read
  then show ?thesis
    by (simp add: perform_def handle_read_filer_def handle_read_def asked_def Let_def)
next
  case H_write
  then show ?thesis
    by (simp add: perform_def handle_write_def asked_def stop_connection_def Let_def)
next
  case H_file
  then show ?thesis
    by (simp add: perform_def handle_write_file_def asked_def stop_connection_def Let_def)
qed (simp_all add: perform_def asked_def handle_read_timeout_def handle_abandoned_timeout_def
    handle_handshake_def stop_connection_def Let_def)

lemma aborted_step:
  assumes "\<not> lf_destroyed l" and "\<not> lf_managed l"
  shows "\<exists>l'. fst (run_handler sv h True True [] 0 l) = l' \<and> lf_pending l' = lf_pending l \<and>
    \<not> lf_managed l' \<and> lf_fault l' = lf_fault l \<and> (lf_destroyed l' \<longleftrightarrow> \<not> list_ex shared (lf_pending l))"
proof -
  let ?fl = "(lf_filer l)\<lparr>fl_conn := (fl_conn (lf_filer l))\<lparr>cn_stopped := False\<rparr>\<rparr>"
  let ?fl' = "fst (perform sv h True True [] 0 ?fl)"
  let ?l = "stop_asked ?fl' (l\<lparr>lf_filer := ?fl', lf_pending := lf_pending l\<rparr>)"
  have m: "\<not> lf_managed ?l" "\<not> lf_destroyed ?l"
    using assms by (simp_all add: stop_asked_def)
  have "fst (run_handler sv h True True [] 0 l) = release ?l"
    using run_handler_split [of sv h True True "[]" 0 l] by (simp add: aborted_asks_nothing)
  with m release_destroyed [OF m(2)] show ?thesis by auto
qed

text \<open>The file's write must not be the last: it alone does not hold the connection.\<close>

definition raw_last :: "handler list \<Rightarrow> bool" where
  "raw_last hs \<longleftrightarrow> hs \<noteq> [] \<and> \<not> shared (last hs)"

lemma raw_last_Cons: "raw_last (h # hs) \<longleftrightarrow> (if hs = [] then \<not> shared h else raw_last hs)"
  by (simp add: raw_last_def)

lemma drain_destroyed:
  "lf_destroyed l \<Longrightarrow> let l' = life_run sv l (aborted_run (lf_pending l)) in
     lf_destroyed l' \<and> lf_pending l' = [] \<and> (lf_fault l' \<longleftrightarrow> lf_fault l \<or> lf_pending l \<noteq> [])"
proof (induction "lf_pending l" arbitrary: l)
  case (Cons h hs)
  have e: "lf_pending l = h # hs" using Cons.hyps(2) by simp
  show ?case
    using Cons.prems Cons.hyps(1) [of "l\<lparr>lf_pending := hs, lf_fault := True\<rparr>"]
    by (simp add: e life_step_Run Let_def)
qed (metis aborted_run_simps(1) life_run_simps(1))

lemma drain_stopped:
  "\<not> lf_managed l \<Longrightarrow> \<not> lf_destroyed l \<Longrightarrow> list_ex shared (lf_pending l) \<Longrightarrow>
   let l' = life_run sv l (aborted_run (lf_pending l)) in
     lf_destroyed l' \<and> lf_pending l' = [] \<and> (lf_fault l' \<longleftrightarrow> lf_fault l \<or> raw_last (lf_pending l))"
proof (induction "lf_pending l" arbitrary: l)
  case Nil
  then show ?case by (metis empty_iff empty_set list_ex_iff)
next
  case (Cons h hs)
  have e: "lf_pending l = h # hs" using Cons.hyps(2) by simp
  obtain l1 where l1: "fst (run_handler sv h True True [] 0 (l\<lparr>lf_pending := hs\<rparr>)) = l1" "lf_pending l1 = hs"
      "\<not> lf_managed l1" "lf_fault l1 = lf_fault l" "lf_destroyed l1 \<longleftrightarrow> \<not> list_ex shared hs"
    using aborted_step [of "l\<lparr>lf_pending := hs\<rparr>" sv h] Cons.prems(1,2) by auto
  have run: "life_run sv l (aborted_run (lf_pending l)) = life_run sv l1 (aborted_run (lf_pending l1))"
    using Cons.prems(2) l1(1,2) by (simp add: e life_step_Run)
  show ?case
  proof (cases "list_ex shared hs")
    case True
    then have "hs \<noteq> []" by auto
    with True Cons.hyps(1) [OF l1(2) [symmetric] l1(3)] l1 show ?thesis
      unfolding run by (simp add: e raw_last_Cons)
  next
    case False
    have h: "shared h" using Cons.prems(3) False by (simp add: e)
    have r: "raw_last hs \<longleftrightarrow> hs \<noteq> []" using False by (auto simp: raw_last_def list_ex_iff)
    show ?thesis
      using drain_destroyed [of l1 sv] l1 False h unfolding run by (auto simp: e raw_last_Cons r Let_def)
  qed
qed

end
