(* ===== verification/ConnectionRuns.thy ===== *)
theory ConnectionRuns
  imports ConnectionLife
begin

text \<open>
  Properties of all runs of a connection of the web server: the accounts of its handlers, its end,
  when a handler can run on freed memory, and connections that will never read again.
\<close>

section \<open>Runs without a detached file\<close>

fun always :: "(life \<Rightarrow> bool) \<Rightarrow> services \<Rightarrow> life \<Rightarrow> event list \<Rightarrow> bool" where
  "always P sv l [] = P l"
| "always P sv l (ev # evs) = (P l \<and> always P sv (life_step sv l ev) evs)"

text \<open>While the file's write is outstanding the manager holds the connection.\<close>

definition held :: "life \<Rightarrow> bool" where
  "held l \<longleftrightarrow> (file_write (lf_filer l) \<longrightarrow> lf_managed l)"

lemma owed_file:
  assumes "life_ok l" and "\<not> lf_fault l" and "H_file \<in> set (lf_pending l)"
  shows "file_write (lf_filer l)"
proof -
  have "count (mset (lf_pending l)) H_file > 0" using assms(3) by (simp add: count_greater_zero_iff)
  with assms(1,2) show ?thesis by (simp add: life_ok_def counts_ok_def split: if_splits)
qed

lemma held_step:
  assumes "life_ok l" and "\<not> lf_fault l" and "held l"
  shows "\<not> lf_fault (life_step sv l ev)"
proof (cases ev)
  case (Run h error aborted input now)
  consider "h \<notin> set (lf_pending l)" | "h \<in> set (lf_pending l)" "lf_destroyed l"
    | "h \<in> set (lf_pending l)" "\<not> lf_destroyed l" by blast
  then show ?thesis
  proof cases
    case 1
    with assms Run show ?thesis by (simp add: life_step_Run)
  next
    case 2
    have m: "\<not> lf_managed l" and s: "\<not> list_ex shared (lf_pending l)"
      using assms(1) 2 by (auto simp: life_ok_def)
    have "h = H_file" using s 2 by (auto simp: list_ex_iff shared_def)
    with owed_file [OF assms(1,2)] 2 assms(3) m show ?thesis by (simp add: held_def)
  next
    case 3
    with Run run_handler_ok [OF assms(1) 3 refl, of sv error aborted input now] show ?thesis
      by (simp add: life_step_Run)
  qed
next
  case StopAll
  with assms(2) show ?thesis by (simp add: life_step_StopAll)
qed

lemma held_run: "life_ok l \<Longrightarrow> \<not> lf_fault l \<Longrightarrow> always held sv l evs \<Longrightarrow> \<not> lf_fault (life_run sv l evs)"
  by (induction evs arbitrary: l) (simp_all add: life_step_ok held_step)

text \<open>A server whose handlers answer no request with a download.\<close>

definition no_downloads :: "services \<Rightarrow> bool" where
  "no_downloads sv \<longleftrightarrow> (\<forall>req. rp_status (sv_handler sv req) \<noteq> st_download_file)"

lemma no_download_request:
  assumes "no_downloads sv"
  shows "file_write (handle_request_file env now (sv_handler sv) address limits req fl) = file_write fl"
proof -
  have "download_target (sv_handler sv (seen_request address req)) = None"
    using assms by (simp add: download_target_def no_downloads_def)
  then show ?thesis by (simp add: handle_request_file_def Let_def)
qed

text \<open>The outcomes of a read, by what becomes of the connection.\<close>

lemma handle_read_filer_shape:
  obtains (Request) req rest where
      "handle_read_filer sv now error aborted input fl =
        (handle_request_file (sv_env sv) now (sv_handler sv) (sv_address sv) (sv_limits sv) req
          (fl\<lparr>fl_conn := (fl_conn fl)\<lparr>cn_reading := False, cn_buf := rest\<rparr>\<rparr>), False)"
  | (Other) c where "handle_read_filer sv now error aborted input fl = (fl\<lparr>fl_conn := c\<rparr>, False)"
  | (Raises) "handle_read_filer sv now error aborted input fl = (fl\<lparr>fl_conn := ws_raised sv input (fl_conn fl)\<rparr>, True)"
proof -
  obtain v st req rest where p: "parse_request (cn_buf (fl_conn fl) @ input) = (v, st, req, rest)"
    by (cases "parse_request (cn_buf (fl_conn fl) @ input)")
  let ?r = "handle_read (sv_handler sv) (\<lambda>_ _. None) (sv_address sv) (sv_limits sv) (sv_reader sv)
    (sv_query sv) (sv_jwrite sv) error aborted input (fl_conn fl)"
  consider "\<not> error \<and> input \<noteq> [] \<and> connection_type (fl_conn fl) = connection_http \<and> v = Done True"
    | "\<not> (\<not> error \<and> input \<noteq> [] \<and> connection_type (fl_conn fl) = connection_http \<and> v = Done True)" by blast
  then show ?thesis
  proof cases
    case 1
    with Request show ?thesis by (simp add: handle_read_filer_def p Let_def)
  next
    case 2
    then have "handle_read_filer sv now error aborted input fl =
        (case ?r of Some c' \<Rightarrow> (fl\<lparr>fl_conn := c'\<rparr>, False)
         | None \<Rightarrow> (fl\<lparr>fl_conn := ws_raised sv input (fl_conn fl)\<rparr>, True))"
      unfolding handle_read_filer_def p Let_def by (auto split: step_result.splits bool.splits)
    with Other Raises show ?thesis by (cases ?r) auto
  qed
qed

lemma no_download_perform:
  assumes "no_downloads sv" and "\<not> file_write fl" and "h \<noteq> H_file"
  shows "\<not> file_write (fst (perform sv h error aborted input now fl))"
proof (cases h)
  case H_read
  then show ?thesis
    using assms(1,2)
    by (cases rule: handle_read_filer_shape [of sv now error aborted input fl])
      (simp_all add: perform_def no_download_request)
qed (use assms in \<open>simp_all add: perform_def\<close>)

lemma stop_file [simp]:
  "file_write (lf_filer (manager_stop l)) = file_write (lf_filer l)"
  "file_write (lf_filer (stop_asked fl l)) = file_write (lf_filer l)"
  by (simp_all add: manager_stop_def stop_asked_def)

lemma run_handler_file:
  "file_write (lf_filer (fst (run_handler sv h error aborted input now l))) =
     file_write (fst (perform sv h error aborted input now
       ((lf_filer l)\<lparr>fl_conn := (fl_conn (lf_filer l))\<lparr>cn_stopped := False\<rparr>\<rparr>)))"
  using run_handler_split [of sv h error aborted input now l] by auto

lemma no_download_step:
  assumes nd: "no_downloads sv" and ok: "life_ok l" and f: "\<not> lf_fault l" "\<not> file_write (lf_filer l)"
  shows "\<not> file_write (lf_filer (life_step sv l ev))"
proof (cases ev)
  case (Run h error aborted input now)
  show ?thesis
  proof (cases "h \<in> set (lf_pending l) \<and> \<not> lf_destroyed l")
    case True
    then have h: "h \<noteq> H_file" using owed_file [OF ok f(1)] f(2) by auto
    from True show ?thesis
      using no_download_perform [OF nd _ h] f(2) by (simp add: Run life_step_Run run_handler_file)
  next
    case False
    with Run f(2) show ?thesis by (cases "h \<in> set (lf_pending l)") (auto simp: life_step_Run)
  qed
next
  case StopAll
  with f(2) show ?thesis by (simp add: life_step_StopAll)
qed

lemma no_download_held:
  "no_downloads sv \<Longrightarrow> life_ok l \<Longrightarrow> \<not> lf_fault l \<Longrightarrow> \<not> file_write (lf_filer l) \<Longrightarrow> always held sv l evs"
proof (induction evs arbitrary: l)
  case (Cons ev evs)
  have "held l" using Cons.prems(4) by (simp add: held_def)
  then show ?case
    using Cons.IH life_step_ok [OF Cons.prems(2), of sv ev] held_step [OF Cons.prems(2,3) \<open>held l\<close>, of sv ev]
      no_download_step [OF Cons.prems, of ev] Cons.prems(1)
    by simp
qed (simp add: held_def)

lemma start_clean:
  "\<not> lf_fault (manager_start sv ec1 ec2)" "\<not> file_write (lf_filer (manager_start sv ec1 ec2))"
  by (simp_all add: manager_start_def connection_start_def new_life_def new_filer_def manager_stop_def)

section \<open>Connections that read no more\<close>

definition deaf :: "life \<Rightarrow> bool" where
  "deaf l \<longleftrightarrow> H_read \<notin> set (lf_pending l) \<and> H_handshake \<notin> set (lf_pending l)"

lemma asked_read: "H_read \<in> set (asked h error fl fl') \<longleftrightarrow> cn_reading (fl_conn fl') \<and> (h = H_read \<or> \<not> cn_reading (fl_conn fl))"
  by (auto simp: asked_def Let_def)

lemma asked_handshake: "H_handshake \<notin> set (asked h error fl fl')"
  by (auto simp: asked_def Let_def)

lemma perform_reading:
  assumes "h \<noteq> H_read" and "h \<noteq> H_handshake"
  shows "cn_reading (fl_conn (fst (perform sv h error aborted input now fl))) = cn_reading (fl_conn fl)"
  using perform_flags [OF refl, of h fl sv error aborted input now] assms by blast

lemma run_handler_deaf:
  assumes "h \<noteq> H_read" and "h \<noteq> H_handshake" and "deaf l"
  shows "deaf (fst (run_handler sv h error aborted input now l))"
  using run_handler_split [of sv h error aborted input now l] assms(3) perform_reading [OF assms(1,2)]
  by (auto simp: deaf_def asked_read asked_handshake assms(1))

lemma deaf_life_step: "deaf l \<Longrightarrow> deaf (life_step sv l ev)"
proof (induction ev)
  case (Run h error aborted input now)
  have rem: "deaf (l\<lparr>lf_pending := remove1 h (lf_pending l), lf_fault := b\<rparr>)" for b
    using Run by (auto simp: deaf_def dest: notin_set_remove1)
  have rem': "deaf (l\<lparr>lf_pending := remove1 h (lf_pending l)\<rparr>)"
    using Run by (auto simp: deaf_def dest: notin_set_remove1)
  consider "h \<notin> set (lf_pending l)" | "h \<in> set (lf_pending l)" "lf_destroyed l"
    | "h \<in> set (lf_pending l)" "\<not> lf_destroyed l" by blast
  then show ?case
  proof cases
    case 3
    then have "h \<noteq> H_read" "h \<noteq> H_handshake" using Run by (auto simp: deaf_def)
    from run_handler_deaf [OF this rem'] 3 show ?thesis by (simp add: life_step_Run)
  qed (use Run rem in \<open>simp_all add: life_step_Run\<close>)
next
  case StopAll
  then show ?case by (simp add: life_step_StopAll deaf_def)
qed

lemma deaf_life_run: "deaf l \<Longrightarrow> deaf (life_run sv l evs)"
  by (induction evs arbitrary: l) (auto intro: deaf_life_step)

lemma run_output_stopped: "cn_stopped (run_output jwrite c os) = cn_stopped c"
  by (induction os arbitrary: c)
    (auto simp: run_output_def WS_Write_def MyWrite_def SocketWrite_def split: ws_out.splits)

lemma read_raised:
  assumes "snd (perform sv h error aborted input now fl)"
  shows "h = H_read \<and> fst (perform sv h error aborted input now fl) = fl\<lparr>fl_conn := ws_raised sv input (fl_conn fl)\<rparr>"
proof (cases h)
  case H_read
  then show ?thesis
    using assms
    by (cases rule: handle_read_filer_shape [of sv now error aborted input fl]) (simp_all add: perform_def)
qed (use assms in \<open>simp_all add: perform_def\<close>)

section \<open>A download from its beginning\<close>

definition example_services :: "string \<Rightarrow> services" where
  "example_services d = \<lparr>sv_handler = download_handler, sv_env = download_env d, sv_address = [], sv_limits = [],
     sv_reader = (\<lambda>_. None), sv_query = (\<lambda>_. []), sv_jwrite = (\<lambda>_. []), sv_secure = False\<rparr>"

definition example_read :: event where
  "example_read = Run H_read False False (request_head example_get @ crlf) 0"

lemma example_start:
  "sv_secure sv = False \<Longrightarrow> lf_pending (manager_start sv False False) = [H_abandoned, H_read_timer, H_read] \<and>
     lf_managed (manager_start sv False False) \<and> \<not> lf_destroyed (manager_start sv False False) \<and>
     lf_filer (manager_start sv False False) = new_filer\<lparr>fl_conn := read_more new_connection\<rparr>"
  by (simp add: manager_start_def connection_start_def new_life_def release_def new_filer_def)

lemma example_download:
  fixes d :: string
  defines "l \<equiv> life_run (example_services d) (manager_start (example_services d) False False) [example_read]"
  shows "lf_pending l = [H_abandoned, H_read_timer, H_file]" "lf_managed l" "\<not> lf_destroyed l" "\<not> lf_fault l"
proof -
  let ?sv = "example_services d" and ?req = "head_request example_get"
  let ?l0 = "manager_start ?sv False False"
  let ?fl = "(lf_filer ?l0)\<lparr>fl_conn := (fl_conn (lf_filer ?l0))\<lparr>cn_stopped := False\<rparr>\<rparr>"
  let ?fl1 = "?fl\<lparr>fl_conn := (fl_conn ?fl)\<lparr>cn_reading := False, cn_buf := []\<rparr>\<rparr>"
  let ?fl2 = "handle_request_file (download_env d) 0 download_handler [] [] ?req ?fl1"
  have b: "\<not> body_method (w_method example_get)" by code_simp
  have parse: "parse_request (request_head example_get @ crlf) = (Done True, expecting_newline_3, ?req, [])"
    using parse_request_end [OF example_wire_ok(1), of "[]"] b by (simp add: crlf_def)
  have l0: "lf_pending ?l0 = [H_abandoned, H_read_timer, H_read]" "lf_managed ?l0" "\<not> lf_destroyed ?l0"
      "lf_filer ?l0 = new_filer\<lparr>fl_conn := read_more new_connection\<rparr>"
    using example_start [of ?sv] by (simp_all add: example_services_def)
  note st = download_started [where handler = download_handler and addr = "[]" and req = ?req and now = 0
      and limits = "[]" and fl = ?fl1, OF example_downloads, of d, unfolded Let_def]
  have ne: "request_head example_get @ crlf \<noteq> []" by (simp add: crlf_def)
  have "perform ?sv H_read False False (request_head example_get @ crlf) 0 ?fl = (?fl2, False)"
    using ne by (simp add: l0(4) perform_def handle_read_filer_def parse read_more_def new_connection_def Let_def)
      (simp add: example_services_def)
  moreover have "asked H_read False ?fl ?fl2 = [H_file]" "\<not> cn_stopped (fl_conn ?fl2)"
    using conjunct2 [OF st] conjunct1 [OF st] by (simp_all add: l0(4) asked_def sending_def new_filer_def Let_def)
  ultimately have "l = \<lparr>lf_filer = ?fl2, lf_pending = [H_abandoned, H_read_timer, H_file], lf_managed = True,
      lf_destroyed = False, lf_fault = False\<rparr>"
    using l0 by (simp add: l_def example_read_def life_step_Run run_handler_def stop_asked_def release_def
      start_clean Let_def)
  then show "lf_pending l = [H_abandoned, H_read_timer, H_file]" "lf_managed l" "\<not> lf_destroyed l" "\<not> lf_fault l"
    by simp_all
qed

section \<open>Properties\<close>

text \<open>Along every run of a connection, whatever the order and the outcome of its handlers: it is
  destroyed exactly when the manager let go of it and no handler that holds it is owed; and
  while nothing ran on freed memory, exactly one read, one queued write and one write of a file are owed
  when its flags say so, and a connection that has a file open reads nothing.\<close>

theorem handlers_accounted:
  shows "let l = life_run sv (manager_start sv ec1 ec2) evs; fl = lf_filer l;
      owed = count (mset (lf_pending l))
    in (lf_destroyed l \<longleftrightarrow> \<not> lf_managed l \<and> \<not> list_ex shared (lf_pending l)) \<and>
       (lf_fault l \<or>
        (owed H_read = of_bool (cn_reading (fl_conn fl)) \<and>
         owed H_write = of_bool (write_in_progress (fl_conn fl)) \<and>
         owed H_file = of_bool (file_write fl) \<and>
         \<not> (is_open (sendfile fl) \<and> (cn_reading (fl_conn fl) \<or> H_handshake \<in> set (lf_pending l)))))"
  using life_run_ok [OF life_start_ok, of sv sv ec1 ec2 evs]
  by (auto simp: life_ok_def counts_ok_def reads_ok_def file_idle_def Let_def)

text \<open>A connection that was stopped is reclaimed: once its outstanding handlers were
  called, it is destroyed and owes nothing.  A handler runs on freed memory exactly when the last
  one is the completion of a file's write, which does not hold the connection.\<close>

theorem stopped_connection_reclaimed:
  assumes "l = life_run sv (manager_start sv ec1 ec2) evs" and "\<not> lf_managed l" and "\<not> lf_destroyed l"
  shows "let l' = life_run sv l (aborted_run (lf_pending l)) in
    lf_destroyed l' \<and> lf_pending l' = [] \<and> (lf_fault l' \<longleftrightarrow> last (lf_pending l) = H_file)"
proof -
  have ok: "life_ok l" unfolding assms(1) by (rule life_run_ok [OF life_start_ok])
  have ex: "list_ex shared (lf_pending l)" using ok assms(2,3) by (auto simp: life_ok_def)
  then have "lf_pending l \<noteq> []" by auto
  with drain_stopped [OF assms(2,3) ex, of sv] ok assms(3) show ?thesis
    by (auto simp: life_ok_def raw_last_def shared_def Let_def)
qed

theorem stopped_connection_reclaimed_witness:
  "let sv = example_services []; l = life_run sv (manager_start sv False False) [StopAll]
   in lf_destroyed (life_run sv l (aborted_run (lf_pending l)))"
proof -
  let ?sv = "example_services []"
  let ?l = "life_run ?sv (manager_start ?sv False False) [StopAll]"
  have "\<not> lf_managed ?l" "\<not> lf_destroyed ?l"
    using example_start [of ?sv]
    by (simp_all add: life_step_StopAll release_def shared_def example_services_def)
  from stopped_connection_reclaimed [OF refl this] show ?thesis by (simp only: Let_def)
qed

text \<open>No handler runs on freed memory as long as the manager holds the connection
  whenever the write of a file is outstanding, which is always so on a server that sends no files.\<close>

theorem no_dangling_handler:
  assumes "no_downloads sv \<or> always held sv (manager_start sv ec1 ec2) evs"
  shows "\<not> lf_fault (life_run sv (manager_start sv ec1 ec2) evs)"
  using held_run [OF life_start_ok start_clean(1)] no_download_held [OF _ life_start_ok start_clean] assms by blast

theorem no_dangling_handler_witness:
  "let sv = (example_services [])\<lparr>sv_handler := \<lambda>_. stock_reply st_not_found\<rparr>
   in \<not> lf_fault (life_run sv (manager_start sv False False) [example_read, StopAll, Run H_write True True [] 0])"
proof -
  have "no_downloads ((example_services [])\<lparr>sv_handler := \<lambda>_. stock_reply st_not_found\<rparr>)"
    by (simp add: no_downloads_def)
  then show ?thesis unfolding Let_def by (intro no_dangling_handler disjI1)
qed

text \<open>C40: A download that takes longer than the connection's twenty minutes ends on freed
  memory: the timer stops the connection, whose last holder goes with the timer's and the cancelled
  handlers, and the aborted write of the file completes after that.\<close>

theorem long_download_dangles:
  assumes "l = life_run sv (manager_start sv ec1 ec2) evs" and "\<not> lf_destroyed l" and "lf_managed l"
    and "H_abandoned \<in> set (lf_pending l)" and "last (lf_pending l) = H_file"
  shows "lf_fault (life_run sv l
    (Run H_abandoned False False [] 0 # aborted_run (remove1 H_abandoned (lf_pending l))))"
proof -
  let ?hs = "remove1 H_abandoned (lf_pending l)"
  obtain xs where xs: "lf_pending l = xs @ [H_file]"
    using assms(4,5) by (metis append_butlast_last_id empty_iff empty_set)
  have hs: "?hs = remove1 H_abandoned xs @ [H_file]"
    using assms(4) by (auto simp: xs remove1_append)
  define l1 where "l1 = life_step sv l (Run H_abandoned False False [] 0)"
  have l1: "lf_pending l1 = ?hs" "\<not> lf_managed l1" "lf_destroyed l1 \<longleftrightarrow> \<not> list_ex shared ?hs"
    using assms(2-4)
    by (simp_all add: l1_def life_step_Run run_handler_def perform_def handle_abandoned_timeout_def asked_def
        stop_asked_def stop_connection_def release_destroyed Let_def)
  have "raw_last ?hs" "?hs \<noteq> []" by (simp_all add: hs raw_last_def shared_def)
  then have "lf_fault (life_run sv l1 (aborted_run ?hs))"
    using drain_destroyed [of l1 sv] drain_stopped [of l1 sv] l1
    by (cases "list_ex shared ?hs") (auto simp: Let_def)
  then show ?thesis by (simp add: l1_def)
qed

theorem long_download_dangles_witness:
  "let sv = example_services ''abc'';
       l = life_run sv (manager_start sv False False) [example_read]
   in lf_fault (life_run sv l (Run H_abandoned False False [] 0 # aborted_run [H_read_timer, H_file]))"
  using long_download_dangles [OF refl example_download(3,2), of "''abc''"] example_download(1) [of "''abc''"]
  by (simp only: Let_def) simp

text \<open>A frame that makes the web socket parser raise leaves a connection that never
  reads again: no read is owed in any continuation, while the manager still holds it; only its
  timer or the end of the server takes it away.\<close>

theorem raised_frame_deafens:
  assumes "l = life_run sv (manager_start sv ec1 ec2) evs" and "\<not> lf_fault l"
    and "life_event sv l (Run H_read error aborted input now) = (l', True)"
  shows "lf_managed l' = lf_managed l \<and> H_read \<notin> set (lf_pending (life_run sv l' evs'))"
proof -
  have ok: "life_ok l" unfolding assms(1) by (rule life_run_ok [OF life_start_ok])
  have h: "H_read \<in> set (lf_pending l)" "\<not> lf_destroyed l"
    using assms(3) by (auto simp: Let_def split: if_splits)
  have "count (mset (lf_pending l)) H_read > 0" using h(1) by (simp add: count_greater_zero_iff)
  moreover have c: "count (mset (lf_pending l)) H_read = of_bool (cn_reading (fl_conn (lf_filer l)))"
    using ok assms(2) by (simp add: life_ok_def counts_ok_def)
  ultimately have r: "cn_reading (fl_conn (lf_filer l))" "count (mset (lf_pending l)) H_read = 1"
    by (cases "cn_reading (fl_conn (lf_filer l))", simp_all)+
  have hand: "H_handshake \<notin> set (lf_pending l)"
    using ok assms(2) r(1) by (auto simp: life_ok_def reads_ok_def le_Suc_eq count_eq_zero_iff)
  have one: "H_read \<notin> set (remove1 H_read (lf_pending l))"
    using r(2) by (simp add: count_eq_zero_iff [symmetric] flip: set_mset_mset)
  let ?l = "l\<lparr>lf_pending := remove1 H_read (lf_pending l)\<rparr>"
  let ?fl = "(lf_filer l)\<lparr>fl_conn := (fl_conn (lf_filer l))\<lparr>cn_stopped := False\<rparr>\<rparr>"
  let ?fl' = "?fl\<lparr>fl_conn := ws_raised sv input (fl_conn ?fl)\<rparr>"
  have "snd (perform sv H_read error aborted input now ?fl)"
    and run: "run_handler sv H_read error aborted input now ?l = (l', True)"
    using assms(3) h by (simp_all add: Let_def run_handler_def split: prod.splits)
  with read_raised have p: "fst (perform sv H_read error aborted input now ?fl) = ?fl'" by blast
  have f: "\<not> cn_reading (fl_conn ?fl')" "\<not> cn_stopped (fl_conn ?fl')"
    by (simp_all add: ws_raised_def run_output_reading run_output_stopped Let_def)
  have l': "l' = release (stop_asked ?fl' (?l\<lparr>lf_filer := ?fl',
      lf_pending := lf_pending ?l @ asked H_read error ?fl ?fl'\<rparr>))"
    using run_handler_split [of sv H_read error aborted input now ?l] run p by simp
  have "lf_managed l' = lf_managed l" using f(2) by (simp add: l' stop_asked_def)
  moreover have "deaf l'"
    using f one hand notin_set_remove1 [OF hand] by (auto simp: l' deaf_def asked_read asked_handshake)
  ultimately show ?thesis using deaf_life_run [of l' sv evs'] by (simp add: deaf_def)
qed

definition upgrading_services :: services where
  "upgrading_services = (example_services [])\<lparr>sv_handler := \<lambda>_. stock_reply st_switching_protocols,
     sv_reader := \<lambda>_. Some (\<lambda>_. None)\<rparr>"

lemma example_upgrade:
  defines "l \<equiv> life_run upgrading_services (manager_start upgrading_services False False) [example_read]"
  shows "H_read \<in> set (lf_pending l)" "\<not> lf_destroyed l" "\<not> lf_fault l" "lf_managed l"
    "connection_type (fl_conn (lf_filer l)) = connection_websocket" "cn_buf (fl_conn (lf_filer l)) = []"
    "start_new_packet (websocket_parser (fl_conn (lf_filer l)))"
proof -
  let ?sv = upgrading_services and ?req = "head_request example_get"
  let ?l0 = "manager_start ?sv False False"
  let ?fl = "(lf_filer ?l0)\<lparr>fl_conn := (fl_conn (lf_filer ?l0))\<lparr>cn_stopped := False\<rparr>\<rparr>"
  let ?fl2 = "?fl\<lparr>fl_conn := handle_request (sv_handler ?sv) (\<lambda>_ _. None) [] [] ?req
    ((fl_conn ?fl)\<lparr>cn_reading := False, cn_buf := []\<rparr>)\<rparr>"
  have b: "\<not> body_method (w_method example_get)" by code_simp
  have parse: "parse_request (request_head example_get @ crlf) = (Done True, expecting_newline_3, ?req, [])"
    using parse_request_end [OF example_wire_ok(1), of "[]"] b by (simp add: crlf_def)
  have l0: "lf_pending ?l0 = [H_abandoned, H_read_timer, H_read]" "lf_managed ?l0" "\<not> lf_destroyed ?l0"
      "lf_filer ?l0 = new_filer\<lparr>fl_conn := read_more new_connection\<rparr>"
    using example_start [of ?sv] by (simp_all add: upgrading_services_def example_services_def)
  have ne: "request_head example_get @ crlf \<noteq> []" by (simp add: crlf_def)
  have st: "rp_status (sv_handler ?sv r) = st_switching_protocols" for r
    by (simp add: upgrading_services_def)
  have p: "perform ?sv H_read False False (request_head example_get @ crlf) 0 ?fl = (?fl2, False)"
    using ne st by (simp add: l0(4) perform_def handle_read_filer_def parse read_more_def new_connection_def
        handle_request_file_def handle_request_def download_target_def new_filer_def Let_def)
      (simp add: upgrading_services_def example_services_def)
  have c: "cn_reading (fl_conn ?fl2)" "\<not> cn_stopped (fl_conn ?fl2)"
      "connection_type (fl_conn ?fl2) = connection_websocket" "cn_buf (fl_conn ?fl2) = []"
      "start_new_packet (websocket_parser (fl_conn ?fl2))"
    using st by (simp_all add: l0(4) handle_request_def finish_request_def MyWrite_def SocketWrite_def read_more_def
        new_connection_def ws_Start_def CWebsocket_def Let_def)
  have "H_read \<in> set (asked H_read False ?fl ?fl2)" using c(1) by (simp only: asked_read simp_thms)
  then show "H_read \<in> set (lf_pending l)" "\<not> lf_destroyed l" "\<not> lf_fault l" "lf_managed l"
    "connection_type (fl_conn (lf_filer l)) = connection_websocket" "cn_buf (fl_conn (lf_filer l)) = []"
    "start_new_packet (websocket_parser (fl_conn (lf_filer l)))"
    using l0 c(2-5) p by (simp_all add: l_def example_read_def life_step_Run run_handler_def stop_asked_def
        release_def start_clean shared_def Let_def del: asked_read)
qed

theorem raised_frame_deafens_witness:
  "let sv = upgrading_services;
       l = life_run sv (manager_start sv False False) [example_read];
       l' = life_step sv l (Run H_read False False [CHR 0x81, CHR 0x01, CHR ''x''] 0)
   in snd (life_event sv l (Run H_read False False [CHR 0x81, CHR 0x01, CHR ''x''] 0)) \<and> lf_managed l' \<and>
      H_read \<notin> set (lf_pending l')"
proof -
  let ?sv = upgrading_services and ?frame = "[CHR 0x81, CHR 0x01, CHR ''x'']"
  define l where "l = life_run ?sv (manager_start ?sv False False) [example_read]"
  let ?ev = "Run H_read False False ?frame 0"
  let ?fl = "(lf_filer l)\<lparr>fl_conn := (fl_conn (lf_filer l))\<lparr>cn_stopped := False\<rparr>\<rparr>"
  note u = example_upgrade [folded l_def]
  have b: "map (\<lambda>ch. word_of_nat (of_char ch)) ?frame = [0x81, 0x01, 0x78 :: byte]" by code_simp
  have p: "Parse [0x81, 0x01, 0x78] = Some (parsed_frame [0x81, 0x01, 0x78])"
      "fin (parsed_frame [0x81, 0x01, 0x78])" "f_opcode (parsed_frame [0x81, 0x01, 0x78]) = opcode_text"
    by code_simp+
  have op: "opcode_text \<noteq> opcode_continuation" by code_simp
  have rd: "sv_reader ?sv = (\<lambda>_. Some (\<lambda>_. None))" by (simp add: upgrading_services_def)
  have "verdict (ws_parse (sv_reader ?sv) (sv_query ?sv) [0x81, 0x01, 0x78] ka w) = Raised"
    if "start_new_packet w" for ka w
    using that op
    by (simp add: ws_parse_final [OF p(1,2)] dispatch_packet_def add_frame_def p(3) OnReceiveText_def Handle_def rd)
  then have "handle_read (sv_handler ?sv) (\<lambda>_ _. None) (sv_address ?sv) (sv_limits ?sv) (sv_reader ?sv)
      (sv_query ?sv) (sv_jwrite ?sv) False False ?frame (fl_conn ?fl) = None"
    using u(5-7) b by (simp add: handle_read_def handle_read_ws_def Let_def)
  then have "snd (perform ?sv H_read False False ?frame 0 ?fl)"
    using u(5) by (simp add: perform_def handle_read_filer_def Let_def)
  then have r: "snd (life_event ?sv l ?ev)"
    using u(1,2) by (simp add: run_handler_def Let_def split_beta)
  then have "life_event ?sv l ?ev = (life_step ?sv l ?ev, True)"
    by (simp add: life_step_def prod_eq_iff)
  note d = raised_frame_deafens [OF l_def u(3) this, of "[]", unfolded life_run_simps]
  show ?thesis unfolding Let_def l_def [symmetric] using d r u(4) by blast
qed

end
