(* ===== verification/Listener.thy ===== *)
theory Listener
  imports ConnectionRuns
begin

text \<open>
  The web server as a listener: its settings (\<^verbatim>\<open>web/webserver/server_settings.hpp\<close>), the addresses that
  \<^verbatim>\<open>CWebServer::StartServer\<close> tries, and \<^verbatim>\<open>server_base\<close> of \<^verbatim>\<open>web/webserver/server.cpp\<close> with
  its connection manager: accepting, running, stopping.  Whether the constructor of the server succeeds
  on some settings (binding a port, reading certificates) is a parameter.
\<close>

section \<open>Settings\<close>

record server_settings =
  www_root :: string
  listening_address :: string
  listening_port :: string
  php_cgi_path :: string

definition is_enabled :: "server_settings \<Rightarrow> bool" where
  "is_enabled st \<longleftrightarrow> listening_port st \<noteq> ''0'' \<and> listening_port st \<noteq> []"

definition is_php_enabled :: "server_settings \<Rightarrow> bool" where
  "is_php_enabled st \<longleftrightarrow> php_cgi_path st \<noteq> []"

definition get_valid_value :: "string \<Rightarrow> string \<Rightarrow> string" where
  "get_valid_value old new = (if new \<noteq> [] \<and> new \<noteq> old then new else old)"

definition settings_set :: "server_settings \<Rightarrow> server_settings \<Rightarrow> server_settings" where
  "settings_set new st =
     (let st1 = st\<lparr>www_root := get_valid_value (listening_address st) (www_root new)\<rparr>;
          st2 = st1\<lparr>listening_address := get_valid_value (listening_address st1) (listening_address new)\<rparr>;
          st3 = st2\<lparr>listening_port := get_valid_value (listening_port st2) (listening_port new)\<rparr>;
          st4 = st3\<lparr>php_cgi_path := get_valid_value (php_cgi_path st3) (php_cgi_path new)\<rparr>
      in if listening_port st4 = ''0'' then st4\<lparr>listening_port := []\<rparr> else st4)"

text \<open>The names of the protocol versions; another name is an exception.\<close>

definition ssl_methods :: "string list" where
  "ssl_methods = [''tlsv1'', ''tlsv1_server'', ''sslv23'', ''sslv23_server'', ''tlsv11'',
     ''tlsv11_server'', ''tlsv12'', ''tlsv12_server'']"

definition get_ssl_method :: "string \<Rightarrow> string option" where
  "get_ssl_method name = (if name \<in> set ssl_methods then Some name else None)"

section \<open>Starting\<close>

text \<open>The retries of \<^verbatim>\<open>StartServer\<close>; \<open>creates\<close> says whether \<^verbatim>\<open>new cWebem\<close> returns.\<close>

function start_tries :: "(server_settings \<Rightarrow> bool) \<Rightarrow> nat \<Rightarrow> server_settings \<Rightarrow> bool \<times> server_settings" where
  "start_tries creates tries st =
     (if creates st then (True, st)
      else if tries = 0 then start_tries creates 1 (st\<lparr>listening_address := ''::''\<rparr>)
      else if tries = 1 then start_tries creates 2 (st\<lparr>listening_address := ''0.0.0.0''\<rparr>)
      else (False, st))"
  by pat_completeness auto
termination
  by (relation "measure (\<lambda>(creates, tries, st). 2 - tries)") auto

declare start_tries.simps [simp del]

text \<open>The result, whether there is a server, and the settings as they were left.\<close>

definition start_server :: "(server_settings \<Rightarrow> bool) \<Rightarrow> server_settings \<Rightarrow> bool \<times> bool \<times> server_settings" where
  "start_server creates st =
     (if \<not> is_enabled st then (True, False, st)
      else let (ok, st') = start_tries creates 0 st in (ok, ok, st'))"

text \<open>
  \<^verbatim>\<open>CWebServerHelper::StartServers\<close>: the plain server, then the secure one on the address the plain one was
  left with.  The preferences are its arguments.
\<close>

definition start_servers ::
  "(server_settings \<Rightarrow> bool) \<Rightarrow> (server_settings \<Rightarrow> bool) \<Rightarrow> string \<Rightarrow> string \<Rightarrow> string \<Rightarrow>
     bool \<times> (bool \<times> server_settings) \<times> (bool \<times> server_settings) option" where
  "start_servers creates creates_ssl address port secure_port =
     (let web = \<lparr>www_root = [], listening_address = address, listening_port = port, php_cgi_path = []\<rparr>;
          (r1, on1, web') = start_server creates web;
          secure = \<lparr>www_root = [], listening_address = listening_address web', listening_port = secure_port, php_cgi_path = []\<rparr>
      in if is_enabled secure then
           (let (r2, on2, secure') = start_server creates_ssl secure
            in (r1 \<or> r2, (on1, web'), Some (on2, secure')))
         else (r1, (on1, web'), None))"

section \<open>The listener\<close>

datatype accept = No_accept | Accepting | Failing

record listener =
  ls_open :: bool
  ls_accept :: accept
  ls_lives :: "life list"
  ls_ips :: "string list"
  is_running :: bool
  is_stop_complete :: bool
  stop_posted :: bool

text \<open>After \<^verbatim>\<open>server_base::init\<close> the acceptor is open and waits for the first connection.\<close>

definition new_listener :: listener where
  "new_listener = \<lparr>ls_open = True, ls_accept = Accepting, ls_lives = [], ls_ips = [], is_running = False,
     is_stop_complete = False, stop_posted = False\<rparr>"

text \<open>\<^verbatim>\<open>server::handle_accept\<close>; an accept that is begun on a closed acceptor fails.\<close>

definition handle_accept :: "services \<Rightarrow> bool \<Rightarrow> string \<Rightarrow> bool \<Rightarrow> bool \<Rightarrow> listener \<Rightarrow> listener" where
  "handle_accept sv error address ec1 ec2 ls =
     (if \<not> error then
        ls\<lparr>ls_lives := ls_lives ls @ [manager_start sv ec1 ec2],
           ls_ips := (if ec1 then ls_ips ls else List.insert (client_address address) (ls_ips ls)),
           ls_accept := (if ls_open ls then Accepting else Failing)\<rparr>
      else ls\<lparr>ls_accept := No_accept\<rparr>)"

definition stop_all :: "services \<Rightarrow> listener \<Rightarrow> listener" where
  "stop_all sv ls = ls\<lparr>ls_lives := map (\<lambda>l. life_step sv l StopAll) (ls_lives ls)\<rparr>"

definition handle_stop :: "services \<Rightarrow> listener \<Rightarrow> listener" where
  "handle_stop sv ls = (stop_all sv (ls\<lparr>ls_open := False\<rparr>))\<lparr>is_stop_complete := True\<rparr>"

text \<open>What \<^verbatim>\<open>server_base::stop\<close> does before it waits.\<close>

definition server_stop :: "services \<Rightarrow> listener \<Rightarrow> listener" where
  "server_stop sv ls =
     (if is_running ls then ls\<lparr>is_running := False, stop_posted := True\<rparr> else handle_stop sv ls)"

text \<open>
  The loop of \<^verbatim>\<open>server_base::stop\<close>: it ends when the server is stopped or after fifteen seconds.  The argument
  is what it sees: seconds since the start and whether the server is stopped, at each half second.
\<close>

fun stop_wait :: "(int \<times> bool) list \<Rightarrow> nat option" where
  "stop_wait [] = None"
| "stop_wait ((seconds, stopped) # later) =
     (if stopped \<or> 15 < seconds then Some 0 else map_option Suc (stop_wait later))"

text \<open>The events: a connection came or accepting failed, a handler of a connection runs,
  \<^verbatim>\<open>run\<close> is entered, \<^verbatim>\<open>stop\<close> is called, and the posted \<^verbatim>\<open>handle_stop\<close> runs.  An exception of a handler
  leaves \<^verbatim>\<open>run\<close>.\<close>

datatype server_event =
  Accepted bool string bool bool | On nat handler bool bool string int | Enter | CallStop | Posted

fun listener_step :: "services \<Rightarrow> listener \<Rightarrow> server_event \<Rightarrow> listener" where
  "listener_step sv ls (Accepted error address ec1 ec2) =
     (if ls_accept ls = No_accept then ls
      else handle_accept sv (error \<or> ls_accept ls = Failing) address ec1 ec2 ls)"
| "listener_step sv ls (On i h error aborted input now) =
     (if i < length (ls_lives ls) then
        (let (l, raised) = life_event sv (ls_lives ls ! i) (Run h error aborted input now)
         in ls\<lparr>ls_lives := (ls_lives ls)[i := l], is_running := is_running ls \<and> \<not> raised\<rparr>)
      else ls)"
| "listener_step sv ls Enter = ls\<lparr>is_running := True\<rparr>"
| "listener_step sv ls CallStop = server_stop sv ls"
| "listener_step sv ls Posted =
     (if stop_posted ls then handle_stop sv (ls\<lparr>stop_posted := False\<rparr>) else ls)"

definition listener_run :: "services \<Rightarrow> listener \<Rightarrow> server_event list \<Rightarrow> listener" where
  "listener_run sv ls evs = foldl (listener_step sv) ls evs"

lemma listener_run_simps [simp]:
  "listener_run sv ls [] = ls" "listener_run sv ls (ev # evs) = listener_run sv (listener_step sv ls ev) evs"
  by (simp_all add: listener_run_def)

section \<open>Connections of the listener\<close>

definition is_life :: "services \<Rightarrow> life \<Rightarrow> bool" where
  "is_life sv l \<longleftrightarrow> (\<exists>ec1 ec2 evs. l = life_run sv (manager_start sv ec1 ec2) evs)"

lemma is_life_start: "is_life sv (manager_start sv ec1 ec2)"
  unfolding is_life_def by (metis life_run_simps(1))

lemma is_life_step: "is_life sv l \<Longrightarrow> is_life sv (life_step sv l ev)"
  unfolding is_life_def by (metis life_run_simps)

definition lives_ok :: "services \<Rightarrow> listener \<Rightarrow> bool" where
  "lives_ok sv ls \<longleftrightarrow> (\<forall>l \<in> set (ls_lives ls). is_life sv l)"

lemma handle_stop_lives [simp]:
  "ls_lives (handle_stop sv ls) = map (\<lambda>l. life_step sv l StopAll) (ls_lives ls)"
  by (simp add: handle_stop_def stop_all_def)

lemma lives_ok_stop: "lives_ok sv ls \<Longrightarrow> lives_ok sv (handle_stop sv ls)"
  by (auto simp: lives_ok_def intro: is_life_step)

lemma listener_step_On:
  assumes "i < length (ls_lives ls)"
  shows "ls_lives (listener_step sv ls (On i h error aborted input now)) =
    (ls_lives ls)[i := life_step sv (ls_lives ls ! i) (Run h error aborted input now)]"
  using assms by (simp add: life_step_def split_beta del: life_event.simps)

lemma lives_ok_step: "lives_ok sv ls \<Longrightarrow> lives_ok sv (listener_step sv ls ev)"
proof (cases ev)
  case (On i h error aborted input now)
  assume ok: "lives_ok sv ls"
  show ?thesis
  proof (cases "i < length (ls_lives ls)")
    case True
    then have "is_life sv (ls_lives ls ! i)" using ok by (simp add: lives_ok_def)
    with ok show ?thesis
      unfolding lives_ok_def On listener_step_On [OF True]
      by (auto dest!: subsetD [OF set_update_subset_insert] intro: is_life_step)
  qed (use ok On in simp)
qed (auto simp: lives_ok_def handle_accept_def server_stop_def intro: is_life_start is_life_step)

lemma lives_ok_run: "lives_ok sv ls \<Longrightarrow> lives_ok sv (listener_run sv ls evs)"
  by (induction evs arbitrary: ls) (simp_all add: lives_ok_step)

section \<open>Accepting and stopping\<close>

lemma no_accept_step:
  assumes "ls_accept ls = No_accept"
  shows "ls_accept (listener_step sv ls ev) = No_accept \<and>
    length (ls_lives (listener_step sv ls ev)) = length (ls_lives ls)"
  using assms
  by (cases ev) (simp_all add: handle_stop_def stop_all_def server_stop_def split: prod.splits)

lemma no_accept_run:
  "ls_accept ls = No_accept \<Longrightarrow> ls_accept (listener_run sv ls evs) = No_accept \<and>
     length (ls_lives (listener_run sv ls evs)) = length (ls_lives ls)"
proof (induction evs arbitrary: ls)
  case (Cons ev evs)
  then show ?case using no_accept_step [OF Cons.prems, of sv ev] by simp
qed simp

lemma run_handler_unmanaged:
  "\<not> lf_managed l \<Longrightarrow> \<not> lf_managed (fst (run_handler sv h error aborted input now l))"
  using run_handler_split [of sv h error aborted input now l] by (auto simp: stop_asked_def)

lemma unmanaged_step: "\<not> lf_managed l \<Longrightarrow> \<not> lf_managed (life_step sv l ev)"
proof (induction ev)
  case (Run h error aborted input now)
  consider "h \<notin> set (lf_pending l)" | "h \<in> set (lf_pending l)" "lf_destroyed l"
    | "h \<in> set (lf_pending l)" "\<not> lf_destroyed l" by blast
  then show ?case
    using Run by cases (simp_all add: life_step_Run run_handler_unmanaged)
qed (simp add: life_step_StopAll)

text \<open>A listener that was stopped: the first \<open>n\<close> connections are out of the manager, and one more can
  come at most.\<close>

definition stopped_ok :: "nat \<Rightarrow> listener \<Rightarrow> bool" where
  "stopped_ok n ls \<longleftrightarrow> is_stop_complete ls \<and> \<not> ls_open ls \<and>
     n \<le> length (ls_lives ls) \<and> length (ls_lives ls) \<le> Suc n \<and>
     (ls_accept ls = Accepting \<longrightarrow> length (ls_lives ls) = n) \<and>
     (\<forall>i < n. \<not> lf_managed (ls_lives ls ! i))"

lemma stopped_ok_start: "stopped_ok (length (ls_lives ls)) (handle_stop sv ls)"
  by (auto simp: stopped_ok_def handle_stop_def stop_all_def life_step_StopAll)

lemma stopped_ok_again: "stopped_ok n ls \<Longrightarrow> stopped_ok n (handle_stop sv ls)"
  by (auto simp: stopped_ok_def handle_stop_def stop_all_def life_step_StopAll)

lemma stopped_ok_flags [simp]:
  "stopped_ok n (ls\<lparr>is_running := b\<rparr>) = stopped_ok n ls" "stopped_ok n (ls\<lparr>stop_posted := b\<rparr>) = stopped_ok n ls"
  by (simp_all add: stopped_ok_def)

lemma stopped_ok_step:
  assumes ok: "stopped_ok n ls"
  shows "stopped_ok n (listener_step sv ls ev)"
proof (cases ev)
  case (Accepted error address ec1 ec2)
  then show ?thesis
    using ok by (cases "ls_accept ls") (auto simp: stopped_ok_def handle_accept_def nth_append)
next
  case (On i h error aborted input now)
  show ?thesis
  proof (cases "i < length (ls_lives ls)")
    case True
    let ?l = "life_step sv (ls_lives ls ! i) (Run h error aborted input now)"
    have "stopped_ok n (ls\<lparr>ls_lives := (ls_lives ls)[i := ?l]\<rparr>)"
      using ok True by (auto simp: stopped_ok_def nth_list_update unmanaged_step)
    then show ?thesis
      using True by (simp add: On life_step_def split_beta del: life_event.simps)
  qed (use ok On in simp)
qed (use ok in \<open>auto simp: server_stop_def stopped_ok_again\<close>)

lemma stopped_ok_run: "stopped_ok n ls \<Longrightarrow> stopped_ok n (listener_run sv ls evs)"
  by (induction evs arbitrary: ls) (simp_all add: stopped_ok_step)

section \<open>Properties\<close>

text \<open>A server that is enabled starts on the first address that works of the configured one,
  \<^verbatim>\<open>::\<close> and \<^verbatim>\<open>0.0.0.0\<close>, and fails when none does; one that is not enabled starts nothing and reports success.
  An address that cannot be bound is thus widened to all interfaces.\<close>

theorem starts_on_first_address:
  shows "start_server creates st =
    (if \<not> is_enabled st then (True, False, st)
     else case find (\<lambda>a. creates (st\<lparr>listening_address := a\<rparr>)) [listening_address st, ''::'', ''0.0.0.0''] of
       Some a \<Rightarrow> (True, True, st\<lparr>listening_address := a\<rparr>)
     | None \<Rightarrow> (False, False, st\<lparr>listening_address := ''0.0.0.0''\<rparr>))"
  by (simp add: start_server_def start_tries.simps)

text \<open>An accept that fails ends accepting for good: whatever happens after it, no
  connection is ever added and no accept is begun again, although the server goes on running.\<close>

theorem accept_error_final:
  shows "let ls1 = listener_step sv ls (Accepted True address ec1 ec2); ls' = listener_run sv ls1 evs
    in is_running ls1 = is_running ls \<and> ls_accept ls' = No_accept \<and>
       length (ls_lives ls') = length (ls_lives ls)"
proof -
  let ?ls = "listener_step sv ls (Accepted True address ec1 ec2)"
  have "ls_accept ?ls = No_accept" "ls_lives ?ls = ls_lives ls" "is_running ?ls = is_running ls"
    by (simp_all add: handle_accept_def)
  with no_accept_run [of ?ls sv evs] show ?thesis by (simp only: Let_def simp_thms)
qed

text \<open>Stopping is final: after \<^verbatim>\<open>handle_stop\<close> none of the connections comes back under
  the manager, and one more connection at most, whose accept had completed before, is ever added.\<close>

theorem server_stop_final:
  shows "let ls' = listener_run sv (handle_stop sv ls) evs; n = length (ls_lives ls)
    in is_stop_complete ls' \<and> \<not> ls_open ls' \<and> length (ls_lives ls') \<le> Suc n \<and>
       (\<forall>i \<in> {..<n}. \<not> lf_managed (ls_lives ls' ! i))"
  using stopped_ok_run [OF stopped_ok_start [of ls sv], of sv evs] by (simp add: stopped_ok_def Let_def)

theorem server_stop_final_witness:
  "let ls = listener_run (example_services []) new_listener [Enter, Accepted False ''::1'' False False]
   in \<not> lf_managed (ls_lives (listener_run (example_services []) (handle_stop (example_services []) ls) []) ! 0)"
  using server_stop_final [of "example_services []" "listener_run (example_services []) new_listener [Enter, Accepted False ''::1'' False False]" "[]"]
  by (simp add: new_listener_def handle_accept_def Let_def)



text \<open>Settings that leave the root of the files blank get the listening address in its place.\<close>

theorem settings_set_root:
  assumes "www_root new = []"
  shows "www_root (settings_set new st) = listening_address st"
  using assms by (simp add: settings_set_def get_valid_value_def Let_def)

theorem settings_set_root_witness:
  "let st = \<lparr>www_root = ''web/www'', listening_address = ''::'', listening_port = ''8080'', php_cgi_path = []\<rparr>
   in www_root (settings_set (st\<lparr>www_root := []\<rparr>) st) = ''::''"
  using settings_set_root [of "\<lparr>www_root = [], listening_address = ''::'', listening_port = ''8080'', php_cgi_path = []\<rparr>"]
  by (simp add: Let_def)

end
