(* ===== verification/Spec2Isabelle.thy ===== *)
theory Spec2Isabelle
  imports PushSync Connection ApiClient Base64 WebpackRuntime WebServer
    PluginXml PluginIcmp PluginMqtt PluginWs Helpers ConcurrentQueue
    HomePage PageFilter PageForms BrowserAuth PluginRegistry ConnectionData Listener
begin

text \<open>
  A verification library for Domoticz (the dnpwwo fork), a home automation server in C++ with a
  browser application that is shipped as JavaScript bundles.

  \<^bold>\<open>The program.\<close>  The server keeps its state in an SQLite database.  The browser reads and
  writes tables through a REST interface (\<^verbatim>\<open>web/REST.cpp\<close>) and is kept up to date through a web
  socket: SQLite's update hook queues every row change (\<^verbatim>\<open>main/UpdatePublisher.cpp\<close>), a worker
  thread publishes the queue to all web sockets (\<^verbatim>\<open>web/Websockets.cpp\<close>), each sends the columns its
  user may see to the browser, and the push client of the browser application
  (\<^verbatim>\<open>SharedWebSocketService\<close> in \<^verbatim>\<open>web/www/main-es2015...js\<close>) merges the row into the list a page
  shows.  Requests and frames come in through \<^verbatim>\<open>web/webserver/connection.cpp\<close>, which parses HTTP
  (\<^verbatim>\<open>request_parser.cpp\<close>) until a connection is upgraded, and frames from then on.  A parsed request
  goes to \<^verbatim>\<open>cWebemRequestHandler::handle_request\<close> (\<^verbatim>\<open>cWebem.cpp\<close>), which upgrades it, checks who sent
  it, and answers with a registered page, such as the REST interface, or a file.  The browser
  application is started by the script loader \<^verbatim>\<open>web/www/runtime-es2015...js\<close>.  Hardware is driven
  by Python plugins: what a device sends is cut into messages by one of the protocols of
  \<^verbatim>\<open>hardware/plugins/PluginProtocols.cpp\<close>, which hands them to the plugin as Python objects, and
  turns the objects a plugin sends into bytes.  Each plugin has a worker thread that handles a queue
  of messages (\<^verbatim>\<open>hardware/plugins/Plugins.cpp\<close>); \<^verbatim>\<open>PluginManager.cpp\<close> keeps the registry of
  plugins and posts messages when the publisher reports a change of the database.

  \<^bold>\<open>Theories.\<close>
  \<^item> \<open>Prelude\<close>: bytes, strings and \<^verbatim>\<open>std::string::find\<close>, decimal numbers, C's \<^verbatim>\<open>atoi\<close> at 32 bits.
  \<^item> \<open>RowStore\<close>: the locale \<open>row_store\<close>, a store of rows with integer keys that computes the
    finite map its changes specify.  \<open>SharedWebSocket\<close> interprets it on the lists of pages.
  \<^item> \<open>Fifo\<close>: the locale \<open>fifo_queue\<close>; interpreted on the publisher's queue (\<open>UpdatePublisher\<close>) and
    on the buffers that wait behind a write (\<open>Connection\<close>).
  \<^item> \<open>UpdatePublisher\<close>: the hook \<^verbatim>\<open>callback\<close>, the entry it builds column by column, one round of
    \<^verbatim>\<open>Do_Work\<close>.
  \<^item> \<open>DataAccess\<close>: \<^verbatim>\<open>CDataAccess\<close>, the rights of a role on a table; the exact result of the loop
    that strips columns, which skips one.
  \<^item> \<open>WebsocketFrame\<close>: \<^verbatim>\<open>CWebsocketFrame\<close> on byte lists; creating and parsing are inverse, prefixes
    are never accepted.
  \<^item> \<open>Websocket\<close>: \<^verbatim>\<open>CWebsocket\<close>: fragments, control frames, subscriptions, \<^verbatim>\<open>DatabaseUpdate\<close>; the
    inductive predicate \<open>ws_reach\<close> of the states a connection's web socket goes through, and its
    invariant.
  \<^item> \<open>SharedWebSocket\<close>: the browser's merge loop and the sixteen table classes.
  \<^item> \<open>PushSync\<close>: the whole push path as one system of database changes and publisher rounds; the
    page is a view of the table delayed by the queue.
  \<^item> \<open>Request\<close>, \<open>RequestParser\<close>, \<open>Reply\<close>: requests, the parser machine with its 22 states, replies.
  \<^item> \<open>Connection\<close>: reading, dispatch, the output queue, timeouts.
  \<^item> \<open>ConnectionFile\<close>: downloads, the headers and then the file piece by piece; what is sent and when
    the connection is stopped.
  \<^item> \<open>ConnectionLife\<close>, \<open>ConnectionRuns\<close>: what holds a connection of the web server (the manager, the
    handlers that the socket and the timers owe it), its start and its stop; the invariant \<open>life_ok\<close> of
    all runs, when a connection is destroyed, when a handler runs after that, and when none reads again.
  \<^item> \<open>Listener\<close>: settings, the addresses a server tries, \<^verbatim>\<open>server_base\<close> with its connection manager:
    accepting, running, stopping; all connections of a server are runs of \<open>ConnectionLife\<close>.
  \<^item> \<open>Rest\<close>: routing of URIs, checks of fields, the statements and replies of every verb.
  \<^item> \<open>PageRows\<close>, \<open>ListPage\<close>: the fifteen list pages of the browser: their rows as references into the
    objects that were received (a pushed row is merged by reference, which \<open>PageRows\<close> relates to the
    merge on values), the life of their web sockets, snack bars, replies, \<open>page_step\<close>.
  \<^item> \<open>PageRuns\<close>: the invariant \<open>page_ok\<close> of all runs of a page; one live subscription, pages that were
    left, Retry, and that a subscribed page follows every legal sequence of pushed changes.
  \<^item> \<open>HomePage\<close>: the home page, on the sockets and rows of \<open>ListPage\<close>: layout, tabs, starting again;
    the number of columns of a tab's grid.
  \<^item> \<open>PageFilter\<close>: filter dialog, predicate and paginator; filtering is exact, or raises.
  \<^item> \<open>PageForms\<close>: the eleven dialogs with their validators, and what a saved form sends to the REST
    interface: parents that were picked, the row as it was selected.
  \<^item> \<open>BrowserAuth\<close>: the authentication service and the guard of routes, run against \<open>Rest\<close>.
  \<^item> \<open>ApiClient\<close>: the URLs the browser's data services build, against the server's routing.
  \<^item> \<open>Base64\<close>, \<open>Sha1\<close>: encoder and decoder; SHA-1 with its reused buffer, equal to the standard.
  \<^item> \<open>LocalNetwork\<close>: \<^verbatim>\<open>AddLocalNetworks\<close>, \<^verbatim>\<open>IsIPInRange\<close>: the exact meaning of wildcard patterns.
  \<^item> \<open>WebPath\<close>, \<open>StaticFiles\<close>: decoding of URIs, roots, queries; files as replies
    (\<^verbatim>\<open>request_handler.cpp\<close>), which come from inside the document root.
  \<^item> \<open>WebSession\<close>, \<open>WebAuth\<close>: sessions, users and the session store of \<^verbatim>\<open>CWebServer\<close>; passwords,
    cookies, tokens and \<^verbatim>\<open>CheckAuthentication\<close>.
  \<^item> \<open>PageDispatch\<close>, \<open>WebemHandler\<close>: pages, actions, form and multipart data; the whole way of a
    request through \<^verbatim>\<open>handle_request\<close>, with upgrade, logout, compression and renewal of sessions.
  \<^item> \<open>SessionRights\<close>: the invariant of all sessions in memory; the locale \<open>page_contract\<close>, what the
    handler relies on in a page.
  \<^item> \<open>WebServer\<close>: \<^verbatim>\<open>CWebServer\<close>: the REST interface as the one page of the server, an interpretation
    of \<open>page_contract\<close>; the states a server can reach, what is open to everyone, logging out.
  \<^item> \<open>WebpackRuntime\<close>: the script loader.
  \<^item> \<open>Framing\<close>: the locale \<open>framing\<close>, a protocol on a stream that is cut anywhere: whoever keeps the
    start of a message delivers the same messages however the stream was cut.  Interpreted on the
    protocols for lines and for JSON in \<open>PluginText\<close>.
  \<^item> \<open>PluginValue\<close>, \<open>PluginText\<close>, \<open>PluginXml\<close>: Python objects and JSON, the choice of a protocol,
    raw data, lines, JSON objects, XML documents.
  \<^item> \<open>PluginHttp\<close>: requests and responses, with chunks, in both directions; what the response a
    plugin sends means to the plugin that reads it, and headers that keep the parser from returning.
  \<^item> \<open>PluginIcmp\<close>, \<open>PluginMqtt\<close>, \<open>PluginWs\<close>: echo requests and their checksums, MQTT packets, web
    socket frames; the round trips of what is sent, and packets that block the connection.
  \<^item> \<open>PluginQueue\<close>: messages with due times and the search of the work loop; interpreted as a
    \<open>fifo_queue\<close> of the messages without delay.
  \<^item> \<open>PluginWorker\<close>: \<^verbatim>\<open>CPlugin\<close>: start, stop, restart, initialisation and \<^verbatim>\<open>Do_Work\<close>, one pass of its
    inner loop at a time; the inductive relation \<open>plugin_run\<close> of its calls and its worker's steps.
  \<^item> \<open>PluginLife\<close>: the invariant \<open>life\<close> of these runs: when a worker ends and in what order it handles
    the first and the last messages; that a stopped plugin ends, a failed one never does.
  \<^item> \<open>PluginManager\<close>, \<open>PluginRegistry\<close>: the registry \<^verbatim>\<open>m_pPlugins\<close>, \<^verbatim>\<open>DatabaseUpdate\<close>, the start and
    stop of all plugins by \<^verbatim>\<open>main/mainworker.cpp\<close>; the invariant of the registry in every run of the
    system, and how an update or the shut-down ends the process.
  \<^item> \<open>PluginTransport\<close>, \<open>PluginConnection\<close>: a connection of a plugin: its transports with their
    pending operations and timers (a deleted transport stays in the heap, marked as freed), the
    directives and events that the worker handles, the methods of the Python object; runs of the io
    thread, the worker and the plugin, and five ways in which they end the process.
  \<^item> \<open>ConnectionSafety\<close>: a discipline of the plugin and the invariant \<open>link_ok\<close> of all runs that keep
    it; under it nothing is used after it was deleted.
  \<^item> \<open>ConnectionData\<close>: what the socket receives reaches \<^verbatim>\<open>onMessage\<close> through queue and protocol, in order.
  \<^item> \<open>Helpers\<close>: splitting, replacing and checking of strings, identifiers, differences of times.
  \<^item> \<open>ConcurrentQueue\<close>: \<^verbatim>\<open>concurrent_queue.h\<close>, two interpretations of \<open>fifo_queue\<close>.

  \<^bold>\<open>Correspondence.\<close>  A definition has the name of the function or method it translates; a
  record has the members of the class, with a prefix where a name is taken (\<open>rq_\<close> for
  \<^verbatim>\<open>request\<close>, \<open>rp_\<close> for \<^verbatim>\<open>reply\<close>, \<open>ws_\<close> and \<open>rest_\<close> for overloaded names).  Methods that change
  their object return it updated; exceptions, undefined behaviour and \<^verbatim>\<open>indeterminate\<close> are values
  of the result; so are the ends of the process in the plugin system (\<open>crash\<close>) and the wait for
  another thread (\<open>Waits\<close>).  Handlers of \<^verbatim>\<open>Boost.Asio\<close>
  are events that name the handler and the outcome it is called with.  A function with a large \<^verbatim>\<open>switch\<close> is split into one definition per group of cases.

  \<^bold>\<open>Parameters.\<close>  SQLite (\<open>safe_query\<close>, \<open>query\<close>, \<open>exec\<close>, \<open>select\<close>), the JSON reader and
  writer, \<^verbatim>\<open>rand()\<close> (the masking key), the page handler of a connection and the files it sends, and whether a server can be created on
  given settings are arguments of the definitions; so are MD5, the clock, random identifiers, the file system, zlib,
  the C library's conversions of times and the values of variables that are not initialised.  For
  the plugin protocols they are Python's decoding of UTF-8, \<^verbatim>\<open>std::to_string\<close> of floating point
  numbers (the text in \<open>PFloat\<close>), the JSON reader, the date of a response and the plugin's user name
  and password.  What the Python code of a plugin does with a message is a record \<open>python\<close>: whether
  it loads and starts, the messages it posts, the connections it leaves; every step of a worker has
  one of its own, and a time.  For the browser they are \<^verbatim>\<open>JSON.parse\<close> and \<^verbatim>\<open>JSON.stringify\<close> of the
  stored user; what the user and the server do is the sequence of events of a page.

  \<^bold>\<open>Bounds.\<close>  Frame lengths are 64-bit words, versions and \<^verbatim>\<open>atoi\<close> wrap at 32 bits.  The loader's
  \<open>require\<close> runs with one unit of fuel more than there are module definitions; each nested call
  caches a module first, so this is enough, which \<open>modules_run_once\<close> states as totality.  Loops
  that do not end on some inputs are partial functions with the value \<^const>\<open>None\<close> there
  (\<open>header_loop\<close> of \<open>PluginHttp\<close>, \<open>split_loop\<close> and \<open>replace_loop\<close> of \<open>Helpers\<close>); the inputs on
  which they return, and those on which they do not, are theorems.  All other loops are structural
  or have a termination proof.

  \<^bold>\<open>Not modelled.\<close>  Third-party code in the bundles (Angular, rxjs, zone.js) and under \<^verbatim>\<open>json\<close>,
  \<^verbatim>\<open>sqlite\<close>, \<^verbatim>\<open>tinyxpath\<close>; sockets, TLS, files and threads other than as interleavings of steps;
  the interpreter that runs the plugins and the classes and functions it offers them
  (\<^verbatim>\<open>PythonDevices.cpp\<close> and its like); in \<^verbatim>\<open>PluginTransports.cpp\<close> the transports that listen and the
  reference counts of Python objects; of
  \<^verbatim>\<open>main/Helper.cpp\<close> what reads the operating system (threads, serial ports, directories,
  temperatures).  Of the browser's pages, the rendering of templates, the sort of tables, and the
  errors of a reply to an edit, the tiles, the time plans and the scenes; of \<^verbatim>\<open>server.cpp\<close> the
  TLS context, resolving and the heartbeat.
\<close>

end
